(* ===== verification/Prelude.thy ===== *)
theory Prelude
  imports
    Main
    "HOL-Library.Word"
    "HOL-Library.Char_ord"
    "HOL-Library.List_Lexorder"
    "HOL-Library.Multiset"
    "HOL-Library.Sublist"
    "HOL-Library.Product_Lexorder"
begin

text \<open>
  What every component of the development shares: the names of the machine types, Go
  errors as values, the audit sink that every authority records its decisions in, the
  duplicate-rejecting loop that the validators use, and sorting as the canonicalisers use it.

  A Go \<open>string\<close> and a Go \<open>[]byte\<close> are both sequences of bytes and are both modelled by
  \<^typ>\<open>string\<close>: an Isabelle \<^typ>\<open>char\<close> is an 8-bit value, and the order of
  \<^typ>\<open>string\<close> (from \<open>Char_ord\<close> and \<open>List_Lexorder\<close>) is Go's bytewise order.
\<close>

section \<open>Names of types and the collections of rules\<close>

type_synonym u8 = "8 word"
type_synonym u16 = "16 word"
type_synonym u32 = "32 word"
type_synonym u64 = "64 word"
type_synonym bytes = string

named_theorems audit_simps \<open>evaluation of the audit sink\<close>
named_theorems pattern_defs \<open>definitions of the validated identifier patterns\<close>
named_theorems go_defs \<open>definitions unfolded to evaluate a handler\<close>

section \<open>Errors as values\<close>

text \<open>
  Every package has its own sentinels \<open>ErrDenied\<close> and \<open>ErrUnavailable\<close>; an error wraps one
  of them together with a message, or is a \<open>*DecisionError\<close> that carries a reason code.
\<close>

datatype package =
    PkgLifecycle | PkgBroker | PkgLedger | PkgHost | PkgIsolation | PkgResource
  | PkgIntegrity | PkgRecovery | PkgEdition | PkgCertification

datatype go_error =
    ErrDenied package string
  | ErrUnavailable package string
  | DecisionError package string
  | ErrOther string

type_synonym 'a go_result = "go_error + 'a"

text \<open>\<open>errors.Is(err, pkg.ErrDenied)\<close>: a \<open>DecisionError\<close> answers to it as well.\<close>

definition is_ErrDenied :: "package \<Rightarrow> go_error \<Rightarrow> bool" where
  "is_ErrDenied p e = (case e of ErrDenied q _ \<Rightarrow> q = p | DecisionError q _ \<Rightarrow> q = p | _ \<Rightarrow> False)"

definition is_ErrUnavailable :: "package \<Rightarrow> go_error \<Rightarrow> bool" where
  "is_ErrUnavailable p e = (case e of ErrUnavailable q _ \<Rightarrow> q = p | _ \<Rightarrow> False)"

section \<open>The audit sink\<close>

text \<open>
  \<open>AuditSink.RecordEvent\<close> is an interface that the deployment supplies. The model keeps the
  list of all calls made so far, oldest first, each with whether the sink accepted it; the
  sink itself is a parameter that decides from that history whether the next call succeeds.
\<close>

datatype meta = MStr string | MUInt u64

record audit_event =
  ev_actor :: string
  ev_action :: string
  ev_outcome :: string
  ev_resource :: string
  ev_metadata :: "(string \<times> meta) list"

type_synonym audit_log = "(audit_event \<times> bool) list"
type_synonym audit_sink = "audit_log \<Rightarrow> audit_event \<Rightarrow> bool"

definition mk_event :: "string \<Rightarrow> string \<Rightarrow> string \<Rightarrow> string \<Rightarrow> (string \<times> meta) list \<Rightarrow> audit_event" where
  "mk_event actor action outcome resource metadata =
     \<lparr>ev_actor = actor, ev_action = action, ev_outcome = outcome,
      ev_resource = resource, ev_metadata = metadata\<rparr>"

definition RecordEvent :: "audit_sink \<Rightarrow> audit_event \<Rightarrow> audit_log \<Rightarrow> bool \<times> audit_log" where
  "RecordEvent sink e log = (let ok = sink log e in (ok, log @ [(e, ok)]))"

lemma RecordEvent_simps [audit_simps, simp]:
  "fst (RecordEvent sink e log) = sink log e"
  "snd (RecordEvent sink e log) = log @ [(e, sink log e)]"
  by (simp_all add: RecordEvent_def Let_def)

lemma mk_event_sel [simp]:
  "ev_actor (mk_event a b c d m) = a"
  "ev_action (mk_event a b c d m) = b"
  "ev_outcome (mk_event a b c d m) = c"
  "ev_resource (mk_event a b c d m) = d"
  "ev_metadata (mk_event a b c d m) = m"
  by (simp_all add: mk_event_def)

text \<open>The last call to the sink was accepted and recorded the given outcome.\<close>

definition audited :: "string \<Rightarrow> audit_log \<Rightarrow> bool" where
  "audited outcome log =
     (case rev log of [] \<Rightarrow> False | (e, ok) # _ \<Rightarrow> ok \<and> ev_outcome e = outcome)"

lemma audited_snoc [simp, audit_simps]:
  "audited outcome (log @ [(e, ok)]) \<longleftrightarrow> ok \<and> ev_outcome e = outcome"
  by (simp add: audited_def)

text \<open>The substitution every \<open>deny\<close> makes for an empty actor or resource.\<close>

definition fallback :: "string \<Rightarrow> string" where
  "fallback value = (if value = [] then ''unidentified'' else value)"

lemma fallback_nonempty [simp]: "fallback v \<noteq> []"
  by (simp add: fallback_def)

section \<open>The duplicate-rejecting loop\<close>

text \<open>
  The validators walk a slice, reject the first element that fails its own check or whose
  key is already in the map \<open>seen\<close>, and add the key otherwise.
\<close>

fun all_fresh :: "('a \<Rightarrow> bool) \<Rightarrow> ('a \<Rightarrow> 'k) \<Rightarrow> 'k list \<Rightarrow> 'a list \<Rightarrow> bool" where
  "all_fresh ok key seen [] = True"
| "all_fresh ok key seen (x # xs) =
     (if \<not> ok x then False
      else if key x \<in> set seen then False
      else all_fresh ok key (key x # seen) xs)"

lemma all_fresh_iff:
  "all_fresh ok key seen xs \<longleftrightarrow>
     (\<forall>x\<in>set xs. ok x) \<and> distinct (map key xs) \<and> set (map key xs) \<inter> set seen = {}"
  by (induction xs arbitrary: seen) auto

text \<open>
  Set equality of two slices as \<open>lifecycle.equalStringSet\<close> and \<open>isolation.equalSet\<close> decide
  it; the second also rejects an empty string.
\<close>

definition equal_set :: "('a \<Rightarrow> bool) \<Rightarrow> 'a list \<Rightarrow> 'a list \<Rightarrow> bool" where
  "equal_set ok actual expected =
     (if length actual \<noteq> length expected then False
      else if \<not> all_fresh ok id [] actual then False
      else list_all (\<lambda>v. v \<in> set actual) expected)"

lemma equal_set_iff:
  assumes "distinct expected"
  shows "equal_set ok actual expected \<longleftrightarrow> (\<forall>v\<in>set actual. ok v) \<and> mset actual = mset expected"
proof -
  have "mset actual = mset expected"
    if "length actual = length expected" "distinct actual" "\<forall>v\<in>set expected. v \<in> set actual"
  proof -
    have "card (set expected) = card (set actual)"
      using that assms by (simp add: distinct_card)
    then have "set expected = set actual"
      using that(3) by (intro card_subset_eq) auto
    then show ?thesis
      using that(2) assms by (simp add: set_eq_iff_mset_eq_distinct)
  qed
  then show ?thesis
    using assms
    by (auto simp: equal_set_def all_fresh_iff list_all_iff
        dest: mset_eq_setD mset_eq_length mset_eq_imp_distinct_iff)
qed

section \<open>Chains of checks\<close>

text \<open>A validator is a chain of early returns of a reason; it accepts if every check passes.\<close>

lemma reason_chain: "r \<noteq> [] \<Longrightarrow> (if c then r else k) = [] \<longleftrightarrow> \<not> c \<and> k = []"
  by simp

section \<open>Sorting\<close>

text \<open>
  \<open>sort.Strings\<close> is \<^const>\<open>sort\<close>; \<open>sort.Slice\<close> with a comparison on a key is
  \<^const>\<open>sort_key\<close>. Go leaves the order of elements with equal keys open; where it could
  matter the lemmas ask for distinct keys, and then every sorted permutation is the same list.
\<close>

lemma sort_key_idem [simp]: "sort_key f (sort_key f xs) = sort_key f xs"
  by (rule sort_key_id_if_sorted) simp

end
