(* ===== verification/Go_Strings.thy ===== *)
theory Go_Strings
  imports Prelude
begin

text \<open>
  The functions of Go's \<open>strings\<close>, \<open>strconv\<close> and \<open>path\<close> packages that the repository calls,
  with the facts the validators rely on: splitting and joining are inverse, and a path that
  is its own \<open>path.Clean\<close> is a sequence of plain components.
\<close>

section \<open>strings\<close>

definition HasPrefix :: "string \<Rightarrow> string \<Rightarrow> bool" where
  "HasPrefix s p = (take (length p) s = p)"

lemma HasPrefix_iff_prefix: "HasPrefix s p \<longleftrightarrow> prefix p s"
  by (metis HasPrefix_def append_eq_conv_conj prefix_def)

lemma HasPrefix_append [simp]: "HasPrefix (p @ s) p"
  by (simp add: HasPrefix_def)

text \<open>\<open>strings.Contains\<close>: the needle occurs at some position.\<close>

fun str_contains :: "string \<Rightarrow> string \<Rightarrow> bool" where
  "str_contains [] p = (p = [])"
| "str_contains (c # s) p = (HasPrefix (c # s) p \<or> str_contains s p)"

lemma str_contains_iff: "str_contains s p \<longleftrightarrow> (\<exists>u v. s = u @ p @ v)"
proof (induction s)
  case Nil
  then show ?case by auto
next
  case (Cons c s)
  show ?case
  proof
    assume "str_contains (c # s) p"
    then show "\<exists>u v. c # s = u @ p @ v"
      using Cons.IH by (metis HasPrefix_iff_prefix append_Cons append_Nil prefix_def str_contains.simps(2))
  next
    assume "\<exists>u v. c # s = u @ p @ v"
    then obtain u v where e: "c # s = u @ p @ v" by blast
    show "str_contains (c # s) p"
    proof (cases u)
      case Nil
      then have "HasPrefix (c # s) p" using e by (simp add: HasPrefix_iff_prefix prefix_def)
      then show ?thesis by simp
    next
      case (Cons a u')
      then show ?thesis using e Cons.IH by auto
    qed
  qed
qed

text \<open>\<open>strings.Split\<close> on a one-byte separator and \<open>strings.Join\<close>.\<close>

fun split_on :: "char \<Rightarrow> string \<Rightarrow> string list" where
  "split_on c [] = [[]]"
| "split_on c (x # xs) =
     (if x = c then [] # split_on c xs
      else case split_on c xs of [] \<Rightarrow> [[x]] | y # ys \<Rightarrow> (x # y) # ys)"

fun join :: "string \<Rightarrow> string list \<Rightarrow> string" where
  "join sep [] = []"
| "join sep [x] = x"
| "join sep (x # y # ys) = x @ sep @ join sep (y # ys)"

lemma split_on_nonempty [simp]: "split_on c s \<noteq> []"
  by (cases s) (auto split: list.splits)

lemma split_on_no_sep: "x \<in> set (split_on c s) \<Longrightarrow> c \<notin> set x"
  by (induction s arbitrary: x) (force split: if_splits list.splits)+

lemma split_on_append_sep:
  "c \<notin> set x \<Longrightarrow> split_on c (x @ c # s) = x # split_on c s"
  by (induction x) auto

lemma split_on_id: "c \<notin> set x \<Longrightarrow> split_on c x = [x]"
  by (induction x) auto

lemma split_on_join:
  "xs \<noteq> [] \<Longrightarrow> (\<And>x. x \<in> set xs \<Longrightarrow> c \<notin> set x) \<Longrightarrow> split_on c (join [c] xs) = xs"
  by (induction "[c]" xs rule: join.induct) (auto simp: split_on_append_sep split_on_id)

lemma join_split_on: "join [c] (split_on c s) = s"
proof (induction s)
  case (Cons x s)
  then show ?case
    by (cases "split_on c s"; cases "tl (split_on c s)") auto
qed simp

text \<open>White space, \<open>strings.TrimSpace\<close> and \<open>strings.Fields\<close> on ASCII input.\<close>

definition is_space :: "char \<Rightarrow> bool" where
  "is_space c = (of_char c \<in> {9, 10, 11, 12, 13, 32 :: nat})"

definition TrimSpace :: "string \<Rightarrow> string" where
  "TrimSpace s = rev (dropWhile is_space (rev (dropWhile is_space s)))"

fun fields_aux :: "string \<Rightarrow> string \<Rightarrow> string list" where
  "fields_aux cur [] = (if cur = [] then [] else [rev cur])"
| "fields_aux cur (c # s) =
     (if is_space c then (if cur = [] then fields_aux [] s else rev cur # fields_aux [] s)
      else fields_aux (c # cur) s)"

definition Fields :: "string \<Rightarrow> string list" where
  "Fields s = fields_aux [] s"

lemma fields_aux_elem:
  "x \<in> set (fields_aux cur s) \<Longrightarrow> \<forall>c\<in>set cur. \<not> is_space c \<Longrightarrow>
     x \<noteq> [] \<and> (\<forall>c\<in>set x. \<not> is_space c)"
proof (induction s arbitrary: cur)
  case Nil
  then show ?case by (auto split: if_splits)
next
  case (Cons c s)
  show ?case
  proof (cases "is_space c")
    case True
    then consider "x \<in> set (fields_aux [] s)" | "cur \<noteq> []" "x = rev cur"
      using Cons.prems(1) by (cases "cur = []") auto
    then show ?thesis
      using Cons.IH [of "[]"] Cons.prems(2) by cases simp_all
  next
    case False
    then show ?thesis
      using Cons.IH [of "c # cur"] Cons.prems by simp
  qed
qed

lemma Fields_elem: "x \<in> set (Fields s) \<Longrightarrow> x \<noteq> [] \<and> (\<forall>c\<in>set x. \<not> is_space c)"
  unfolding Fields_def by (rule fields_aux_elem) auto

section \<open>strconv\<close>

definition digit_char :: "nat \<Rightarrow> char" where
  "digit_char d = char_of (48 + d)"

fun dec_nat :: "nat \<Rightarrow> string" where
  "dec_nat n = (if n < 10 then [digit_char n] else dec_nat (n div 10) @ [digit_char (n mod 10)])"

declare dec_nat.simps [simp del]

definition is_digit :: "char \<Rightarrow> bool" where
  "is_digit c = (CHR ''0'' \<le> c \<and> c \<le> CHR ''9'')"

lemma char_le_nat: "(c \<le> d) \<longleftrightarrow> (of_char c :: nat) \<le> of_char d"
  by (simp add: less_eq_char_def)

definition digit_val :: "char \<Rightarrow> nat" where
  "digit_val c = of_char c - 48"

fun read_dec :: "nat \<Rightarrow> string \<Rightarrow> nat \<times> string" where
  "read_dec acc [] = (acc, [])"
| "read_dec acc (c # s) = (if is_digit c then read_dec (10 * acc + digit_val c) s else (acc, c # s))"

lemma of_char_digit_char [simp]: "d < 10 \<Longrightarrow> (of_char (digit_char d) :: nat) = 48 + d"
  by (simp add: digit_char_def)

lemma digit_char_props [simp]:
  assumes "d < 10"
  shows "is_digit (digit_char d)" and "digit_val (digit_char d) = d"
  using assms by (simp_all add: is_digit_def char_le_nat digit_val_def)

definition no_digit :: "string \<Rightarrow> bool" where
  "no_digit s = (case s of [] \<Rightarrow> True | c # _ \<Rightarrow> \<not> is_digit c)"

lemma dec_nat_nonempty [simp]: "dec_nat n \<noteq> []"
  by (subst dec_nat.simps) simp

lemma dec_nat_digits: "c \<in> set (dec_nat n) \<Longrightarrow> is_digit c"
proof (induction n rule: dec_nat.induct)
  case (1 n)
  then show ?case
    by (subst (asm) (2) dec_nat.simps) (auto split: if_splits)
qed

lemma read_dec_dec_nat:
  "\<exists>k. \<forall>acc rest. read_dec acc (dec_nat n @ rest) = read_dec (acc * k + n) rest"
proof (induction n rule: dec_nat.induct)
  case (1 n)
  show ?case
  proof (cases "n < 10")
    case True
    then show ?thesis
      by (intro exI [of _ 10]) (simp add: dec_nat.simps [of n] mult.commute)
  next
    case False
    with 1 obtain k where
      k: "\<And>acc rest. read_dec acc (dec_nat (n div 10) @ rest) = read_dec (acc * k + n div 10) rest"
      by blast
    have "10 * (n div 10) + n mod 10 = n" by simp
    with False k show ?thesis
      by (intro exI [of _ "10 * k"])
        (simp add: dec_nat.simps [of n] algebra_simps)
  qed
qed

text \<open>Reading back what \<open>strconv.FormatUint\<close> wrote.\<close>

lemma read_dec_inverse: "no_digit rest \<Longrightarrow> read_dec 0 (dec_nat n @ rest) = (n, rest)"
proof -
  assume r: "no_digit rest"
  obtain k where "\<And>acc rest. read_dec acc (dec_nat n @ rest) = read_dec (acc * k + n) rest"
    using read_dec_dec_nat by blast
  then have "read_dec 0 (dec_nat n @ rest) = read_dec n rest" by simp
  also have "\<dots> = (n, rest)"
    using r by (cases rest) (auto simp: no_digit_def)
  finally show ?thesis .
qed

lemma dec_nat_inj: "dec_nat m @ r = dec_nat n @ r' \<Longrightarrow> no_digit r \<Longrightarrow> no_digit r' \<Longrightarrow> m = n \<and> r = r'"
  by (metis Pair_inject read_dec_inverse)

definition FormatUint :: "u64 \<Rightarrow> string" where
  "FormatUint w = dec_nat (unat w)"

definition dec_int :: "int \<Rightarrow> string" where
  "dec_int i = (if i < 0 then CHR ''-'' # dec_nat (nat (- i)) else dec_nat (nat i))"

lemma FormatUint_inj: "FormatUint v = FormatUint w \<Longrightarrow> v = w"
  using dec_nat_inj [of "unat v" "[]" "unat w" "[]"]
  by (auto simp: FormatUint_def no_digit_def word_unat_eq_iff)

section \<open>path\<close>

text \<open>
  \<open>path.Clean\<close>: the elements between slashes are pushed on a stack; an empty element and
  \<open>.\<close> are dropped, \<open>..\<close> removes the element before it, and at the root it is dropped.
  The stack is kept in reverse order.
\<close>

fun clean_step :: "bool \<Rightarrow> string \<Rightarrow> string list \<Rightarrow> string list" where
  "clean_step rooted c st =
     (if c = [] \<or> c = ''.'' then st
      else if c = ''..'' then
        (case st of
           [] \<Rightarrow> if rooted then [] else [''..'']
         | t # ts \<Rightarrow> if t = ''..'' then ''..'' # st else ts)
      else c # st)"

declare clean_step.simps [simp del]

definition path_Clean :: "string \<Rightarrow> string" where
  "path_Clean p =
     (if p = [] then ''.''
      else let rooted = (hd p = CHR ''/'');
               cs = rev (fold (clean_step rooted) (split_on (CHR ''/'') p) [])
           in if rooted then ''/'' @ join ''/'' cs
              else if cs = [] then ''.'' else join ''/'' cs)"

definition path_Join :: "string list \<Rightarrow> string" where
  "path_Join elems =
     (let es = filter (\<lambda>e. e \<noteq> []) elems
      in if es = [] then [] else path_Clean (join ''/'' es))"

text \<open>\<open>filepath.Dir\<close> and \<open>filepath.Base\<close> on Unix.\<close>

definition path_Dir :: "string \<Rightarrow> string" where
  "path_Dir p = path_Clean (rev (dropWhile (\<lambda>c. c \<noteq> CHR ''/'') (rev p)))"

definition path_Base :: "string \<Rightarrow> string" where
  "path_Base p =
     (if p = [] then ''.''
      else let q = rev (dropWhile (\<lambda>c. c = CHR ''/'') (rev p));
               b = rev (takeWhile (\<lambda>c. c \<noteq> CHR ''/'') (rev q))
           in if b = [] then ''/'' else b)"

text \<open>The predicate \<open>safeAbsolutePath\<close> of the packages \<open>lifecycle\<close> and \<open>host\<close>.\<close>

definition safeAbsolutePath :: "string \<Rightarrow> bool" where
  "safeAbsolutePath value =
     (HasPrefix value ''/'' \<and> path_Clean value = value \<and> value \<noteq> ''/'' \<and> \<not> str_contains value ''//'')"

text \<open>A plain path component, and the absolute path of a list of components.\<close>

definition plain :: "string \<Rightarrow> bool" where
  "plain c = (c \<noteq> [] \<and> c \<noteq> ''.'' \<and> c \<noteq> ''..'' \<and> CHR ''/'' \<notin> set c)"

definition abs_path :: "string list \<Rightarrow> string" where
  "abs_path cs = concat (map ((#) (CHR ''/'')) cs)"

lemma abs_path_simps [simp]:
  "abs_path [] = []"
  "abs_path (c # cs) = CHR ''/'' # c @ abs_path cs"
  by (simp_all add: abs_path_def)

lemma abs_path_join: "cs \<noteq> [] \<Longrightarrow> abs_path cs = ''/'' @ join ''/'' cs"
  by (induction "''/''" cs rule: join.induct) auto

lemma clean_fold_plain:
  "\<forall>c\<in>set cs. CHR ''/'' \<notin> set c \<Longrightarrow> \<forall>c\<in>set st. plain c \<Longrightarrow>
     \<forall>c\<in>set (fold (clean_step True) cs st). plain c"
proof (induction cs arbitrary: st)
  case (Cons d cs)
  consider (skip) "d = [] \<or> d = ''.''" | (up) "d = ''..''" | (push) "plain d"
    using Cons.prems(1) by (fastforce simp: plain_def)
  then have "set (clean_step True d st) \<subseteq> {c. plain c}"
  proof cases
    case skip
    then show ?thesis using Cons.prems(2) by (auto simp: clean_step.simps)
  next
    case up
    then have "set (clean_step True d st) \<subseteq> set st" by (cases st) (auto simp: clean_step.simps)
    then show ?thesis using Cons.prems(2) by blast
  next
    case push
    then have "clean_step True d st = d # st" by (simp add: plain_def clean_step.simps)
    then show ?thesis using Cons.prems(2) push by auto
  qed
  then have "\<forall>c\<in>set (fold (clean_step True) cs (clean_step True d st)). plain c"
    using Cons.IH [of "clean_step True d st"] Cons.prems by (simp add: subset_eq)
  then show ?case by simp
qed simp

lemma clean_fold_push:
  "\<forall>c\<in>set cs. plain c \<Longrightarrow> fold (clean_step r) cs st = rev cs @ st"
  by (induction cs arbitrary: st) (auto simp: plain_def clean_step.simps)

lemma split_abs_path:
  assumes "cs \<noteq> []" "\<forall>c\<in>set cs. plain c"
  shows "split_on (CHR ''/'') (abs_path cs) = [] # cs"
  using assms by (simp add: abs_path_join split_on_join plain_def)

lemma abs_path_Clean:
  assumes "cs \<noteq> []" "\<forall>c\<in>set cs. plain c"
  shows "path_Clean (abs_path cs) = abs_path cs"
proof -
  obtain d ds where cs: "cs = d # ds" using assms(1) by (cases cs) auto
  have ne: "abs_path cs \<noteq> []" "hd (abs_path cs) = CHR ''/''" by (simp_all add: cs)
  have "fold (clean_step True) ([] # cs) [] = rev cs"
    using clean_fold_push [of cs True "[]"] assms(2) by (simp add: clean_step.simps)
  then show ?thesis
    using ne by (simp only: path_Clean_def Let_def split_abs_path [OF assms]) (simp add: abs_path_join [OF assms(1)])
qed

lemma abs_path_no_double_slash:
  "\<forall>c\<in>set cs. plain c \<Longrightarrow> \<not> str_contains (abs_path cs) ''//''"
proof (induction cs)
  case (Cons c cs)
  have hd: "abs_path cs = [] \<or> (\<exists>e es. abs_path cs = CHR ''/'' # e # es \<and> e \<noteq> CHR ''/'')"
    using Cons.prems by (cases cs; cases "hd cs") (auto simp: plain_def)
  have sl: "\<not> HasPrefix (x # abs_path cs) ''//''" if "x \<noteq> CHR ''/''" for x
    using that by (simp add: HasPrefix_def)
  have app: "\<not> str_contains (xs @ abs_path cs) ''//''" if "CHR ''/'' \<notin> set xs" for xs
    using that Cons.IH Cons.prems
    by (induction xs) (auto simp: HasPrefix_def)
  obtain e es where c: "c = e # es" "e \<noteq> CHR ''/''"
    using Cons.prems by (cases c) (auto simp: plain_def)
  have "CHR ''/'' \<notin> set c" using Cons.prems by (simp add: plain_def)
  from app [OF this] c show ?case by (auto simp: HasPrefix_def)
qed simp

text \<open>
  A safe absolute path is exactly a non-empty sequence of plain components: no traversal,
  no empty component and no trailing slash.
\<close>

lemma safeAbsolutePath_iff:
  "safeAbsolutePath v \<longleftrightarrow> (\<exists>cs. cs \<noteq> [] \<and> (\<forall>c\<in>set cs. plain c) \<and> v = abs_path cs)"
proof
  assume s: "safeAbsolutePath v"
  then obtain w where v: "v = CHR ''/'' # w"
    by (cases v) (auto simp: safeAbsolutePath_def HasPrefix_def)
  define cs where "cs = rev (fold (clean_step True) (split_on (CHR ''/'') v) [])"
  have "v = ''/'' @ join ''/'' cs"
    using s v by (simp add: safeAbsolutePath_def path_Clean_def cs_def)
  moreover from this s have "cs \<noteq> []" by (auto simp: safeAbsolutePath_def)
  moreover have "\<forall>c\<in>set cs. plain c"
    unfolding cs_def using clean_fold_plain [of "split_on (CHR ''/'') v" "[]"]
    by (auto dest: split_on_no_sep)
  ultimately show "\<exists>cs. cs \<noteq> [] \<and> (\<forall>c\<in>set cs. plain c) \<and> v = abs_path cs"
    using abs_path_join by metis
next
  assume "\<exists>cs. cs \<noteq> [] \<and> (\<forall>c\<in>set cs. plain c) \<and> v = abs_path cs"
  then obtain cs where cs: "cs \<noteq> []" "\<forall>c\<in>set cs. plain c" "v = abs_path cs" by blast
  then obtain d ds where d: "cs = d # ds" "d \<noteq> []" by (cases cs) (auto simp: plain_def)
  have "HasPrefix v ''/''" "v \<noteq> ''/''" using d cs(3) by (auto simp: HasPrefix_def)
  then show "safeAbsolutePath v"
    using abs_path_Clean [OF cs(1,2)] abs_path_no_double_slash [OF cs(2)] cs(3)
    by (simp add: safeAbsolutePath_def)
qed

section \<open>Components of absolute paths\<close>

lemma path_Join_abs:
  assumes "cs \<noteq> []" "\<forall>c\<in>set cs. plain c" "plain d"
  shows "path_Join [abs_path cs, d] = abs_path (cs @ [d])"
proof -
  have "abs_path cs \<noteq> []" using assms(1) by (cases cs) auto
  moreover have "d \<noteq> []" using assms(3) by (simp add: plain_def)
  moreover have "join ''/'' [abs_path cs, d] = abs_path (cs @ [d])" by (simp add: abs_path_def)
  ultimately show ?thesis
    using abs_path_Clean [of "cs @ [d]"] assms by (simp add: path_Join_def)
qed

lemma until_slash_unique:
  assumes "p @ u = c @ v" "CHR ''/'' \<notin> set p" "CHR ''/'' \<notin> set c"
    and "u = [] \<or> hd u = CHR ''/''" "v = [] \<or> hd v = CHR ''/''"
  shows "p = c \<and> u = (v :: string)"
proof -
  have tw: "takeWhile (\<lambda>x. x \<noteq> CHR ''/'') (q @ w) = q"
    if "CHR ''/'' \<notin> set q" "w = [] \<or> hd w = CHR ''/''" for q w :: string
  proof -
    have "takeWhile (\<lambda>x. x \<noteq> CHR ''/'') w = []" using that(2) by (cases w) auto
    moreover have "\<forall>x\<in>set q. x \<noteq> CHR ''/''" using that(1) by auto
    ultimately show ?thesis by (simp add: takeWhile_append)
  qed
  from tw [OF assms(2,4)] tw [OF assms(3,5)] assms(1) have "p = c" by simp
  with assms(1) show ?thesis by simp
qed

lemma abs_path_prefix_iff:
  assumes "\<forall>c\<in>set ps. plain c" "\<forall>c\<in>set cs. plain c" "ps \<noteq> []"
  shows "(abs_path cs = abs_path ps \<or> HasPrefix (abs_path cs) (abs_path ps @ ''/'')) \<longleftrightarrow> prefix ps cs"
  using assms
proof (induction ps arbitrary: cs)
  case (Cons p ps)
  show ?case
  proof (cases cs)
    case Nil
    then show ?thesis by (simp add: HasPrefix_def)
  next
    case cs: (Cons c cs')
    have ns: "CHR ''/'' \<notin> set p" "CHR ''/'' \<notin> set c" using Cons.prems cs by (auto simp: plain_def)
    have starts: "abs_path ds = [] \<or> hd (abs_path ds) = CHR ''/''" for ds by (cases ds) auto
    have eq: "p = c \<and> u = v"
      if "p @ u = c @ v" "u = [] \<or> hd u = CHR ''/''" "v = [] \<or> hd v = CHR ''/''" for u v :: string
      using until_slash_unique [OF that(1) ns that(2,3)] .
    show ?thesis
    proof (cases "ps = []")
      case True
      have "HasPrefix (abs_path cs) (abs_path [p] @ ''/'') \<longleftrightarrow> p = c \<and> cs' \<noteq> []"
      proof
        assume "HasPrefix (abs_path cs) (abs_path [p] @ ''/'')"
        then obtain z where "p @ CHR ''/'' # z = c @ abs_path cs'"
          by (auto simp: HasPrefix_iff_prefix prefix_def cs)
        from eq [OF this] starts show "p = c \<and> cs' \<noteq> []" by auto
      next
        assume "p = c \<and> cs' \<noteq> []"
        then show "HasPrefix (abs_path cs) (abs_path [p] @ ''/'')"
          by (cases cs') (auto simp: cs HasPrefix_iff_prefix)
      qed
      moreover have "abs_path cs = abs_path [p] \<longleftrightarrow> p = c \<and> cs' = []"
        using eq [of "[]" "abs_path cs'"] starts by (cases cs') (auto simp: cs)
      ultimately show ?thesis using True by (auto simp: cs)
    next
      case False
      have IH: "(abs_path cs' = abs_path ps \<or> HasPrefix (abs_path cs') (abs_path ps @ ''/'')) = prefix ps cs'"
        using Cons.IH [of cs'] Cons.prems cs False by simp
      have "HasPrefix (abs_path cs) (abs_path (p # ps) @ ''/'') \<longleftrightarrow>
          p = c \<and> HasPrefix (abs_path cs') (abs_path ps @ ''/'')"
      proof
        assume "HasPrefix (abs_path cs) (abs_path (p # ps) @ ''/'')"
        then obtain z where "p @ (abs_path ps @ CHR ''/'' # z) = c @ abs_path cs'"
          by (auto simp: HasPrefix_iff_prefix prefix_def cs)
        moreover have "hd (abs_path ps @ CHR ''/'' # z) = CHR ''/''" using False by (cases ps) auto
        ultimately show "p = c \<and> HasPrefix (abs_path cs') (abs_path ps @ ''/'')"
          using eq [of "abs_path ps @ CHR ''/'' # z" "abs_path cs'"] starts [of cs']
          by (auto simp: HasPrefix_iff_prefix prefix_def intro: sym exI [of _ z])
      qed (auto simp: cs HasPrefix_iff_prefix)
      moreover have "abs_path cs = abs_path (p # ps) \<longleftrightarrow> p = c \<and> abs_path cs' = abs_path ps"
        using eq [of "abs_path ps" "abs_path cs'"] starts by (auto simp: cs)
      ultimately show ?thesis using IH by (auto simp: cs)
    qed
  qed
qed simp

end
