(* ===== verification/Go_Url.thy ===== *)
theory Go_Url
  imports Go_Strings
begin

text \<open>
  \<open>url.ParseRequestURI\<close> of Go 1.22's \<open>net/url\<close>, as far as the repository looks at its result:
  whether parsing fails, and the scheme, user, host, path, query and fragment. A request URI
  is parsed without splitting off a fragment, so the field \<open>Fragment\<close> of the result is
  always empty.
\<close>

record url =
  u_Scheme :: string
  u_User :: bool
  u_Host :: string
  u_Path :: string
  u_RawQuery :: string
  u_Fragment :: string

definition is_lower :: "char \<Rightarrow> bool" where
  "is_lower c = (CHR ''a'' \<le> c \<and> c \<le> CHR ''z'')"

definition is_upper :: "char \<Rightarrow> bool" where
  "is_upper c = (CHR ''A'' \<le> c \<and> c \<le> CHR ''Z'')"

definition to_lower :: "char \<Rightarrow> char" where
  "to_lower c = (if is_upper c then char_of ((of_char c :: nat) + 32) else c)"

definition is_ctl :: "char \<Rightarrow> bool" where
  "is_ctl c = ((of_char c :: nat) < 32 \<or> (of_char c :: nat) = 127)"

definition is_hex :: "char \<Rightarrow> bool" where
  "is_hex c = (is_digit c \<or> (CHR ''a'' \<le> c \<and> c \<le> CHR ''f'') \<or> (CHR ''A'' \<le> c \<and> c \<le> CHR ''F''))"

definition unhex :: "char \<Rightarrow> nat" where
  "unhex c =
     (if is_digit c then of_char c - 48
      else if CHR ''a'' \<le> c \<and> c \<le> CHR ''f'' then of_char c - 87
      else of_char c - 55)"

datatype url_mode = EncodePath | EncodeHost | EncodeZone

text \<open>\<open>shouldEscape(c, encodeHost)\<close>.\<close>

definition should_escape_host :: "char \<Rightarrow> bool" where
  "should_escape_host c =
     (\<not> (is_lower c \<or> is_upper c \<or> is_digit c \<or> c \<in> set ''!$&()*+,;=:[]<>-_.~'' \<or>
         (of_char c :: nat) \<in> {34, 39}))"

fun unescape :: "url_mode \<Rightarrow> string \<Rightarrow> string option" where
  "unescape mode [] = Some []"
| "unescape mode (c # s) =
     (if c = CHR ''%'' then
        (case s of
           a # b # r \<Rightarrow>
             (let v = 16 * unhex a + unhex b in
              if \<not> (is_hex a \<and> is_hex b) then None
              else if mode = EncodeHost \<and> unhex a < 8 \<and> \<not> (a = CHR ''2'' \<and> b = CHR ''5'') then None
              else if mode = EncodeZone \<and> \<not> (a = CHR ''2'' \<and> b = CHR ''5'') \<and> v \<noteq> 32 \<and>
                should_escape_host (char_of v) then None
              else map_option ((#) (char_of v)) (unescape mode r))
         | _ \<Rightarrow> None)
      else if mode \<noteq> EncodePath \<and> (of_char c :: nat) < 128 \<and> should_escape_host c then None
      else map_option ((#) c) (unescape mode s))"

text \<open>\<open>getScheme\<close>: the flag says whether a character has been read already.\<close>

fun get_scheme :: "bool \<Rightarrow> string \<Rightarrow> string \<Rightarrow> (string \<times> string) option" where
  "get_scheme started acc [] = Some ([], rev acc)"
| "get_scheme started acc (c # s) =
     (if is_lower c \<or> is_upper c then get_scheme True (c # acc) s
      else if is_digit c \<or> c \<in> set ''+-.'' then
        (if \<not> started then Some ([], rev acc @ c # s) else get_scheme True (c # acc) s)
      else if c = CHR '':'' then
        (if \<not> started then None else Some (rev acc, s))
      else Some ([], rev acc @ c # s))"

text \<open>\<open>strings.Cut\<close> and the last index of a byte.\<close>

definition cut :: "char \<Rightarrow> string \<Rightarrow> string \<times> string" where
  "cut c s = (takeWhile (\<lambda>x. x \<noteq> c) s, tl (dropWhile (\<lambda>x. x \<noteq> c) s))"

definition after_last :: "char \<Rightarrow> string \<Rightarrow> string" where
  "after_last c s = rev (takeWhile (\<lambda>x. x \<noteq> c) (rev s))"

definition before_last :: "char \<Rightarrow> string \<Rightarrow> string" where
  "before_last c s = rev (tl (dropWhile (\<lambda>x. x \<noteq> c) (rev s)))"

fun str_index :: "string \<Rightarrow> string \<Rightarrow> nat option" where
  "str_index p [] = (if p = [] then Some 0 else None)"
| "str_index p (c # s) = (if HasPrefix (c # s) p then Some 0 else map_option Suc (str_index p s))"

definition validOptionalPort :: "string \<Rightarrow> bool" where
  "validOptionalPort port =
     (case port of [] \<Rightarrow> True | c # r \<Rightarrow> c = CHR '':'' \<and> list_all is_digit r)"

definition validUserinfo :: "string \<Rightarrow> bool" where
  "validUserinfo s =
     list_all (\<lambda>c. is_lower c \<or> is_upper c \<or> is_digit c \<or> c \<in> set ''-._:~!$&()*+,;=%@'' \<or>
       (of_char c :: nat) = 39) s"

definition parse_host :: "string \<Rightarrow> string option" where
  "parse_host host =
     (if HasPrefix host ''['' then
        (if CHR '']'' \<notin> set host then None
         else let inner = before_last (CHR '']'') host; port = after_last (CHR '']'') host in
           if \<not> validOptionalPort port then None
           else case str_index ''%25'' inner of
             None \<Rightarrow> unescape EncodeHost host
           | Some z \<Rightarrow>
               (case (unescape EncodeHost (take z host),
                      unescape EncodeZone (drop z inner),
                      unescape EncodeHost (CHR '']'' # port)) of
                  (Some a, Some b, Some c) \<Rightarrow> Some (a @ b @ c)
                | _ \<Rightarrow> None))
      else if CHR '':'' \<in> set host \<and> \<not> validOptionalPort (CHR '':'' # after_last (CHR '':'') host) then None
      else unescape EncodeHost host)"

text \<open>The result says whether a user part was present, and gives the host.\<close>

definition parse_authority :: "string \<Rightarrow> (bool \<times> string) option" where
  "parse_authority authority =
     (if CHR ''@'' \<notin> set authority then map_option (Pair False) (parse_host authority)
      else case parse_host (after_last (CHR ''@'') authority) of
        None \<Rightarrow> None
      | Some host \<Rightarrow>
          (let userinfo = before_last (CHR ''@'') authority in
           if \<not> validUserinfo userinfo \<or> unescape EncodePath (fst (cut (CHR '':'') userinfo)) = None \<or>
             unescape EncodePath (snd (cut (CHR '':'') userinfo)) = None then None
           else Some (True, host)))"

definition parse_rest :: "string \<Rightarrow> string \<Rightarrow> string \<Rightarrow> url option" where
  "parse_rest scheme rest query =
     (if \<not> HasPrefix rest ''/'' then
        (if scheme \<noteq> [] then
           Some \<lparr>u_Scheme = scheme, u_User = False, u_Host = [], u_Path = [],
                 u_RawQuery = query, u_Fragment = []\<rparr>
         else None)
      else if scheme \<noteq> [] \<and> HasPrefix rest ''//'' then
        (let a = drop 2 rest;
             authority = takeWhile (\<lambda>c. c \<noteq> CHR ''/'') a;
             path = dropWhile (\<lambda>c. c \<noteq> CHR ''/'') a in
         case (parse_authority authority, unescape EncodePath path) of
           (Some (user, host), Some p) \<Rightarrow>
             Some \<lparr>u_Scheme = scheme, u_User = user, u_Host = host, u_Path = p,
                   u_RawQuery = query, u_Fragment = []\<rparr>
         | _ \<Rightarrow> None)
      else
        map_option (\<lambda>p. \<lparr>u_Scheme = scheme, u_User = False, u_Host = [], u_Path = p,
                          u_RawQuery = query, u_Fragment = []\<rparr>) (unescape EncodePath rest))"

definition ParseRequestURI :: "string \<Rightarrow> url option" where
  "ParseRequestURI raw =
     (if list_ex is_ctl raw then None
      else if raw = [] then None
      else if raw = ''*'' then
        Some \<lparr>u_Scheme = [], u_User = False, u_Host = [], u_Path = ''*'', u_RawQuery = [], u_Fragment = []\<rparr>
      else case get_scheme False [] raw of
        None \<Rightarrow> None
      | Some (scheme0, rest0) \<Rightarrow>
          (let scheme = map to_lower scheme0 in
           if rest0 \<noteq> [] \<and> last rest0 = CHR ''?'' \<and> count_list rest0 (CHR ''?'') = 1
           then parse_rest scheme (butlast rest0) []
           else parse_rest scheme (fst (cut (CHR ''?'') rest0)) (snd (cut (CHR ''?'') rest0))))"

text \<open>A request URI never has a fragment, whatever the text is.\<close>

lemma parse_rest_Fragment: "parse_rest scheme rest query = Some u \<Longrightarrow> u_Fragment u = []"
  by (auto simp: parse_rest_def Let_def split: if_splits option.splits prod.splits)

lemma parse_rest_no_host:
  "parse_rest scheme rest query = Some u \<Longrightarrow> u_Host u \<noteq> [] \<Longrightarrow> scheme \<noteq> [] \<and> HasPrefix rest ''//''"
  by (auto simp: parse_rest_def Let_def split: if_splits option.splits prod.splits)

lemma parse_rest_Scheme: "parse_rest scheme rest query = Some u \<Longrightarrow> u_Scheme u = scheme"
  by (auto simp: parse_rest_def Let_def split: if_splits option.splits prod.splits)

lemma parse_rest_RawQuery: "parse_rest scheme rest query = Some u \<Longrightarrow> u_RawQuery u = query"
  by (auto simp: parse_rest_def Let_def split: if_splits option.splits prod.splits)

lemma parse_rest_User:
  "parse_rest scheme rest query = Some u \<Longrightarrow> u_Host u \<noteq> [] \<Longrightarrow> \<not> u_User u \<Longrightarrow>
     CHR ''@'' \<notin> set (takeWhile (\<lambda>c. c \<noteq> CHR ''/'') (drop 2 rest))"
  by (auto simp: parse_rest_def parse_authority_def Let_def split: if_splits option.splits prod.splits)

lemma ParseRequestURI_Fragment: "ParseRequestURI raw = Some u \<Longrightarrow> u_Fragment u = []"
  by (auto simp: ParseRequestURI_def Let_def dest: parse_rest_Fragment
      split: if_splits option.splits prod.splits)

lemma ParseRequestURI_no_ctl: "ParseRequestURI raw = Some u \<Longrightarrow> \<not> list_ex is_ctl raw"
  by (auto simp: ParseRequestURI_def split: if_splits)

lemma get_scheme_split:
  "get_scheme started acc s = Some (scheme, rest) \<Longrightarrow> scheme \<noteq> [] \<Longrightarrow>
     rev acc @ s = scheme @ CHR '':'' # rest"
  by (induction started acc s rule: get_scheme.induct) (auto split: if_splits)

text \<open>
  A request URI with a host is \<open>scheme://authority...\<close>; without a user its authority has no
  \<open>@\<close>.
\<close>

lemma ParseRequestURI_authority:
  assumes "ParseRequestURI raw = Some u" "u_Host u \<noteq> []" "\<not> u_User u"
  shows "\<exists>scheme a. raw = scheme @ ''://'' @ a \<and> map to_lower scheme = u_Scheme u \<and>
    CHR ''@'' \<notin> set (takeWhile (\<lambda>c. c \<noteq> CHR ''/'' \<and> c \<noteq> CHR ''?'') a)"
proof -
  obtain sch rest0 where g: "get_scheme False [] raw = Some (sch, rest0)"
    using assms(1,2) by (auto simp: ParseRequestURI_def split: if_splits option.splits)
  define b where "b \<longleftrightarrow> rest0 \<noteq> [] \<and> last rest0 = CHR ''?'' \<and> count_list rest0 (CHR ''?'') = 1"
  define rest where "rest = (if b then butlast rest0 else fst (cut (CHR ''?'') rest0))"
  define q where "q = (if b then [] else snd (cut (CHR ''?'') rest0))"
  have p: "parse_rest (map to_lower sch) rest q = Some u"
    using assms g by (auto simp: ParseRequestURI_def Let_def rest_def q_def b_def split: if_splits)
  from parse_rest_no_host [OF p assms(2)] have s: "sch \<noteq> []" "HasPrefix rest ''//''" by auto
  have raw: "raw = sch @ '':'' @ rest0" using get_scheme_split [OF g s(1)] by simp
  have pre: "prefix rest rest0"
    unfolding rest_def cut_def by (simp add: takeWhile_is_prefix prefixeq_butlast)
  then obtain t where t: "rest0 = rest @ t" by (auto simp: prefix_def)
  obtain a where a: "rest = ''//'' @ a" using s(2) by (auto simp: HasPrefix_iff_prefix prefix_def)
  have t0: "t = [] \<or> hd t = CHR ''?''"
  proof (cases b)
    case True
    then have "rest0 = butlast rest0 @ [CHR ''?'']" by (metis append_butlast_last_id b_def)
    then have "t = [CHR ''?'']" using t True by (metis rest_def same_append_eq)
    then show ?thesis by simp
  next
    case False
    then have "t = dropWhile (\<lambda>x. x \<noteq> CHR ''?'') rest0"
      using t by (simp add: rest_def cut_def) (metis same_append_eq takeWhile_dropWhile_id)
    then show ?thesis using hd_dropWhile [of "\<lambda>x. x \<noteq> CHR ''?''" rest0] by auto
  qed
  have "CHR ''@'' \<notin> set (takeWhile (\<lambda>c. c \<noteq> CHR ''/'') a)"
    using parse_rest_User [OF p assms(2,3)] a by simp
  moreover have "set (takeWhile (\<lambda>c. c \<noteq> CHR ''/'' \<and> c \<noteq> CHR ''?'') (a @ t)) \<subseteq>
      set (takeWhile (\<lambda>c. c \<noteq> CHR ''/'') a)"
    using t0 by (induction a) (auto, cases t, auto)
  ultimately have "CHR ''@'' \<notin> set (takeWhile (\<lambda>c. c \<noteq> CHR ''/'' \<and> c \<noteq> CHR ''?'') (a @ t))" by blast
  moreover have "raw = sch @ ''://'' @ (a @ t)" using raw t a by simp
  moreover have "map to_lower sch = u_Scheme u" using parse_rest_Scheme [OF p] by simp
  ultimately show ?thesis by blast
qed

end
