(* ===== verification/Go_Time.thy ===== *)
theory Go_Time
  imports Go_Strings
begin

text \<open>
  Go's \<open>time.Time\<close> and \<open>time.Duration\<close>. A time is an instant, in nanoseconds since the Unix
  epoch, with the offset of its location from UTC in seconds; comparisons look at the
  instant only. A duration is a number of nanoseconds, and \<open>Sub\<close> saturates at the bounds of
  a 64-bit integer as the library does. The text form is RFC 3339 with a fraction, which is
  what \<open>encoding/json\<close> writes.
\<close>

record gotime =
  t_ns :: int
  t_zone :: int

definition Millisecond :: int where "Millisecond = 1000000"
definition Second :: int where "Second = 1000000000"
definition Minute :: int where "Minute = 60 * Second"
definition Hour :: int where "Hour = 60 * Minute"

lemmas duration_defs = Millisecond_def Second_def Minute_def Hour_def

text \<open>The zero time is the first instant of year 1.\<close>

definition zero_time :: gotime where
  "zero_time = \<lparr>t_ns = - 62135596800 * Second, t_zone = 0\<rparr>"

definition time_IsZero :: "gotime \<Rightarrow> bool" where
  "time_IsZero t = (t_ns t = t_ns zero_time)"

definition time_After :: "gotime \<Rightarrow> gotime \<Rightarrow> bool" where
  "time_After a b = (t_ns a > t_ns b)"

definition time_Before :: "gotime \<Rightarrow> gotime \<Rightarrow> bool" where
  "time_Before a b = (t_ns a < t_ns b)"

definition time_Add :: "gotime \<Rightarrow> int \<Rightarrow> gotime" where
  "time_Add t d = t\<lparr>t_ns := t_ns t + d\<rparr>"

definition max_i64 :: int where "max_i64 = 2 ^ 63 - 1"
definition min_i64 :: int where "min_i64 = - (2 ^ 63)"

definition time_Sub :: "gotime \<Rightarrow> gotime \<Rightarrow> int" where
  "time_Sub a b = max min_i64 (min max_i64 (t_ns a - t_ns b))"

definition time_UTC :: "gotime \<Rightarrow> gotime" where
  "time_UTC t = t\<lparr>t_zone := 0\<rparr>"

lemma time_UTC_simps [simp]:
  "t_ns (time_UTC t) = t_ns t"
  "t_zone (time_UTC t) = 0"
  "time_IsZero (time_UTC t) = time_IsZero t"
  "time_After (time_UTC a) b = time_After a b"
  "time_After a (time_UTC b) = time_After a b"
  by (simp_all add: time_UTC_def time_IsZero_def time_After_def)

lemma time_Add_ns [simp]: "t_ns (time_Add t d) = t_ns t + d"
  by (simp add: time_Add_def)

text \<open>Saturation does not change a comparison with a bound that is itself a duration.\<close>

lemma time_Sub_le_iff:
  "min_i64 \<le> d \<Longrightarrow> d < max_i64 \<Longrightarrow> time_Sub a b \<le> d \<longleftrightarrow> t_ns a - t_ns b \<le> d"
  by (auto simp: time_Sub_def)

section \<open>RFC 3339\<close>

text \<open>
  Days are counted in eras of 400 years that start on 1 March; \<open>era_days\<close> leaves the leap days
  of an era out of the count, so that its quotient by 365 is the year of the era.
\<close>

definition era_days :: "int \<Rightarrow> int" where
  "era_days doe = doe - doe div 1460 + doe div 36524 - doe div 146096"

text \<open>The proleptic Gregorian date of a day number counted from 1970-01-01.\<close>

definition civil :: "int \<Rightarrow> int \<times> int \<times> int" where
  "civil days =
     (let z = days + 719468;
          era = z div 146097;
          doe = z mod 146097;
          yoe = era_days doe div 365;
          doy = doe - (365 * yoe + yoe div 4 - yoe div 100);
          mp = (5 * doy + 2) div 153;
          d = doy - (153 * mp + 2) div 5 + 1;
          m = (if mp < 10 then mp + 3 else mp - 9);
          y = yoe + era * 400 + (if m \<le> 2 then 1 else 0)
      in (y, m, d))"

definition pad :: "nat \<Rightarrow> int \<Rightarrow> string" where
  "pad w i = (let s = dec_nat (nat i) in replicate (w - length s) (CHR ''0'') @ s)"

definition frac :: "int \<Rightarrow> string" where
  "frac ns = (if ns = 0 then [] else CHR ''.'' # rev (dropWhile (\<lambda>c. c = CHR ''0'') (rev (pad 9 ns))))"

definition trunc_quot :: "int \<Rightarrow> int \<Rightarrow> int" where
  "trunc_quot a b = (if a < 0 then - ((- a) div b) else a div b)"

definition format_zone :: "int \<Rightarrow> string" where
  "format_zone offset =
     (if offset = 0 then ''Z''
      else let zone = trunc_quot offset 60; a = \<bar>zone\<bar> in
        (if zone < 0 then ''-'' else ''+'') @ pad 2 (a div 60) @ '':'' @ pad 2 (a mod 60))"

definition format_time :: "gotime \<Rightarrow> string" where
  "format_time t =
     (let l = t_ns t + t_zone t * Second;
          secs = l div Second;
          sod = secs mod 86400;
          (y, m, d) = civil (secs div 86400)
      in pad 4 y @ ''-'' @ pad 2 m @ ''-'' @ pad 2 d @ ''T'' @
         pad 2 (sod div 3600) @ '':'' @ pad 2 (sod mod 3600 div 60) @ '':'' @ pad 2 (sod mod 60) @
         frac (l mod Second) @ format_zone (t_zone t))"

text \<open>\<open>MarshalJSON\<close> fails for a year outside 0 to 9999 and for a zone of 24 hours or more.\<close>

definition time_encodable :: "gotime \<Rightarrow> bool" where
  "time_encodable t =
     (let (y, m, d) = civil ((t_ns t + t_zone t * Second) div Second div 86400) in
      0 \<le> y \<and> y \<le> 9999 \<and> \<bar>trunc_quot (t_zone t) 60\<bar> div 60 < 24)"

section \<open>The text determines the instant\<close>

lemma div_step:
  assumes "0 < k"
  shows "(n :: int) div k \<le> (n + 1) div k" and "(n + 1) div k \<le> n div k + 1"
proof -
  show "n div k \<le> (n + 1) div k" using assms by (intro zdiv_mono1) auto
  have "(n + 1) div k \<le> (n + k) div k" using assms by (intro zdiv_mono1) auto
  moreover have "(n + k) div k = n div k + 1" using assms by (intro div_add_self2) simp
  ultimately show "(n + 1) div k \<le> n div k + 1" by simp
qed

lemma div_bounds:
  assumes "0 < k"
  shows "k * (n div k) \<le> (n :: int)" and "n < k * (n div k) + k"
  using assms by (simp_all add: minus_mod_eq_mult_div [symmetric] pos_mod_bound)

lemma era_days_step:
  assumes "0 \<le> n"
  shows "era_days n \<le> era_days (n + 1)"
proof -
  define q q' where "q = n div 36524" and "q' = (n + 1) div 36524"
  have "n div 146096 = q div 4" "(n + 1) div 146096 = q' div 4"
    using zdiv_zmult2_eq [of 4 n 36524] zdiv_zmult2_eq [of 4 "n + 1" 36524] by (simp_all add: q_def q'_def)
  moreover have "q' = q \<or> q' = q + 1"
    using div_step [of 36524 n] unfolding q_def [symmetric] q'_def [symmetric] by auto
  then have "q - q div 4 \<le> q' - q' div 4" using div_step(2) [of 4 q] by auto
  moreover have "(n + 1) div 1460 \<le> n div 1460 + 1" by (rule div_step) simp
  ultimately show ?thesis unfolding era_days_def q_def [symmetric] q'_def [symmetric] by linarith
qed

lemma era_days_mono:
  assumes "0 \<le> m" "m \<le> n"
  shows "era_days m \<le> era_days n"
  using assms(2)
proof (induction n rule: int_ge_induct)
  case (step i)
  then show ?case using era_days_step [of i] assms(1) by linarith
qed simp

definition year_start :: "int \<Rightarrow> int" where
  "year_start y = 365 * y + y div 4 - y div 100"

lemma year_table:
  "list_all (\<lambda>y. 365 * y \<le> era_days (year_start y) \<and> era_days (year_start (y + 1) - 1) < 365 * (y + 1) \<and>
     0 \<le> year_start y \<and> year_start (y + 1) \<le> year_start y + 366) [0..399]"
  by code_simp

lemma year_table_int:
  assumes "0 \<le> y" "y \<le> 399"
  shows "365 * y \<le> era_days (year_start y)" "era_days (year_start (y + 1) - 1) < 365 * (y + 1)"
    "0 \<le> year_start y" "year_start (y + 1) \<le> year_start y + 366"
  using year_table assms by (auto simp: list_all_iff)

lemma year_of_era:
  assumes "0 \<le> doe" "doe < 146097" "y = era_days doe div 365"
  shows "0 \<le> y" and "y \<le> 399" and "0 \<le> doe - year_start y" and "doe - year_start y \<le> 365"
proof -
  have e0: "era_days 0 = 0" and e1: "era_days 146096 = 145999" by (simp_all add: era_days_def)
  show y0: "0 \<le> y" using era_days_mono [of 0 doe] assms e0 by simp
  have "era_days doe \<le> 145999" using era_days_mono [of doe 146096] assms e1 by simp
  then show y399: "y \<le> 399" using assms(3) div_bounds(1) [of 365 "era_days doe"] by linarith
  show "0 \<le> doe - year_start y"
  proof (rule ccontr)
    assume "\<not> 0 \<le> doe - year_start y"
    then have lt: "doe \<le> year_start y - 1" by simp
    then have "1 \<le> y" using y0 assms(1) by (cases "y = 0") (simp_all add: year_start_def)
    then have "era_days (year_start y - 1) < 365 * y"
      using year_table_int(2) [of "y - 1"] y399 by simp
    then have "era_days doe < 365 * y" using era_days_mono [OF assms(1) lt] by linarith
    then show False using assms(3) div_bounds(1) [of 365 "era_days doe"] by linarith
  qed
  show "doe - year_start y \<le> 365"
  proof (cases "y = 399")
    case True
    then show ?thesis using assms(2) by (simp add: year_start_def)
  next
    case False
    have "doe < year_start (y + 1)"
    proof (rule ccontr)
      assume "\<not> doe < year_start (y + 1)"
      then have "era_days (year_start (y + 1)) \<le> era_days doe"
        using year_table_int(3) [of "y + 1"] y0 y399 False by (intro era_days_mono) auto
      then have "365 * (y + 1) \<le> era_days doe"
        using year_table_int(1) [of "y + 1"] y0 y399 False by simp
      then show False using assms(3) div_bounds(2) [of 365 "era_days doe"] by simp
    qed
    then show ?thesis using year_table_int(4) [OF y0 y399] by simp
  qed
qed

lemma civil_inverse:
  assumes "civil d = (y, m, k)"
  obtains mp yoe where
    "0 \<le> mp" "mp \<le> 11" "m = (if mp < 10 then mp + 3 else mp - 9)"
    "0 \<le> yoe" "yoe \<le> 399" "1 \<le> k" "k \<le> 31"
    "(y - (if m \<le> 2 then 1 else 0)) mod 400 = yoe"
    "d = (y - (if m \<le> 2 then 1 else 0)) div 400 * 146097 + year_start yoe + (153 * mp + 2) div 5 + k - 1 - 719468"
proof -
  define era doe where "era = (d + 719468) div 146097" and "doe = (d + 719468) mod 146097"
  define yoe where "yoe = era_days doe div 365"
  define doy where "doy = doe - year_start yoe"
  define mp where "mp = (5 * doy + 2) div 153"
  have doe: "0 \<le> doe" "doe < 146097" by (simp_all add: doe_def)
  note ye = year_of_era [OF doe yoe_def]
  have mpb: "153 * mp \<le> 5 * doy + 2" "5 * doy + 2 < 153 * mp + 153"
    using div_bounds [of 153 "5 * doy + 2"] by (simp_all add: mp_def)
  have mp: "0 \<le> mp" "mp \<le> 11" using ye(3,4) mpb by (simp_all add: doy_def [symmetric])
  have civ: "civil d =
      (yoe + era * 400 + (if (if mp < 10 then mp + 3 else mp - 9) \<le> 2 then 1 else 0),
       (if mp < 10 then mp + 3 else mp - 9), doy - (153 * mp + 2) div 5 + 1)"
    by (simp only: civil_def Let_def era_def doe_def yoe_def doy_def mp_def year_start_def)
  have m: "m = (if mp < 10 then mp + 3 else mp - 9)" and k: "k = doy - (153 * mp + 2) div 5 + 1"
    using assms unfolding civ prod.inject by blast+
  have y: "y = yoe + era * 400 + (if m \<le> 2 then 1 else 0)"
    using assms unfolding civ prod.inject m by blast
  have "d = era * 146097 + doe - 719468" by (simp add: era_def doe_def)
  then have "d = era * 146097 + year_start yoe + (153 * mp + 2) div 5 + k - 1 - 719468"
    by (simp add: k doy_def)
  moreover have "(y - (if m \<le> 2 then 1 else 0)) = yoe + era * 400" by (simp add: y)
  moreover have "(yoe + era * 400) mod 400 = yoe" "(yoe + era * 400) div 400 = era"
    using ye(1,2) by simp_all
  moreover have "1 \<le> k" "k \<le> 31"
    using div_bounds [of 5 "153 * mp + 2"] mpb unfolding k by linarith+
  ultimately show ?thesis using that [OF mp m ye(1,2)] by simp
qed

lemma civil_bounds:
  assumes "civil d = (y, m, k)"
  shows "1 \<le> m \<and> m \<le> 12 \<and> 1 \<le> k \<and> k \<le> 31"
  by (rule civil_inverse [OF assms]) (simp split: if_splits)

lemma civil_inj:
  assumes "civil d = civil d'"
  shows "d = d'"
proof -
  obtain y m k where c: "civil d = (y, m, k)" by (rule prod_cases3)
  then have c': "civil d' = (y, m, k)" using assms by simp
  define z where "z = y - (if m \<le> 2 then 1 else 0)"
  obtain mp where 1: "0 \<le> mp" "mp \<le> 11" "m = (if mp < 10 then mp + 3 else mp - 9)"
      "d = z div 400 * 146097 + year_start (z mod 400) + (153 * mp + 2) div 5 + k - 1 - 719468"
    using civil_inverse [OF c] unfolding z_def [symmetric] by metis
  obtain mp' where 2: "0 \<le> mp'" "mp' \<le> 11" "m = (if mp' < 10 then mp' + 3 else mp' - 9)"
      "d' = z div 400 * 146097 + year_start (z mod 400) + (153 * mp' + 2) div 5 + k - 1 - 719468"
    using civil_inverse [OF c'] unfolding z_def [symmetric] by metis
  have "mp = mp'" using 1(1-3) 2(1-3) by (simp split: if_splits)
  then show ?thesis using 1(4) 2(4) by simp
qed

lemma dec_nat_length: "n < 10 ^ w \<Longrightarrow> 0 < w \<Longrightarrow> length (dec_nat n) \<le> w"
proof (induction n arbitrary: w rule: dec_nat.induct)
  case (1 n)
  show ?case
  proof (cases "n < 10")
    case True
    then show ?thesis using "1.prems" by (subst dec_nat.simps) simp
  next
    case False
    then have w: "w \<noteq> 1" using "1.prems"(1) by auto
    then have "n div 10 < 10 ^ (w - 1)"
      using "1.prems" by (cases w) (simp_all add: less_mult_imp_div_less mult.commute)
    then have "length (dec_nat (n div 10)) \<le> w - 1" using "1.IH" False w "1.prems"(2) by simp
    then show ?thesis using False "1.prems"(2) by (subst dec_nat.simps) simp
  qed
qed

lemma read_dec_zeros: "read_dec 0 (replicate k (CHR ''0'') @ s) = read_dec 0 s"
  by (induction k) (simp_all add: is_digit_def digit_val_def)

lemma pad_length: "0 \<le> i \<Longrightarrow> i < 10 ^ w \<Longrightarrow> 0 < w \<Longrightarrow> length (pad w i) = w"
  using dec_nat_length [of "nat i" w] by (simp add: pad_def Let_def nat_less_iff)

lemma pad_value: "read_dec 0 (pad w i) = (nat i, [])"
  using read_dec_inverse [of "[]" "nat i"] by (simp add: pad_def Let_def read_dec_zeros no_digit_def)

lemma pad_inj:
  assumes "pad w i @ r = pad w j @ r'" "0 \<le> i" "i < 10 ^ w" "0 \<le> j" "j < 10 ^ w" "0 < w"
  shows "i = j \<and> r = r'"
proof -
  have "pad w i = pad w j \<and> r = r'"
    using assms(1) pad_length [OF assms(2,3,6)] pad_length [OF assms(4,5,6)] by simp
  then show ?thesis using pad_value [of w i] pad_value [of w j] assms(2,4) by auto
qed

lemma frac_inj:
  assumes "frac a = frac b" "0 \<le> a" "a < 1000000000" "0 \<le> b" "b < 1000000000"
  shows "a = b"
proof -
  let ?z = "\<lambda>c. c = CHR ''0''"
  have refill: "rev (pad 9 i) = replicate (9 - length (dropWhile ?z (rev (pad 9 i)))) (CHR ''0'') @
      dropWhile ?z (rev (pad 9 i))" if "0 \<le> i" "i < 1000000000" for i
  proof -
    let ?t = "takeWhile ?z (rev (pad 9 i))" and ?d = "dropWhile ?z (rev (pad 9 i))"
    have all: "rev (pad 9 i) = ?t @ ?d" by simp
    have "takeWhile ?z xs = replicate (length (takeWhile ?z xs)) (CHR ''0'')" for xs
      by (induction xs) auto
    moreover have "length ?t + length ?d = 9"
      using pad_length [of i 9] that by (simp flip: length_append)
    then have "length ?t = 9 - length ?d" by simp
    ultimately show ?thesis using all by metis
  qed
  show ?thesis
  proof (cases "a = 0 \<or> b = 0")
    case True
    then show ?thesis using assms(1) by (auto simp: frac_def split: if_splits)
  next
    case False
    then have "dropWhile ?z (rev (pad 9 a)) = dropWhile ?z (rev (pad 9 b))"
      using assms(1) by (simp add: frac_def)
    then have "rev (pad 9 a) = rev (pad 9 b)" using refill [of a] refill [of b] assms(2-5) by metis
    then have "pad 9 a @ [] = pad 9 b @ []" by simp
    then show ?thesis using pad_inj [of 9 a "[]" b "[]"] assms(2-5) by simp
  qed
qed

lemma clock_bounds:
  assumes "0 \<le> s" "s < 86400"
  shows "0 \<le> s div 3600 \<and> s div 3600 < 100 \<and> 0 \<le> s mod 3600 div 60 \<and> s mod 3600 div 60 < (100 :: int) \<and>
    0 \<le> s mod 60 \<and> s mod 60 < 100"
proof -
  have "s mod 3600 < 3600" "s mod 60 < 60" by simp_all
  moreover have "s div 3600 < 100" "s mod 3600 div 60 < 100"
    using assms calculation(1) div_bounds(1) [of 3600 s] div_bounds(1) [of 60 "s mod 3600"] by linarith+
  ultimately show ?thesis using assms by (simp add: pos_imp_zdiv_nonneg_iff)
qed

lemma clock_split: "s = s div 3600 * 3600 + s mod 3600 div 60 * 60 + s mod (60 :: int)"
proof -
  have "s mod 3600 mod 60 = s mod 60" by (rule mod_mod_cancel) simp
  then show ?thesis using div_mult_mod_eq [of s 3600] div_mult_mod_eq [of "s mod 3600" 60] by linarith
qed

text \<open>In UTC, the encoded text of a time determines the instant.\<close>

lemma format_time_inj:
  assumes "format_time a = format_time b" "time_encodable a" "time_encodable b"
    and "t_zone a = 0" "t_zone b = 0"
  shows "t_ns a = t_ns b"
proof -
  obtain y m d where ca: "civil (t_ns a div Second div 86400) = (y, m, d)" by (rule prod_cases3)
  obtain y' m' d' where cb: "civil (t_ns b div Second div 86400) = (y', m', d')" by (rule prod_cases3)
  have ra: "0 \<le> m" "m < 10 ^ 2" "0 \<le> d" "d < 10 ^ 2" using civil_bounds [OF ca] by simp_all
  have rb: "0 \<le> m'" "m' < 10 ^ 2" "0 \<le> d'" "d' < 10 ^ 2" using civil_bounds [OF cb] by simp_all
  have y: "0 \<le> y" "y < 10 ^ 4" "0 \<le> y'" "y' < 10 ^ 4"
    using assms(2-5) ca cb by (simp_all add: time_encodable_def)
  define s where "s t = t_ns t div Second mod 86400" for t :: gotime
  define rest where "rest t =
    pad 2 (s t div 3600) @ '':'' @ pad 2 (s t mod 3600 div 60) @ '':'' @ pad 2 (s t mod 60) @
    frac (t_ns t mod Second) @ ''Z''" for t
  have "pad 4 y @ ''-'' @ pad 2 m @ ''-'' @ pad 2 d @ ''T'' @ rest a =
      pad 4 y' @ ''-'' @ pad 2 m' @ ''-'' @ pad 2 d' @ ''T'' @ rest b"
    using assms(1,4,5) ca cb by (simp add: format_time_def rest_def s_def format_zone_def Let_def)
  from pad_inj [OF this y] have 1: "y = y'" "pad 2 m @ ''-'' @ pad 2 d @ ''T'' @ rest a =
      pad 2 m' @ ''-'' @ pad 2 d' @ ''T'' @ rest b" by simp_all
  from pad_inj [OF 1(2) ra(1,2) rb(1,2)] have 2: "m = m'" "pad 2 d @ ''T'' @ rest a = pad 2 d' @ ''T'' @ rest b"
    by simp_all
  from pad_inj [OF 2(2) ra(3,4) rb(3,4)] have 3: "d = d'" "rest a = rest b" by simp_all
  have day: "t_ns a div Second div 86400 = t_ns b div Second div 86400"
    using civil_inj ca cb 1(1) 2(1) 3(1) by metis
  have s: "0 \<le> s t" "s t < 86400" for t by (simp_all add: s_def)
  have h: "0 \<le> s t div 3600" "s t div 3600 < 10 ^ 2" "0 \<le> s t mod 3600 div 60" "s t mod 3600 div 60 < 10 ^ 2"
      "0 \<le> s t mod 60" "s t mod 60 < 10 ^ 2" for t
    using clock_bounds [OF s] by simp_all
  from pad_inj [OF 3(2) [unfolded rest_def] h(1,2) h(1,2)]
  have 4: "s a div 3600 = s b div 3600" "pad 2 (s a mod 3600 div 60) @ '':'' @ pad 2 (s a mod 60) @ frac (t_ns a mod Second) @ ''Z'' =
      pad 2 (s b mod 3600 div 60) @ '':'' @ pad 2 (s b mod 60) @ frac (t_ns b mod Second) @ ''Z''" by simp_all
  from pad_inj [OF 4(2) h(3,4) h(3,4)]
  have 5: "s a mod 3600 div 60 = s b mod 3600 div 60"
      "pad 2 (s a mod 60) @ frac (t_ns a mod Second) @ ''Z'' = pad 2 (s b mod 60) @ frac (t_ns b mod Second) @ ''Z''"
    by simp_all
  from pad_inj [OF 5(2) h(5,6) h(5,6)]
  have 6: "s a mod 60 = s b mod 60" "frac (t_ns a mod Second) = frac (t_ns b mod Second)" by simp_all
  have "t_ns a mod Second = t_ns b mod Second"
    using frac_inj [OF 6(2)] by (simp add: Second_def)
  moreover have "s a = s b" using clock_split [of "s a"] clock_split [of "s b"] 4(1) 5(1) 6(1) by simp
  then have "t_ns a div Second = t_ns b div Second"
    using day unfolding s_def by (metis div_mult_mod_eq)
  ultimately show ?thesis by (metis div_mult_mod_eq)
qed

end
