(* ===== verification/Go_Json.thy ===== *)
theory Go_Json
  imports Go_Strings
begin

text \<open>
  \<open>json.Marshal\<close> as the packages use it: a document is built from a struct by listing its
  fields in order, and printed without white space, with the string escapes of Go 1.22
  (HTML characters, control characters, invalid UTF-8 and the two line separators are
  escaped). The printed text determines the document when its strings are valid UTF-8: that
  is what makes a signature over the text a signature over the values.
\<close>

section \<open>Documents and printing\<close>

datatype json =
    JNull
  | JBool bool
  | JInt int
  | JStr string
  | JArr "json list"
  | JObj "(string \<times> json) list"

definition ccode :: "char \<Rightarrow> nat" where
  "ccode c = of_char c"

definition hex_digit :: "nat \<Rightarrow> char" where
  "hex_digit n = (if n < 10 then char_of (48 + n) else char_of (87 + n))"

text \<open>The number of bytes of the UTF-8 sequence that a string starts with, 0 if it is invalid.\<close>

definition cont :: "nat \<Rightarrow> nat \<Rightarrow> char \<Rightarrow> bool" where
  "cont lo hi c = (lo \<le> ccode c \<and> ccode c \<le> hi)"

definition utf8_len :: "string \<Rightarrow> nat" where
  "utf8_len s =
     (case s of
        [] \<Rightarrow> 0
      | a # r \<Rightarrow>
          (if ccode a < 128 then 1
           else if 194 \<le> ccode a \<and> ccode a \<le> 223 then
             (case r of b # _ \<Rightarrow> if cont 128 191 b then 2 else 0 | _ \<Rightarrow> 0)
           else if 224 \<le> ccode a \<and> ccode a \<le> 239 then
             (case r of b # c # _ \<Rightarrow>
                if cont (if ccode a = 224 then 160 else 128) (if ccode a = 237 then 159 else 191) b \<and>
                   cont 128 191 c then 3 else 0
              | _ \<Rightarrow> 0)
           else if 240 \<le> ccode a \<and> ccode a \<le> 244 then
             (case r of b # c # d # _ \<Rightarrow>
                if cont (if ccode a = 240 then 144 else 128) (if ccode a = 244 then 143 else 191) b \<and>
                   cont 128 191 c \<and> cont 128 191 d then 4 else 0
              | _ \<Rightarrow> 0)
           else 0))"

lemma utf8_len_le: "utf8_len s \<le> length s"
  by (auto simp: utf8_len_def split: list.splits)

definition bs :: char where "bs = CHR 0x5C"
definition dq :: char where "dq = CHR 0x22"

definition escape_ascii :: "bool \<Rightarrow> char \<Rightarrow> string" where
  "escape_ascii h c =
     (let n = ccode c in
      if n = 34 \<or> n = 92 then [bs, c]
      else if n = 8 then [bs, CHR ''b'']
      else if n = 12 then [bs, CHR ''f'']
      else if n = 10 then [bs, CHR ''n'']
      else if n = 13 then [bs, CHR ''r'']
      else if n = 9 then [bs, CHR ''t'']
      else if n < 32 \<or> h \<and> (n = 60 \<or> n = 62 \<or> n = 38) then bs # ''u00'' @ [hex_digit (n div 16), hex_digit (n mod 16)]
      else [c])"

definition line_sep :: "string \<Rightarrow> bool" where
  "line_sep s = (map ccode s = [226, 128, 168] \<or> map ccode s = [226, 128, 169])"

function json_escape :: "bool \<Rightarrow> string \<Rightarrow> string" where
  "json_escape h [] = []"
| "json_escape h (c # s) =
     (if ccode c < 128 then escape_ascii h c @ json_escape h s
      else let n = utf8_len (c # s) in
        if n = 0 then bs # ''ufffd'' @ json_escape h s
        else (if line_sep (take n (c # s)) then bs # ''u202'' @ [hex_digit (ccode (last (take n (c # s))) - 160)]
              else take n (c # s)) @ json_escape h (drop (n - 1) s))"
  by pat_completeness auto
termination
  by (relation "measure (length \<circ> snd)") auto

definition json_quote :: "bool \<Rightarrow> string \<Rightarrow> string" where
  "json_quote h s = dq # json_escape h s @ [dq]"

fun json_encode :: "bool \<Rightarrow> json \<Rightarrow> string" where
  "json_encode h JNull = ''null''"
| "json_encode h (JBool b) = (if b then ''true'' else ''false'')"
| "json_encode h (JInt i) = dec_int i"
| "json_encode h (JStr s) = json_quote h s"
| "json_encode h (JArr xs) = ''['' @ join '','' (map (json_encode h) xs) @ '']''"
| "json_encode h (JObj fs) = ''{'' @ join '','' (map (\<lambda>(k, v). json_quote h k @ '':'' @ json_encode h v) fs) @ ''}''"

text \<open>\<open>json.Marshal\<close> escapes the HTML characters; an encoder may be told not to.\<close>

abbreviation json_print :: "json \<Rightarrow> string" where
  "json_print \<equiv> json_encode True"

text \<open>
  A slice is an array; \<open>append([]T(nil), xs...)\<close> of an empty slice is nil and prints as
  \<open>null\<close>.
\<close>

definition json_slice :: "('a \<Rightarrow> json) \<Rightarrow> 'a list \<Rightarrow> json" where
  "json_slice f xs = JArr (map f xs)"

definition json_appended :: "('a \<Rightarrow> json) \<Rightarrow> 'a list \<Rightarrow> json" where
  "json_appended f xs = (if xs = [] then JNull else JArr (map f xs))"

definition json_u64 :: "u64 \<Rightarrow> json" where
  "json_u64 w = JInt (int (unat w))"

definition json_u32 :: "u32 \<Rightarrow> json" where
  "json_u32 w = JInt (int (unat w))"

section \<open>Reading a quoted string back\<close>

function valid_utf8 :: "string \<Rightarrow> bool" where
  "valid_utf8 [] = True"
| "valid_utf8 (c # s) =
     (utf8_len (c # s) \<noteq> 0 \<and> valid_utf8 (drop (utf8_len (c # s) - 1) s))"
  by pat_completeness auto
termination
  by (relation "measure length") auto

lemma valid_utf8_ascii: "list_all (\<lambda>c. ccode c < 128) s \<Longrightarrow> valid_utf8 s"
  by (induction s) (auto simp: utf8_len_def)

definition hex_val :: "char \<Rightarrow> nat" where
  "hex_val c = (if ccode c < 58 then ccode c - 48 else ccode c - 87)"

text \<open>The bytes of the code points that the printer writes as \<open>\uXXXX\<close>.\<close>

definition unicode :: "char \<Rightarrow> char \<Rightarrow> char \<Rightarrow> char \<Rightarrow> string" where
  "unicode a b c d =
     (if a = CHR ''0'' then [char_of (16 * hex_val c + hex_val d)]
      else [char_of (226 :: nat), char_of (128 :: nat), char_of (160 + hex_val d)])"

definition simple_escape :: "char \<Rightarrow> char" where
  "simple_escape d =
     (if d = CHR ''b'' then char_of (8 :: nat)
      else if d = CHR ''f'' then char_of (12 :: nat)
      else if d = CHR ''n'' then char_of (10 :: nat)
      else if d = CHR ''r'' then char_of (13 :: nat)
      else if d = CHR ''t'' then char_of (9 :: nat)
      else d)"

definition put :: "string \<Rightarrow> (string \<times> string) option \<Rightarrow> (string \<times> string) option" where
  "put p m = map_option (\<lambda>(x, y). (p @ x, y)) m"

fun read_str :: "string \<Rightarrow> (string \<times> string) option" where
  "read_str [] = None"
| "read_str (c # s) =
     (if c = dq then Some ([], s)
      else if c = bs then
        (case s of
           [] \<Rightarrow> None
         | d # r \<Rightarrow>
             if d = CHR ''u'' then
               (case r of w # x # y # z # r' \<Rightarrow> put (unicode w x y z) (read_str r') | _ \<Rightarrow> None)
             else put [simple_escape d] (read_str r))
      else put [c] (read_str s))"

lemma char_eq_ccode: "c = d \<longleftrightarrow> ccode c = ccode d"
  by (simp add: ccode_def)

lemma code_char_of [simp]: "n < 256 \<Longrightarrow> ccode (char_of n) = n"
  by (simp add: ccode_def)

lemma char_of_code [simp]: "char_of (ccode c) = c"
  by (simp add: ccode_def)

lemma hex_val_hex_digit [simp]: "n < 16 \<Longrightarrow> hex_val (hex_digit n) = n"
  by (simp add: hex_val_def hex_digit_def)

lemma code_bs_dq [simp]: "ccode bs = 92" "ccode dq = 34"
  by (simp_all add: bs_def dq_def ccode_def)

lemma put_simps [simp]:
  "put [] m = m"
  "put p (Some (x, y)) = Some (p @ x, y)"
  "put p (put q m) = put (p @ q) m"
  by (cases m; simp add: put_def split_def)+

lemma read_str_plain:
  "\<forall>c\<in>set p. c \<noteq> dq \<and> c \<noteq> bs \<Longrightarrow> read_str (p @ s) = put p (read_str s)"
  by (induction p) auto

lemma read_str_u00:
  assumes "n < 128"
  shows "read_str ((bs # ''u00'' @ [hex_digit (n div 16), hex_digit (n mod 16)]) @ s) =
    put [char_of n] (read_str s)"
proof -
  have "n div 16 < 16" "n mod 16 < 16" using assms by auto
  moreover have "bs \<noteq> dq" by (simp add: bs_def dq_def)
  ultimately show ?thesis by (simp add: unicode_def)
qed

lemma read_str_simple:
  "d \<noteq> CHR ''u'' \<Longrightarrow> read_str (bs # d # s) = put [simple_escape d] (read_str s)"
proof -
  assume "d \<noteq> CHR ''u''"
  moreover have "bs \<noteq> dq" by (simp add: bs_def dq_def)
  ultimately show ?thesis by simp
qed

lemma simple_escape_simps [simp]:
  "ccode c = 8 \<Longrightarrow> simple_escape (CHR ''b'') = c"
  "ccode c = 12 \<Longrightarrow> simple_escape (CHR ''f'') = c"
  "ccode c = 10 \<Longrightarrow> simple_escape (CHR ''n'') = c"
  "ccode c = 13 \<Longrightarrow> simple_escape (CHR ''r'') = c"
  "ccode c = 9 \<Longrightarrow> simple_escape (CHR ''t'') = c"
  by (simp_all add: simple_escape_def) (metis char_of_code)+

lemma read_str_escape_ascii:
  assumes "ccode c < 128"
  shows "read_str (escape_ascii h c @ s) = put [c] (read_str s)"
proof -
  let ?n = "ccode c"
  consider (q) "?n = 34 \<or> ?n = 92" | (b) "?n = 8" | (f) "?n = 12" | (n) "?n = 10" | (r) "?n = 13"
    | (t) "?n = 9"
    | (u) "?n \<notin> {34, 92, 8, 12, 10, 13, 9}" "?n < 32 \<or> h \<and> (?n = 60 \<or> ?n = 62 \<or> ?n = 38)"
    | (o) "?n \<notin> {34, 92, 8, 12, 10, 13, 9}" "\<not> (?n < 32 \<or> h \<and> (?n = 60 \<or> ?n = 62 \<or> ?n = 38))"
    by auto
  then show ?thesis
  proof cases
    case q
    then have "c = dq \<or> c = bs" using char_eq_ccode by simp
    then have "c \<noteq> CHR ''u''" "simple_escape c = c"
      by (auto simp: simple_escape_def dq_def bs_def)
    with q show ?thesis
      using read_str_simple [of c s] by (simp add: escape_ascii_def Let_def del: read_str.simps)
  next
    case u
    then have "escape_ascii h c = bs # ''u00'' @ [hex_digit (?n div 16), hex_digit (?n mod 16)]"
      by (simp add: escape_ascii_def Let_def)
    then show ?thesis using read_str_u00 [OF assms] by simp
  next
    case o
    then have "escape_ascii h c = [c]" by (simp add: escape_ascii_def Let_def)
    with o show ?thesis using read_str_plain [of "[c]" s] by (simp add: char_eq_ccode [of c])
  qed (simp_all add: escape_ascii_def Let_def read_str_simple del: read_str.simps)
qed

lemma utf8_len_bytes:
  assumes "\<not> ccode c < 128"
  shows "list_all (\<lambda>x. 128 \<le> ccode x) (take (utf8_len (c # s)) (c # s))"
proof -
  have c: "cont 128 hi x \<Longrightarrow> 128 \<le> ccode x" "cont 144 hi x \<Longrightarrow> 128 \<le> ccode x"
      "cont 160 hi x \<Longrightarrow> 128 \<le> ccode x" for hi x
    by (simp_all add: cont_def)
  consider "s = []" | x where "s = [x]" | x y where "s = [x, y]" | x y z r where "s = x # y # z # r"
    by (metis list.exhaust)
  then show ?thesis
    using assms by cases (simp_all add: utf8_len_def, (blast dest: c)+)
qed

lemma line_sep_read:
  assumes "line_sep t"
  shows "read_str ((bs # ''u202'' @ [hex_digit (ccode (last t) - 160)]) @ s) = put t (read_str s)"
proof -
  obtain x y z where t: "t = [x, y, z]" "ccode x = 226" "ccode y = 128" "ccode z = 168 \<or> ccode z = 169"
    using assms by (auto simp: line_sep_def map_eq_Cons_conv)
  have c: "char_of (226 :: nat) = x" "char_of (128 :: nat) = y" "char_of (160 + (ccode z - 160)) = z"
    using t(2-4) by (auto simp: char_eq_ccode)
  have "bs \<noteq> dq" by (simp add: bs_def dq_def)
  with t c show ?thesis by (auto simp: unicode_def)
qed

lemma read_str_json_escape:
  "valid_utf8 s \<Longrightarrow> read_str (json_escape h s @ dq # r) = Some (s, r)"
proof (induction h s rule: json_escape.induct)
  case (2 h c s)
  show ?case
  proof (cases "ccode c < 128")
    case True
    then have "valid_utf8 s" using "2.prems" by (simp add: utf8_len_def)
    with True "2.IH"(1) show ?thesis by (simp add: read_str_escape_ascii)
  next
    case False
    let ?n = "utf8_len (c # s)"
    have n: "?n \<noteq> 0" and v: "valid_utf8 (drop (?n - 1) s)" using "2.prems" by auto
    have IH: "read_str (json_escape h (drop (?n - 1) s) @ dq # r) = Some (drop (?n - 1) s, r)"
      using "2.IH"(3) False n v by blast
    have cut: "take ?n (c # s) @ drop (?n - 1) s = c # s"
      using n by (cases ?n) simp_all
    show ?thesis
    proof (cases "line_sep (take ?n (c # s))")
      case True
      then show ?thesis
        using False n IH cut line_sep_read [OF True] by (simp add: Let_def)
    next
      case nl: False
      have "\<forall>x\<in>set (take ?n (c # s)). x \<noteq> dq \<and> x \<noteq> bs"
        using utf8_len_bytes [OF False, of s] unfolding list_all_iff char_eq_ccode code_bs_dq by fastforce
      from read_str_plain [OF this] show ?thesis
        using False n IH cut nl by (simp add: Let_def)
    qed
  qed
qed simp

lemma json_quote_inj:
  assumes "json_quote h s @ r = json_quote h s' @ r'" "valid_utf8 s" "valid_utf8 s'"
  shows "s = s' \<and> r = r'"
proof -
  have "json_escape h s @ dq # r = json_escape h s' @ dq # r'"
    using assms(1) by (simp add: json_quote_def)
  then have "Some (s, r) = Some (s', r')"
    using read_str_json_escape [OF assms(2), of h r] read_str_json_escape [OF assms(3), of h r'] by metis
  then show ?thesis by simp
qed

section \<open>The printed text determines the document\<close>

fun json_wf :: "json \<Rightarrow> bool" where
  "json_wf (JStr s) = valid_utf8 s"
| "json_wf (JArr xs) = list_all json_wf xs"
| "json_wf (JObj fs) = list_all (\<lambda>(k, v). valid_utf8 k \<and> json_wf v) fs"
| "json_wf j = True"

text \<open>What can follow a value inside a document.\<close>

definition delim :: "string \<Rightarrow> bool" where
  "delim r = (case r of [] \<Rightarrow> True | c # _ \<Rightarrow> c = CHR '','' \<or> c = CHR '']'' \<or> c = CHR ''}'')"

lemma delim_simps [simp]:
  "delim []"
  "delim (c # r) \<longleftrightarrow> c = CHR '','' \<or> c = CHR '']'' \<or> c = CHR ''}''"
  by (simp_all add: delim_def)

lemma delim_no_digit: "delim r \<Longrightarrow> no_digit r"
  by (auto simp: delim_def no_digit_def is_digit_def char_le_nat split: list.splits)

definition closer :: "char \<Rightarrow> bool" where
  "closer c \<longleftrightarrow> c = CHR '']'' \<or> c = CHR ''}''"

definition opens :: "string \<Rightarrow> bool" where
  "opens s \<longleftrightarrow> (\<exists>c w. s = c # w \<and> \<not> closer c \<and> c \<noteq> CHR '','')"

lemma join_Cons: "join sep (x # xs) = x @ (if xs = [] then [] else sep @ join sep xs)"
  by (cases xs) simp_all

lemma opens_not_close: "opens s \<Longrightarrow> closer e \<Longrightarrow> s @ u \<noteq> e # v"
  by (auto simp: opens_def)

lemma join_print_inj:
  assumes "\<forall>x\<in>set xs. \<forall>y r r'. Q y \<longrightarrow> delim r \<longrightarrow> delim r' \<longrightarrow> p x @ r = p y @ r' \<longrightarrow> x = y \<and> r = r'"
    and "\<forall>x\<in>set xs \<union> set ys. opens (p x)" and "\<forall>y\<in>set ys. Q y" and "closer e"
    and "join '','' (map p xs) @ e # r = join '','' (map p ys) @ e # r'"
  shows "xs = ys \<and> r = r'"
  using assms
proof (induction xs arbitrary: ys)
  case Nil
  show ?case
  proof (cases ys)
    case Nil
    then show ?thesis using Nil.prems by simp
  next
    case (Cons y ys')
    define u where "u = (if ys' = [] then [] else '','' @ join '','' (map p ys')) @ e # r'"
    have "e # r = p y @ u"
      using Nil.prems(5) unfolding Cons u_def by (simp only: list.map join_Cons append.simps join.simps append_assoc map_is_Nil_conv)
    moreover have "opens (p y)" using Nil.prems(2) Cons by simp
    ultimately show ?thesis using opens_not_close Nil.prems(4) by metis
  qed
next
  case (Cons x xs)
  show ?case
  proof (cases ys)
    case Nil
    define u where "u = (if xs = [] then [] else '','' @ join '','' (map p xs)) @ e # r"
    have "p x @ u = e # r'"
      using Cons.prems(5) unfolding Nil u_def by (simp only: list.map join_Cons append.simps join.simps append_assoc map_is_Nil_conv)
    moreover have "opens (p x)" using Cons.prems(2) by simp
    ultimately show ?thesis using opens_not_close Cons.prems(4) by metis
  next
    case ys: (Cons y ys')
    let ?tl = "\<lambda>zs q. if zs = [] then e # q else '','' @ join '','' (map p zs) @ e # q"
    have d: "delim (?tl zs q)" for zs q using Cons.prems(4) by (auto simp: closer_def)
    have j: "join '','' (map p (z # zs)) @ e # q = p z @ ?tl zs q" for z zs q
      by (simp add: join_Cons)
    have eq: "p x @ ?tl xs r = p y @ ?tl ys' r'"
      using Cons.prems(5) unfolding ys j .
    have "Q y" using Cons.prems(3) ys by simp
    then have "x = y \<and> ?tl xs r = ?tl ys' r'"
      using Cons.prems(1) [THEN bspec, OF list.set_intros(1), THEN spec, THEN spec, THEN spec,
          THEN mp, THEN mp, THEN mp, THEN mp, OF _ d d eq] by blast
    then have xy: "x = y" and tl: "?tl xs r = ?tl ys' r'" by blast+
    have e: "e \<noteq> CHR '',''" using Cons.prems(4) by (auto simp: closer_def)
    have "xs = ys' \<and> r = r'"
    proof (cases "xs = []"; cases "ys' = []")
      assume c: "xs \<noteq> []" "ys' \<noteq> []"
      then have "join '','' (map p xs) @ e # r = join '','' (map p ys') @ e # r'"
        using tl by simp
      moreover have "\<forall>x\<in>set xs \<union> set ys'. opens (p x)" "\<forall>y\<in>set ys'. Q y"
        using Cons.prems(2,3) ys by simp_all
      moreover note Cons.prems(1) [unfolded list.set ball_simps, THEN conjunct2]
      ultimately show ?thesis using Cons.IH Cons.prems(4) by blast
    qed (use tl e in simp_all)
    then show ?thesis using ys xy by simp
  qed
qed

lemma dec_int_inj: "dec_int i @ r = dec_int k @ r' \<Longrightarrow> no_digit r \<Longrightarrow> no_digit r' \<Longrightarrow> i = k \<and> r = r'"
proof -
  assume h: "dec_int i @ r = dec_int k @ r'" "no_digit r" "no_digit r'"
  have no: "dec_nat m @ u \<noteq> CHR ''-'' # v" for m u v
  proof
    assume "dec_nat m @ u = CHR ''-'' # v"
    then have "CHR ''-'' \<in> set (dec_nat m)"
      by (metis append_eq_Cons_conv dec_nat_nonempty list.set_intros(1))
    then show False using dec_nat_digits by (force simp: is_digit_def char_le_nat)
  qed
  show ?thesis
  proof (cases "i < 0"; cases "k < 0")
    assume c: "i < 0" "k < 0"
    then show ?thesis
      using h dec_nat_inj [of "nat (- i)" r "nat (- k)" r'] by (auto simp: dec_int_def)
  next
    assume c: "\<not> i < 0" "\<not> k < 0"
    then show ?thesis
      using h dec_nat_inj [of "nat i" r "nat k" r'] by (auto simp: dec_int_def)
  next
    assume c: "i < 0" "\<not> k < 0"
    then show ?thesis using h no [of "nat k" r'] by (simp add: dec_int_def) metis
  next
    assume c: "\<not> i < 0" "k < 0"
    then show ?thesis using h no [of "nat i" r] by (simp add: dec_int_def)
  qed
qed

text \<open>The kind of a document shows in its first character.\<close>

definition kind_char :: "json \<Rightarrow> char \<Rightarrow> bool" where
  "kind_char j c = (case j of
      JNull \<Rightarrow> c = CHR ''n''
    | JBool b \<Rightarrow> c = (if b then CHR ''t'' else CHR ''f'')
    | JInt i \<Rightarrow> c = CHR ''-'' \<or> is_digit c
    | JStr s \<Rightarrow> c = dq
    | JArr xs \<Rightarrow> c = CHR ''[''
    | JObj fs \<Rightarrow> c = CHR ''{'')"

lemma json_encode_kind: "\<exists>c w. json_encode h j = c # w \<and> kind_char j c"
proof (cases j)
  case (JInt i)
  have "\<exists>c w. dec_nat m = c # w \<and> is_digit c" for m
    using dec_nat_digits [of _ m] by (cases "dec_nat m") auto
  then show ?thesis using JInt by (cases "i < 0") (simp_all add: kind_char_def dec_int_def, blast)
qed (auto simp: kind_char_def json_quote_def)

lemma json_encode_opens: "opens (json_encode h j)"
proof -
  obtain c w where "json_encode h j = c # w" "kind_char j c" using json_encode_kind by blast
  then show ?thesis
    by (auto simp: opens_def closer_def kind_char_def dq_def is_digit_def char_le_nat
        split: json.splits if_splits)
qed

definition same_kind :: "json \<Rightarrow> json \<Rightarrow> bool" where
  "same_kind j k = (case (j, k) of
      (JNull, JNull) \<Rightarrow> True | (JBool a, JBool b) \<Rightarrow> a = b | (JInt _, JInt _) \<Rightarrow> True
    | (JStr _, JStr _) \<Rightarrow> True | (JArr _, JArr _) \<Rightarrow> True | (JObj _, JObj _) \<Rightarrow> True | _ \<Rightarrow> False)"

lemma kind_char_same: "kind_char j c \<Longrightarrow> kind_char k c \<Longrightarrow> same_kind j k"
  by (cases j; cases k; simp add: kind_char_def same_kind_def dq_def is_digit_def char_le_nat split: if_splits)

lemma json_encode_same_kind:
  assumes "json_encode h j @ r = json_encode h k @ r'"
  shows "same_kind j k"
proof -
  obtain c w where "json_encode h j = c # w" "kind_char j c" using json_encode_kind by blast
  moreover obtain d v where "json_encode h k = d # v" "kind_char k d" using json_encode_kind by blast
  ultimately show ?thesis using assms kind_char_same by simp
qed

definition print_field :: "bool \<Rightarrow> string \<times> json \<Rightarrow> string" where
  "print_field h f = json_quote h (fst f) @ '':'' @ json_encode h (snd f)"

lemma json_encode_JObj: "json_encode h (JObj fs) = ''{'' @ join '','' (map (print_field h) fs) @ ''}''"
  by (simp add: print_field_def [abs_def] split_def)

theorem json_encode_inj:
  "json_wf j \<Longrightarrow> json_wf k \<Longrightarrow> delim r \<Longrightarrow> delim r' \<Longrightarrow>
     json_encode h j @ r = json_encode h k @ r' \<Longrightarrow> j = k \<and> r = r'"
proof (induction j arbitrary: k r r')
  case (JInt i)
  then obtain m where k: "k = JInt m"
    using json_encode_same_kind [OF JInt.prems(5)] by (cases k) (auto simp: same_kind_def)
  then show ?case
    using JInt.prems dec_int_inj [of i r m r'] by (simp add: delim_no_digit)
next
  case (JStr s)
  then obtain t where k: "k = JStr t"
    using json_encode_same_kind [OF JStr.prems(5)] by (cases k) (auto simp: same_kind_def)
  then show ?case
    using JStr.prems json_quote_inj [of h s r t r'] by simp
next
  case (JArr xs)
  then obtain ys where k: "k = JArr ys"
    using json_encode_same_kind [OF JArr.prems(5)] by (cases k) (auto simp: same_kind_def)
  have "\<forall>x\<in>set xs. \<forall>y r r'. json_wf y \<longrightarrow> delim r \<longrightarrow> delim r' \<longrightarrow>
      json_encode h x @ r = json_encode h y @ r' \<longrightarrow> x = y \<and> r = r'"
    using JArr.IH JArr.prems(1) by (simp add: list_all_iff)
  moreover have "join '','' (map (json_encode h) xs) @ CHR '']'' # r = join '','' (map (json_encode h) ys) @ CHR '']'' # r'"
    using JArr.prems(5) k by simp
  ultimately have "xs = ys \<and> r = r'"
    using join_print_inj [of xs json_wf "json_encode h" ys "CHR '']''" r r'] JArr.prems(2) k
    by (simp add: json_encode_opens list_all_iff closer_def)
  then show ?case using k by simp
next
  case (JObj fs)
  then obtain gs where k: "k = JObj gs"
    using json_encode_same_kind [OF JObj.prems(5)] by (cases k) (auto simp: same_kind_def)
  let ?Q = "\<lambda>g. valid_utf8 (fst g) \<and> json_wf (snd g)"
  have field: "f = g \<and> u = u'"
    if f: "f \<in> set fs" and g: "?Q g" and d: "delim u" "delim u'" and
      e: "print_field h f @ u = print_field h g @ u'" for f g u u'
  proof -
    have wf: "valid_utf8 (fst f)" "json_wf (snd f)"
      using JObj.prems(1) f by (auto simp: list_all_iff)
    have "json_quote h (fst f) @ ('':'' @ json_encode h (snd f) @ u) = json_quote h (fst g) @ ('':'' @ json_encode h (snd g) @ u')"
      using e by (simp add: print_field_def)
    then have q: "fst f = fst g \<and> '':'' @ json_encode h (snd f) @ u = '':'' @ json_encode h (snd g) @ u'"
      using wf(1) g by (intro json_quote_inj) auto
    have "snd f \<in> Basic_BNFs.snds f" by (simp add: snds.simps)
    then have "snd f = snd g \<and> u = u'"
      using q g by (intro JObj.IH [OF f _ wf(2) _ d]) simp_all
    with q show ?thesis by (simp add: prod_eq_iff)
  qed
  have opens: "opens (print_field h f)" for f
    by (auto simp: opens_def print_field_def json_quote_def closer_def dq_def)
  have "join '','' (map (print_field h) fs) @ CHR ''}'' # r = join '','' (map (print_field h) gs) @ CHR ''}'' # r'"
    using JObj.prems(5) k by (simp add: json_encode_JObj del: json_encode.simps)
  moreover have "\<forall>g\<in>set gs. ?Q g" using JObj.prems(2) k by (auto simp: list_all_iff)
  ultimately have "fs = gs \<and> r = r'"
    using join_print_inj [of fs ?Q "print_field h" gs "CHR ''}''" r r'] field opens
    by (simp add: closer_def)
  then show ?case using k by simp
next
  case JNull
  then have "k = JNull"
    using json_encode_same_kind [OF JNull.prems(5)] by (cases k) (auto simp: same_kind_def)
  then show ?case using JNull.prems by simp
next
  case (JBool b)
  then have "k = JBool b"
    using json_encode_same_kind [OF JBool.prems(5)] by (cases k) (auto simp: same_kind_def)
  then show ?case using JBool.prems by simp
qed

declare valid_utf8.simps(2) [simp del]

end
