(* ===== verification/Go_Patterns.thy ===== *)
theory Go_Patterns
  imports Go_Strings
begin

text \<open>
  The regular expressions of the packages. Every pattern but two is a sequence of character
  classes with repetition bounds between \<open>^\<close> and \<open>$\<close>; such a sequence is a list of items, and
  a string matches if it can be cut into pieces that fit the items in order.
\<close>

section \<open>Matching a sequence of bounded classes\<close>

type_synonym item = "(char \<Rightarrow> bool) \<times> nat \<times> nat option"

fun re_match :: "item list \<Rightarrow> string \<Rightarrow> bool" where
  "re_match [] s = (s = [])"
| "re_match ((P, m, n) # its) s =
     list_ex (\<lambda>k. k \<le> length s \<and> list_all P (take k s) \<and> re_match its (drop k s))
       [m ..< Suc (case n of None \<Rightarrow> length s | Some b \<Rightarrow> b)]"

definition lit :: "string \<Rightarrow> item list" where
  "lit s = map (\<lambda>c. ((=) c, 1, Some 1)) s"

definition cls :: "(char \<Rightarrow> bool) \<Rightarrow> nat \<Rightarrow> nat \<Rightarrow> item list" where
  "cls P m n = [(P, m, Some n)]"

definition many :: "(char \<Rightarrow> bool) \<Rightarrow> nat \<Rightarrow> item list" where
  "many P m = [(P, m, None)]"

lemma re_match_chars:
  "re_match its s \<Longrightarrow> c \<in> set s \<Longrightarrow> \<exists>P m n. (P, m, n) \<in> set its \<and> P c"
proof (induction its s arbitrary: c rule: re_match.induct)
  case (2 P m n its s)
  from "2.prems"(1) obtain k where
    k: "k \<in> set [m..<Suc (case n of None \<Rightarrow> length s | Some b \<Rightarrow> b)]" "k \<le> length s"
       "list_all P (take k s)" "re_match its (drop k s)"
    by (auto simp: list_ex_iff)
  have "c \<in> set (take k s) \<or> c \<in> set (drop k s)"
    using "2.prems"(2) by (metis Un_iff append_take_drop_id set_append)
  then show ?case
  proof
    assume "c \<in> set (take k s)"
    then show ?thesis using k(3) by (force simp: list_all_iff)
  next
    assume "c \<in> set (drop k s)"
    then show ?thesis using "2.IH" k by (metis list.set_intros(2))
  qed
qed simp

lemma re_match_append_iff:
  "re_match (i1 @ i2) s \<longleftrightarrow> (\<exists>u v. s = u @ v \<and> re_match i1 u \<and> re_match i2 v)"
proof (induction i1 arbitrary: s)
  case (Cons i i1)
  obtain P m n where i: "i = (P, m, n)" by (cases i) auto
  let ?ub = "\<lambda>s. case n of None \<Rightarrow> length (s :: string) | Some b \<Rightarrow> b"
  show ?case
  proof
    assume "re_match ((i # i1) @ i2) s"
    then obtain k where k: "m \<le> k" "k \<le> ?ub s" "k \<le> length s" "list_all P (take k s)"
        "re_match (i1 @ i2) (drop k s)"
      by (auto simp: i list_ex_iff)
    from Cons.IH k(5) obtain u v where uv: "drop k s = u @ v" "re_match i1 u" "re_match i2 v" by blast
    have "re_match (i # i1) (take k s @ u)"
      using k uv by (auto simp: i list_ex_iff intro!: bexI [of _ k] split: option.splits)
    moreover have "s = (take k s @ u) @ v" using uv(1) by (metis append_assoc append_take_drop_id)
    ultimately show "\<exists>u v. s = u @ v \<and> re_match (i # i1) u \<and> re_match i2 v" using uv(3) by blast
  next
    assume "\<exists>u v. s = u @ v \<and> re_match (i # i1) u \<and> re_match i2 v"
    then obtain u v k where k: "s = u @ v" "re_match i2 v" "m \<le> k" "k \<le> ?ub u" "k \<le> length u"
        "list_all P (take k u)" "re_match i1 (drop k u)"
      by (auto simp: i list_ex_iff)
    have "re_match (i1 @ i2) (drop k u @ v)" using Cons.IH k(2,7) by blast
    then show "re_match ((i # i1) @ i2) s"
      using k by (auto simp: i list_ex_iff intro!: bexI [of _ k] split: option.splits)
  qed
qed simp

lemma re_match_lit [simp]: "re_match (lit p) s \<longleftrightarrow> s = p"
proof (induction p arbitrary: s)
  case Nil
  then show ?case by (simp add: lit_def)
next
  case (Cons c p)
  have "lit (c # p) = ((=) c, 1, Some 1) # lit p" by (simp add: lit_def)
  then show ?case using Cons.IH by (cases s) auto
qed

lemma re_match_cls [simp]:
  "re_match (cls P m n) s \<longleftrightarrow> m \<le> length s \<and> length s \<le> n \<and> list_all P s"
  by (auto simp: cls_def list_ex_iff intro!: bexI [of _ "length s"])

lemma re_match_many [simp]: "re_match (many P m) s \<longleftrightarrow> m \<le> length s \<and> list_all P s"
  by (auto simp: many_def list_ex_iff intro!: bexI [of _ "length s"])

lemma re_match_lit_append [simp]: "re_match (lit p @ its) s \<longleftrightarrow> (\<exists>r. s = p @ r \<and> re_match its r)"
  by (auto simp: re_match_append_iff)

lemma re_match_one_append [simp]:
  "re_match (cls P 1 1 @ its) s \<longleftrightarrow> (\<exists>c r. s = c # r \<and> P c \<and> re_match its r)"
proof
  assume "re_match (cls P 1 1 @ its) s"
  then obtain u v where "s = u @ v" "length u = 1" "list_all P u" "re_match its v"
    by (auto simp: re_match_append_iff)
  then show "\<exists>c r. s = c # r \<and> P c \<and> re_match its r" by (cases u) auto
next
  assume "\<exists>c r. s = c # r \<and> P c \<and> re_match its r"
  then obtain c r where "s = [c] @ r" "P c" "re_match its r" by auto
  then show "re_match (cls P 1 1 @ its) s"
    unfolding re_match_append_iff by (intro exI [of _ "[c]"] exI [of _ r]) simp
qed

section \<open>Character classes\<close>

definition in_range :: "char \<Rightarrow> char \<Rightarrow> char \<Rightarrow> bool" where
  "in_range lo hi c = (lo \<le> c \<and> c \<le> hi)"

definition az09 :: "char \<Rightarrow> bool" where
  "az09 c = (in_range (CHR ''a'') (CHR ''z'') c \<or> is_digit c)"

definition az09_dash :: "char \<Rightarrow> bool" where
  "az09_dash c = (az09 c \<or> c = CHR ''-'')"

definition hex_lower :: "char \<Rightarrow> bool" where
  "hex_lower c = (in_range (CHR ''a'') (CHR ''f'') c \<or> is_digit c)"

definition alpha_upper :: "char \<Rightarrow> bool" where
  "alpha_upper c = in_range (CHR ''A'') (CHR ''Z'') c"

section \<open>The patterns\<close>

definition digestPattern :: "string \<Rightarrow> bool" where
  "digestPattern = re_match (cls hex_lower 64 64)"

definition requestIDPattern :: "string \<Rightarrow> bool" where
  "requestIDPattern = re_match
     (cls hex_lower 8 8 @ lit ''-'' @ cls hex_lower 4 4 @ lit ''-'' @
      cls (in_range (CHR ''1'') (CHR ''5'')) 1 1 @ cls hex_lower 3 3 @ lit ''-'' @
      cls (\<lambda>c. c \<in> set ''89ab'') 1 1 @ cls hex_lower 3 3 @ lit ''-'' @ cls hex_lower 12 12)"

definition cageIDPattern :: "string \<Rightarrow> bool" where
  "cageIDPattern = re_match (lit ''cage-'' @ cls az09 1 1 @ cls az09_dash 2 62)"

definition policyIDPattern :: "string \<Rightarrow> bool" where
  "policyIDPattern = re_match (lit ''policy-'' @ cls az09 1 1 @ cls az09_dash 2 62)"

definition hostIDPattern :: "string \<Rightarrow> bool" where
  "hostIDPattern = re_match (lit ''host-'' @ cls az09 1 1 @ cls az09_dash 2 62)"

text \<open>\<open>^spiffe://[a-z0-9][a-z0-9.-]*/[a-zA-Z0-9._/-]+$\<close>, of \<open>resource\<close> and \<open>recovery\<close>.\<close>

definition spiffePattern :: "string \<Rightarrow> bool" where
  "spiffePattern = re_match
     (lit ''spiffe://'' @ cls az09 1 1 @ many (\<lambda>c. az09_dash c \<or> c = CHR ''.'') 0 @ lit ''/'' @
      many (\<lambda>c. az09_dash c \<or> alpha_upper c \<or> c \<in> set ''._/'') 1)"

text \<open>\<open>^[0-9]{1,4}:[0-9]{1,6}$\<close> of \<open>resource\<close>.\<close>

definition devicePattern :: "string \<Rightarrow> bool" where
  "devicePattern = re_match (cls is_digit 1 4 @ lit '':'' @ cls is_digit 1 6)"

text \<open>
  \<open>hostnamePattern\<close> of \<open>resource\<close> is a dot-separated sequence of labels, each
  \<open>[a-z0-9](?:[a-z0-9-]{0,61}[a-z0-9])?\<close>.
\<close>

definition hostname_label :: "string \<Rightarrow> bool" where
  "hostname_label s =
     (re_match (cls az09 1 1) s \<or> re_match (cls az09 1 1 @ cls az09_dash 0 61 @ cls az09 1 1) s)"

definition hostnamePattern :: "string \<Rightarrow> bool" where
  "hostnamePattern s = list_all hostname_label (split_on (CHR ''.'') s)"

text \<open>\<open>namePattern\<close> and \<open>valuePattern\<close> of \<open>integrity\<close>.\<close>

definition namePattern :: "string \<Rightarrow> bool" where
  "namePattern = re_match
     (cls alpha_upper 1 1 @ cls (\<lambda>c. alpha_upper c \<or> is_digit c \<or> c = CHR ''_'') 0 63)"

definition valuePattern :: "string \<Rightarrow> bool" where
  "valuePattern = re_match
     (cls (\<lambda>c. az09_dash c \<or> alpha_upper c \<or> c \<in> set ''._/:+'') 1 255)"

text \<open>\<open>releasePattern\<close> and the two commit patterns of \<open>edition\<close> and \<open>certification\<close>.\<close>

definition releasePattern :: "string \<Rightarrow> bool" where
  "releasePattern = re_match
     (lit ''v'' @ many is_digit 1 @ lit ''.'' @ many is_digit 1 @ lit ''.'' @ many is_digit 1)"

definition edition_commitPattern :: "string \<Rightarrow> bool" where
  "edition_commitPattern s = (re_match (cls hex_lower 40 40) s \<or> re_match (cls hex_lower 64 64) s)"

definition certification_commitPattern :: "string \<Rightarrow> bool" where
  "certification_commitPattern = re_match (cls hex_lower 40 64)"

text \<open>\<open>^spiffe://[a-z0-9][a-z0-9._/-]{2,255}$\<close> of \<open>certification\<close>.\<close>

definition actorPattern :: "string \<Rightarrow> bool" where
  "actorPattern = re_match
     (lit ''spiffe://'' @ cls az09 1 1 @ cls (\<lambda>c. az09_dash c \<or> c \<in> set ''._/'') 2 255)"

lemmas pattern_simps =
  digestPattern_def requestIDPattern_def cageIDPattern_def policyIDPattern_def hostIDPattern_def
  spiffePattern_def devicePattern_def namePattern_def valuePattern_def releasePattern_def
  edition_commitPattern_def certification_commitPattern_def actorPattern_def
  re_match_append_iff

section \<open>Facts about the patterns\<close>

lemma digestPattern_iff: "digestPattern s \<longleftrightarrow> length s = 64 \<and> list_all hex_lower s"
  by (auto simp: digestPattern_def)

lemma hex_lower_not_slash: "hex_lower c \<Longrightarrow> c \<noteq> CHR ''/''"
  by (auto simp: hex_lower_def in_range_def is_digit_def char_le_nat)

lemma az09_dash_not_special:
  assumes "az09_dash c"
  shows "c \<noteq> CHR ''/''" and "c \<noteq> CHR ''.''"
  using assms by (auto simp: az09_dash_def az09_def in_range_def is_digit_def char_le_nat)

text \<open>A cage identifier is a single plain path component of 8 to 68 bytes.\<close>

lemma cageIDPattern_iff:
  "cageIDPattern s \<longleftrightarrow>
     (\<exists>c rest. s = ''cage-'' @ c # rest \<and> az09 c \<and> 2 \<le> length rest \<and> length rest \<le> 62 \<and>
       list_all az09_dash rest)"
  unfolding cageIDPattern_def re_match_lit_append re_match_one_append re_match_cls by auto

lemma cageIDPattern_plain:
  assumes "cageIDPattern s"
  shows "plain s" and "8 \<le> length s" and "length s \<le> 68" and "list_all az09_dash s"
proof -
  obtain c rest where s: "s = ''cage-'' @ c # rest" "az09 c" "2 \<le> length rest" "length rest \<le> 62"
      "list_all az09_dash rest"
    using assms by (auto simp: cageIDPattern_iff)
  show all: "list_all az09_dash s"
    using s by (simp add: az09_dash_def az09_def in_range_def is_digit_def char_le_nat)
  then have "CHR ''/'' \<notin> set s"
    using az09_dash_not_special(1) by (auto simp: list_all_iff)
  then show "plain s" using s(1) by (simp add: plain_def)
  show "8 \<le> length s" "length s \<le> 68" using s by simp_all
qed

end
