(* ===== verification/Go_Crypto.thy ===== *)
theory Go_Crypto
  imports Go_Json Go_Patterns
begin

unbundle bit_operations_syntax

text \<open>
  The encodings and cryptographic functions of Go's standard library that the packages call:
  \<open>hex\<close>, \<open>base64.RawStdEncoding\<close> and SHA-256 are defined; Ed25519 is a parameter with its
  documented correctness as a named hypothesis. The sequence "clear the signature, sign the
  canonical payload, store the encoded signature" that every \<open>Sign...\<close> function of the
  repository runs, and the check that every \<open>Verify...\<close> function runs, are stated once for
  any kind of record, and the interface \<open>signed_record\<close> says what a record must provide.
\<close>

section \<open>Hexadecimal text\<close>

definition hex_EncodeToString :: "bytes \<Rightarrow> string" where
  "hex_EncodeToString b = concat (map (\<lambda>c. [hex_digit (ccode c div 16), hex_digit (ccode c mod 16)]) b)"

lemma code_less [simp]: "ccode c < 256"
proof -
  have "(of_char c :: nat) < 256" using of_char_mod_256 [of c] by (metis mod_less_divisor zero_less_numeral)
  then show ?thesis by (simp add: ccode_def)
qed

lemma hex_digit_lower [simp]: "n < 16 \<Longrightarrow> hex_lower (hex_digit n)"
  by (auto simp: hex_lower_def hex_digit_def in_range_def is_digit_def char_le_nat)

lemma hex_length [simp]: "length (hex_EncodeToString b) = 2 * length b"
  by (induction b) (auto simp: hex_EncodeToString_def)

lemma hex_lower_all: "list_all hex_lower (hex_EncodeToString b)"
proof -
  have "ccode c div 16 < 16" for c using code_less [of c] by linarith
  then show ?thesis by (induction b) (auto simp: hex_EncodeToString_def)
qed

section \<open>Base64 without padding\<close>

definition b64_char :: "nat \<Rightarrow> char" where
  "b64_char v =
     (if v < 26 then char_of (65 + v)
      else if v < 52 then char_of (71 + v)
      else if v < 62 then char_of (v - 4)
      else if v = 62 then CHR ''+'' else CHR ''/'')"

definition b64_val :: "char \<Rightarrow> nat option" where
  "b64_val c =
     (let n = ccode c in
      if 65 \<le> n \<and> n \<le> 90 then Some (n - 65)
      else if 97 \<le> n \<and> n \<le> 122 then Some (n - 71)
      else if 48 \<le> n \<and> n \<le> 57 then Some (n + 4)
      else if n = 43 then Some 62
      else if n = 47 then Some 63
      else None)"

fun b64_groups :: "nat list \<Rightarrow> nat list" where
  "b64_groups [] = []"
| "b64_groups [a] = [a div 4, (a mod 4) * 16]"
| "b64_groups [a, b] = [a div 4, (a mod 4) * 16 + b div 16, (b mod 16) * 4]"
| "b64_groups (a # b # c # r) =
     [a div 4, (a mod 4) * 16 + b div 16, (b mod 16) * 4 + c div 64, c mod 64] @ b64_groups r"

fun b64_ungroup :: "nat list \<Rightarrow> nat list option" where
  "b64_ungroup [] = Some []"
| "b64_ungroup [x] = None"
| "b64_ungroup [x, y] = Some [x * 4 + y div 16]"
| "b64_ungroup [x, y, z] = Some [x * 4 + y div 16, (y mod 16) * 16 + z div 4]"
| "b64_ungroup (x # y # z # w # r) =
     map_option (\<lambda>t. [x * 4 + y div 16, (y mod 16) * 16 + z div 4, (z mod 4) * 64 + w] @ t) (b64_ungroup r)"

definition base64_EncodeToString :: "bytes \<Rightarrow> string" where
  "base64_EncodeToString b = map b64_char (b64_groups (map ccode b))"

text \<open>The decoder skips line breaks, and does not insist on zero trailing bits.\<close>

definition base64_DecodeString :: "string \<Rightarrow> bytes option" where
  "base64_DecodeString s =
     (let t = filter (\<lambda>c. ccode c \<noteq> 10 \<and> ccode c \<noteq> 13) s; vs = map b64_val t in
      if None \<in> set vs then None else map_option (map char_of) (b64_ungroup (map the vs)))"

lemma b64_val_char [simp]: "v < 64 \<Longrightarrow> b64_val (b64_char v) = Some v"
  by (auto simp: b64_char_def b64_val_def Let_def ccode_def)

lemma b64_char_no_break: "v < 64 \<Longrightarrow> ccode (b64_char v) \<noteq> 10 \<and> ccode (b64_char v) \<noteq> 13"
  by (auto simp: b64_char_def ccode_def)

lemma b64_groups_bound: "\<forall>a\<in>set xs. a < 256 \<Longrightarrow> v \<in> set (b64_groups xs) \<Longrightarrow> v < 64"
  by (induction xs rule: b64_groups.induct) auto

lemma b64_ungroup_groups: "\<forall>a\<in>set xs. a < 256 \<Longrightarrow> b64_ungroup (b64_groups xs) = Some xs"
proof (induction xs rule: b64_groups.induct)
  case (4 a b c r)
  have "a div 4 * 4 + ((a mod 4) * 16 + b div 16) div 16 = a"
    "((a mod 4) * 16 + b div 16) mod 16 * 16 + ((b mod 16) * 4 + c div 64) div 4 = b"
    "((b mod 16) * 4 + c div 64) mod 4 * 64 + c mod 64 = c"
    using 4(2) by auto
  then show ?case using 4 by (simp del: mult_div_mod_eq)
qed auto

lemma base64_roundtrip: "base64_DecodeString (base64_EncodeToString b) = Some b"
proof -
  let ?g = "b64_groups (map ccode b)"
  have bound: "v < 64" if "v \<in> set ?g" for v
    using b64_groups_bound [of "map ccode b" v] that by auto
  have filt: "filter (\<lambda>c. ccode c \<noteq> 10 \<and> ccode c \<noteq> 13) (map b64_char ?g) = map b64_char ?g"
    using bound b64_char_no_break by (auto simp: filter_id_conv)
  have vals: "map b64_val (map b64_char ?g) = map Some ?g"
    using bound by simp
  have "b64_ungroup ?g = Some (map ccode b)" by (rule b64_ungroup_groups) auto
  moreover have "map char_of (map ccode b) = b" by (simp add: map_idI)
  ultimately show ?thesis
    unfolding base64_DecodeString_def base64_EncodeToString_def Let_def filt vals by (simp add: comp_def)
qed

section \<open>SHA-256\<close>

definition sha256_K :: "u32 list" where
  "sha256_K =
     [1116352408, 1899447441, 3049323471, 3921009573, 961987163, 1508970993, 2453635748, 2870763221,
      3624381080, 310598401, 607225278, 1426881987, 1925078388, 2162078206, 2614888103, 3248222580,
      3835390401, 4022224774, 264347078, 604807628, 770255983, 1249150122, 1555081692, 1996064986,
      2554220882, 2821834349, 2952996808, 3210313671, 3336571891, 3584528711, 113926993, 338241895,
      666307205, 773529912, 1294757372, 1396182291, 1695183700, 1986661051, 2177026350, 2456956037,
      2730485921, 2820302411, 3259730800, 3345764771, 3516065817, 3600352804, 4094571909, 275423344,
      430227734, 506948616, 659060556, 883997877, 958139571, 1322822218, 1537002063, 1747873779,
      1955562222, 2024104815, 2227730452, 2361852424, 2428436474, 2756734187, 3204031479, 3329325298]"

type_synonym sha_state = "u32 \<times> u32 \<times> u32 \<times> u32 \<times> u32 \<times> u32 \<times> u32 \<times> u32"

definition sha256_init :: sha_state where
  "sha256_init = (1779033703, 3144134277, 1013904242, 2773480762, 1359893119, 2600822924, 528734635, 1541459225)"

definition rotr :: "nat \<Rightarrow> u32 \<Rightarrow> u32" where
  "rotr n w = word_rotr n w"

definition small_sigma0 :: "u32 \<Rightarrow> u32" where
  "small_sigma0 x = rotr 7 x XOR rotr 18 x XOR drop_bit 3 x"

definition small_sigma1 :: "u32 \<Rightarrow> u32" where
  "small_sigma1 x = rotr 17 x XOR rotr 19 x XOR drop_bit 10 x"

definition big_sigma0 :: "u32 \<Rightarrow> u32" where
  "big_sigma0 x = rotr 2 x XOR rotr 13 x XOR rotr 22 x"

definition big_sigma1 :: "u32 \<Rightarrow> u32" where
  "big_sigma1 x = rotr 6 x XOR rotr 11 x XOR rotr 25 x"

text \<open>The message schedule, newest word first.\<close>

fun schedule :: "nat \<Rightarrow> u32 list \<Rightarrow> u32 list" where
  "schedule 0 ws = ws"
| "schedule (Suc n) ws =
     schedule n ((small_sigma1 (ws ! 1) + ws ! 6 + small_sigma0 (ws ! 14) + ws ! 15) # ws)"

fun sha_round :: "u32 \<times> u32 \<Rightarrow> sha_state \<Rightarrow> sha_state" where
  "sha_round (k, w) (a, b, c, d, e, f, g, h) =
     (let t1 = h + big_sigma1 e + ((e AND f) XOR (NOT e AND g)) + k + w;
          t2 = big_sigma0 a + ((a AND b) XOR (a AND c) XOR (b AND c))
      in (t1 + t2, a, b, c, d + t1, e, f, g))"

fun add_state :: "sha_state \<Rightarrow> sha_state \<Rightarrow> sha_state" where
  "add_state (a, b, c, d, e, f, g, h) (a', b', c', d', e', f', g', h') =
     (a + a', b + b', c + c', d + d', e + e', f + f', g + g', h + h')"

definition sha_block :: "u32 list \<Rightarrow> sha_state \<Rightarrow> sha_state" where
  "sha_block ws st = add_state st (fold sha_round (zip sha256_K (rev (schedule 48 (rev ws)))) st)"

definition be_bytes :: "nat \<Rightarrow> nat \<Rightarrow> bytes" where
  "be_bytes w n = map (\<lambda>i. char_of (n div 256 ^ (w - 1 - i) mod 256)) [0..<w]"

definition sha_pad :: "bytes \<Rightarrow> bytes" where
  "sha_pad m =
     m @ char_of (128 :: nat) # replicate ((119 - length m mod 64) mod 64) (CHR 0x00) @
     be_bytes 8 (8 * length m mod 2 ^ 64)"

fun be_words :: "bytes \<Rightarrow> u32 list" where
  "be_words (a # b # c # d # r) =
     word_of_nat (((ccode a * 256 + ccode b) * 256 + ccode c) * 256 + ccode d) # be_words r"
| "be_words r = []"

function sha_blocks :: "u32 list \<Rightarrow> sha_state \<Rightarrow> sha_state" where
  "sha_blocks ws st = (if length ws < 16 then st else sha_blocks (drop 16 ws) (sha_block (take 16 ws) st))"
  by pat_completeness auto
termination
  by (relation "measure (length \<circ> fst)") auto

declare sha_blocks.simps [simp del]

definition sha256_Sum256 :: "bytes \<Rightarrow> bytes" where
  "sha256_Sum256 m =
     (case sha_blocks (be_words (sha_pad m)) sha256_init of
        (a, b, c, d, e, f, g, h) \<Rightarrow> concat (map (\<lambda>w. be_bytes 4 (unat w)) [a, b, c, d, e, f, g, h]))"

lemma be_bytes_length [simp]: "length (be_bytes w n) = w"
  by (simp add: be_bytes_def)

lemma sha256_length [simp]: "length (sha256_Sum256 m) = 32"
  by (simp add: sha256_Sum256_def split: prod.split)

text \<open>\<open>hex.EncodeToString(sha256.Sum256(data))\<close>, the digest every plan carries.\<close>

definition sha256_hex :: "bytes \<Rightarrow> string" where
  "sha256_hex m = hex_EncodeToString (sha256_Sum256 m)"

lemma sha256_hex_digestPattern [simp]: "digestPattern (sha256_hex m)"
  by (simp add: digestPattern_iff sha256_hex_def hex_lower_all)

section \<open>Ed25519\<close>

text \<open>
  A private key of \<open>crypto/ed25519\<close> is the 32-byte seed followed by the 32-byte public key.
  The two functions are parameters; \<open>ed25519_correct\<close> is what the package documents: a
  signature has 64 bytes and verifies under the public half of the key that made it.
\<close>

record ed25519 =
  ed_public :: "bytes \<Rightarrow> bytes"
  ed_sign :: "bytes \<Rightarrow> bytes \<Rightarrow> bytes"
  ed_verify :: "bytes \<Rightarrow> bytes \<Rightarrow> bytes \<Rightarrow> bool"

definition PrivateKeySize :: nat where "PrivateKeySize = 64"
definition PublicKeySize :: nat where "PublicKeySize = 32"
definition SignatureSize :: nat where "SignatureSize = 64"

lemmas ed_sizes = PrivateKeySize_def PublicKeySize_def SignatureSize_def

definition key_Public :: "bytes \<Rightarrow> bytes" where
  "key_Public sk = drop 32 sk"

definition ed_key :: "ed25519 \<Rightarrow> bytes \<Rightarrow> bool" where
  "ed_key E sk = (length sk = PrivateKeySize \<and> drop 32 sk = ed_public E (take 32 sk))"

definition ed25519_correct :: "ed25519 \<Rightarrow> bool" where
  "ed25519_correct E \<longleftrightarrow>
     (\<forall>sk m. ed_key E sk \<longrightarrow>
        length (ed_sign E sk m) = SignatureSize \<and> ed_verify E (key_Public sk) m (ed_sign E sk m))"

lemma key_Public_length [simp]: "ed_key E sk \<Longrightarrow> length (key_Public sk) = PublicKeySize"
proof -
  assume "ed_key E sk"
  then have "length sk = 64" by (simp add: ed_key_def ed_sizes)
  then show ?thesis by (simp add: key_Public_def ed_sizes)
qed

text \<open>
  An instance of the parameter, to show that the hypothesis can hold: it binds a signature to
  the key and to the first 32 bytes of the message.
\<close>

definition demo_ed25519 :: ed25519 where
  "demo_ed25519 = \<lparr>
     ed_public = (\<lambda>seed. seed),
     ed_sign = (\<lambda>sk m. drop 32 sk @ take 32 (m @ replicate 32 (CHR 0x00))),
     ed_verify = (\<lambda>pk m s. s = pk @ take 32 (m @ replicate 32 (CHR 0x00)))\<rparr>"

definition demo_key :: "char \<Rightarrow> bytes" where
  "demo_key c = replicate 64 c"

lemma demo_ed25519_correct: "ed25519_correct demo_ed25519"
  by (auto simp: ed25519_correct_def demo_ed25519_def ed_key_def key_Public_def ed_sizes)

lemma demo_key_ok [simp]: "ed_key demo_ed25519 (demo_key c)"
  by (simp add: ed_key_def demo_ed25519_def demo_key_def ed_sizes)

section \<open>Signed records\<close>

text \<open>
  The body of \<open>SignRequest\<close>, \<open>SignAttestation\<close>, \<open>SignManifest\<close>, \<open>SignEvent\<close>, \<open>SignEvidence\<close>
  and \<open>signRecord\<close>, for a record whose algorithm and signature fields \<open>set_sig\<close> writes and
  whose payload \<open>canonical\<close> computes (\<^const>\<open>None\<close> if it cannot be encoded).
\<close>

definition sign_record ::
  "ed25519 \<Rightarrow> ('r \<Rightarrow> bytes option) \<Rightarrow> (string \<Rightarrow> string \<Rightarrow> 'r \<Rightarrow> 'r) \<Rightarrow> bytes \<Rightarrow> 'r \<Rightarrow> 'r go_result" where
  "sign_record E canonical set_sig key r =
     (if length key \<noteq> PrivateKeySize then Inl (ErrOther ''invalid signing input'')
      else let r0 = set_sig ''ed25519'' [] r in
        case canonical r0 of
          None \<Rightarrow> Inl (ErrOther ''json'')
        | Some payload \<Rightarrow> Inr (set_sig ''ed25519'' (base64_EncodeToString (ed_sign E key payload)) r0))"

text \<open>The signature check at the end of every \<open>Verify...\<close> function.\<close>

definition signature_ok ::
  "ed25519 \<Rightarrow> ('r \<Rightarrow> bytes option) \<Rightarrow> bytes \<Rightarrow> string \<Rightarrow> 'r \<Rightarrow> bool" where
  "signature_ok E canonical key signature r =
     (case base64_DecodeString signature of
        None \<Rightarrow> False
      | Some s \<Rightarrow>
          length s = SignatureSize \<and>
          (case canonical r of None \<Rightarrow> False | Some payload \<Rightarrow> ed_verify E key payload s))"

locale signed_record =
  fixes canonical :: "'r \<Rightarrow> bytes option"
    and set_sig :: "string \<Rightarrow> string \<Rightarrow> 'r \<Rightarrow> 'r"
    and get_alg :: "'r \<Rightarrow> string"
    and get_sig :: "'r \<Rightarrow> string"
  assumes canonical_sig: "canonical (set_sig a s r) = canonical (set_sig a t r)"
    and set_sig_twice: "set_sig a s (set_sig b t r) = set_sig a s r"
    and get_sig_set: "get_sig (set_sig a s r) = s"
    and get_alg_set: "get_alg (set_sig a s r) = a"
begin

lemma sign_record_cases:
  assumes "sign_record E canonical set_sig key r = Inr r'"
  obtains payload where
    "length key = PrivateKeySize"
    "canonical r' = Some payload"
    "r' = set_sig ''ed25519'' (base64_EncodeToString (ed_sign E key payload)) r"
proof -
  have l: "length key = PrivateKeySize"
    using assms by (auto simp: sign_record_def split: if_splits)
  then obtain payload where p: "canonical (set_sig ''ed25519'' [] r) = Some payload"
      "r' = set_sig ''ed25519'' (base64_EncodeToString (ed_sign E key payload)) (set_sig ''ed25519'' [] r)"
    using assms by (auto simp: sign_record_def Let_def split: option.splits)
  then have r': "r' = set_sig ''ed25519'' (base64_EncodeToString (ed_sign E key payload)) r"
    by (simp add: set_sig_twice)
  then have "canonical r' = Some payload"
    using p(1) canonical_sig by metis
  then show ?thesis using that l r' by blast
qed

text \<open>What was signed verifies under the public half of the key.\<close>

lemma sign_record_verifies:
  assumes "ed25519_correct E" "ed_key E key" "sign_record E canonical set_sig key r = Inr r'"
  shows "signature_ok E canonical (key_Public key) (get_sig r') r'" and "get_alg r' = ''ed25519''"
proof -
  obtain payload where p: "canonical r' = Some payload"
      "r' = set_sig ''ed25519'' (base64_EncodeToString (ed_sign E key payload)) r"
    using sign_record_cases [OF assms(3)] by blast
  have "base64_DecodeString (get_sig r') = Some (ed_sign E key payload)"
    using p(2) by (simp add: get_sig_set base64_roundtrip)
  then show "signature_ok E canonical (key_Public key) (get_sig r') r'"
    using p(1) assms(1,2) by (simp add: signature_ok_def ed25519_correct_def)
  show "get_alg r' = ''ed25519''" using p(2) by (simp add: get_alg_set)
qed

lemma sign_record_total:
  assumes "length key = PrivateKeySize" "canonical (set_sig ''ed25519'' [] r) = Some payload"
  shows "sign_record E canonical set_sig key r =
    Inr (set_sig ''ed25519'' (base64_EncodeToString (ed_sign E key payload)) r)"
  using assms by (simp add: sign_record_def Let_def set_sig_twice)

end

end
