(* ===== verification/Lifecycle.thy ===== *)
theory Lifecycle
  imports Go_Url Go_Time Go_Crypto
begin

text \<open>
  Package \<open>lifecycle\<close> (\<open>lifecycle/authority.go\<close>): the signed request boundary. The theory
  holds the request and attestation records, the validators, the canonical encodings, the
  handler \<open>Authorize\<close> with its audit, replay and signing steps, and attestation verification.
\<close>

section \<open>Data\<close>

type_synonym Action = string
type_synonym Profile = string

record ResourcePolicy =
  rp_CPUQuotaMilli :: int
  rp_MemoryMaxBytes :: int
  rp_PidsMax :: int
  rp_IOWeight :: int

record Mount =
  mt_Source :: string
  mt_Destination :: string
  mt_ReadOnly :: bool

record MountPolicy =
  mp_BaseRoot :: string
  mp_Mounts :: "Mount list"
  mp_MandatoryLayers :: "string list"

record NetworkPolicy =
  np_Mode :: string
  np_AllowedEndpoints :: "string list"

record lifecycle_Request =
  rq_Schema :: string
  rq_RequestID :: string
  rq_Action :: Action
  rq_IssuedAt :: gotime
  rq_ExpiresAt :: gotime
  rq_CallerSPIFFEID :: string
  rq_PolicyID :: string
  rq_PolicyDigest :: string
  rq_Profile :: Profile
  rq_CageID :: string
  rq_HostIdentity :: string
  rq_ResourcePolicy :: ResourcePolicy
  rq_MountPolicy :: MountPolicy
  rq_NetworkPolicy :: NetworkPolicy
  rq_ExecutableManifestDigest :: string
  rq_AuditTarget :: string
  rq_SignatureAlgorithm :: string
  rq_Signature :: string

record lifecycle_Attestation =
  at_Schema :: string
  at_AttestationID :: string
  at_RequestID :: string
  at_CageID :: string
  at_Profile :: Profile
  at_HostIdentity :: string
  at_PolicyDigest :: string
  at_EngineReleaseDigest :: string
  at_EnforcementDigest :: string
  at_IssuedAt :: gotime
  at_ExpiresAt :: gotime
  at_MonotonicSequence :: u64
  at_Outcome :: string
  at_SignatureAlgorithm :: string
  at_Signature :: string

section \<open>Constants\<close>

definition lifecycle_Schema :: string where "lifecycle_Schema = ''brick.host-isolation.v1''"
definition SignatureAlgorithm :: string where "SignatureAlgorithm = ''ed25519''"
definition maxRequestValidity :: int where "maxRequestValidity = 15 * Minute"
definition maxClockSkew :: int where "maxClockSkew = 2 * Minute"
definition maxAttestationValidity :: int where "maxAttestationValidity = 10 * Minute"

definition mandatoryLayers :: "string list" where
  "mandatoryLayers =
     [''auditBeforeResponse'', ''callerAuthentication'', ''capabilityDrop'', ''cgroupV2'',
      ''defaultDenyEgress'', ''environmentSanitization'', ''executableManifest'', ''immutableBaseRoot'',
      ''ipcNamespace'', ''mountNamespace'', ''networkNamespace'', ''noNewPrivileges'', ''pidNamespace'',
      ''protectedPathExclusion'', ''replayProtection'', ''seccomp'', ''userNamespace'', ''utsNamespace'']"

definition protectedHostPaths :: "string list" where
  "protectedHostPaths =
     [''/opt/brick'', ''/var/lib/brick'', ''/run/brick'', ''/etc/brick'', ''/root'',
      ''/var/run/docker.sock'', ''/run/containerd/containerd.sock'']"

definition ProfileSharedTenant :: Profile where "ProfileSharedTenant = ''sharedTenant''"
definition ProfileDedicatedAdministrator :: Profile where
  "ProfileDedicatedAdministrator = ''dedicatedAdministrator''"

section \<open>Validators\<close>

definition validAction :: "Action \<Rightarrow> bool" where
  "validAction action =
     (action = ''create'' \<or> action = ''activate'' \<or> action = ''suspend'' \<or> action = ''destroy'' \<or>
      action = ''attest'')"

definition validProfile :: "Profile \<Rightarrow> bool" where
  "validProfile profile = (profile = ProfileSharedTenant \<or> profile = ProfileDedicatedAdministrator)"

definition validSPIFFEID :: "string \<Rightarrow> bool" where
  "validSPIFFEID value =
     (case ParseRequestURI value of
        None \<Rightarrow> False
      | Some u \<Rightarrow> u_Scheme u = ''spiffe'' \<and> u_Host u \<noteq> [] \<and> HasPrefix (u_Path u) ''/'' \<and>
          u_RawQuery u = [] \<and> u_Fragment u = [] \<and> \<not> u_User u)"

definition protectedPath :: "string \<Rightarrow> bool" where
  "protectedPath value =
     list_ex (\<lambda>protected. value = protected \<or> HasPrefix value (protected @ ''/'')) protectedHostPaths"

definition equalStringSet :: "string list \<Rightarrow> string list \<Rightarrow> bool" where
  "equalStringSet = equal_set (\<lambda>_. True)"

definition minTime :: "gotime \<Rightarrow> gotime \<Rightarrow> gotime" where
  "minTime left right = (if time_Before left right then left else right)"

fun validateMounts :: "string list \<Rightarrow> Mount list \<Rightarrow> string" where
  "validateMounts seenDestinations [] = []"
| "validateMounts seenDestinations (mount # mounts) =
     (if \<not> safeAbsolutePath (mt_Source mount) \<or> \<not> safeAbsolutePath (mt_Destination mount) \<or>
         protectedPath (mt_Source mount) \<or> protectedPath (mt_Destination mount) \<or> \<not> mt_ReadOnly mount
      then ''unsafe_mount_policy''
      else if mt_Destination mount \<in> set seenDestinations then ''duplicate_mount_destination''
      else validateMounts (mt_Destination mount # seenDestinations) mounts)"

definition validateMountPolicy :: "MountPolicy \<Rightarrow> string" where
  "validateMountPolicy policy =
     (if \<not> safeAbsolutePath (mp_BaseRoot policy) \<or> protectedPath (mp_BaseRoot policy) \<or>
         \<not> equalStringSet (mp_MandatoryLayers policy) mandatoryLayers
      then ''invalid_mount_policy''
      else validateMounts [] (mp_Mounts policy))"

definition validEndpointURL :: "string \<Rightarrow> bool" where
  "validEndpointURL endpoint =
     (case ParseRequestURI endpoint of
        None \<Rightarrow> False
      | Some u \<Rightarrow> u_Scheme u = ''https'' \<and> u_Host u \<noteq> [] \<and> \<not> u_User u \<and> u_RawQuery u = [] \<and>
          u_Fragment u = [])"

fun validateEndpoints :: "string list \<Rightarrow> string list \<Rightarrow> string" where
  "validateEndpoints seen [] = []"
| "validateEndpoints seen (endpoint # endpoints) =
     (if \<not> validEndpointURL endpoint then ''invalid_egress_endpoint''
      else if endpoint \<in> set seen then ''duplicate_egress_endpoint''
      else validateEndpoints (endpoint # seen) endpoints)"

definition validateNetworkPolicy :: "NetworkPolicy \<Rightarrow> string" where
  "validateNetworkPolicy policy =
     (if np_Mode policy \<noteq> ''defaultDeny'' then ''invalid_network_mode''
      else validateEndpoints [] (np_AllowedEndpoints policy))"

definition validAuditTarget :: "string \<Rightarrow> bool" where
  "validAuditTarget target =
     (case ParseRequestURI target of
        None \<Rightarrow> False
      | Some u \<Rightarrow> u_Scheme u = ''audit'' \<and> u_Host u \<noteq> [] \<and> \<not> u_User u \<and> u_RawQuery u = [] \<and>
          u_Fragment u = [])"

definition validIdentity :: "lifecycle_Request \<Rightarrow> bool" where
  "validIdentity req =
     (rq_Schema req = lifecycle_Schema \<and> rq_SignatureAlgorithm req = SignatureAlgorithm \<and>
      requestIDPattern (rq_RequestID req) \<and> validAction (rq_Action req) \<and>
      validSPIFFEID (rq_CallerSPIFFEID req) \<and> policyIDPattern (rq_PolicyID req) \<and>
      digestPattern (rq_PolicyDigest req) \<and> validProfile (rq_Profile req) \<and>
      cageIDPattern (rq_CageID req) \<and> hostIDPattern (rq_HostIdentity req) \<and>
      digestPattern (rq_ExecutableManifestDigest req))"

definition validWindow :: "lifecycle_Request \<Rightarrow> gotime \<Rightarrow> bool" where
  "validWindow req now =
     (\<not> (time_IsZero (rq_IssuedAt req) \<or> time_IsZero (rq_ExpiresAt req) \<or>
         \<not> time_After (rq_ExpiresAt req) (rq_IssuedAt req) \<or>
         time_Sub (rq_ExpiresAt req) (rq_IssuedAt req) > maxRequestValidity \<or>
         time_After (rq_IssuedAt req) (time_Add now maxClockSkew) \<or>
         \<not> time_After (rq_ExpiresAt req) now))"

definition validResourcePolicy :: "ResourcePolicy \<Rightarrow> bool" where
  "validResourcePolicy p =
     (\<not> (rp_CPUQuotaMilli p \<le> 0 \<or> rp_MemoryMaxBytes p \<le> 0 \<or> rp_PidsMax p \<le> 0 \<or>
         rp_IOWeight p < 1 \<or> rp_IOWeight p > 10000))"

definition validateRequestShape :: "lifecycle_Request \<Rightarrow> gotime \<Rightarrow> string" where
  "validateRequestShape req now =
     (if \<not> validIdentity req then ''invalid_request_identity''
      else if \<not> validWindow req now then ''invalid_request_time_window''
      else if \<not> validResourcePolicy (rq_ResourcePolicy req) then ''invalid_resource_policy''
      else let reason = validateMountPolicy (rq_MountPolicy req) in if reason \<noteq> [] then reason
      else let reason = validateNetworkPolicy (rq_NetworkPolicy req) in if reason \<noteq> [] then reason
      else if \<not> validAuditTarget (rq_AuditTarget req) then ''invalid_audit_target''
      else [])"

section \<open>Canonical encodings and signatures\<close>

definition json_time :: "gotime \<Rightarrow> json" where
  "json_time t = JStr (format_time t)"

definition json_ResourcePolicy :: "ResourcePolicy \<Rightarrow> json" where
  "json_ResourcePolicy p = JObj
     [(''cpuQuotaMilli'', JInt (rp_CPUQuotaMilli p)), (''memoryMaxBytes'', JInt (rp_MemoryMaxBytes p)),
      (''pidsMax'', JInt (rp_PidsMax p)), (''ioWeight'', JInt (rp_IOWeight p))]"

definition json_Mount :: "Mount \<Rightarrow> json" where
  "json_Mount m = JObj
     [(''source'', JStr (mt_Source m)), (''destination'', JStr (mt_Destination m)),
      (''readOnly'', JBool (mt_ReadOnly m))]"

definition json_MountPolicy :: "MountPolicy \<Rightarrow> json" where
  "json_MountPolicy p = JObj
     [(''baseRoot'', JStr (mp_BaseRoot p)), (''mounts'', json_appended json_Mount (mp_Mounts p)),
      (''mandatoryLayers'', json_appended JStr (mp_MandatoryLayers p))]"

definition json_NetworkPolicy :: "NetworkPolicy \<Rightarrow> json" where
  "json_NetworkPolicy p = JObj
     [(''mode'', JStr (np_Mode p)), (''allowedEndpoints'', json_appended JStr (np_AllowedEndpoints p))]"

definition json_Request :: "lifecycle_Request \<Rightarrow> json" where
  "json_Request r = JObj
     [(''schema'', JStr (rq_Schema r)), (''requestId'', JStr (rq_RequestID r)),
      (''action'', JStr (rq_Action r)), (''issuedAt'', json_time (rq_IssuedAt r)),
      (''expiresAt'', json_time (rq_ExpiresAt r)), (''callerSpiffeId'', JStr (rq_CallerSPIFFEID r)),
      (''policyId'', JStr (rq_PolicyID r)), (''policyDigest'', JStr (rq_PolicyDigest r)),
      (''profile'', JStr (rq_Profile r)), (''cageId'', JStr (rq_CageID r)),
      (''hostIdentity'', JStr (rq_HostIdentity r)),
      (''resourcePolicy'', json_ResourcePolicy (rq_ResourcePolicy r)),
      (''mountPolicy'', json_MountPolicy (rq_MountPolicy r)),
      (''networkPolicy'', json_NetworkPolicy (rq_NetworkPolicy r)),
      (''executableManifestDigest'', JStr (rq_ExecutableManifestDigest r)),
      (''auditTarget'', JStr (rq_AuditTarget r)),
      (''signatureAlgorithm'', JStr (rq_SignatureAlgorithm r)), (''signature'', JStr (rq_Signature r))]"

definition mount_key :: "Mount \<Rightarrow> string \<times> string" where
  "mount_key m = (mt_Destination m, mt_Source m)"

text \<open>The copy of the request that is encoded: no signature, and its three slices sorted.\<close>

definition canonical_form :: "lifecycle_Request \<Rightarrow> lifecycle_Request" where
  "canonical_form req =
     req\<lparr>rq_Signature := [],
         rq_MountPolicy := (rq_MountPolicy req)
           \<lparr>mp_MandatoryLayers := sort (mp_MandatoryLayers (rq_MountPolicy req)),
            mp_Mounts := sort_key mount_key (mp_Mounts (rq_MountPolicy req))\<rparr>,
         rq_NetworkPolicy := (rq_NetworkPolicy req)
           \<lparr>np_AllowedEndpoints := sort (np_AllowedEndpoints (rq_NetworkPolicy req))\<rparr>\<rparr>"

definition canonicalRequest :: "lifecycle_Request \<Rightarrow> bytes option" where
  "canonicalRequest req =
     (if time_encodable (rq_IssuedAt req) \<and> time_encodable (rq_ExpiresAt req)
      then Some (json_print (json_Request (canonical_form req))) else None)"

definition json_Attestation :: "lifecycle_Attestation \<Rightarrow> json" where
  "json_Attestation a = JObj
     [(''schema'', JStr (at_Schema a)), (''attestationId'', JStr (at_AttestationID a)),
      (''requestId'', JStr (at_RequestID a)), (''cageId'', JStr (at_CageID a)),
      (''profile'', JStr (at_Profile a)), (''hostIdentity'', JStr (at_HostIdentity a)),
      (''policyDigest'', JStr (at_PolicyDigest a)),
      (''engineReleaseDigest'', JStr (at_EngineReleaseDigest a)),
      (''enforcementDigest'', JStr (at_EnforcementDigest a)), (''issuedAt'', json_time (at_IssuedAt a)),
      (''expiresAt'', json_time (at_ExpiresAt a)),
      (''monotonicSequence'', json_u64 (at_MonotonicSequence a)), (''outcome'', JStr (at_Outcome a)),
      (''signatureAlgorithm'', JStr (at_SignatureAlgorithm a)), (''signature'', JStr (at_Signature a))]"

definition canonicalAttestation :: "lifecycle_Attestation \<Rightarrow> bytes option" where
  "canonicalAttestation a =
     (if time_encodable (at_IssuedAt a) \<and> time_encodable (at_ExpiresAt a)
      then Some (json_print (json_Attestation (a\<lparr>at_Signature := []\<rparr>))) else None)"

definition set_request_sig :: "string \<Rightarrow> string \<Rightarrow> lifecycle_Request \<Rightarrow> lifecycle_Request" where
  "set_request_sig alg s r = r\<lparr>rq_SignatureAlgorithm := alg, rq_Signature := s\<rparr>"

definition set_attestation_sig :: "string \<Rightarrow> string \<Rightarrow> lifecycle_Attestation \<Rightarrow> lifecycle_Attestation" where
  "set_attestation_sig alg s a = a\<lparr>at_SignatureAlgorithm := alg, at_Signature := s\<rparr>"

definition SignRequest :: "ed25519 \<Rightarrow> lifecycle_Request \<Rightarrow> bytes \<Rightarrow> lifecycle_Request go_result" where
  "SignRequest E req key = sign_record E canonicalRequest set_request_sig key req"

definition SignAttestation ::
  "ed25519 \<Rightarrow> lifecycle_Attestation \<Rightarrow> bytes \<Rightarrow> lifecycle_Attestation go_result" where
  "SignAttestation E a key = sign_record E canonicalAttestation set_attestation_sig key a"

definition VerifyAttestation ::
  "ed25519 \<Rightarrow> lifecycle_Attestation \<Rightarrow> bytes \<Rightarrow> gotime \<Rightarrow> go_error option" where
  "VerifyAttestation E a key now =
     (if length key \<noteq> PublicKeySize \<or> at_Schema a \<noteq> lifecycle_Schema \<or>
         at_SignatureAlgorithm a \<noteq> SignatureAlgorithm \<or> \<not> requestIDPattern (at_AttestationID a) \<or>
         at_AttestationID a \<noteq> at_RequestID a \<or> \<not> cageIDPattern (at_CageID a) \<or>
         \<not> hostIDPattern (at_HostIdentity a) \<or> \<not> digestPattern (at_PolicyDigest a) \<or>
         \<not> digestPattern (at_EngineReleaseDigest a) \<or> \<not> digestPattern (at_EnforcementDigest a) \<or>
         at_Outcome a \<noteq> ''authorized'' \<or> \<not> time_After (at_ExpiresAt a) (time_UTC now) \<or>
         \<not> time_After (at_ExpiresAt a) (at_IssuedAt a)
      then Some (DecisionError PkgLifecycle ''invalid_attestation'')
      else if \<not> signature_ok E canonicalAttestation key (at_Signature a) a
      then Some (DecisionError PkgLifecycle ''invalid_attestation_signature'')
      else None)"

interpretation request_sig: signed_record canonicalRequest set_request_sig
  rq_SignatureAlgorithm rq_Signature
  by unfold_locales (simp_all add: set_request_sig_def canonicalRequest_def canonical_form_def)

interpretation attestation_sig: signed_record canonicalAttestation set_attestation_sig
  at_SignatureAlgorithm at_Signature
  by unfold_locales (simp_all add: set_attestation_sig_def canonicalAttestation_def)

section \<open>The authority\<close>

text \<open>
  \<open>ReplayLedger.Claim\<close> as a function on the ledger's own state, of any type. A clock is the
  sequence of its readings; the state counts how many have been taken. The interface fields
  are options, since a nil dependency is one of the cases the code handles.
\<close>

type_synonym 'l claim = "string \<Rightarrow> gotime \<Rightarrow> 'l \<Rightarrow> bool go_result \<times> 'l"

record 'l lifecycle_Authority =
  la_engineKey :: bytes
  la_engineReleaseDigest :: string
  la_trustedCallers :: "(string \<times> bytes) list"
  la_audit :: "audit_sink option"
  la_replay :: "'l claim option"
  la_clock :: "(nat \<Rightarrow> gotime) option"

record 'l lifecycle_state =
  ls_sequence :: u64
  ls_ledger :: 'l
  ls_log :: audit_log
  ls_ticks :: nat

definition lifecycle_NewAuthority ::
  "bytes \<Rightarrow> string \<Rightarrow> (string \<times> bytes) list \<Rightarrow> audit_sink option \<Rightarrow> 'l claim option \<Rightarrow>
   (nat \<Rightarrow> gotime) option \<Rightarrow> 'l lifecycle_Authority go_result" where
  "lifecycle_NewAuthority engineKey engineReleaseDigest trustedCallers audit replay clock =
     (if length engineKey \<noteq> PrivateKeySize \<or> \<not> digestPattern engineReleaseDigest
      then Inl (ErrUnavailable PkgLifecycle ''invalid engine signing configuration'')
      else if audit = None \<or> replay = None \<or> clock = None \<or> trustedCallers = []
      then Inl (ErrUnavailable PkgLifecycle ''missing required authority dependency'')
      else if list_ex (\<lambda>(id, key). \<not> validSPIFFEID id \<or> length key \<noteq> PublicKeySize) trustedCallers
      then Inl (ErrUnavailable PkgLifecycle ''invalid trusted caller configuration'')
      else Inr \<lparr>la_engineKey = engineKey, la_engineReleaseDigest = engineReleaseDigest,
                la_trustedCallers = trustedCallers, la_audit = audit, la_replay = replay, la_clock = clock\<rparr>)"

definition auditMetadata :: "lifecycle_Request \<Rightarrow> string \<Rightarrow> (string \<times> meta) list" where
  "auditMetadata req outcome =
     [(''requestId'', MStr (rq_RequestID req)), (''policyDigest'', MStr (rq_PolicyDigest req)),
      (''profile'', MStr (rq_Profile req)), (''reasonCode'', MStr outcome)]"

definition lifecycle_deny ::
  "audit_sink \<Rightarrow> lifecycle_Request \<Rightarrow> string \<Rightarrow> 'l lifecycle_state \<Rightarrow>
   lifecycle_Attestation go_result \<times> 'l lifecycle_state" where
  "lifecycle_deny sink req reason st =
     (case RecordEvent sink
        (mk_event (fallback (rq_CallerSPIFFEID req)) (rq_Action req) ''denied''
          (fallback (rq_CageID req)) (auditMetadata req reason)) (ls_log st) of
        (ok, log) \<Rightarrow>
          (if ok then Inl (DecisionError PkgLifecycle reason)
           else Inl (ErrUnavailable PkgLifecycle ''audit sink rejected denial''),
           st\<lparr>ls_log := log\<rparr>))"

definition new_attestation ::
  "'l lifecycle_Authority \<Rightarrow> lifecycle_Request \<Rightarrow> gotime \<Rightarrow> u64 \<Rightarrow> lifecycle_Attestation" where
  "new_attestation a req now seq =
     \<lparr>at_Schema = lifecycle_Schema, at_AttestationID = rq_RequestID req,
      at_RequestID = rq_RequestID req, at_CageID = rq_CageID req, at_Profile = rq_Profile req,
      at_HostIdentity = rq_HostIdentity req, at_PolicyDigest = rq_PolicyDigest req,
      at_EngineReleaseDigest = la_engineReleaseDigest a,
      at_EnforcementDigest = rq_ExecutableManifestDigest req, at_IssuedAt = now,
      at_ExpiresAt = minTime (rq_ExpiresAt req) (time_Add now maxAttestationValidity),
      at_MonotonicSequence = seq, at_Outcome = ''authorized'',
      at_SignatureAlgorithm = SignatureAlgorithm, at_Signature = []\<rparr>"

text \<open>The last part of the handler, after the ledger has granted the claim.\<close>

definition issue_attestation ::
  "ed25519 \<Rightarrow> 'l lifecycle_Authority \<Rightarrow> audit_sink \<Rightarrow> lifecycle_Request \<Rightarrow> gotime \<Rightarrow> 'l lifecycle_state \<Rightarrow>
   lifecycle_Attestation go_result \<times> 'l lifecycle_state" where
  "issue_attestation E a sink req now st =
     (let seq = ls_sequence st + 1; st = st\<lparr>ls_sequence := seq\<rparr> in
      case SignAttestation E (new_attestation a req now seq) (la_engineKey a) of
        Inl _ \<Rightarrow> (Inl (ErrUnavailable PkgLifecycle ''unable to sign attestation''), st)
      | Inr attestation \<Rightarrow>
          (case RecordEvent sink
             (mk_event (rq_CallerSPIFFEID req) (rq_Action req) ''authorized'' (rq_CageID req)
               (auditMetadata req ''authorized'')) (ls_log st) of
             (ok, log) \<Rightarrow>
               (if ok then Inr attestation
                else Inl (ErrUnavailable PkgLifecycle ''audit sink rejected authorization''),
                st\<lparr>ls_log := log\<rparr>)))"

definition authorize_with ::
  "ed25519 \<Rightarrow> 'l lifecycle_Authority \<Rightarrow> audit_sink \<Rightarrow> 'l claim \<Rightarrow> (nat \<Rightarrow> gotime) \<Rightarrow> lifecycle_Request \<Rightarrow>
   'l lifecycle_state \<Rightarrow> lifecycle_Attestation go_result \<times> 'l lifecycle_state" where
  "authorize_with E a sink claim clock req st0 =
     (let now = time_UTC (clock (ls_ticks st0)); st = st0\<lparr>ls_ticks := ls_ticks st0 + 1\<rparr>;
          reason = validateRequestShape req now in
      if reason \<noteq> [] then lifecycle_deny sink req reason st
      else case map_of (la_trustedCallers a) (rq_CallerSPIFFEID req) of
        None \<Rightarrow> lifecycle_deny sink req ''unknown_caller_identity'' st
      | Some key \<Rightarrow>
          (case base64_DecodeString (rq_Signature req) of
             None \<Rightarrow> lifecycle_deny sink req ''invalid_signature_encoding'' st
           | Some signature \<Rightarrow>
               if length signature \<noteq> SignatureSize
               then lifecycle_deny sink req ''invalid_signature_encoding'' st
               else if (case canonicalRequest req of None \<Rightarrow> True
                        | Some payload \<Rightarrow> \<not> ed_verify E key payload signature)
               then lifecycle_deny sink req ''invalid_request_signature'' st
               else case claim (rq_RequestID req) (rq_ExpiresAt req) (ls_ledger st) of
                 (Inl _, ledger) \<Rightarrow>
                   lifecycle_deny sink req ''replay_ledger_unavailable'' (st\<lparr>ls_ledger := ledger\<rparr>)
               | (Inr claimed, ledger) \<Rightarrow>
                   if \<not> claimed then lifecycle_deny sink req ''replayed_request'' (st\<lparr>ls_ledger := ledger\<rparr>)
                   else issue_attestation E a sink req now (st\<lparr>ls_ledger := ledger\<rparr>)))"

definition Authorize ::
  "ed25519 \<Rightarrow> 'l lifecycle_Authority option \<Rightarrow> lifecycle_Request \<Rightarrow> 'l lifecycle_state \<Rightarrow>
   lifecycle_Attestation go_result \<times> 'l lifecycle_state" where
  "Authorize E authority req st =
     (case authority of
        None \<Rightarrow> (Inl (ErrUnavailable PkgLifecycle ''authority dependency unavailable''), st)
      | Some a \<Rightarrow>
          (case (la_clock a, la_audit a, la_replay a) of
             (Some clock, Some sink, Some claim) \<Rightarrow> authorize_with E a sink claim clock req st
           | _ \<Rightarrow> (Inl (ErrUnavailable PkgLifecycle ''authority dependency unavailable''), st)))"

text \<open>A sequence of requests, answered one after the other.\<close>

fun authorize_all ::
  "ed25519 \<Rightarrow> 'l lifecycle_Authority option \<Rightarrow> lifecycle_Request list \<Rightarrow> 'l lifecycle_state \<Rightarrow>
   lifecycle_Attestation go_result list \<times> 'l lifecycle_state" where
  "authorize_all E a [] st = ([], st)"
| "authorize_all E a (req # reqs) st =
     (case Authorize E a req st of
        (res, st1) \<Rightarrow> (case authorize_all E a reqs st1 of (results, st2) \<Rightarrow> (res # results, st2)))"

section \<open>What the validators accept\<close>











lemma validateEndpoints_iff:
  "validateEndpoints seen es = [] \<longleftrightarrow> list_all validEndpointURL es \<and> distinct es \<and> set es \<inter> set seen = {}"
  by (induction es arbitrary: seen) auto

lemma validateNetworkPolicy_iff:
  "validateNetworkPolicy policy = [] \<longleftrightarrow>
     np_Mode policy = ''defaultDeny'' \<and> list_all validEndpointURL (np_AllowedEndpoints policy) \<and>
     distinct (np_AllowedEndpoints policy)"
  by (auto simp: validateNetworkPolicy_def validateEndpoints_iff)

lemma validWindow_iff:
  "validWindow req now \<longleftrightarrow>
     \<not> time_IsZero (rq_IssuedAt req) \<and> \<not> time_IsZero (rq_ExpiresAt req) \<and>
     t_ns (rq_IssuedAt req) < t_ns (rq_ExpiresAt req) \<and>
     t_ns (rq_ExpiresAt req) \<le> t_ns (rq_IssuedAt req) + maxRequestValidity \<and>
     t_ns (rq_IssuedAt req) \<le> t_ns now + maxClockSkew \<and> t_ns now < t_ns (rq_ExpiresAt req)"
proof -
  have "time_Sub (rq_ExpiresAt req) (rq_IssuedAt req) \<le> maxRequestValidity \<longleftrightarrow>
      t_ns (rq_ExpiresAt req) - t_ns (rq_IssuedAt req) \<le> maxRequestValidity"
    by (rule time_Sub_le_iff)
       (simp_all add: maxRequestValidity_def duration_defs min_i64_def max_i64_def)
  then show ?thesis by (auto simp: validWindow_def time_After_def)
qed

text \<open>The reason code is empty exactly for a request that satisfies every clause.\<close>

lemma validateRequestShape_iff:
  "validateRequestShape req now = [] \<longleftrightarrow>
     validIdentity req \<and> validWindow req now \<and> validResourcePolicy (rq_ResourcePolicy req) \<and>
     validateMountPolicy (rq_MountPolicy req) = [] \<and> validateNetworkPolicy (rq_NetworkPolicy req) = [] \<and>
     validAuditTarget (rq_AuditTarget req)"
  by (auto simp: validateRequestShape_def Let_def)

section \<open>The decision\<close>

text \<open>
  A request is authentic at an instant if its shape is accepted and its signature verifies
  under the key registered for the caller it names.
\<close>

definition authentic :: "ed25519 \<Rightarrow> 'l lifecycle_Authority \<Rightarrow> lifecycle_Request \<Rightarrow> gotime \<Rightarrow> bool" where
  "authentic E a req now =
     (validateRequestShape req now = [] \<and>
      (case map_of (la_trustedCallers a) (rq_CallerSPIFFEID req) of
         None \<Rightarrow> False
       | Some key \<Rightarrow> signature_ok E canonicalRequest key (rq_Signature req) req))"

lemma authorize_with_eq:
  assumes "now = time_UTC (clock (ls_ticks st))" "st1 = st\<lparr>ls_ticks := ls_ticks st + 1\<rparr>"
  shows "\<exists>reason. reason \<noteq> [] \<and> authorize_with E a sink claim clock req st =
    (if authentic E a req now
     then (case claim (rq_RequestID req) (rq_ExpiresAt req) (ls_ledger st) of
             (Inl _, l) \<Rightarrow> lifecycle_deny sink req ''replay_ledger_unavailable'' (st1\<lparr>ls_ledger := l\<rparr>)
           | (Inr c, l) \<Rightarrow>
               if c then issue_attestation E a sink req now (st1\<lparr>ls_ledger := l\<rparr>)
               else lifecycle_deny sink req ''replayed_request'' (st1\<lparr>ls_ledger := l\<rparr>))
     else lifecycle_deny sink req reason st1)"
proof (cases "validateRequestShape req now = []")
  case False
  then show ?thesis
    by (intro exI [of _ "validateRequestShape req now"])
       (simp add: authorize_with_def authentic_def Let_def assms)
next
  case shape: True
  show ?thesis
  proof (cases "map_of (la_trustedCallers a) (rq_CallerSPIFFEID req)")
    case None
    with shape show ?thesis
      by (intro exI [of _ "''unknown_caller_identity''"])
         (simp add: authorize_with_def authentic_def Let_def assms)
  next
    case key: (Some key)
    define good where "good = (case base64_DecodeString (rq_Signature req) of
      None \<Rightarrow> False | Some s \<Rightarrow> length s = SignatureSize)"
    show ?thesis
      using shape key
      by (intro exI [of _ "if good then ''invalid_request_signature'' else ''invalid_signature_encoding''"])
         (auto simp: authorize_with_def authentic_def signature_ok_def good_def Let_def assms
           split: option.splits sum.splits prod.splits)
  qed
qed

text \<open>What the handler records for an authorization, and for a denial with a reason.\<close>

definition authorized_event :: "lifecycle_Request \<Rightarrow> audit_event" where
  "authorized_event req =
     mk_event (rq_CallerSPIFFEID req) (rq_Action req) ''authorized'' (rq_CageID req)
       (auditMetadata req ''authorized'')"

definition denied_event :: "lifecycle_Request \<Rightarrow> string \<Rightarrow> audit_event" where
  "denied_event req reason =
     mk_event (fallback (rq_CallerSPIFFEID req)) (rq_Action req) ''denied''
       (fallback (rq_CageID req)) (auditMetadata req reason)"

lemmas decision_defs = issue_attestation_def lifecycle_deny_def RecordEvent_def authorized_event_def
  denied_event_def Let_def

text \<open>The ways the handler ends, with the whole effect of each on the state.\<close>

lemma authorize_with_outcomes:
  assumes "authorize_with E a sink claim clock req st = (res, st')"
    and "now = time_UTC (clock (ls_ticks st))"
    and "claim (rq_RequestID req) (rq_ExpiresAt req) (ls_ledger st) = (granted, l)"
    and "seq = ls_sequence st + 1"
  obtains
    (denied) reason ok st1 where
      "\<not> (authentic E a req now \<and> granted = Inr True)"
      "st1 = (if authentic E a req now then st\<lparr>ls_ledger := l\<rparr> else st)"
      "reason \<noteq> []" "ok = sink (ls_log st) (denied_event req reason)"
      "st' = st1\<lparr>ls_ticks := ls_ticks st + 1, ls_log := ls_log st @ [(denied_event req reason, ok)]\<rparr>"
      "res = Inl (if ok then DecisionError PkgLifecycle reason
                  else ErrUnavailable PkgLifecycle ''audit sink rejected denial'')"
  | (unsigned) err where
      "authentic E a req now" "granted = Inr True"
      "SignAttestation E (new_attestation a req now seq) (la_engineKey a) = Inl err"
      "st' = st\<lparr>ls_ticks := ls_ticks st + 1, ls_ledger := l, ls_sequence := seq\<rparr>"
      "res = Inl (ErrUnavailable PkgLifecycle ''unable to sign attestation'')"
  | (issued) att ok where
      "authentic E a req now" "granted = Inr True" "ok = sink (ls_log st) (authorized_event req)"
      "SignAttestation E (new_attestation a req now seq) (la_engineKey a) = Inr att"
      "st' = st\<lparr>ls_ticks := ls_ticks st + 1, ls_ledger := l, ls_sequence := seq,
                 ls_log := ls_log st @ [(authorized_event req, ok)]\<rparr>"
      "res = (if ok then Inr att
              else Inl (ErrUnavailable PkgLifecycle ''audit sink rejected authorization''))"
proof -
  obtain reason where reason: "reason \<noteq> []" and eq: "(res, st') =
    (if authentic E a req now
     then (case granted of
             Inl _ \<Rightarrow> lifecycle_deny sink req ''replay_ledger_unavailable''
               (st\<lparr>ls_ticks := ls_ticks st + 1, ls_ledger := l\<rparr>)
           | Inr c \<Rightarrow>
               if c then issue_attestation E a sink req now (st\<lparr>ls_ticks := ls_ticks st + 1, ls_ledger := l\<rparr>)
               else lifecycle_deny sink req ''replayed_request'' (st\<lparr>ls_ticks := ls_ticks st + 1, ls_ledger := l\<rparr>))
     else lifecycle_deny sink req reason (st\<lparr>ls_ticks := ls_ticks st + 1\<rparr>))"
    using authorize_with_eq [of now clock st, OF assms(2) refl, of E a sink claim req] assms(1,3)
    by (auto split: sum.splits)
  have deny: ?thesis
    if d: "(res, st') = lifecycle_deny sink req r (st1\<lparr>ls_ticks := ls_ticks st + 1\<rparr>)" "r \<noteq> []"
      and "ls_log st1 = ls_log st"
      and "\<not> (authentic E a req now \<and> granted = Inr True)"
      and "st1 = (if authentic E a req now then st\<lparr>ls_ledger := l\<rparr> else st)" for r st1
    using that by (intro denied [OF that(4,5) d(2) refl])
      (auto simp: decision_defs)
  show ?thesis
  proof (cases "authentic E a req now")
    case False
    then show ?thesis using eq reason by (intro deny [of reason st]) auto
  next
    case auth: True
    show ?thesis
    proof (cases "granted = Inr True")
      case False
      then obtain r where "r \<noteq> []" and
        "(res, st') = lifecycle_deny sink req r (st\<lparr>ls_ticks := ls_ticks st + 1, ls_ledger := l\<rparr>)"
        using eq auth by (cases granted) (auto split: if_splits)
      moreover have "st\<lparr>ls_ticks := t, ls_ledger := l\<rparr> = st\<lparr>ls_ledger := l, ls_ticks := t\<rparr>" for t
        by simp
      ultimately show ?thesis using False auth by (intro deny [of r "st\<lparr>ls_ledger := l\<rparr>"]) simp_all
    next
      case True
      then have i: "(res, st') =
          issue_attestation E a sink req now (st\<lparr>ls_ticks := ls_ticks st + 1, ls_ledger := l\<rparr>)"
        using eq auth by simp
      show ?thesis
      proof (cases "SignAttestation E (new_attestation a req now seq) (la_engineKey a)")
        case (Inl err)
        then show ?thesis using i assms(4) by (intro unsigned [OF auth True Inl]) (auto simp: decision_defs)
      next
        case (Inr att)
        then show ?thesis using i assms(4)
          by (intro issued [OF auth True refl Inr]) (auto simp: decision_defs)
      qed
    qed
  qed
qed

section \<open>A concrete authority\<close>

text \<open>
  An instance with a trusted caller, an accepting sink and the instance of the signature
  scheme, on which the hypotheses of the properties hold.
\<close>

definition demo_now :: gotime where
  "demo_now = \<lparr>t_ns = 1767225600 * Second, t_zone = 0\<rparr>"

definition demo_digest :: string where "demo_digest = replicate 64 (CHR ''a'')"

definition demo_request :: lifecycle_Request where
  "demo_request =
     \<lparr>rq_Schema = lifecycle_Schema, rq_RequestID = ''00000000-0000-4000-8000-000000000001'',
      rq_Action = ''create'', rq_IssuedAt = demo_now, rq_ExpiresAt = time_Add demo_now (5 * Minute),
      rq_CallerSPIFFEID = ''spiffe://brick/broker'', rq_PolicyID = ''policy-abc'',
      rq_PolicyDigest = demo_digest, rq_Profile = ProfileSharedTenant, rq_CageID = ''cage-abc'',
      rq_HostIdentity = ''host-abc'',
      rq_ResourcePolicy = \<lparr>rp_CPUQuotaMilli = 500, rp_MemoryMaxBytes = 1048576, rp_PidsMax = 64, rp_IOWeight = 100\<rparr>,
      rq_MountPolicy = \<lparr>mp_BaseRoot = ''/srv/base'',
        mp_Mounts = [\<lparr>mt_Source = ''/srv/data'', mt_Destination = ''/data'', mt_ReadOnly = True\<rparr>],
        mp_MandatoryLayers = mandatoryLayers\<rparr>,
      rq_NetworkPolicy = \<lparr>np_Mode = ''defaultDeny'', np_AllowedEndpoints = [''https://api.test/v1'']\<rparr>,
      rq_ExecutableManifestDigest = demo_digest, rq_AuditTarget = ''audit://sink/main'',
      rq_SignatureAlgorithm = SignatureAlgorithm, rq_Signature = []\<rparr>"

definition demo_payload :: bytes where
  "demo_payload = json_print (json_Request (canonical_form demo_request))"

definition demo_signed :: lifecycle_Request where
  "demo_signed = set_request_sig ''ed25519''
     (base64_EncodeToString (ed_sign demo_ed25519 (demo_key (CHR ''c'')) demo_payload)) demo_request"

definition demo_authority :: "audit_sink \<Rightarrow> 'l claim \<Rightarrow> 'l lifecycle_Authority" where
  "demo_authority sink claim =
     \<lparr>la_engineKey = demo_key (CHR ''e''), la_engineReleaseDigest = demo_digest,
      la_trustedCallers = [(''spiffe://brick/broker'', key_Public (demo_key (CHR ''c'')))],
      la_audit = Some sink, la_replay = Some claim, la_clock = Some (\<lambda>_. demo_now)\<rparr>"

definition demo_state :: "'l \<Rightarrow> 'l lifecycle_state" where
  "demo_state l = \<lparr>ls_sequence = 0, ls_ledger = l, ls_log = [], ls_ticks = 0\<rparr>"

lemma demo_encodable:
  "time_encodable demo_now" "time_encodable (time_Add demo_now (5 * Minute))"
  by code_simp+

lemma demo_shape: "validateRequestShape demo_request demo_now = []"
  by code_simp

lemma shape_set_sig:
  "validateRequestShape (set_request_sig SignatureAlgorithm s req) now =
   validateRequestShape (req\<lparr>rq_SignatureAlgorithm := SignatureAlgorithm\<rparr>) now"
  by (simp add: validateRequestShape_def validIdentity_def validWindow_def set_request_sig_def Let_def)

lemma demo_SignRequest: "SignRequest demo_ed25519 demo_request (demo_key (CHR ''c'')) = Inr demo_signed"
proof -
  have "canonicalRequest (set_request_sig ''ed25519'' [] demo_request) = Some demo_payload"
    using demo_encodable
    by (simp add: canonicalRequest_def set_request_sig_def demo_payload_def demo_request_def SignatureAlgorithm_def)
  then show ?thesis
    using request_sig.sign_record_total [of "demo_key (CHR ''c'')" demo_request demo_payload demo_ed25519]
    by (simp add: SignRequest_def demo_signed_def demo_key_def ed_sizes)
qed

lemma demo_authentic: "authentic demo_ed25519 (demo_authority sink claim) demo_signed demo_now"
proof -
  have "signature_ok demo_ed25519 canonicalRequest (key_Public (demo_key (CHR ''c''))) (rq_Signature demo_signed) demo_signed"
    using request_sig.sign_record_verifies(1) [OF demo_ed25519_correct demo_key_ok
        demo_SignRequest [unfolded SignRequest_def]] .
  moreover have "validateRequestShape demo_signed demo_now = []"
    using demo_shape shape_set_sig [of _ demo_request demo_now]
    by (simp add: demo_signed_def SignatureAlgorithm_def demo_request_def)
  moreover have "rq_CallerSPIFFEID demo_signed = ''spiffe://brick/broker''"
    by (simp add: demo_signed_def set_request_sig_def demo_request_def)
  ultimately show ?thesis by (simp add: authentic_def demo_authority_def)
qed

section \<open>Signing the attestation\<close>

lemma SignAttestation_total:
  assumes "length key = PrivateKeySize" "time_encodable (at_IssuedAt att)" "time_encodable (at_ExpiresAt att)"
  shows "\<exists>s. SignAttestation E att key =
    Inr (att\<lparr>at_SignatureAlgorithm := SignatureAlgorithm, at_Signature := s\<rparr>)"
proof -
  have "\<exists>payload. canonicalAttestation (set_attestation_sig ''ed25519'' [] att) = Some payload"
    using assms by (simp add: canonicalAttestation_def set_attestation_sig_def)
  then show ?thesis
    using attestation_sig.sign_record_total [OF assms(1), of att]
    by (auto simp: SignAttestation_def set_attestation_sig_def SignatureAlgorithm_def)
qed

lemma SignAttestation_fields:
  assumes "SignAttestation E att key = Inr att'"
  shows "\<exists>s. att' = att\<lparr>at_SignatureAlgorithm := SignatureAlgorithm, at_Signature := s\<rparr>"
  using attestation_sig.sign_record_cases [OF assms [unfolded SignAttestation_def]]
  by (metis SignatureAlgorithm_def set_attestation_sig_def)

lemma new_attestation_alg [simp]:
  "(new_attestation a req now seq)\<lparr>at_SignatureAlgorithm := SignatureAlgorithm, at_Signature := s\<rparr> =
   (new_attestation a req now seq)\<lparr>at_Signature := s\<rparr>"
  by (simp add: new_attestation_def)

lemma new_attestation_times:
  "t_ns (at_ExpiresAt (new_attestation a req now seq)) \<le> t_ns (rq_ExpiresAt req)"
  "t_ns (at_ExpiresAt (new_attestation a req now seq)) \<le> t_ns now + maxAttestationValidity"
  "t_ns now < t_ns (rq_ExpiresAt req) \<Longrightarrow> t_ns now < t_ns (at_ExpiresAt (new_attestation a req now seq))"
  by (auto simp: new_attestation_def minTime_def time_Before_def maxAttestationValidity_def duration_defs)

lemma authentic_window:
  assumes "authentic E a req now"
  shows "validIdentity req" and "t_ns now < t_ns (rq_ExpiresAt req)"
  using assms by (auto simp: authentic_def validateRequestShape_iff validWindow_iff)

lemma authentic_requestID: "authentic E a req now \<Longrightarrow> requestIDPattern (rq_RequestID req)"
  using authentic_window(1) by (auto simp: validIdentity_def)

lemma Authorize_some:
  assumes "la_audit a = Some sink" "la_replay a = Some claim" "la_clock a = Some clock"
  shows "Authorize E (Some a) req st = authorize_with E a sink claim clock req st"
  using assms by (simp add: Authorize_def)

lemma Authorize_InrD:
  assumes "Authorize E auth req st = (Inr att, st')"
  obtains a sink claim clock where "auth = Some a" "la_audit a = Some sink" "la_replay a = Some claim"
    "la_clock a = Some clock" "authorize_with E a sink claim clock req st = (Inr att, st')"
  using assms by (auto simp: Authorize_def split: option.splits)

text \<open>The whole effect of a successful call, as the properties use it.\<close>

lemma authorize_with_granted:
  assumes "authorize_with E a sink claim clock req st = (Inr att, st')"
    and "now = time_UTC (clock (ls_ticks st))"
  shows "authentic E a req now"
    and "claim (rq_RequestID req) (rq_ExpiresAt req) (ls_ledger st) = (Inr True, ls_ledger st')"
    and "SignAttestation E (new_attestation a req now (ls_sequence st + 1)) (la_engineKey a) = Inr att"
    and "ls_sequence st' = ls_sequence st + 1"
    and "ls_log st' = ls_log st @ [(authorized_event req, True)]"
    and "ls_ticks st' = ls_ticks st + 1"
proof -
  obtain g l where gl: "claim (rq_RequestID req) (rq_ExpiresAt req) (ls_ledger st) = (g, l)"
    by fastforce
  have ok: "authentic E a req now \<and> g = Inr True \<and> ls_ledger st' = l \<and>
      SignAttestation E (new_attestation a req now (ls_sequence st + 1)) (la_engineKey a) = Inr att \<and>
      ls_sequence st' = ls_sequence st + 1 \<and> ls_log st' = ls_log st @ [(authorized_event req, True)] \<and>
      ls_ticks st' = ls_ticks st + 1"
    by (cases rule: authorize_with_outcomes [OF assms gl refl, case_names denied unsigned issued])
       (simp_all split: if_splits)
  then show "authentic E a req now"
    and "SignAttestation E (new_attestation a req now (ls_sequence st + 1)) (la_engineKey a) = Inr att"
    and "ls_sequence st' = ls_sequence st + 1"
    and "ls_log st' = ls_log st @ [(authorized_event req, True)]"
    and "ls_ticks st' = ls_ticks st + 1"
    by blast+
  show "claim (rq_RequestID req) (rq_ExpiresAt req) (ls_ledger st) = (Inr True, ls_ledger st')"
    using ok gl by simp
qed

section \<open>What a signature covers\<close>

lemma json_appended_inj:
  "json_appended f xs = json_appended f ys \<Longrightarrow> inj f \<Longrightarrow> xs = ys"
  by (auto simp: json_appended_def inj_map_eq_map split: if_splits)

lemma json_Mount_inj: "inj json_Mount"
  by (rule injI) (auto simp: json_Mount_def intro!: Mount.equality)

lemma sort_eq_iff_mset: "sort xs = sort ys \<longleftrightarrow> mset xs = mset ys"
  by (metis mset_sort properties_for_sort sorted_sort)

lemma sort_mounts_eq_iff:
  assumes "distinct (map mt_Destination xs)"
  shows "sort_key mount_key xs = sort_key mount_key ys \<longleftrightarrow> mset xs = mset ys"
proof
  assume eq: "mset xs = mset ys"
  have "inj_on mount_key (set xs)"
    using assms by (auto simp: mount_key_def distinct_map inj_on_def)
  moreover have "sorted (map mount_key (sort_key mount_key ys))" by simp
  ultimately show "sort_key mount_key xs = sort_key mount_key ys"
    using eq by (intro sort_key_inj_key_eq) simp_all
qed (metis mset_sort)

lemma json_wf_appended: "json_wf (json_appended f xs) \<longleftrightarrow> (\<forall>x\<in>set xs. json_wf (f x))"
  by (auto simp: json_appended_def list_all_iff)

lemma format_time_utf8: "valid_utf8 (format_time t)"
proof -
  have d: "list_all (\<lambda>c. ccode c < 128) (dec_nat n)" for n
    using dec_nat_digits [of _ n] by (force simp: list_all_iff is_digit_def char_le_nat ccode_def)
  have p: "list_all (\<lambda>c. ccode c < 128) (pad w i)" for w i
    using d by (auto simp: pad_def Let_def list_all_iff ccode_def)
  have f: "list_all (\<lambda>c. ccode c < 128) (frac ns)" for ns
    using p [of 9 ns] by (auto simp: frac_def list_all_iff ccode_def dest: set_dropWhileD)
  have z: "list_all (\<lambda>c. ccode c < 128) (format_zone i)" for i
    using p by (auto simp: format_zone_def Let_def ccode_def)
  show ?thesis
    by (rule valid_utf8_ascii)
       (simp add: format_time_def Let_def split_def p f z, simp add: ccode_def)
qed

lemmas json_request_defs = json_Request_def json_MountPolicy_def json_NetworkPolicy_def
  json_wf_appended json_ResourcePolicy_def json_time_def json_Mount_def format_time_utf8

lemma canonical_form_wf:
  "json_wf (json_Request r) \<Longrightarrow> json_wf (json_Request (canonical_form r))"
  by (simp add: json_Request_def canonical_form_def json_MountPolicy_def json_NetworkPolicy_def
      json_wf_appended json_ResourcePolicy_def json_time_def)

text \<open>Two requests that differ only in the order of their slices and in their signatures.\<close>

definition same_intent :: "lifecycle_Request \<Rightarrow> lifecycle_Request \<Rightarrow> bool" where
  "same_intent r r' \<longleftrightarrow>
     rq_Schema r = rq_Schema r' \<and> rq_RequestID r = rq_RequestID r' \<and> rq_Action r = rq_Action r' \<and>
     format_time (rq_IssuedAt r) = format_time (rq_IssuedAt r') \<and>
     format_time (rq_ExpiresAt r) = format_time (rq_ExpiresAt r') \<and>
     rq_CallerSPIFFEID r = rq_CallerSPIFFEID r' \<and> rq_PolicyID r = rq_PolicyID r' \<and>
     rq_PolicyDigest r = rq_PolicyDigest r' \<and> rq_Profile r = rq_Profile r' \<and>
     rq_CageID r = rq_CageID r' \<and> rq_HostIdentity r = rq_HostIdentity r' \<and>
     rq_ResourcePolicy r = rq_ResourcePolicy r' \<and>
     mp_BaseRoot (rq_MountPolicy r) = mp_BaseRoot (rq_MountPolicy r') \<and>
     mset (mp_Mounts (rq_MountPolicy r)) = mset (mp_Mounts (rq_MountPolicy r')) \<and>
     mset (mp_MandatoryLayers (rq_MountPolicy r)) = mset (mp_MandatoryLayers (rq_MountPolicy r')) \<and>
     np_Mode (rq_NetworkPolicy r) = np_Mode (rq_NetworkPolicy r') \<and>
     mset (np_AllowedEndpoints (rq_NetworkPolicy r)) = mset (np_AllowedEndpoints (rq_NetworkPolicy r')) \<and>
     rq_ExecutableManifestDigest r = rq_ExecutableManifestDigest r' \<and>
     rq_AuditTarget r = rq_AuditTarget r' \<and> rq_SignatureAlgorithm r = rq_SignatureAlgorithm r'"

lemma json_ResourcePolicy_inj: "json_ResourcePolicy p = json_ResourcePolicy q \<longleftrightarrow> p = q"
  by (auto simp: json_ResourcePolicy_def intro!: ResourcePolicy.equality)

lemma json_appended_eq_iff: "inj f \<Longrightarrow> json_appended f xs = json_appended f ys \<longleftrightarrow> xs = ys"
  using json_appended_inj by metis

lemma inj_JStr: "inj JStr"
  by (simp add: inj_def)

lemma json_MountPolicy_inj: "json_MountPolicy p = json_MountPolicy q \<longleftrightarrow>
    mp_BaseRoot p = mp_BaseRoot q \<and> mp_Mounts p = mp_Mounts q \<and> mp_MandatoryLayers p = mp_MandatoryLayers q"
  by (simp add: json_MountPolicy_def json_appended_eq_iff json_Mount_inj inj_JStr)

lemma json_NetworkPolicy_inj: "json_NetworkPolicy p = json_NetworkPolicy q \<longleftrightarrow>
    np_Mode p = np_Mode q \<and> np_AllowedEndpoints p = np_AllowedEndpoints q"
  by (simp add: json_NetworkPolicy_def json_appended_eq_iff inj_JStr)

lemma json_canonical_eq_iff:
  assumes "distinct (map mt_Destination (mp_Mounts (rq_MountPolicy r)))"
  shows "json_Request (canonical_form r) = json_Request (canonical_form r') \<longleftrightarrow> same_intent r r'"
  by (simp add: json_Request_def canonical_form_def json_time_def json_ResourcePolicy_inj
      json_MountPolicy_inj json_NetworkPolicy_inj sort_eq_iff_mset sort_mounts_eq_iff [OF assms]
      same_intent_def)

lemma Authorize_granted_iff:
  assumes "la_audit a = Some sink" "la_replay a = Some claim" "la_clock a = Some clock"
    and "now = time_UTC (clock (ls_ticks st))"
    and "length (la_engineKey a) = PrivateKeySize"
    and "time_encodable now" "time_encodable (time_Add now maxAttestationValidity)"
  shows "(\<exists>att. fst (Authorize E (Some a) req st) = Inr att) \<longleftrightarrow>
    authentic E a req now \<and>
    fst (claim (rq_RequestID req) (rq_ExpiresAt req) (ls_ledger st)) = Inr True \<and>
    sink (ls_log st) (authorized_event req)"
proof -
  obtain res st' where run: "authorize_with E a sink claim clock req st = (res, st')" by fastforce
  obtain g l where gl: "claim (rq_RequestID req) (rq_ExpiresAt req) (ls_ledger st) = (g, l)" by fastforce
  have exp: "authentic E a req now \<Longrightarrow> time_encodable (rq_ExpiresAt req)"
    by (auto simp: authentic_def signature_ok_def canonicalRequest_def split: option.splits if_splits)
  have signed: "\<exists>att. SignAttestation E (new_attestation a req now seq) (la_engineKey a) = Inr att"
    if "authentic E a req now" for seq
  proof -
    have "time_encodable (at_ExpiresAt (new_attestation a req now seq))"
      using exp [OF that] assms(7) by (simp add: new_attestation_def minTime_def)
    then show ?thesis
      using SignAttestation_total [OF assms(5), of "new_attestation a req now seq" E] assms(6)
      by (auto simp: new_attestation_def)
  qed
  have "authentic E a req now \<and> g = Inr True \<and> sink (ls_log st) (authorized_event req) \<longleftrightarrow>
      (\<exists>att. res = Inr att)"
  proof (cases rule: authorize_with_outcomes [OF run assms(4) gl refl, case_names denied unsigned issued])
    case (unsigned err)
    then show ?thesis using signed [of "ls_sequence st + 1"] by simp
  qed auto
  then show ?thesis by (auto simp: Authorize_some [OF assms(1-3)] run gl)
qed

lemma authorize_with_fresh:
  assumes "authorize_with E a sink claim clock req st = (Inr att, st')"
  shows "t_ns (clock (ls_ticks st)) < t_ns (at_ExpiresAt att)"
proof -
  define now where "now = time_UTC (clock (ls_ticks st))"
  note g = authorize_with_granted [OF assms now_def]
  have "at_ExpiresAt att = at_ExpiresAt (new_attestation a req now (ls_sequence st + 1))"
    using SignAttestation_fields [OF g(3)] by auto
  then have "t_ns now < t_ns (at_ExpiresAt att)"
    using new_attestation_times(3) authentic_window(2) [OF g(1)] by simp
  then show ?thesis by (simp add: now_def)
qed

section \<open>A run of the concrete authority\<close>

definition accept_all :: audit_sink where "accept_all log ev = True"

definition count_claim :: "nat claim" where "count_claim requestID expiresAt n = (Inr True, n + 1)"

lemma demo_now_UTC: "time_UTC demo_now = demo_now"
  by (simp add: time_UTC_def demo_now_def)

lemma demo_encodable_10: "time_encodable (time_Add demo_now maxAttestationValidity)"
  by code_simp

lemma demo_authority_new:
  "lifecycle_NewAuthority (demo_key (CHR ''e'')) demo_digest
     [(''spiffe://brick/broker'', key_Public (demo_key (CHR ''c'')))] (Some sink) (Some claim)
     (Some (\<lambda>_. demo_now)) = Inr (demo_authority sink claim)"
proof -
  have "validSPIFFEID ''spiffe://brick/broker''" "digestPattern demo_digest" by code_simp+
  moreover have "length (key_Public (demo_key (CHR ''c''))) = PublicKeySize"
    by (rule key_Public_length [OF demo_key_ok])
  ultimately show ?thesis
    by (simp add: lifecycle_NewAuthority_def demo_authority_def demo_key_def ed_sizes)
qed

lemma demo_granted:
  assumes "fst (claim (rq_RequestID demo_signed) (rq_ExpiresAt demo_signed) l) = Inr True"
  obtains att st' where
    "Authorize demo_ed25519 (Some (demo_authority accept_all claim)) demo_signed (demo_state l) = (Inr att, st')"
proof -
  have "\<exists>att. fst (Authorize demo_ed25519 (Some (demo_authority accept_all claim)) demo_signed (demo_state l)) = Inr att"
    using Authorize_granted_iff [of "demo_authority accept_all claim" accept_all claim
        "\<lambda>_. demo_now" demo_now "demo_state l" demo_ed25519 demo_signed] assms
      demo_authentic demo_encodable(1) demo_encodable_10
    by (simp add: demo_authority_def demo_state_def accept_all_def demo_key_def ed_sizes demo_now_UTC)
  then show ?thesis using that by (metis prod.collapse)
qed

definition demo_run :: "lifecycle_Attestation go_result \<times> nat lifecycle_state" where
  "demo_run = Authorize demo_ed25519 (Some (demo_authority accept_all count_claim)) demo_signed (demo_state 0)"

lemma demo_run_granted:
  obtains att st' where "demo_run = (Inr att, st')"
  using demo_granted [of count_claim 0] by (auto simp: demo_run_def count_claim_def)

section \<open>The replay ledger as an interface\<close>

text \<open>
  What the authority relies on, for a ledger with a state invariant and a notion of a request
  identifier being spent up to an instant: a granted claim spends the identifier until the
  expiry it was claimed with, nothing frees a spent identifier, and a spent identifier is only
  granted again for a strictly later expiry. The laws are needed only for the identifiers that
  the shape check lets through.
\<close>

locale replay_ledger =
  fixes claim :: "'l claim"
    and ledger_inv :: "'l \<Rightarrow> bool"
    and spent :: "'l \<Rightarrow> string \<Rightarrow> int \<Rightarrow> bool"
  assumes claim_inv: "ledger_inv l \<Longrightarrow> requestIDPattern i \<Longrightarrow> ledger_inv (snd (claim i e l))"
    and claim_spends: "ledger_inv l \<Longrightarrow> requestIDPattern i \<Longrightarrow> claim i e l = (Inr True, l') \<Longrightarrow>
      spent l' i (t_ns e)"
    and spent_kept: "ledger_inv l \<Longrightarrow> requestIDPattern j \<Longrightarrow> spent l i x \<Longrightarrow> spent (snd (claim j e l)) i x"
    and spent_refused: "ledger_inv l \<Longrightarrow> requestIDPattern i \<Longrightarrow> spent l i x \<Longrightarrow>
      fst (claim i e l) = Inr True \<Longrightarrow> x < t_ns e"
begin

lemma Authorize_ledger:
  assumes "la_replay a = Some claim"
  shows "ls_ledger (snd (Authorize E (Some a) req st)) = ls_ledger st \<or>
    requestIDPattern (rq_RequestID req) \<and>
    ls_ledger (snd (Authorize E (Some a) req st)) =
      snd (claim (rq_RequestID req) (rq_ExpiresAt req) (ls_ledger st))"
proof (cases "\<exists>clock sink. la_clock a = Some clock \<and> la_audit a = Some sink")
  case True
  then obtain clock sink where cs: "la_clock a = Some clock" "la_audit a = Some sink" by blast
  obtain res st' where run: "authorize_with E a sink claim clock req st = (res, st')" by fastforce
  obtain g l where gl: "claim (rq_RequestID req) (rq_ExpiresAt req) (ls_ledger st) = (g, l)" by fastforce
  have "ls_ledger st' = ls_ledger st \<or> authentic E a req (time_UTC (clock (ls_ticks st))) \<and> ls_ledger st' = l"
    by (cases rule: authorize_with_outcomes [OF run refl gl refl]) (simp_all split: if_splits)
  then show ?thesis
    using Authorize_some [OF cs(2) assms cs(1)] run gl authentic_requestID by auto
qed (auto simp: Authorize_def split: option.splits)

lemma Authorize_inv:
  "la_replay a = Some claim \<Longrightarrow> ledger_inv (ls_ledger st) \<Longrightarrow>
   ledger_inv (ls_ledger (snd (Authorize E (Some a) req st)))"
  using Authorize_ledger [of a E req st] by (auto simp: claim_inv)

lemma Authorize_spent_kept:
  "la_replay a = Some claim \<Longrightarrow> ledger_inv (ls_ledger st) \<Longrightarrow> spent (ls_ledger st) i x \<Longrightarrow>
   spent (ls_ledger (snd (Authorize E (Some a) req st))) i x"
  using Authorize_ledger [of a E req st] by (auto simp: spent_kept)

lemma Authorize_claimed:
  assumes "la_replay a = Some claim" "Authorize E (Some a) req st = (Inr att, st')"
  shows "requestIDPattern (rq_RequestID req)"
    and "claim (rq_RequestID req) (rq_ExpiresAt req) (ls_ledger st) = (Inr True, ls_ledger st')"
proof -
  obtain sink clock where run: "authorize_with E a sink claim clock req st = (Inr att, st')"
    using Authorize_InrD [OF assms(2)] assms(1) by force
  show "claim (rq_RequestID req) (rq_ExpiresAt req) (ls_ledger st) = (Inr True, ls_ledger st')"
    by (rule authorize_with_granted(2) [OF run refl])
  show "requestIDPattern (rq_RequestID req)"
    by (rule authentic_requestID [OF authorize_with_granted(1) [OF run refl]])
qed

lemma authorize_all_spent:
  assumes "la_replay a = Some claim" "ledger_inv (ls_ledger st)" "spent (ls_ledger st) i x"
    and "authorize_all E (Some a) reqs st = (results, st')"
    and "j < length reqs" "results ! j = Inr att" "rq_RequestID (reqs ! j) = i"
  shows "x < t_ns (rq_ExpiresAt (reqs ! j))"
  using assms(2-)
proof (induction reqs arbitrary: st results j)
  case (Cons r rs)
  obtain y st1 where run1: "Authorize E (Some a) r st = (y, st1)" by fastforce
  obtain ys st2 where run2: "authorize_all E (Some a) rs st1 = (ys, st2)" by fastforce
  have res: "results = y # ys" "st' = st2" using Cons.prems(3) run1 run2 by auto
  show ?case
  proof (cases j)
    case 0
    then have g: "Authorize E (Some a) r st = (Inr att, st1)" using Cons.prems(5) res run1 by simp
    have "requestIDPattern i" "fst (claim i (rq_ExpiresAt r) (ls_ledger st)) = Inr True"
      using Authorize_claimed [OF assms(1) g] Cons.prems(6) 0 by simp_all
    then show ?thesis using spent_refused [OF Cons.prems(1) _ Cons.prems(2)] 0 by simp
  next
    case (Suc k)
    have "ledger_inv (ls_ledger st1)" "spent (ls_ledger st1) i x"
      using Authorize_inv [OF assms(1) Cons.prems(1)] Authorize_spent_kept [OF assms(1) Cons.prems(1,2)] run1
      by (metis snd_conv)+
    from Cons.IH [OF this run2 [folded res(2)]] Suc Cons.prems(4-6) res show ?thesis by simp
  qed
qed simp

text \<open>Two granted requests with the same identifier have strictly increasing expiries.\<close>

lemma no_replay:
  assumes "la_replay a = Some claim" "ledger_inv (ls_ledger st)"
    and "authorize_all E (Some a) reqs st = (results, st')"
    and "i < j" "j < length reqs" "results ! i = Inr att" "results ! j = Inr att'"
    and "rq_RequestID (reqs ! i) = rq_RequestID (reqs ! j)"
  shows "t_ns (rq_ExpiresAt (reqs ! i)) < t_ns (rq_ExpiresAt (reqs ! j))"
  using assms(2-)
proof (induction reqs arbitrary: st results i j)
  case (Cons r rs)
  obtain y st1 where run1: "Authorize E (Some a) r st = (y, st1)" by fastforce
  obtain ys st2 where run2: "authorize_all E (Some a) rs st1 = (ys, st2)" by fastforce
  have res: "results = y # ys" "st' = st2" using Cons.prems(2) run1 run2 by auto
  obtain k where j: "j = Suc k" using Cons.prems(3) by (cases j) auto
  have inv1: "ledger_inv (ls_ledger st1)"
    using Authorize_inv [OF assms(1) Cons.prems(1), of E r] run1 by simp
  show ?case
  proof (cases i)
    case 0
    then have g: "Authorize E (Some a) r st = (Inr att, st1)" using Cons.prems(5) res run1 by simp
    note Authorize_claimed [OF assms(1) g]
    then have "spent (ls_ledger st1) (rq_RequestID r) (t_ns (rq_ExpiresAt r))"
      using claim_spends [OF Cons.prems(1)] by blast
    from authorize_all_spent [OF assms(1) inv1 this run2, of k att'] 0 j Cons.prems res
    show ?thesis by simp
  next
    case (Suc i')
    from Cons.IH [OF inv1 run2 [folded res(2)], of i' k] Suc j Cons.prems(3-7) res show ?thesis by simp
  qed
qed simp

end

lemma attestation_verifies:
  assumes "ed25519_correct E" "ed_key E engineKey"
    and "lifecycle_NewAuthority engineKey release callers audit replay (Some clock) = Inr a"
    and "Authorize E (Some a) req st = (Inr att, st')"
    and "t_ns later < t_ns (at_ExpiresAt att)"
  shows "VerifyAttestation E att (key_Public engineKey) later = None \<and>
    t_ns (clock (ls_ticks st)) < t_ns (at_ExpiresAt att)"
proof -
  have a: "la_engineKey a = engineKey" "la_engineReleaseDigest a = release" "la_clock a = Some clock"
      "digestPattern release"
    using assms(3) by (auto simp: lifecycle_NewAuthority_def split: if_splits)
  obtain sink claim where run: "authorize_with E a sink claim clock req st = (Inr att, st')"
    using Authorize_InrD [OF assms(4)] a(3) by force
  define now where "now = time_UTC (clock (ls_ticks st))"
  note g = authorize_with_granted [OF run now_def]
  note sign = g(3) [unfolded a(1)]
  obtain s where att: "att = (new_attestation a req now (ls_sequence st + 1))\<lparr>at_Signature := s\<rparr>"
    using SignAttestation_fields [OF sign] by auto
  have fresh: "t_ns now < t_ns (at_ExpiresAt att)"
    using authorize_with_fresh [OF run] by (simp add: now_def)
  have sig: "signature_ok E canonicalAttestation (key_Public engineKey) (at_Signature att) att"
    using attestation_sig.sign_record_verifies(1) [OF assms(1,2) sign [unfolded SignAttestation_def]] .
  have issued: "at_IssuedAt att = now" by (simp add: att new_attestation_def)
  have "validIdentity req" using authentic_window(1) [OF g(1)] .
  moreover have "at_Schema att = lifecycle_Schema" "at_SignatureAlgorithm att = SignatureAlgorithm"
      "at_AttestationID att = rq_RequestID req" "at_RequestID att = rq_RequestID req"
      "at_CageID att = rq_CageID req" "at_HostIdentity att = rq_HostIdentity req"
      "at_PolicyDigest att = rq_PolicyDigest req" "at_EngineReleaseDigest att = release"
      "at_EnforcementDigest att = rq_ExecutableManifestDigest req" "at_Outcome att = ''authorized''"
    by (simp_all add: att new_attestation_def a(2))
  ultimately have "VerifyAttestation E att (key_Public engineKey) later = None"
    using fresh sig assms(2,5) a(4)
    by (simp add: VerifyAttestation_def validIdentity_def time_After_def issued)
  then show ?thesis using fresh by (simp add: now_def)
qed

section \<open>Properties\<close>

text \<open>
  C3. An attestation is returned only for a request whose shape is valid at the authority's
  own clock, whose signature verifies under the key registered for the caller it names, and
  whose identifier the replay ledger granted; the attestation repeats the request's identity,
  policy, profile, host and manifest digest, expires no later than the request and no later
  than ten minutes from now, carries the next sequence number, and the accepted
  "authorized" audit record is written before it is returned.
\<close>

theorem Authorize_sound:
  assumes "Authorize E (Some a) req st = (Inr att, st')"
    and "la_clock a = Some clock" and "now = time_UTC (clock (ls_ticks st))"
  shows "validateRequestShape req now = [] \<and>
    (\<exists>key. map_of (la_trustedCallers a) (rq_CallerSPIFFEID req) = Some key \<and>
       signature_ok E canonicalRequest key (rq_Signature req) req) \<and>
    (\<exists>claim. la_replay a = Some claim \<and>
       claim (rq_RequestID req) (rq_ExpiresAt req) (ls_ledger st) = (Inr True, ls_ledger st')) \<and>
    (\<exists>s. att = (new_attestation a req now (ls_sequence st + 1))\<lparr>at_Signature := s\<rparr>) \<and>
    t_ns (at_ExpiresAt att) \<le> t_ns (rq_ExpiresAt req) \<and>
    t_ns (at_ExpiresAt att) \<le> t_ns now + maxAttestationValidity \<and>
    ls_sequence st' = ls_sequence st + 1 \<and>
    ls_log st' = ls_log st @ [(authorized_event req, True)]"
proof -
  obtain sink claim where a: "la_replay a = Some claim"
      "authorize_with E a sink claim clock req st = (Inr att, st')"
    using Authorize_InrD [OF assms(1)] assms(2) by force
  note g = authorize_with_granted [OF a(2) assms(3)]
  obtain s where att: "att = (new_attestation a req now (ls_sequence st + 1))\<lparr>at_Signature := s\<rparr>"
    using SignAttestation_fields [OF g(3)] by auto
  then have "at_ExpiresAt att = at_ExpiresAt (new_attestation a req now (ls_sequence st + 1))"
    by simp
  then have t: "t_ns (at_ExpiresAt att) \<le> t_ns (rq_ExpiresAt req)"
      "t_ns (at_ExpiresAt att) \<le> t_ns now + maxAttestationValidity"
    using new_attestation_times(1,2) [of a req now "ls_sequence st + 1"] by simp_all
  have k: "validateRequestShape req now = []"
      "\<exists>key. map_of (la_trustedCallers a) (rq_CallerSPIFFEID req) = Some key \<and>
         signature_ok E canonicalRequest key (rq_Signature req) req"
    using g(1) by (auto simp: authentic_def split: option.splits)
  show ?thesis using k t g(2,4,5) a(1) att by blast
qed

theorem Authorize_sound_witness:
  "\<exists>att st'. demo_run = (Inr att, st') \<and> ls_sequence st' = 1 \<and>
     ls_log st' = [(authorized_event demo_signed, True)] \<and> at_MonotonicSequence att = 1"
proof -
  obtain att st' where run: "demo_run = (Inr att, st')" by (rule demo_run_granted)
  have "la_clock (demo_authority accept_all count_claim) = Some (\<lambda>_. demo_now)"
    by (simp add: demo_authority_def)
  from Authorize_sound [OF run [unfolded demo_run_def] this refl] run
  have "ls_sequence st' = 1 \<and> ls_log st' = [(authorized_event demo_signed, True)] \<and> at_MonotonicSequence att = 1"
    by (auto simp: demo_state_def new_attestation_def)
  with run show ?thesis by blast
qed

text \<open>
  C10. Conversely, with a signing key of the right size and a clock whose readings can be
  encoded, the handler returns an attestation for every authentic request whose identifier
  the ledger grants and whose authorization the sink records: no valid request is refused.
\<close>

theorem Authorize_complete:
  assumes "la_audit a = Some sink" "la_replay a = Some claim" "la_clock a = Some clock"
    and "now = time_UTC (clock (ls_ticks st))"
    and "length (la_engineKey a) = PrivateKeySize"
    and "time_encodable now" "time_encodable (time_Add now maxAttestationValidity)"
  shows "(\<exists>att. fst (Authorize E (Some a) req st) = Inr att) \<longleftrightarrow>
    authentic E a req now \<and>
    fst (claim (rq_RequestID req) (rq_ExpiresAt req) (ls_ledger st)) = Inr True \<and>
    sink (ls_log st) (authorized_event req)"
  using assms by (rule Authorize_granted_iff)

theorem Authorize_complete_witness:
  "\<exists>att. fst (Authorize demo_ed25519 (Some (demo_authority accept_all count_claim)) demo_signed (demo_state 0)) = Inr att"
  using Authorize_complete [of "demo_authority accept_all count_claim" accept_all count_claim
      "\<lambda>_. demo_now" demo_now "demo_state 0" demo_ed25519 demo_signed]
    demo_authentic demo_encodable(1) demo_encodable_10
  by (simp add: demo_authority_def accept_all_def count_claim_def demo_key_def ed_sizes demo_now_UTC)

text \<open>
  C12. The attestation of a successful call passes \<open>VerifyAttestation\<close> under the public half of
  the engine key at every instant before it expires, and it has not expired when it is issued.
\<close>

theorem Authorize_attestation_verifies:
  assumes "ed25519_correct E" "ed_key E engineKey"
    and "lifecycle_NewAuthority engineKey release callers audit replay (Some clock) = Inr a"
    and "Authorize E (Some a) req st = (Inr att, st')"
    and "t_ns later < t_ns (at_ExpiresAt att)"
  shows "VerifyAttestation E att (key_Public engineKey) later = None \<and>
    t_ns (clock (ls_ticks st)) < t_ns (at_ExpiresAt att)"
  using assms by (rule attestation_verifies)

theorem Authorize_attestation_verifies_witness:
  "\<exists>att st'. demo_run = (Inr att, st') \<and>
     VerifyAttestation demo_ed25519 att (key_Public (demo_key (CHR ''e''))) \<lparr>t_ns = 0, t_zone = 0\<rparr> = None"
proof -
  obtain att st' where run: "demo_run = (Inr att, st')" by (rule demo_run_granted)
  have clock: "la_clock (demo_authority accept_all count_claim) = Some (\<lambda>_. demo_now)"
    by (simp add: demo_authority_def)
  obtain sink claim where w: "authorize_with demo_ed25519 (demo_authority accept_all count_claim) sink claim
      (\<lambda>_. demo_now) demo_signed (demo_state 0) = (Inr att, st')"
    using Authorize_InrD [OF run [unfolded demo_run_def]] clock by force
  have "t_ns \<lparr>t_ns = 0, t_zone = 0\<rparr> < t_ns (at_ExpiresAt att)"
    using authorize_with_fresh [OF w] by (simp add: demo_now_def duration_defs)
  from Authorize_attestation_verifies [OF demo_ed25519_correct demo_key_ok demo_authority_new
      run [unfolded demo_run_def] this] run
  show ?thesis by blast
qed

text \<open>
  C13. Every refusal is fail-closed. A reason code reaches the caller only after a denial with
  that code was accepted by the audit sink, and then the sequence number is unchanged; any
  other error is \<open>ErrUnavailable\<close>. A call makes at most one audit record, and none is ever
  removed.
\<close>

theorem Authorize_fail_closed:
  assumes "Authorize E (Some a) req st = (Inl e, st')"
  shows "(\<exists>reason. e = DecisionError PkgLifecycle reason \<and> ls_sequence st' = ls_sequence st \<and>
            ls_log st' = ls_log st @ [(denied_event req reason, True)]) \<or>
         is_ErrUnavailable PkgLifecycle e \<and>
           (ls_log st' = ls_log st \<or> (\<exists>ev. ls_log st' = ls_log st @ [(ev, False)]))"
proof (cases "\<exists>clock sink claim. la_clock a = Some clock \<and> la_audit a = Some sink \<and> la_replay a = Some claim")
  case False
  then have "e = ErrUnavailable PkgLifecycle ''authority dependency unavailable'' \<and> st' = st"
    using assms by (auto simp: Authorize_def split: option.splits)
  then show ?thesis by (simp add: is_ErrUnavailable_def)
next
  case True
  then obtain clock sink claim where run: "authorize_with E a sink claim clock req st = (Inl e, st')"
    using assms by (auto simp: Authorize_def)
  obtain g l where gl: "claim (rq_RequestID req) (rq_ExpiresAt req) (ls_ledger st) = (g, l)" by fastforce
  show ?thesis
    by (cases rule: authorize_with_outcomes [OF run refl gl refl])
       (simp_all add: is_ErrUnavailable_def split: if_splits)
qed

theorem Authorize_fail_closed_witness:
  "\<exists>e st'. Authorize demo_ed25519 (Some (demo_authority (\<lambda>_ _. False) count_claim)) demo_signed (demo_state 0)
       = (Inl e, st') \<and> is_ErrUnavailable PkgLifecycle e"
proof -
  have "\<nexists>att. fst (Authorize demo_ed25519 (Some (demo_authority (\<lambda>_ _. False) count_claim)) demo_signed (demo_state 0)) = Inr att"
    using Authorize_granted_iff [of "demo_authority (\<lambda>_ _. False) count_claim" "\<lambda>_ _. False" count_claim
        "\<lambda>_. demo_now" demo_now "demo_state 0" demo_ed25519 demo_signed] demo_encodable(1) demo_encodable_10
    by (simp add: demo_authority_def demo_key_def ed_sizes demo_now_UTC)
  then obtain e st' where run: "Authorize demo_ed25519 (Some (demo_authority (\<lambda>_ _. False) count_claim))
      demo_signed (demo_state 0) = (Inl e, st')"
    by (metis obj_sumE prod.collapse)
  have w: "authorize_with demo_ed25519 (demo_authority (\<lambda>_ _. False) count_claim) (\<lambda>_ _. False)
      count_claim (\<lambda>_. demo_now) demo_signed (demo_state 0) = (Inl e, st')"
    using run by (simp add: Authorize_def demo_authority_def)
  have gl: "count_claim (rq_RequestID demo_signed) (rq_ExpiresAt demo_signed) (ls_ledger (demo_state 0)) = (Inr True, 1)"
    by (simp add: count_claim_def demo_state_def)
  have "ls_log st' \<noteq> ls_log (demo_state 0) @ [(denied_event demo_signed r, True)]" for r
    by (cases rule: authorize_with_outcomes [OF w refl gl refl]) (simp_all add: demo_state_def)
  with Authorize_fail_closed [OF run] run show ?thesis by blast
qed

text \<open>
  Only an authentic request reaches the replay ledger: a request with an invalid shape, an
  unknown caller or a bad signature cannot consume a request identifier.
\<close>

theorem Authorize_ledger_needs_authentic:
  assumes "Authorize E (Some a) req st = (res, st')" and "ls_ledger st' \<noteq> ls_ledger st"
    and "la_clock a = Some clock"
  shows "authentic E a req (time_UTC (clock (ls_ticks st)))"
proof -
  obtain sink claim where run: "authorize_with E a sink claim clock req st = (res, st')"
    using assms by (auto simp: Authorize_def split: option.splits)
  obtain g l where gl: "claim (rq_RequestID req) (rq_ExpiresAt req) (ls_ledger st) = (g, l)" by fastforce
  show ?thesis
    using assms(2)
    by (cases rule: authorize_with_outcomes [OF run refl gl refl]) (simp_all split: if_splits)
qed

theorem Authorize_ledger_needs_authentic_witness:
  "authentic demo_ed25519 (demo_authority accept_all count_claim) demo_signed (time_UTC demo_now)"
proof -
  obtain att st' where run: "demo_run = (Inr att, st')" by (rule demo_run_granted)
  have clock: "la_clock (demo_authority accept_all count_claim) = Some (\<lambda>_. demo_now)"
    by (simp add: demo_authority_def)
  have "ls_ledger st' = 1"
    using run authorize_with_granted(2) [of demo_ed25519 "demo_authority accept_all count_claim" accept_all count_claim
        "\<lambda>_. demo_now" demo_signed "demo_state 0" att st', OF _ refl]
    by (simp add: demo_run_def Authorize_def demo_authority_def count_claim_def demo_state_def)
  then have "ls_ledger st' \<noteq> ls_ledger (demo_state 0)" by (simp add: demo_state_def)
  from Authorize_ledger_needs_authentic [OF run [unfolded demo_run_def] this clock] show ?thesis .
qed


text \<open>
  C15. A signature covers the whole request: for requests with valid UTF-8 text and no repeated
  mount destination, the signed payloads are equal exactly when the requests agree on every
  field but the signature, their slices up to order and their times as encoded.
\<close>

theorem canonicalRequest_binds:
  assumes "json_wf (json_Request r)" "json_wf (json_Request r')"
    and "canonicalRequest r = Some p" "canonicalRequest r' = Some p'"
    and "distinct (map mt_Destination (mp_Mounts (rq_MountPolicy r)))"
  shows "p = p' \<longleftrightarrow> same_intent r r'"
proof -
  have p: "p = json_print (json_Request (canonical_form r))" "p' = json_print (json_Request (canonical_form r'))"
    using assms(3,4) by (auto simp: canonicalRequest_def split: if_splits)
  have "p = p' \<longleftrightarrow> json_Request (canonical_form r) = json_Request (canonical_form r')"
    using json_encode_inj [OF canonical_form_wf [OF assms(1)] canonical_form_wf [OF assms(2)], of "[]" "[]"]
    by (auto simp: p)
  then show ?thesis by (simp add: json_canonical_eq_iff [OF assms(5)])
qed

theorem canonicalRequest_binds_witness:
  "canonicalRequest demo_request \<noteq> canonicalRequest (demo_request\<lparr>rq_CageID := ''cage-xyz''\<rparr>)"
proof -
  let ?r = "demo_request\<lparr>rq_CageID := ''cage-xyz''\<rparr>"
  obtain p p' where p: "canonicalRequest demo_request = Some p" "canonicalRequest ?r = Some p'"
    using demo_encodable by (simp add: canonicalRequest_def demo_request_def)
  have "json_wf (json_Request demo_request)" "json_wf (json_Request ?r)"
    by (simp_all add: json_request_defs demo_request_def mandatoryLayers_def demo_digest_def
        lifecycle_Schema_def ProfileSharedTenant_def SignatureAlgorithm_def valid_utf8_ascii ccode_def list_all_iff)
  moreover have "distinct (map mt_Destination (mp_Mounts (rq_MountPolicy demo_request)))"
    by (simp add: demo_request_def)
  moreover have "\<not> same_intent demo_request ?r" by (simp add: same_intent_def demo_request_def)
  ultimately show ?thesis using canonicalRequest_binds [of demo_request ?r p p'] p by simp
qed

end
