(* ===== verification/Replay_Ledger.thy ===== *)
theory Replay_Ledger
  imports Lifecycle
begin

text \<open>
  The durable single-use ledger of package \<open>broker\<close> (\<open>broker/ledger.go\<close>). The file system is
  a map from paths to nodes; the environment of a call says which system calls fail, what the
  random source returns and under which identity files are created. A claim loads the ledger
  file, drops what has expired, adds the new record and replaces the file by rename.
\<close>

section \<open>Files and the environment of a call\<close>

datatype file_kind = KRegular | KDir | KSymlink | KOther

text \<open>\<open>nd_uid\<close> is \<^const>\<open>None\<close> if \<open>info.Sys()\<close> is not a \<open>*syscall.Stat_t\<close>.\<close>

record file_node =
  nd_kind :: file_kind
  nd_perm :: u32
  nd_uid :: "u32 option"
  nd_data :: bytes

type_synonym ledger_fs = "string \<Rightarrow> file_node option"

datatype sys_op =
    OpLstat string | OpOpen string | OpStat string | OpFlock | OpRandom | OpWrite | OpSync | OpClose
  | OpRename | OpRemove | OpOpenDir | OpSyncDir

record ledger_env =
  le_fault :: "sys_op \<Rightarrow> bool"
  le_random :: bytes
  le_euid :: u32
  le_umask :: u32

record replayRecord =
  rr_RequestID :: string
  rr_ExpiresAt :: gotime

record FileReplayLedgerConfig =
  fc_Path :: string
  fc_OwnerUID :: u32
  fc_Clock :: "(nat \<Rightarrow> gotime option) option"
  fc_MaxEntries :: int
  fc_MaxLedgerBytes :: int

record FileReplayLedger =
  fl_path :: string
  fl_ownerUID :: u32
  fl_clock :: "(nat \<Rightarrow> gotime option) option"
  fl_maxEntries :: int
  fl_maxLedgerBytes :: int

definition ErrLedgerUnavailable :: "string \<Rightarrow> go_error" where
  "ErrLedgerUnavailable msg = ErrUnavailable PkgLedger msg"

section \<open>Ownership checks\<close>

text \<open>Permission masks in hexadecimal: \<open>0o022\<close>, \<open>0o077\<close> and \<open>0o600\<close>.\<close>

unbundle bit_operations_syntax

definition validateOwnedDirectory :: "FileReplayLedger \<Rightarrow> file_node \<Rightarrow> unit go_result" where
  "validateOwnedDirectory l info =
     (if nd_uid info = None \<or> nd_uid info \<noteq> Some (fl_ownerUID l) \<or> nd_perm info AND 0x12 \<noteq> 0
      then Inl (ErrLedgerUnavailable ''insecure ledger directory'') else Inr ())"

definition validateOwnedRegular :: "FileReplayLedger \<Rightarrow> file_node \<Rightarrow> unit go_result" where
  "validateOwnedRegular l info =
     (if nd_uid info = None \<or> nd_kind info \<noteq> KRegular \<or> nd_uid info \<noteq> Some (fl_ownerUID l) \<or>
         nd_perm info AND 0x3F \<noteq> 0
      then Inl (ErrLedgerUnavailable ''insecure ledger file'') else Inr ())"

definition checkParent :: "FileReplayLedger \<Rightarrow> ledger_env \<Rightarrow> ledger_fs \<Rightarrow> unit go_result" where
  "checkParent l env fs =
     (if le_fault env (OpLstat (path_Dir (fl_path l)))
      then Inl (ErrLedgerUnavailable ''unsafe ledger parent'')
      else case fs (path_Dir (fl_path l)) of
        None \<Rightarrow> Inl (ErrLedgerUnavailable ''unsafe ledger parent'')
      | Some info \<Rightarrow>
          if nd_kind info \<noteq> KDir then Inl (ErrLedgerUnavailable ''unsafe ledger parent'')
          else validateOwnedDirectory l info)"

text \<open>
  \<open>openOwnedFile\<close> with the flags that matter: \<open>O_CREAT\<close>, \<open>O_EXCL\<close> and whether the file is
  opened for writing. \<open>O_NOFOLLOW\<close> makes a symbolic link fail. A file that is created stays
  even if the check of the opened file fails.
\<close>

definition openOwnedFile ::
  "FileReplayLedger \<Rightarrow> ledger_env \<Rightarrow> string \<Rightarrow> bool \<Rightarrow> bool \<Rightarrow> bool \<Rightarrow> ledger_fs \<Rightarrow> unit go_result \<times> ledger_fs" where
  "openOwnedFile l env name write create excl fs =
     (let inspect = (\<lambda>nd. if le_fault env (OpStat name)
                          then Inl (ErrLedgerUnavailable ''cannot inspect opened file'')
                          else validateOwnedRegular l nd) in
      if le_fault env (OpOpen name) then (Inl (ErrLedgerUnavailable ''unsafe file access''), fs)
      else case fs name of
        None \<Rightarrow>
          if create
          then let nd = \<lparr>nd_kind = KRegular, nd_perm = 0x180 AND NOT (le_umask env),
                         nd_uid = Some (le_euid env), nd_data = []\<rparr>
               in (inspect nd, fs(name \<mapsto> nd))
          else (Inl (ErrLedgerUnavailable ''unsafe file access''), fs)
      | Some nd \<Rightarrow>
          if create \<and> excl \<or> nd_kind nd = KSymlink \<or> write \<and> nd_kind nd = KDir
          then (Inl (ErrLedgerUnavailable ''unsafe file access''), fs)
          else (inspect nd, fs))"

section \<open>Loading and storing\<close>

text \<open>
  \<open>json.Decoder.Decode\<close> into a slice of records is a parameter: it reads the first JSON value
  of the stream and returns the records and the rest of the stream. The second call of
  \<open>Decode\<close> reports \<open>io.EOF\<close> exactly when only white space is left.
\<close>

type_synonym ledger_decoder = "bytes \<Rightarrow> (replayRecord list \<times> bytes) option"

definition json_space :: "char \<Rightarrow> bool" where
  "json_space c = (ccode c \<in> {9, 10, 13, 32})"

definition loadRecords ::
  "ledger_decoder \<Rightarrow> FileReplayLedger \<Rightarrow> ledger_env \<Rightarrow> ledger_fs \<Rightarrow> replayRecord list go_result" where
  "loadRecords dec l env fs =
     (if le_fault env (OpLstat (fl_path l)) then Inl (ErrLedgerUnavailable ''cannot inspect ledger'')
      else case fs (fl_path l) of
        None \<Rightarrow> Inr []
      | Some info \<Rightarrow>
          (case validateOwnedRegular l info of
             Inl err \<Rightarrow> Inl err
           | Inr _ \<Rightarrow>
               if int (length (nd_data info)) > fl_maxLedgerBytes l
               then Inl (ErrLedgerUnavailable ''ledger exceeds configured bound'')
               else (case openOwnedFile l env (fl_path l) False False False fs of
                  (Inl err, _) \<Rightarrow> Inl err
                | (Inr _, _) \<Rightarrow>
                    (case dec (take (nat (fl_maxLedgerBytes l + 1)) (nd_data info)) of
                       None \<Rightarrow> Inl (ErrLedgerUnavailable ''unreadable ledger'')
                     | Some (records, rest) \<Rightarrow>
                         if int (length records) > fl_maxEntries l
                         then Inl (ErrLedgerUnavailable ''ledger entry bound exceeded'')
                         else if \<not> list_all json_space rest
                         then Inl (ErrLedgerUnavailable ''trailing ledger data'')
                         else Inr records))))"

definition json_replayRecord :: "replayRecord \<Rightarrow> json" where
  "json_replayRecord r = JObj
     [(''requestId'', JStr (rr_RequestID r)), (''expiresAt'', json_time (rr_ExpiresAt r))]"

text \<open>The text \<open>encoder.Encode\<close> writes: no HTML escapes, and a final line break.\<close>

definition ledger_text :: "replayRecord list \<Rightarrow> bytes" where
  "ledger_text records = json_encode False (json_slice json_replayRecord records) @ [CHR 0x0A]"

definition temp_path :: "FileReplayLedger \<Rightarrow> ledger_env \<Rightarrow> string" where
  "temp_path l env =
     path_Join [path_Dir (fl_path l), ''.ledger-'' @ hex_EncodeToString (take 12 (le_random env)) @ ''.tmp'']"

definition remove_temp :: "ledger_env \<Rightarrow> string \<Rightarrow> ledger_fs \<Rightarrow> ledger_fs" where
  "remove_temp env temp fs = (if le_fault env OpRemove then fs else fs(temp := None))"

definition storeRecords ::
  "FileReplayLedger \<Rightarrow> ledger_env \<Rightarrow> replayRecord list \<Rightarrow> ledger_fs \<Rightarrow> unit go_result \<times> ledger_fs" where
  "storeRecords l env records fs =
     (if le_fault env OpRandom then (Inl (ErrLedgerUnavailable ''unavailable random source''), fs)
      else let temp = temp_path l env in
        (case openOwnedFile l env temp True True True fs of
           (Inl err, fs1) \<Rightarrow> (Inl err, fs1)
         | (Inr _, fs1) \<Rightarrow>
             if le_fault env OpWrite \<or> \<not> list_all (\<lambda>r. time_encodable (rr_ExpiresAt r)) records
             then (Inl (ErrLedgerUnavailable ''write failure''), remove_temp env temp fs1)
             else let fs2 = fs1(temp := map_option (\<lambda>nd. nd\<lparr>nd_data := ledger_text records\<rparr>) (fs1 temp)) in
               if le_fault env OpSync
               then (Inl (ErrLedgerUnavailable ''data sync failure''), remove_temp env temp fs2)
               else if le_fault env OpClose
               then (Inl (ErrLedgerUnavailable ''close failure''), remove_temp env temp fs2)
               else if le_fault env OpRename
               then (Inl (ErrLedgerUnavailable ''atomic replace failure''), remove_temp env temp fs2)
               else let fs3 = remove_temp env temp (fs2(temp := None, fl_path l := fs2 temp)) in
                 if le_fault env OpOpenDir
                 then (Inl (ErrLedgerUnavailable ''directory sync failure''), fs3)
                 else if le_fault env OpSyncDir
                 then (Inl (ErrLedgerUnavailable ''directory sync failure''), fs3)
                 else (Inr (), fs3)))"

section \<open>The constructor and the claim\<close>

definition NewFileReplayLedger ::
  "FileReplayLedgerConfig \<Rightarrow> ledger_env \<Rightarrow> ledger_fs \<Rightarrow> FileReplayLedger go_result" where
  "NewFileReplayLedger config env fs =
     (if fc_Clock config = None \<or> fc_MaxEntries config < 1 \<or> fc_MaxLedgerBytes config < 1024
      then Inl (ErrLedgerUnavailable ''incomplete configuration'')
      else if \<not> HasPrefix (fc_Path config) ''/'' \<or> path_Clean (fc_Path config) \<noteq> fc_Path config \<or>
              str_contains (path_Base (fc_Path config)) ''/'' \<or> fc_Path config = ''/''
      then Inl (ErrLedgerUnavailable ''unsafe ledger path'')
      else let ledger = \<lparr>fl_path = fc_Path config, fl_ownerUID = fc_OwnerUID config,
                         fl_clock = fc_Clock config, fl_maxEntries = fc_MaxEntries config,
                         fl_maxLedgerBytes = fc_MaxLedgerBytes config\<rparr>
           in case checkParent ledger env fs of Inl err \<Rightarrow> Inl err | Inr _ \<Rightarrow> Inr ledger)"

text \<open>
  The loop over the loaded records: an error, \<^term>\<open>Inr None\<close> if the identifier is still
  held, or the records that have not expired.
\<close>

fun scan_active ::
  "gotime \<Rightarrow> string \<Rightarrow> replayRecord list \<Rightarrow> replayRecord list \<Rightarrow> replayRecord list option go_result" where
  "scan_active now requestID active [] = Inr (Some active)"
| "scan_active now requestID active (r # rs) =
     (if rr_RequestID r = [] \<or> time_IsZero (rr_ExpiresAt r)
      then Inl (ErrLedgerUnavailable ''malformed persisted record'')
      else if time_After (rr_ExpiresAt r) (time_UTC now) then
        (if rr_RequestID r = requestID then Inr None
         else scan_active now requestID (active @ [r]) rs)
      else scan_active now requestID active rs)"

text \<open>
  The part of \<open>Claim\<close> under the lock. \<open>sort.Slice\<close> is not stable, \<^const>\<open>sort_key\<close> is; they differ only in the
  order of records with one identifier, and a claim never writes two of them to a file without duplicates
  (see \<open>Claim_granted_records\<close>).
\<close>

definition claim_locked ::
  "ledger_decoder \<Rightarrow> FileReplayLedger \<Rightarrow> ledger_env \<Rightarrow> gotime \<Rightarrow> string \<Rightarrow> gotime \<Rightarrow> ledger_fs \<Rightarrow>
   bool go_result \<times> ledger_fs" where
  "claim_locked dec l env now requestID expiresAt fs =
     (case loadRecords dec l env fs of
        Inl err \<Rightarrow> (Inl err, fs)
      | Inr records \<Rightarrow>
          (case scan_active now requestID [] records of
             Inl err \<Rightarrow> (Inl err, fs)
           | Inr None \<Rightarrow> (Inr False, fs)
           | Inr (Some active) \<Rightarrow>
               if int (length active) \<ge> fl_maxEntries l
               then (Inl (ErrLedgerUnavailable ''capacity exhausted''), fs)
               else (case storeRecords l env
                       (sort_key rr_RequestID
                          (active @ [\<lparr>rr_RequestID = requestID, rr_ExpiresAt = time_UTC expiresAt\<rparr>])) fs of
                  (Inl err, fs') \<Rightarrow> (Inl err, fs')
                | (Inr _, fs') \<Rightarrow> (Inr True, fs'))))"

definition claim_file ::
  "ledger_decoder \<Rightarrow> FileReplayLedger \<Rightarrow> ledger_env \<Rightarrow> nat \<Rightarrow> string \<Rightarrow> gotime \<Rightarrow> ledger_fs \<Rightarrow>
   bool go_result \<times> ledger_fs" where
  "claim_file dec l env n requestID expiresAt fs =
     (case fl_clock l of
        None \<Rightarrow> (Inl (ErrLedgerUnavailable ''invalid claim input''), fs)
      | Some clock \<Rightarrow>
          if requestID = [] \<or> time_IsZero expiresAt
          then (Inl (ErrLedgerUnavailable ''invalid claim input''), fs)
          else (case clock n of
             None \<Rightarrow> (Inl (ErrLedgerUnavailable ''clock unavailable or stale claim''), fs)
           | Some now \<Rightarrow>
               if time_IsZero now \<or> \<not> time_After expiresAt (time_UTC now)
               then (Inl (ErrLedgerUnavailable ''clock unavailable or stale claim''), fs)
               else (case checkParent l env fs of
                  Inl err \<Rightarrow> (Inl err, fs)
                | Inr _ \<Rightarrow>
                    (case openOwnedFile l env (fl_path l @ ''.lock'') True True False fs of
                       (Inl err, fs1) \<Rightarrow> (Inl err, fs1)
                     | (Inr _, fs1) \<Rightarrow>
                         if le_fault env OpFlock
                         then (Inl (ErrLedgerUnavailable ''unable to acquire lock''), fs1)
                         else claim_locked dec l env now requestID expiresAt fs1))))"

text \<open>
  One call as one step, as calls that follow one another see it: the reading of the clock and the
  critical section belong together. \<open>Broker_Pool\<close> takes the call apart into its accesses, between which
  other calls may run; a call that runs alone there is this function.
\<close>

record ledger_state =
  lg_fs :: ledger_fs
  lg_calls :: nat

definition Claim ::
  "ledger_decoder \<Rightarrow> FileReplayLedger \<Rightarrow> (nat \<Rightarrow> ledger_env) \<Rightarrow> ledger_state claim" where
  "Claim dec l envs requestID expiresAt st =
     (case claim_file dec l (envs (lg_calls st)) (lg_calls st) requestID expiresAt (lg_fs st) of
        (res, fs) \<Rightarrow> (res, \<lparr>lg_fs = fs, lg_calls = lg_calls st + 1\<rparr>))"

section \<open>What each step does to the ledger file\<close>

lemma openOwnedFile_other:
  "openOwnedFile l env name w c x fs = (res, fs') \<Longrightarrow> p \<noteq> name \<Longrightarrow> fs' p = fs p"
  by (auto simp: openOwnedFile_def Let_def split: if_splits option.splits)

lemma openOwnedFile_created:
  assumes "openOwnedFile l env name True True True fs = (Inr u, fs')"
  shows "fs name = None" and "\<exists>nd. fs' name = Some nd"
  using assms by (auto simp: openOwnedFile_def Let_def split: if_splits option.splits)

text \<open>The ledger file is either left as it was or replaced by the complete new text.\<close>

lemma storeRecords_file:
  assumes "storeRecords l env rs fs = (res, fs')" "temp_path l env \<noteq> fl_path l"
  obtains (kept) "fs' (fl_path l) = fs (fl_path l)" "res \<noteq> Inr ()"
  | (replaced) nd where "fs' (fl_path l) = Some (nd\<lparr>nd_data := ledger_text rs\<rparr>)"
      "list_all (\<lambda>r. time_encodable (rr_ExpiresAt r)) rs"
proof (cases "openOwnedFile l env (temp_path l env) True True True fs")
  case (Pair r fs1)
  note o = openOwnedFile_other [OF Pair, of "fl_path l", OF assms(2) [symmetric]]
  show ?thesis
  proof (cases r)
    case (Inl err)
    then show ?thesis using assms(1) Pair o
      by (intro kept) (auto simp: storeRecords_def Let_def split: if_splits)
  next
    case (Inr u)
    then obtain nd where nd: "fs1 (temp_path l env) = Some nd"
      using openOwnedFile_created(2) Pair by blast
    show ?thesis
    proof (cases "fs' (fl_path l) = fs (fl_path l) \<and> res \<noteq> Inr ()")
      case True
      then show ?thesis using kept by blast
    next
      case False
      then show ?thesis
        using assms Pair Inr o nd
        by (intro replaced [of nd])
           (auto simp: storeRecords_def remove_temp_def Let_def split: if_splits)
    qed
  qed
qed

lemma scan_active_Some:
  assumes "scan_active now i acc rs = Inr (Some active)"
  shows "active = acc @ filter (\<lambda>r. t_ns now < t_ns (rr_ExpiresAt r)) rs"
    and "\<forall>r\<in>set rs. t_ns now < t_ns (rr_ExpiresAt r) \<longrightarrow> rr_RequestID r \<noteq> i"
proof -
  have "active = acc @ filter (\<lambda>r. t_ns now < t_ns (rr_ExpiresAt r)) rs \<and>
      (\<forall>r\<in>set rs. t_ns now < t_ns (rr_ExpiresAt r) \<longrightarrow> rr_RequestID r \<noteq> i)"
    using assms
  proof (induction rs arbitrary: acc)
    case (Cons r rs)
    then show ?case
      using Cons.IH [of "acc @ [r]"] Cons.IH [of acc]
      by (simp add: time_After_def split: if_splits)
  qed simp
  then show "active = acc @ filter (\<lambda>r. t_ns now < t_ns (rr_ExpiresAt r)) rs"
    and "\<forall>r\<in>set rs. t_ns now < t_ns (rr_ExpiresAt r) \<longrightarrow> rr_RequestID r \<noteq> i" by blast+
qed

text \<open>Records the authority can have written: a well-formed identifier and an encodable UTC time.\<close>

definition record_ok :: "replayRecord \<Rightarrow> bool" where
  "record_ok r \<longleftrightarrow> requestIDPattern (rr_RequestID r) \<and> t_zone (rr_ExpiresAt r) = 0 \<and>
     time_encodable (rr_ExpiresAt r)"

definition holds :: "FileReplayLedger \<Rightarrow> ledger_fs \<Rightarrow> replayRecord list \<Rightarrow> bool" where
  "holds l fs rs \<longleftrightarrow> list_all record_ok rs \<and>
     (case fs (fl_path l) of None \<Rightarrow> rs = [] | Some nd \<Rightarrow> nd_data nd = ledger_text rs)"

text \<open>The documented behaviour of the decoder: it reads back what the encoder wrote.\<close>

definition ledger_decoder_ok :: "ledger_decoder \<Rightarrow> bool" where
  "ledger_decoder_ok dec \<longleftrightarrow>
     (\<forall>rs. list_all record_ok rs \<longrightarrow> dec (ledger_text rs) = Some (rs, [CHR 0x0A]))"

lemma loadRecords_holds:
  assumes "ledger_decoder_ok dec" "holds l fs rs" "loadRecords dec l env fs = Inr rs'"
  shows "rs' = rs"
proof (cases "fs (fl_path l)")
  case None
  then show ?thesis using assms by (auto simp: loadRecords_def holds_def split: if_splits)
next
  case (Some nd)
  have d: "nd_data nd = ledger_text rs" and "dec (ledger_text rs) = Some (rs, [CHR 0x0A])"
    using assms(1,2) Some by (auto simp: holds_def ledger_decoder_ok_def)
  moreover have "take (nat (fl_maxLedgerBytes l + 1)) (nd_data nd) = nd_data nd"
    if "int (length (nd_data nd)) \<le> fl_maxLedgerBytes l"
    using that by simp
  ultimately show ?thesis
    using assms(3) Some
    by (auto simp: loadRecords_def split: if_splits sum.splits prod.splits option.splits)
qed

definition next_records :: "gotime \<Rightarrow> string \<Rightarrow> gotime \<Rightarrow> replayRecord list \<Rightarrow> replayRecord list" where
  "next_records now i e rs =
     sort_key rr_RequestID
       (filter (\<lambda>r. t_ns now < t_ns (rr_ExpiresAt r)) rs @ [\<lparr>rr_RequestID = i, rr_ExpiresAt = time_UTC e\<rparr>])"

lemma holds_unchanged:
  "holds l fs rs \<Longrightarrow> fs' (fl_path l) = fs (fl_path l) \<Longrightarrow> holds l fs' rs"
  by (simp add: holds_def)

lemma claim_locked_effect:
  assumes "ledger_decoder_ok dec" "holds l fs rs" "requestIDPattern i" "temp_path l env \<noteq> fl_path l"
    and "claim_locked dec l env now i e fs = (res, fs')"
  obtains (unchanged) "fs' (fl_path l) = fs (fl_path l)" "res \<noteq> Inr True"
  | (stored) "holds l fs' (next_records now i e rs)"
      "\<forall>r\<in>set rs. t_ns now < t_ns (rr_ExpiresAt r) \<longrightarrow> rr_RequestID r \<noteq> i"
      "int (length (next_records now i e rs)) \<le> fl_maxEntries l" "res \<noteq> Inr False"
proof (cases "\<exists>active. loadRecords dec l env fs = Inr rs \<and> scan_active now i [] rs = Inr (Some active) \<and>
    int (length active) < fl_maxEntries l")
  case False
  have "fs' (fl_path l) = fs (fl_path l) \<and> res \<noteq> Inr True"
  proof (cases "loadRecords dec l env fs")
    case (Inl err)
    then show ?thesis using assms(5) by (simp add: claim_locked_def) blast
  next
    case (Inr rs')
    then have load: "loadRecords dec l env fs = Inr rs" using loadRecords_holds [OF assms(1,2)] by simp
    show ?thesis
    proof (cases "scan_active now i [] rs")
      case (Inl err)
      then show ?thesis using assms(5) load by (simp add: claim_locked_def) blast
    next
      case (Inr found)
      then show ?thesis using assms(5) load False by (cases found) (auto simp: claim_locked_def)
    qed
  qed
  then show ?thesis using unchanged by blast
next
  case True
  then obtain active where a: "loadRecords dec l env fs = Inr rs" "scan_active now i [] rs = Inr (Some active)"
      "int (length active) < fl_maxEntries l" by blast
  note scan = scan_active_Some [OF a(2), simplified]
  let ?new = "next_records now i e rs"
  obtain r fs2 where st0: "storeRecords l env ?new fs = (r, fs2)" by fastforce
  then have "(res, fs') = (case r of Inl err \<Rightarrow> Inl err | Inr _ \<Rightarrow> Inr True, fs2)"
    using assms(5) a unfolding claim_locked_def next_records_def scan(1) [symmetric]
    by (cases r) simp_all
  then have st: "storeRecords l env ?new fs = (r, fs')" "res = (case r of Inl err \<Rightarrow> Inl err | Inr _ \<Rightarrow> Inr True)"
    using st0 by simp_all
  from st(1) assms(4) show ?thesis
  proof (cases rule: storeRecords_file)
    case kept
    then show ?thesis using st(2) by (intro unchanged) (auto split: sum.splits)
  next
    case (replaced nd)
    have "list_all record_ok ?new"
      using assms(2,3) replaced(2)
      by (auto simp: next_records_def holds_def record_ok_def list_all_iff)
    then have "holds l fs' ?new" using replaced(1) by (simp add: holds_def)
    then show ?thesis
      using scan a(3) st(2) by (intro stored) (auto simp: next_records_def split: sum.splits)
  qed
qed

lemma claim_file_stops:
  assumes "claim_file dec l env n i e fs = (res, fs')"
  obtains (early) err where "fs' (fl_path l) = fs (fl_path l)" "res = Inl err"
  | (locked) clock now u fs1 where "fl_clock l = Some clock" "clock n = Some now" "t_ns now < t_ns e"
      "openOwnedFile l env (fl_path l @ ''.lock'') True True False fs = (Inr u, fs1)"
      "claim_locked dec l env now i e fs1 = (res, fs')"
proof (cases "\<exists>clock now. fl_clock l = Some clock \<and> clock n = Some now \<and> i \<noteq> [] \<and> \<not> time_IsZero e \<and>
    \<not> time_IsZero now \<and> time_After e (time_UTC now) \<and> checkParent l env fs = Inr ()")
  case False
  have "fs' = fs \<and> (\<exists>err. res = Inl err)"
    using assms False unfolding claim_file_def
    by (simp split: option.splits if_splits sum.splits) blast+
  then show ?thesis using early by blast
next
  case True
  then obtain clock now where c: "fl_clock l = Some clock" "clock n = Some now" "i \<noteq> []" "\<not> time_IsZero e"
      "\<not> time_IsZero now" "time_After e (time_UTC now)" "checkParent l env fs = Inr ()" by blast
  obtain r fs1 where o: "openOwnedFile l env (fl_path l @ ''.lock'') True True False fs = (r, fs1)" by fastforce
  have same: "fs1 (fl_path l) = fs (fl_path l)" using openOwnedFile_other [OF o, of "fl_path l"] by simp
  show ?thesis
  proof (cases r)
    case (Inl err)
    then have "res = Inl err" "fs' = fs1" using assms c o by (simp_all add: claim_file_def)
    then show ?thesis using early same by simp
  next
    case (Inr u)
    show ?thesis
    proof (cases "le_fault env OpFlock")
      case True
      then have "res = Inl (ErrLedgerUnavailable ''unable to acquire lock'')" "fs' = fs1"
        using assms c o Inr by (simp_all add: claim_file_def)
      then show ?thesis using early same by simp
    next
      case False
      then have "claim_locked dec l env now i e fs1 = (res, fs')"
        using assms c o Inr by (simp add: claim_file_def)
      then show ?thesis using locked [OF c(1,2) _ o [unfolded Inr]] c(6) by (simp add: time_After_def)
    qed
  qed
qed

lemma claim_file_oversized:
  assumes "claim_file dec l env n i e fs = (res, fs')" "fs (fl_path l) = Some nd"
    and "\<And>fs1 now. fs1 (fl_path l) = Some nd \<Longrightarrow> \<exists>err. claim_locked dec l env now i e fs1 = (Inl err, fs1)"
  shows "(\<exists>err. res = Inl err) \<and> fs' (fl_path l) = Some nd"
  using assms(1)
proof (cases rule: claim_file_stops)
  case (early err)
  then show ?thesis using assms(2) by simp
next
  case (locked clock now u fs1)
  have "fs1 (fl_path l) = Some nd" using openOwnedFile_other [OF locked(4), of "fl_path l"] assms(2) by simp
  then show ?thesis using assms(3) [of fs1 now] locked(5) by auto
qed

lemma claim_file_effect:
  assumes "ledger_decoder_ok dec" "holds l fs rs" "requestIDPattern i" "temp_path l env \<noteq> fl_path l"
    and "claim_file dec l env n i e fs = (res, fs')"
  obtains (unchanged) "holds l fs' rs" "res \<noteq> Inr True"
  | (stored) clock now where
      "fl_clock l = Some clock" "clock n = Some now" "t_ns now < t_ns e"
      "holds l fs' (next_records now i e rs)"
      "\<forall>r\<in>set rs. t_ns now < t_ns (rr_ExpiresAt r) \<longrightarrow> rr_RequestID r \<noteq> i"
      "int (length (next_records now i e rs)) \<le> fl_maxEntries l" "res \<noteq> Inr False"
  using assms(5)
proof (cases rule: claim_file_stops)
  case (early err)
  then show ?thesis using unchanged holds_unchanged [OF assms(2)] by blast
next
  case c: (locked clock now u fs1)
  have h1: "holds l fs1 rs"
    using holds_unchanged [OF assms(2)] openOwnedFile_other [OF c(4), of "fl_path l"] by simp
  from assms(1) h1 assms(3,4) c(5) show ?thesis
  proof (cases rule: claim_locked_effect)
    case unchanged
    then show ?thesis using that(1) holds_unchanged [OF h1] by blast
  next
    case stored
    then show ?thesis using that(2) [OF c(1-3)] by blast
  qed
qed

section \<open>The file ledger keeps the laws of a replay ledger\<close>

lemma holds_unique:
  assumes "ledger_decoder_ok dec" "holds l fs rs" "holds l fs rs'"
  shows "rs = rs'"
proof (cases "fs (fl_path l)")
  case None
  then show ?thesis using assms by (simp add: holds_def)
next
  case (Some nd)
  then have "ledger_text rs = ledger_text rs'" "list_all record_ok rs" "list_all record_ok rs'"
    using assms by (auto simp: holds_def)
  then show ?thesis using assms(1) by (metis Pair_inject ledger_decoder_ok_def option.inject)
qed

definition ledger_wf :: "FileReplayLedger \<Rightarrow> ledger_state \<Rightarrow> bool" where
  "ledger_wf l st \<longleftrightarrow> (\<exists>rs. holds l (lg_fs st) rs)"

text \<open>Spent: the file still has the record, or the clock has passed its expiry for good.\<close>

definition ledger_spent :: "FileReplayLedger \<Rightarrow> ledger_state \<Rightarrow> string \<Rightarrow> int \<Rightarrow> bool" where
  "ledger_spent l st i x \<longleftrightarrow>
     (\<exists>rs. holds l (lg_fs st) rs \<and> (\<exists>r\<in>set rs. rr_RequestID r = i \<and> t_ns (rr_ExpiresAt r) = x)) \<or>
     (\<forall>clock m t. fl_clock l = Some clock \<longrightarrow> lg_calls st \<le> m \<longrightarrow> clock m = Some t \<longrightarrow> x \<le> t_ns t)"

definition clock_monotone :: "(nat \<Rightarrow> gotime option) \<Rightarrow> bool" where
  "clock_monotone clock \<longleftrightarrow>
     (\<forall>m n t t'. m \<le> n \<longrightarrow> clock m = Some t \<longrightarrow> clock n = Some t' \<longrightarrow> t_ns t \<le> t_ns t')"

lemma next_records_set:
  "set (next_records now i e rs) =
     {r \<in> set rs. t_ns now < t_ns (rr_ExpiresAt r)} \<union> {\<lparr>rr_RequestID = i, rr_ExpiresAt = time_UTC e\<rparr>}"
  by (auto simp: next_records_def)

locale file_ledger =
  fixes dec :: ledger_decoder
    and l :: FileReplayLedger
    and envs :: "nat \<Rightarrow> ledger_env"
    and clock :: "nat \<Rightarrow> gotime option"
  assumes decoder: "ledger_decoder_ok dec"
    and temp_fresh: "temp_path l (envs n) \<noteq> fl_path l"
    and has_clock: "fl_clock l = Some clock"
    and monotone: "clock_monotone clock"
begin

lemma Claim_effect:
  assumes "holds l (lg_fs st) rs" "requestIDPattern i" "Claim dec l envs i e st = (res, st')"
  obtains (unchanged) "holds l (lg_fs st') rs" "res \<noteq> Inr True" "lg_calls st' = lg_calls st + 1"
  | (stored) now where
      "clock (lg_calls st) = Some now" "t_ns now < t_ns e" "holds l (lg_fs st') (next_records now i e rs)"
      "\<forall>r\<in>set rs. t_ns now < t_ns (rr_ExpiresAt r) \<longrightarrow> rr_RequestID r \<noteq> i"
      "lg_calls st' = lg_calls st + 1"
proof -
  obtain fs' where c: "claim_file dec l (envs (lg_calls st)) (lg_calls st) i e (lg_fs st) = (res, fs')"
      and st': "st' = \<lparr>lg_fs = fs', lg_calls = lg_calls st + 1\<rparr>"
    using assms(3) by (auto simp: Claim_def split: prod.splits)
  from decoder assms(1,2) temp_fresh c show ?thesis
  proof (cases rule: claim_file_effect)
    case unchanged
    then show ?thesis using that(1) st' by simp
  next
    case (stored c now)
    then show ?thesis using that(2) [of now] st' has_clock by simp
  qed
qed

lemma clock_passed:
  assumes "clock n = Some now" "x \<le> t_ns now" "n < lg_calls st"
  shows "ledger_spent l st i x"
  using assms monotone has_clock
  unfolding ledger_spent_def clock_monotone_def by (metis less_imp_le_nat option.inject order_trans)

lemma passed_later:
  assumes "\<forall>clock m t. fl_clock l = Some clock \<longrightarrow> lg_calls st \<le> m \<longrightarrow> clock m = Some t \<longrightarrow> x \<le> t_ns t"
    and "lg_calls st \<le> lg_calls st'"
  shows "ledger_spent l st' i x"
  using assms order_trans unfolding ledger_spent_def by blast

lemma claim_keeps_spent:
  assumes "ledger_wf l st" "requestIDPattern j" "ledger_spent l st i x" "Claim dec l envs j e st = (res, st')"
  shows "ledger_wf l st' \<and> ledger_spent l st' i x"
proof -
  obtain rs where rs: "holds l (lg_fs st) rs" using assms(1) by (auto simp: ledger_wf_def)
  have calls: "lg_calls st' = lg_calls st + 1"
    using assms(4) by (auto simp: Claim_def split: prod.splits)
  consider (passed) "\<forall>clock m t. fl_clock l = Some clock \<longrightarrow> lg_calls st \<le> m \<longrightarrow> clock m = Some t \<longrightarrow> x \<le> t_ns t"
    | (present) "\<exists>r\<in>set rs. rr_RequestID r = i \<and> t_ns (rr_ExpiresAt r) = x"
    using assms(3) holds_unique [OF decoder rs] unfolding ledger_spent_def by blast
  note spent = this
  from rs assms(2,4) show ?thesis
  proof (cases rule: Claim_effect)
    case unchanged
    from spent show ?thesis
    proof cases
      case passed
      then have "ledger_spent l st' i x" using passed_later [of st x st'] calls by simp
      then show ?thesis using unchanged(1) by (auto simp: ledger_wf_def)
    next
      case present
      then show ?thesis using unchanged(1) by (auto simp: ledger_wf_def ledger_spent_def)
    qed
  next
    case (stored now)
    have wf: "ledger_wf l st'" using stored(3) by (auto simp: ledger_wf_def)
    from spent have "ledger_spent l st' i x"
    proof cases
      case passed
      then show ?thesis using passed_later [of st x st'] calls by simp
    next
      case present
      show ?thesis
      proof (cases "t_ns now < x")
        case True
        then have "\<exists>r\<in>set (next_records now j e rs). rr_RequestID r = i \<and> t_ns (rr_ExpiresAt r) = x"
          using present by (auto simp: next_records_set)
        then show ?thesis using stored(3) unfolding ledger_spent_def by blast
      next
        case False
        then show ?thesis using clock_passed [OF stored(1)] calls by simp
      qed
    qed
    with wf show ?thesis ..
  qed
qed

lemma claim_grant:
  assumes "ledger_wf l st" "requestIDPattern i" "Claim dec l envs i e st = (Inr True, st')"
  shows "ledger_spent l st' i (t_ns e)" and "ledger_spent l st i x \<Longrightarrow> x < t_ns e"
proof -
  obtain rs where rs: "holds l (lg_fs st) rs" using assms(1) by (auto simp: ledger_wf_def)
  from rs assms(2,3) obtain now where s:
      "clock (lg_calls st) = Some now" "t_ns now < t_ns e" "holds l (lg_fs st') (next_records now i e rs)"
      "\<forall>r\<in>set rs. t_ns now < t_ns (rr_ExpiresAt r) \<longrightarrow> rr_RequestID r \<noteq> i"
    by (rule Claim_effect) auto
  have "\<exists>r\<in>set (next_records now i e rs). rr_RequestID r = i \<and> t_ns (rr_ExpiresAt r) = t_ns e"
    by (simp add: next_records_set)
  then show "ledger_spent l st' i (t_ns e)" using s(3) unfolding ledger_spent_def by blast
  assume "ledger_spent l st i x"
  then have "x \<le> t_ns now"
    using s(1,4) has_clock holds_unique [OF decoder rs] unfolding ledger_spent_def
    by (metis linorder_not_le order_refl)
  then show "x < t_ns e" using s(2) by linarith
qed

end

sublocale file_ledger \<subseteq> ledger: replay_ledger "Claim dec l envs" "ledger_wf l" "ledger_spent l"
proof unfold_locales
  fix st i e st' j x
  show "ledger_wf l st \<Longrightarrow> requestIDPattern i \<Longrightarrow> ledger_wf l (snd (Claim dec l envs i e st))"
  proof -
    assume a: "ledger_wf l st" "requestIDPattern i"
    obtain rs where rs: "holds l (lg_fs st) rs" using a(1) by (auto simp: ledger_wf_def)
    obtain res st1 where c: "Claim dec l envs i e st = (res, st1)" by fastforce
    from rs a(2) c have "ledger_wf l st1" by (rule Claim_effect) (auto simp: ledger_wf_def)
    then show ?thesis using c by simp
  qed
  show "ledger_wf l st \<Longrightarrow> requestIDPattern i \<Longrightarrow> Claim dec l envs i e st = (Inr True, st') \<Longrightarrow>
      ledger_spent l st' i (t_ns e)"
    by (rule claim_grant(1))
  show "ledger_wf l st \<Longrightarrow> requestIDPattern j \<Longrightarrow> ledger_spent l st i x \<Longrightarrow>
      ledger_spent l (snd (Claim dec l envs j e st)) i x"
    using claim_keeps_spent by (metis prod.collapse)
  show "ledger_wf l st \<Longrightarrow> requestIDPattern i \<Longrightarrow> ledger_spent l st i x \<Longrightarrow>
      fst (Claim dec l envs i e st) = Inr True \<Longrightarrow> x < t_ns e"
    using claim_grant(2) by (metis prod.collapse)
qed

context file_ledger
begin

lemmas granted_once = ledger.no_replay

end

section \<open>The encoder is injective\<close>

lemma requestIDPattern_ascii: "requestIDPattern s \<Longrightarrow> valid_utf8 s"
proof (rule valid_utf8_ascii)
  assume m: "requestIDPattern s"
  have "ccode c < 128" if c: "c \<in> set s" for c
    using re_match_chars [OF m [unfolded requestIDPattern_def] c]
    by (auto simp: cls_def lit_def hex_lower_def in_range_def is_digit_def char_le_nat ccode_def)
  then show "list_all (\<lambda>c. ccode c < 128) s" by (simp add: list_all_iff)
qed

lemma requestIDPattern_nonempty: "requestIDPattern s \<Longrightarrow> s \<noteq> []"
  by (auto simp: requestIDPattern_def re_match_append_iff)

lemma json_replayRecord_inj:
  assumes "json_replayRecord r = json_replayRecord r'" "record_ok r" "record_ok r'"
  shows "r = r'"
proof -
  have "rr_RequestID r = rr_RequestID r'" "format_time (rr_ExpiresAt r) = format_time (rr_ExpiresAt r')"
    using assms(1) by (simp_all add: json_replayRecord_def json_time_def)
  moreover from this(2) have "t_ns (rr_ExpiresAt r) = t_ns (rr_ExpiresAt r')"
    by (rule format_time_inj) (use assms in \<open>simp_all add: record_ok_def\<close>)
  ultimately show ?thesis using assms(2,3) by (simp add: record_ok_def)
qed

lemma ledger_text_inj:
  assumes "ledger_text rs = ledger_text rs'" "list_all record_ok rs" "list_all record_ok rs'"
  shows "rs = rs'"
proof -
  have wf: "json_wf (json_slice json_replayRecord xs)" if "list_all record_ok xs" for xs
    using that requestIDPattern_ascii
    by (auto simp: json_slice_def json_replayRecord_def json_time_def list_all_iff record_ok_def
        format_time_utf8 valid_utf8_ascii ccode_def)
  have "json_encode False (json_slice json_replayRecord rs) @ [] = json_encode False (json_slice json_replayRecord rs') @ []"
    using assms(1) by (simp add: ledger_text_def)
  then have "json_slice json_replayRecord rs = json_slice json_replayRecord rs'"
    using json_encode_inj [OF wf [OF assms(2)] wf [OF assms(3)], of "[]" "[]"] by simp
  then have "map json_replayRecord rs = map json_replayRecord rs'" by (simp add: json_slice_def)
  then show ?thesis
    using assms(2,3) json_replayRecord_inj
    by (intro map_inj_on [of json_replayRecord]) (auto simp: inj_on_def list_all_iff)
qed

text \<open>So the hypothesis on the decoder can hold: the left inverse of the encoder satisfies it.\<close>

definition inverse_decoder :: ledger_decoder where
  "inverse_decoder b =
     (if \<exists>rs. list_all record_ok rs \<and> b = ledger_text rs
      then Some (THE rs. list_all record_ok rs \<and> b = ledger_text rs, [CHR 0x0A]) else None)"

lemma inverse_decoder_ok: "ledger_decoder_ok inverse_decoder"
  unfolding ledger_decoder_ok_def inverse_decoder_def
  using ledger_text_inj by (auto intro!: the_equality)

section \<open>A concrete ledger\<close>

definition demo_env :: ledger_env where
  "demo_env = \<lparr>le_fault = (\<lambda>_. False), le_random = replicate 12 (CHR ''r''), le_euid = 0, le_umask = 0x3F\<rparr>"

definition demo_ledger :: FileReplayLedger where
  "demo_ledger = \<lparr>fl_path = ''/var/lib/brick/replay'', fl_ownerUID = 0, fl_clock = Some (\<lambda>_. Some demo_now),
     fl_maxEntries = 4, fl_maxLedgerBytes = 4096\<rparr>"

definition demo_fs :: ledger_fs where
  "demo_fs = [''/var/lib/brick'' \<mapsto> \<lparr>nd_kind = KDir, nd_perm = 0x1C0, nd_uid = Some 0, nd_data = []\<rparr>]"

lemma demo_sel:
  "fl_path demo_ledger = ''/var/lib/brick/replay''" "fl_ownerUID demo_ledger = 0"
  "fl_clock demo_ledger = Some (\<lambda>_. Some demo_now)" "fl_maxEntries demo_ledger = 4"
  "fl_maxLedgerBytes demo_ledger = 4096" "le_fault demo_env = (\<lambda>_. False)" "le_euid demo_env = 0"
  "le_umask demo_env = 0x3F"
  by (simp_all add: demo_ledger_def demo_env_def)

lemma demo_paths:
  "path_Dir ''/var/lib/brick/replay'' = ''/var/lib/brick''"
  "temp_path demo_ledger demo_env = ''/var/lib/brick/.ledger-727272727272727272727272.tmp''"
  by code_simp+

interpretation demo_file: file_ledger inverse_decoder demo_ledger "\<lambda>_. demo_env" "\<lambda>_. Some demo_now"
proof
  show "ledger_decoder_ok inverse_decoder" by (rule inverse_decoder_ok)
  show "temp_path demo_ledger demo_env \<noteq> fl_path demo_ledger" unfolding demo_paths by (simp add: demo_ledger_def)
  show "clock_monotone (\<lambda>_. Some demo_now)" by (simp add: clock_monotone_def)
qed (simp add: demo_ledger_def)

lemma demo_ledger_wf: "ledger_wf demo_ledger \<lparr>lg_fs = demo_fs, lg_calls = 0\<rparr>"
  by (auto simp: ledger_wf_def holds_def demo_fs_def demo_ledger_def intro!: exI [of _ "[]"])

lemma demo_claim:
  assumes "i \<noteq> []" "\<not> time_IsZero e" "time_encodable (time_UTC e)" "t_ns demo_now < t_ns e"
  shows "fst (Claim inverse_decoder demo_ledger (\<lambda>_. demo_env) i e \<lparr>lg_fs = demo_fs, lg_calls = 0\<rparr>) = Inr True"
proof -
  have z: "\<not> time_IsZero demo_now" by code_simp
  have perm: "(0x180 :: u32) AND NOT 0x3F AND 0x3F = 0" "(0x1C0 :: u32) AND 0x12 = 0" by code_simp+
  show ?thesis
    using assms z
    by (simp add: Claim_def claim_file_def claim_locked_def loadRecords_def storeRecords_def openOwnedFile_def
        checkParent_def validateOwnedRegular_def validateOwnedDirectory_def Let_def demo_paths time_After_def
        demo_fs_def perm remove_temp_def demo_sel)
qed

lemma demo_signed_sel:
  "rq_RequestID demo_signed = ''00000000-0000-4000-8000-000000000001''"
  "rq_ExpiresAt demo_signed = time_Add demo_now (5 * Minute)"
  by (simp_all add: demo_signed_def set_request_sig_def demo_request_def)

lemma demo_expiry:
  "\<not> time_IsZero (time_Add demo_now (5 * Minute))" "t_ns demo_now < t_ns (time_Add demo_now (5 * Minute))"
  "time_encodable (time_UTC (time_Add demo_now (5 * Minute)))"
  by code_simp+

abbreviation demo_claim_run :: "bool go_result \<times> ledger_state" where
  "demo_claim_run \<equiv> Claim inverse_decoder demo_ledger (\<lambda>_. demo_env)
     ''00000000-0000-4000-8000-000000000001'' (time_Add demo_now (5 * Minute)) \<lparr>lg_fs = demo_fs, lg_calls = 0\<rparr>"

lemma demo_claim_run_granted: obtains st' where "demo_claim_run = (Inr True, st')"
  using demo_claim [OF _ demo_expiry(1,3,2)] that by (metis list.discI prod.collapse)

lemma demo_holds: "holds demo_ledger demo_fs []"
  by (simp add: holds_def demo_fs_def demo_ledger_def)

lemma demo_id_ok: "requestIDPattern ''00000000-0000-4000-8000-000000000001''"
  by code_simp

section \<open>Properties\<close>

text \<open>
  C1. No request is authorized twice: over any sequence of requests, interleaved with any
  pattern of file-system faults, two granted requests with the same identifier carry strictly
  increasing expiries, so a captured request is never accepted a second time. The ledger's
  clock must not run backwards.
\<close>

theorem Authorize_no_replay:
  assumes "ledger_decoder_ok dec" "\<And>n. temp_path l (envs n) \<noteq> fl_path l"
    and "fl_clock l = Some clock" "clock_monotone clock"
    and "la_replay a = Some (Claim dec l envs)" "ledger_wf l (ls_ledger st)"
    and "authorize_all E (Some a) reqs st = (results, st')"
    and "i < j" "j < length reqs" "results ! i = Inr att" "results ! j = Inr att'"
    and "rq_RequestID (reqs ! i) = rq_RequestID (reqs ! j)"
  shows "t_ns (rq_ExpiresAt (reqs ! i)) < t_ns (rq_ExpiresAt (reqs ! j))"
proof -
  have "file_ledger dec l envs clock" using assms(1-4) by unfold_locales
  from file_ledger.granted_once [OF this assms(5-12)] show ?thesis .
qed

theorem Authorize_no_replay_witness:
  "\<exists>att r. fst (authorize_all demo_ed25519
       (Some (demo_authority accept_all (Claim inverse_decoder demo_ledger (\<lambda>_. demo_env))))
       [demo_signed, demo_signed] (demo_state \<lparr>lg_fs = demo_fs, lg_calls = 0\<rparr>)) = [Inr att, r] \<and>
     (\<forall>att'. r \<noteq> Inr att')"
proof -
  let ?claim = "Claim inverse_decoder demo_ledger (\<lambda>_. demo_env)"
  let ?a = "demo_authority accept_all ?claim" and ?st = "demo_state \<lparr>lg_fs = demo_fs, lg_calls = 0\<rparr>"
  have "fst (?claim (rq_RequestID demo_signed) (rq_ExpiresAt demo_signed) \<lparr>lg_fs = demo_fs, lg_calls = 0\<rparr>) = Inr True"
    unfolding demo_signed_sel by (rule demo_claim [OF _ demo_expiry(1,3,2)]) simp
  then obtain att st1 where 1: "Authorize demo_ed25519 (Some ?a) demo_signed ?st = (Inr att, st1)"
    by (rule demo_granted)
  obtain r st2 where 2: "Authorize demo_ed25519 (Some ?a) demo_signed st1 = (r, st2)" by fastforce
  have run: "authorize_all demo_ed25519 (Some ?a) [demo_signed, demo_signed] ?st = ([Inr att, r], st2)"
    by (simp add: 1 2)
  have wf: "ledger_wf demo_ledger (ls_ledger ?st)" using demo_ledger_wf by (simp add: demo_state_def)
  have rep: "la_replay ?a = Some ?claim" by (simp add: demo_authority_def)
  have "r \<noteq> Inr att'" for att'
  proof
    assume "r = Inr att'"
    then have "t_ns (rq_ExpiresAt ([demo_signed, demo_signed] ! 0)) < t_ns (rq_ExpiresAt ([demo_signed, demo_signed] ! 1))"
      by (intro Authorize_no_replay [OF demo_file.decoder demo_file.temp_fresh demo_file.has_clock
            demo_file.monotone rep wf run, of 0 1 att att']) simp_all
    then show False by simp
  qed
  with run show ?thesis by simp
qed

text \<open>
  C16. A claim is atomic under every combination of faults: the ledger file afterwards holds
  either the same records or exactly the unexpired ones together with the new one, and it is
  the latter whenever the claim is granted.
\<close>

theorem Claim_atomic:
  assumes "ledger_decoder_ok dec" "temp_path l (envs (lg_calls st)) \<noteq> fl_path l"
    and "holds l (lg_fs st) rs" "requestIDPattern i" "Claim dec l envs i e st = (res, st')"
  shows "holds l (lg_fs st') rs \<and> res \<noteq> Inr True \<or>
    (\<exists>clock now. fl_clock l = Some clock \<and> clock (lg_calls st) = Some now \<and> t_ns now < t_ns e \<and>
       holds l (lg_fs st') (next_records now i e rs) \<and> res \<noteq> Inr False)"
proof -
  obtain fs' where c: "claim_file dec l (envs (lg_calls st)) (lg_calls st) i e (lg_fs st) = (res, fs')"
      "st' = \<lparr>lg_fs = fs', lg_calls = lg_calls st + 1\<rparr>"
    using assms(5) by (auto simp: Claim_def split: prod.splits)
  from assms(1,3,4,2) c(1) show ?thesis
    by (cases rule: claim_file_effect) (auto simp: c(2))
qed

theorem Claim_atomic_witness:
  "\<exists>st'. demo_claim_run = (Inr True, st') \<and>
     holds demo_ledger (lg_fs st') (next_records demo_now ''00000000-0000-4000-8000-000000000001'' (time_Add demo_now (5 * Minute)) [])"
proof -
  obtain st' where run: "demo_claim_run = (Inr True, st')" by (rule demo_claim_run_granted)
  from Claim_atomic [OF demo_file.decoder demo_file.temp_fresh _ demo_id_ok run, of "[]"] run
  show ?thesis by (auto simp: demo_holds demo_sel)
qed

text \<open>
  C17. What a granted claim leaves behind is sorted by identifier, has no identifier twice, fits
  the configured number of entries, holds nothing that had expired, and has the new record.
\<close>

theorem Claim_granted_records:
  assumes "ledger_decoder_ok dec" "temp_path l (envs (lg_calls st)) \<noteq> fl_path l"
    and "holds l (lg_fs st) rs" "distinct (map rr_RequestID rs)" "requestIDPattern i"
    and "Claim dec l envs i e st = (Inr True, st')"
    and "fl_clock l = Some clock" "clock (lg_calls st) = Some now"
  shows "\<exists>rs'. holds l (lg_fs st') rs' \<and> sorted (map rr_RequestID rs') \<and> distinct (map rr_RequestID rs') \<and>
    int (length rs') \<le> fl_maxEntries l \<and> list_all (\<lambda>r. t_ns now < t_ns (rr_ExpiresAt r)) rs' \<and>
    \<lparr>rr_RequestID = i, rr_ExpiresAt = time_UTC e\<rparr> \<in> set rs'"
proof -
  obtain fs' where c: "claim_file dec l (envs (lg_calls st)) (lg_calls st) i e (lg_fs st) = (Inr True, fs')"
      "st' = \<lparr>lg_fs = fs', lg_calls = lg_calls st + 1\<rparr>"
    using assms(6) by (auto simp: Claim_def split: prod.splits)
  let ?new = "next_records now i e rs"
  have s: "t_ns now < t_ns e" "holds l fs' ?new"
      "\<forall>r\<in>set rs. t_ns now < t_ns (rr_ExpiresAt r) \<longrightarrow> rr_RequestID r \<noteq> i"
      "int (length ?new) \<le> fl_maxEntries l"
    using claim_file_effect [OF assms(1,3,5,2) c(1)] assms(7,8) by (metis option.inject)+
  have "distinct (map rr_RequestID ?new)"
    using s(3) assms(4)
    by (auto simp: next_records_def distinct_map_filter distinct_map inj_on_def)
  moreover have "list_all (\<lambda>r. t_ns now < t_ns (rr_ExpiresAt r)) ?new"
    using s(1) by (auto simp: list_all_iff next_records_set)
  moreover have "sorted (map rr_RequestID ?new)" by (simp add: next_records_def)
  moreover have "\<lparr>rr_RequestID = i, rr_ExpiresAt = time_UTC e\<rparr> \<in> set ?new" by (simp add: next_records_set)
  ultimately show ?thesis using s(2,4) c(2) by auto
qed

theorem Claim_granted_records_witness:
  "\<exists>st' rs'. demo_claim_run = (Inr True, st') \<and> holds demo_ledger (lg_fs st') rs' \<and> int (length rs') \<le> 4"
proof -
  obtain st' where run: "demo_claim_run = (Inr True, st')" by (rule demo_claim_run_granted)
  from Claim_granted_records [OF demo_file.decoder demo_file.temp_fresh _ _ demo_id_ok run
      demo_file.has_clock refl, of "[]"] run
  show ?thesis by (auto simp: demo_holds demo_sel)
qed

text \<open>
  Storing does not check the configured size. Once the file has grown past
  \<open>MaxLedgerBytes\<close>, every later claim fails and leaves the file as it is, so no later expiry
  can ever shrink it again.
\<close>

theorem Claim_oversized_stuck:
  assumes "lg_fs st (fl_path l) = Some nd" "int (length (nd_data nd)) > fl_maxLedgerBytes l"
  shows "(\<exists>err. fst (Claim dec l envs i e st) = Inl err) \<and>
    lg_fs (snd (Claim dec l envs i e st)) (fl_path l) = Some nd"
proof -
  let ?env = "envs (lg_calls st)" and ?n = "lg_calls st"
  have locked: "\<exists>err. claim_locked dec l ?env now i e fs = (Inl err, fs)"
    if "fs (fl_path l) = Some nd" for fs now
    using that assms(2)
    by (auto simp: claim_locked_def loadRecords_def split: sum.splits if_splits)
  obtain res fs' where c: "claim_file dec l ?env ?n i e (lg_fs st) = (res, fs')" by fastforce
  have "(\<exists>err. res = Inl err) \<and> fs' (fl_path l) = Some nd"
    using claim_file_oversized [OF c assms(1)] locked by blast
  then show ?thesis using c by (auto simp: Claim_def)
qed

theorem Claim_oversized_stuck_witness:
  "\<exists>err. fst (Claim inverse_decoder demo_ledger (\<lambda>_. demo_env) ''id'' demo_now
     \<lparr>lg_fs = [''/var/lib/brick/replay'' \<mapsto>
        \<lparr>nd_kind = KRegular, nd_perm = 0x180, nd_uid = Some 0, nd_data = replicate 5000 (CHR '' '')\<rparr>],
      lg_calls = 0\<rparr>) = Inl err"
  using Claim_oversized_stuck [of "\<lparr>lg_fs = [''/var/lib/brick/replay'' \<mapsto>
        \<lparr>nd_kind = KRegular, nd_perm = 0x180, nd_uid = Some 0, nd_data = replicate 5000 (CHR '' '')\<rparr>],
      lg_calls = 0\<rparr>" demo_ledger _ inverse_decoder "\<lambda>_. demo_env" "''id''" demo_now]
  by (simp add: demo_sel)

end
