(* ===== verification/Go_Scan.thy ===== *)
theory Go_Scan
  imports Go_Url
begin

text \<open>
  What package \<open>host\<close> uses of \<open>fmt.Sscanf\<close> and \<open>fmt.Sscan\<close>, on ASCII input: the scan of a
  signed 64-bit integer with the verb \<open>%d\<close>, where a newline is an error, and with the verb
  \<open>%v\<close>, where a newline is a space and the number may have a base prefix and underscores, as
  in \<open>strconv.ParseInt\<close> with base 0. What is left of the input is not looked at.
\<close>

definition i64_range :: "int \<Rightarrow> int option" where
  "i64_range v = (if - (2 ^ 63) \<le> v \<and> v < 2 ^ 63 then Some v else None)"

fun SkipSpace :: "bool \<Rightarrow> string \<Rightarrow> string option" where
  "SkipSpace nlIsSpace [] = Some []"
| "SkipSpace nlIsSpace (c # s) =
     (if c = CHR 0x0A then (if nlIsSpace then SkipSpace nlIsSpace s else None)
      else if is_space c then SkipSpace nlIsSpace s
      else Some (c # s))"

definition accept_sign :: "string \<Rightarrow> bool \<times> string" where
  "accept_sign s =
     (case s of
        c # r \<Rightarrow> if c = CHR ''-'' then (True, r) else if c = CHR ''+'' then (False, r) else (False, s)
      | [] \<Rightarrow> (False, s))"

definition signed_value :: "bool \<Rightarrow> nat \<Rightarrow> int" where
  "signed_value negative n = (if negative then - int n else int n)"

text \<open>The verb \<open>%d\<close>: the value and the rest of the input, or an error.\<close>

definition scan_d :: "string \<Rightarrow> (int \<times> string) option" where
  "scan_d input =
     (case SkipSpace False input of
        None \<Rightarrow> None
      | Some s \<Rightarrow>
          (let (negative, t) = accept_sign s; (n, rest) = read_dec 0 t
           in if t = [] \<or> \<not> is_digit (hd t) then None
              else map_option (\<lambda>v. (v, rest)) (i64_range (signed_value negative n))))"

text \<open>\<open>fmt.Sscanf(input, "%d.%d", &major, &minor)\<close>.\<close>

definition Sscanf_version :: "string \<Rightarrow> (int \<times> int) option" where
  "Sscanf_version input =
     (case scan_d input of
        None \<Rightarrow> None
      | Some (major, rest) \<Rightarrow>
          (case rest of
             c # s \<Rightarrow> if c = CHR ''.'' then map_option (\<lambda>(minor, _). (major, minor)) (scan_d s) else None
           | [] \<Rightarrow> None))"

section \<open>Base prefixes and underscores\<close>

definition base_of :: "char \<Rightarrow> nat option" where
  "base_of c =
     (if c = CHR ''b'' \<or> c = CHR ''B'' then Some 2 else if c = CHR ''o'' \<or> c = CHR ''O'' then Some 8
      else if c = CHR ''x'' \<or> c = CHR ''X'' then Some 16 else None)"

definition digit_below :: "nat \<Rightarrow> char \<Rightarrow> bool" where
  "digit_below base c = (is_hex c \<and> unhex c < base)"

text \<open>The token that the verb \<open>%v\<close> takes, after the sign; \<^const>\<open>None\<close> if no digit follows.\<close>

definition number_token :: "string \<Rightarrow> string option" where
  "number_token s =
     (let run = (\<lambda>base. takeWhile (\<lambda>c. digit_below base c \<or> c = CHR ''_''))
      in case s of
           [] \<Rightarrow> None
         | c # r \<Rightarrow>
             if c = CHR ''0''
             then (case r of
                p # r' \<Rightarrow> (case base_of p of Some base \<Rightarrow> Some (c # p # run base r') | None \<Rightarrow> Some (c # run 8 r))
              | [] \<Rightarrow> Some [c])
             else if digit_below 10 c \<or> c = CHR ''_'' then Some (run 10 s) else None)"

text \<open>\<open>strconv.underscoreOK\<close>: the state is the kind of the character before.\<close>

datatype under_state = UStart | UDigit | UScore | UOther

fun underscore_run :: "bool \<Rightarrow> under_state \<Rightarrow> string \<Rightarrow> bool" where
  "underscore_run hex st [] = (st \<noteq> UScore)"
| "underscore_run hex st (c # s) =
     (if is_digit c \<or> hex \<and> is_hex c then underscore_run hex UDigit s
      else if c = CHR ''_'' then (st = UDigit \<and> underscore_run hex UScore s)
      else st \<noteq> UScore \<and> underscore_run hex UOther s)"

definition underscoreOK :: "string \<Rightarrow> bool" where
  "underscoreOK s =
     (case s of
        z # p # r \<Rightarrow>
          if z = CHR ''0'' \<and> base_of p \<noteq> None then underscore_run (base_of p = Some 16) UDigit r
          else underscore_run False UStart s
      | _ \<Rightarrow> underscore_run False UStart s)"

fun eval_digits :: "nat \<Rightarrow> nat \<Rightarrow> string \<Rightarrow> nat option" where
  "eval_digits base acc [] = Some acc"
| "eval_digits base acc (c # s) =
     (if c = CHR ''_'' then eval_digits base acc s
      else if digit_below base c then eval_digits base (base * acc + unhex c) s
      else None)"

definition ParseUint0 :: "string \<Rightarrow> nat option" where
  "ParseUint0 tok =
     (let (base, body) =
        (case tok of
           z # r \<Rightarrow>
             if z = CHR ''0''
             then (case r of p # d # ds \<Rightarrow> (case base_of p of Some b \<Rightarrow> (b, d # ds) | None \<Rightarrow> (8, r)) | _ \<Rightarrow> (8, r))
             else (10, tok)
         | [] \<Rightarrow> (10, []))
      in if tok = [] \<or> CHR ''_'' \<in> set tok \<and> \<not> underscoreOK tok then None else eval_digits base 0 body)"

text \<open>\<open>fmt.Sscan(input, &count)\<close> for an \<open>int64\<close>.\<close>

definition Sscan_int64 :: "string \<Rightarrow> int option" where
  "Sscan_int64 input =
     (case SkipSpace True input of
        None \<Rightarrow> None
      | Some s \<Rightarrow>
          (let (negative, t) = accept_sign s
           in case number_token t of
                None \<Rightarrow> None
              | Some tok \<Rightarrow> (case ParseUint0 tok of None \<Rightarrow> None | Some n \<Rightarrow> i64_range (signed_value negative n))))"

section \<open>Plain numbers\<close>

lemma is_digit_space: "is_digit c \<Longrightarrow> \<not> is_space c \<and> c \<noteq> CHR 0x0A \<and> c \<noteq> CHR ''-'' \<and> c \<noteq> CHR ''+''"
  by (auto simp: is_digit_def is_space_def char_le_nat)

text \<open>A version printed in decimal is read back, whatever follows it.\<close>

lemma scan_d_dec_nat:
  assumes "no_digit rest" "n < 2 ^ 63"
  shows "scan_d (dec_nat n @ rest) = Some (int n, rest)"
proof -
  obtain d ds where d: "dec_nat n = d # ds" by (cases "dec_nat n") auto
  then have dig: "is_digit d" using dec_nat_digits [of d n] by simp
  have "SkipSpace False (d # ds @ rest) = Some (d # ds @ rest)" using is_digit_space [OF dig] by simp
  moreover have "accept_sign (d # ds @ rest) = (False, d # ds @ rest)"
    using is_digit_space [OF dig] by (simp add: accept_sign_def)
  moreover have "read_dec 0 (d # ds @ rest) = (n, rest)"
    using read_dec_inverse [OF assms(1), of n] d by simp
  moreover have "i64_range (signed_value False n) = Some (int n)"
    using assms(2) by (simp add: i64_range_def signed_value_def)
  ultimately show ?thesis using dig d by (simp add: scan_d_def)
qed

lemma Sscanf_version_dec_nat:
  assumes "a < 2 ^ 63" "b < 2 ^ 63" "no_digit rest"
  shows "Sscanf_version (dec_nat a @ ''.'' @ dec_nat b @ rest) = Some (int a, int b)"
proof -
  have "no_digit (''.'' @ dec_nat b @ rest)" by (simp add: no_digit_def is_digit_def char_le_nat)
  then show ?thesis using assms by (simp add: Sscanf_version_def scan_d_dec_nat)
qed

end
