(* ===== verification/Go_Effects.thy ===== *)
theory Go_Effects
  imports Prelude
begin

text \<open>
  Functions that change a state and may return early with an error: a function from the state
  to a result and the new state, sequenced by \<open>bindE\<close>. Go's \<open>if err != nil { return ... }\<close>
  after a call is the error branch of \<open>bindE\<close>. A triple states what holds after a normal
  return and what holds after an early one.
\<close>

type_synonym ('s, 'a) prog = "'s \<Rightarrow> 'a go_result \<times> 's"

definition returnE :: "'a \<Rightarrow> ('s, 'a) prog" where
  "returnE x st = (Inr x, st)"

definition failE :: "go_error \<Rightarrow> ('s, 'a) prog" where
  "failE err st = (Inl err, st)"

definition bindE :: "('s, 'a) prog \<Rightarrow> ('a \<Rightarrow> ('s, 'b) prog) \<Rightarrow> ('s, 'b) prog" where
  "bindE m f st = (case m st of (Inl err, st') \<Rightarrow> (Inl err, st') | (Inr x, st') \<Rightarrow> f x st')"

definition thenE :: "('s, 'a) prog \<Rightarrow> ('s, 'b) prog \<Rightarrow> ('s, 'b) prog" where
  "thenE m k = bindE m (\<lambda>_. k)"

definition triple ::
  "('s \<Rightarrow> bool) \<Rightarrow> ('s, 'a) prog \<Rightarrow> ('a \<Rightarrow> 's \<Rightarrow> bool) \<Rightarrow> (go_error \<Rightarrow> 's \<Rightarrow> bool) \<Rightarrow> bool" where
  "triple P m Q R \<longleftrightarrow>
     (\<forall>st res st'. P st \<longrightarrow> m st = (res, st') \<longrightarrow> (case res of Inr x \<Rightarrow> Q x st' | Inl err \<Rightarrow> R err st'))"

lemma tripleI:
  "(\<And>st x st'. P st \<Longrightarrow> m st = (Inr x, st') \<Longrightarrow> Q x st') \<Longrightarrow>
   (\<And>st err st'. P st \<Longrightarrow> m st = (Inl err, st') \<Longrightarrow> R err st') \<Longrightarrow> triple P m Q R"
  by (auto simp: triple_def split: sum.split)

lemma tripleD:
  assumes "triple P m Q R" "P st"
  shows "m st = (Inr x, st') \<Longrightarrow> Q x st'" and "m st = (Inl err, st') \<Longrightarrow> R err st'"
  using assms by (auto simp: triple_def split: sum.splits)

lemma triple_result:
  "triple P m Q R \<Longrightarrow> P st \<Longrightarrow> m st = (res, st') \<Longrightarrow> case res of Inr x \<Rightarrow> Q x st' | Inl err \<Rightarrow> R err st'"
  by (simp add: triple_def)

lemma triple_return: "(\<And>st. P st \<Longrightarrow> Q x st) \<Longrightarrow> triple P (returnE x) Q R"
  by (auto simp: triple_def returnE_def)

lemma triple_fail: "(\<And>st. P st \<Longrightarrow> R err st) \<Longrightarrow> triple P (failE err) Q R"
  by (auto simp: triple_def failE_def)

lemma triple_bind:
  assumes "triple P m M R" "\<And>x. triple (M x) (f x) Q R"
  shows "triple P (bindE m f) Q R"
  using assms by (fastforce simp: triple_def bindE_def split: prod.splits sum.splits)

lemma triple_then: "triple P m (\<lambda>_. M) R \<Longrightarrow> triple M k Q R \<Longrightarrow> triple P (thenE m k) Q R"
  unfolding thenE_def by (rule triple_bind)

lemma triple_if: "(c \<Longrightarrow> triple P m Q R) \<Longrightarrow> (\<not> c \<Longrightarrow> triple P n Q R) \<Longrightarrow> triple P (if c then m else n) Q R"
  by simp

lemma triple_conseq:
  "triple P m Q R \<Longrightarrow> (\<And>st. P' st \<Longrightarrow> P st) \<Longrightarrow> (\<And>x st. Q x st \<Longrightarrow> Q' x st) \<Longrightarrow>
   (\<And>err st. R err st \<Longrightarrow> R' err st) \<Longrightarrow> triple P' m Q' R'"
  unfolding triple_def by (fastforce split: sum.splits)

text \<open>Two programs that agree up to a state agree when they are continued in the same way.\<close>

lemma bindE_cong: "m st = n st \<Longrightarrow> (\<And>x st'. n st = (Inr x, st') \<Longrightarrow> f x st' = g x st') \<Longrightarrow> bindE m f st = bindE n g st"
  by (auto simp: bindE_def split: prod.split sum.split)

lemma bindE_simps [simp]:
  "m st = (Inr x, st') \<Longrightarrow> bindE m f st = f x st'"
  "m st = (Inl err, st') \<Longrightarrow> bindE m f st = (Inl err, st')"
  by (simp_all add: bindE_def)

lemma bindE_run: "m st = (Inr x, st') \<Longrightarrow> f x st' = r \<Longrightarrow> bindE m f st = r"
  by simp

lemma thenE_run: "m st = (Inr x, st') \<Longrightarrow> k st' = r \<Longrightarrow> thenE m k st = r"
  by (simp add: thenE_def)

lemma thenE_simps [simp]:
  "m st = (Inr x, st') \<Longrightarrow> thenE m k st = k st'"
  "m st = (Inl err, st') \<Longrightarrow> thenE m k st = (Inl err, st')"
  by (simp_all add: thenE_def)

end
