(* ===== verification/Host.thy ===== *)
theory Host
  imports Go_Scan Go_Time Go_Effects "HOL-Library.Word"
begin

text \<open>
  Package \<open>host\<close> (\<open>host/host.go\<close>): the preflight check of a Linux host, and the preparation
  of the writable layer of a cage over the immutable base root. What a \<open>Probe\<close> observes is a
  record of its answers; one call of a handler asks each question once. The managed directories
  are a map from paths to what \<open>Lstat\<close> finds there; the base root is the tree that
  \<open>filepath.WalkDir\<close> visits.
\<close>

unbundle bit_operations_syntax

section \<open>File modes\<close>

text \<open>\<open>fs.FileMode\<close> and the modes of \<open>stat(2)\<close> from which \<open>os.Lstat\<close> computes it on Linux.\<close>

definition ModeDir :: u32 where "ModeDir = 0x80000000"
definition ModeSymlink :: u32 where "ModeSymlink = 0x08000000"
definition ModeDevice :: u32 where "ModeDevice = 0x04000000"
definition ModeNamedPipe :: u32 where "ModeNamedPipe = 0x02000000"
definition ModeSocket :: u32 where "ModeSocket = 0x01000000"
definition ModeSetuid :: u32 where "ModeSetuid = 0x00800000"
definition ModeSetgid :: u32 where "ModeSetgid = 0x00400000"
definition ModeCharDevice :: u32 where "ModeCharDevice = 0x00200000"
definition ModeSticky :: u32 where "ModeSticky = 0x00100000"
definition ModeType :: u32 where "ModeType = 0x8F280000"
definition ModePerm :: u32 where "ModePerm = 0x1FF"

lemmas mode_defs = ModeDir_def ModeSymlink_def ModeDevice_def ModeNamedPipe_def ModeSocket_def ModeSetuid_def
  ModeSetgid_def ModeCharDevice_def ModeSticky_def ModeType_def ModePerm_def

definition mode_IsDir :: "u32 \<Rightarrow> bool" where "mode_IsDir m = (m AND ModeDir \<noteq> 0)"
definition mode_IsRegular :: "u32 \<Rightarrow> bool" where "mode_IsRegular m = (m AND ModeType = 0)"
definition mode_Perm :: "u32 \<Rightarrow> u32" where "mode_Perm m = m AND ModePerm"

definition S_ISUID :: u32 where "S_ISUID = 0x800"
definition S_ISGID :: u32 where "S_ISGID = 0x400"
definition S_ISVTX :: u32 where "S_ISVTX = 0x200"

definition file_type_bits :: "u32 \<Rightarrow> u32" where
  "file_type_bits s =
     (let t = s AND 0xF000
      in if t = 0x6000 then ModeDevice else if t = 0x2000 then ModeDevice OR ModeCharDevice
         else if t = 0x4000 then ModeDir else if t = 0x1000 then ModeNamedPipe
         else if t = 0xA000 then ModeSymlink else if t = 0xC000 then ModeSocket else 0)"

definition file_mode_of_stat :: "u32 \<Rightarrow> u32" where
  "file_mode_of_stat s =
     (s AND 0x1FF) OR file_type_bits s OR (if s AND S_ISGID \<noteq> 0 then ModeSetgid else 0) OR
     (if s AND S_ISUID \<noteq> 0 then ModeSetuid else 0) OR (if s AND S_ISVTX \<noteq> 0 then ModeSticky else 0)"

text \<open>\<open>fi_uid\<close> is \<^const>\<open>None\<close> if \<open>info.Sys()\<close> is not a \<open>*syscall.Stat_t\<close>.\<close>

record FileInfo =
  fi_mode :: u32
  fi_uid :: "u32 option"

definition ownerUID :: "FileInfo \<Rightarrow> u32" where
  "ownerUID info = (case fi_uid info of Some uid \<Rightarrow> uid | None \<Rightarrow> NOT 0)"

section \<open>The probe and the mount table\<close>

record MountInfo =
  mi_MountPoint :: string
  mi_Propagation :: string

record Probe =
  pr_GOOS :: string
  pr_ReadFile :: "string \<Rightarrow> bytes option"
  pr_Stat :: "string \<Rightarrow> FileInfo option"
  pr_Statfs :: "string \<Rightarrow> int option"
  pr_ReadMounts :: "MountInfo list option"
  pr_Now :: "gotime option"

text \<open>\<open>strings.ReplaceAll(s, "\040", " ")\<close> with a literal backslash.\<close>

fun unescape_blank :: "string \<Rightarrow> string" where
  "unescape_blank (a # b # c # d # s) =
     (if a = CHR 0x5C \<and> b = CHR ''0'' \<and> c = CHR ''4'' \<and> d = CHR ''0'' then CHR '' '' # unescape_blank s
      else a # unescape_blank (b # c # d # s))"
| "unescape_blank s = s"

definition propagation_step :: "string \<Rightarrow> string \<Rightarrow> string" where
  "propagation_step option propagation =
     (let p1 = (if HasPrefix option ''shared:'' then ''shared'' else propagation);
          p2 = (if HasPrefix option ''master:'' then ''slave'' else p1)
      in if option = ''unbindable'' then ''unbindable'' else p2)"

text \<open>The position of the first \<open>-\<close> among the fields, or the number of fields if there is none.\<close>

definition separator_index :: "string list \<Rightarrow> nat" where
  "separator_index words = length (takeWhile (\<lambda>f. f \<noteq> ''-'') words)"

definition mount_line :: "string \<Rightarrow> MountInfo option" where
  "mount_line line =
     (let words = Fields line; separator = separator_index words
      in if length words < 7 then None
         else if separator = length words \<or> separator < 6 then None
         else Some \<lparr>mi_MountPoint = unescape_blank (words ! 4),
                    mi_Propagation = fold propagation_step (take (separator - 6) (drop 6 words)) ''private''\<rparr>)"

fun mount_lines :: "string list \<Rightarrow> MountInfo list option" where
  "mount_lines [] = Some []"
| "mount_lines (l # ls) =
     (case mount_line l of None \<Rightarrow> None | Some m \<Rightarrow> (case mount_lines ls of None \<Rightarrow> None | Some ms \<Rightarrow> Some (m # ms)))"

definition readMountInfo :: "bytes option \<Rightarrow> MountInfo list option" where
  "readMountInfo file =
     (case file of None \<Rightarrow> None | Some data \<Rightarrow> mount_lines (split_on (CHR 0x0A) (TrimSpace data)))"

text \<open>What the operating system answers, and the probe that asks it.\<close>

record host_os =
  os_GOOS :: string
  os_ReadFile :: "string \<Rightarrow> bytes option"
  os_Lstat :: "string \<Rightarrow> FileInfo option"
  os_Statfs :: "string \<Rightarrow> int option"
  os_Now :: gotime

definition LinuxProbe :: "host_os \<Rightarrow> Probe" where
  "LinuxProbe sys =
     \<lparr>pr_GOOS = os_GOOS sys, pr_ReadFile = os_ReadFile sys, pr_Stat = os_Lstat sys, pr_Statfs = os_Statfs sys,
      pr_ReadMounts = readMountInfo (os_ReadFile sys ''/proc/self/mountinfo''), pr_Now = Some (time_UTC (os_Now sys))\<rparr>"

definition covers :: "string \<Rightarrow> MountInfo \<Rightarrow> bool" where
  "covers target mount =
     (mi_MountPoint mount = ''/'' \<or> target = mi_MountPoint mount \<or> HasPrefix target (mi_MountPoint mount @ ''/''))"

fun covering_loop :: "string \<Rightarrow> MountInfo option \<Rightarrow> MountInfo list \<Rightarrow> MountInfo option" where
  "covering_loop target result [] = result"
| "covering_loop target result (mount # mounts) =
     covering_loop target
       (if covers target mount \<and>
           (case result of None \<Rightarrow> True | Some r \<Rightarrow> length (mi_MountPoint mount) > length (mi_MountPoint r))
        then Some mount else result) mounts"

definition coveringMount :: "string \<Rightarrow> MountInfo list \<Rightarrow> MountInfo option" where
  "coveringMount target mounts = covering_loop target None mounts"

section \<open>Preflight\<close>

record PreflightConfig =
  pc_ProtectedPaths :: "string list"
  pc_RequiredServiceFiles :: "string list"
  pc_BaseRoot :: string
  pc_RequiredLSM :: string
  pc_Probe :: "Probe option"
  pc_MinimumKernelMajor :: int
  pc_MinimumKernelMinor :: int

record Preflight = pf_config :: PreflightConfig

definition host_deny :: "string \<Rightarrow> go_error" where "host_deny code = DecisionError PkgHost code"

definition NewPreflight :: "PreflightConfig \<Rightarrow> Preflight go_result" where
  "NewPreflight config =
     (if pc_Probe config = None \<or> pc_ProtectedPaths config = [] \<or> pc_BaseRoot config = [] \<or>
         pc_MinimumKernelMajor config < 4 \<or> pc_MinimumKernelMinor config < 0
      then Inl (ErrUnavailable PkgHost ''incomplete preflight configuration'')
      else let config = (if pc_RequiredLSM config = [] then config\<lparr>pc_RequiredLSM := ''apparmor''\<rparr> else config)
           in if \<not> list_all safeAbsolutePath (pc_ProtectedPaths config @ pc_RequiredServiceFiles config @ [pc_BaseRoot config])
              then Inl (ErrUnavailable PkgHost ''unsafe configured path'')
              else Inr \<lparr>pf_config = config\<rparr>)"

text \<open>The first error of a sequence of checks.\<close>

fun first_error :: "go_error option list \<Rightarrow> go_error option" where
  "first_error [] = None"
| "first_error (e # es) = (case e of Some err \<Rightarrow> Some err | None \<Rightarrow> first_error es)"

definition checkKernel :: "PreflightConfig \<Rightarrow> Probe \<Rightarrow> go_error option" where
  "checkKernel c p =
     (case pr_ReadFile p ''/proc/sys/kernel/osrelease'' of
        None \<Rightarrow> Some (ErrUnavailable PkgHost ''kernel version unavailable'')
      | Some data \<Rightarrow>
          (case Sscanf_version (TrimSpace data) of
             None \<Rightarrow> Some (host_deny ''kernel_version_inadequate'')
           | Some (major, minor) \<Rightarrow>
               if major < pc_MinimumKernelMajor c \<or> major = pc_MinimumKernelMajor c \<and> minor < pc_MinimumKernelMinor c
               then Some (host_deny ''kernel_version_inadequate'') else None))"

definition checkCgroupV2 :: "Probe \<Rightarrow> go_error option" where
  "checkCgroupV2 p =
     (case pr_ReadFile p ''/sys/fs/cgroup/cgroup.controllers'' of
        None \<Rightarrow> Some (host_deny ''cgroup_v2_unavailable'')
      | Some data \<Rightarrow> if TrimSpace data = [] then Some (host_deny ''cgroup_v2_unavailable'') else None)"

definition checkUserNamespaces :: "Probe \<Rightarrow> go_error option" where
  "checkUserNamespaces p =
     (case pr_ReadFile p ''/proc/sys/user/max_user_namespaces'' of
        None \<Rightarrow> Some (ErrUnavailable PkgHost ''user namespace setting unavailable'')
      | Some data \<Rightarrow>
          (case Sscan_int64 (TrimSpace data) of
             None \<Rightarrow> Some (host_deny ''user_namespaces_disabled'')
           | Some n \<Rightarrow> if n \<le> 0 then Some (host_deny ''user_namespaces_disabled'') else None))"

definition checkSeccomp :: "Probe \<Rightarrow> go_error option" where
  "checkSeccomp p =
     (case pr_ReadFile p ''/proc/sys/kernel/seccomp/actions_avail'' of
        None \<Rightarrow> Some (host_deny ''seccomp_unavailable'')
      | Some data \<Rightarrow> if ''filter'' \<in> set (Fields data) then None else Some (host_deny ''seccomp_unavailable''))"

text \<open>Where the state of a security module is read, and what it must be.\<close>

definition lsm_posture :: "string \<Rightarrow> (string \<times> string) option" where
  "lsm_posture lsm =
     (if lsm = ''apparmor'' then Some (''/sys/module/apparmor/parameters/enabled'', ''Y'')
      else if lsm = ''selinux'' then Some (''/sys/fs/selinux/enforce'', ''1'') else None)"

definition checkLSM :: "PreflightConfig \<Rightarrow> Probe \<Rightarrow> go_error option" where
  "checkLSM c p =
     (case pr_ReadFile p ''/sys/kernel/security/lsm'' of
        None \<Rightarrow> Some (ErrUnavailable PkgHost ''lsm state unavailable'')
      | Some data \<Rightarrow>
          if \<not> list_ex (\<lambda>lsm. TrimSpace lsm = pc_RequiredLSM c) (split_on (CHR '','') (TrimSpace data))
          then Some (host_deny ''required_lsm_unavailable'')
          else (case lsm_posture (pc_RequiredLSM c) of
             None \<Rightarrow> Some (ErrUnavailable PkgHost ''unsupported LSM posture source'')
           | Some (statePath, expected) \<Rightarrow>
               (case pr_ReadFile p statePath of
                  None \<Rightarrow> Some (ErrUnavailable PkgHost ''lsm enforcement state unavailable'')
                | Some state \<Rightarrow>
                    if TrimSpace state \<noteq> expected then Some (host_deny ''required_lsm_not_enforcing'') else None)))"

definition unsafe_propagation :: "MountInfo option \<Rightarrow> bool" where
  "unsafe_propagation entry =
     (case entry of
        None \<Rightarrow> True
      | Some m \<Rightarrow> mi_Propagation m = ''shared'' \<or> mi_Propagation m = ''slave'' \<or> mi_Propagation m = ''unbindable'')"

definition checkMountPropagation :: "PreflightConfig \<Rightarrow> Probe \<Rightarrow> go_error option" where
  "checkMountPropagation c p =
     (case pr_ReadMounts p of
        None \<Rightarrow> Some (ErrUnavailable PkgHost ''mount information unavailable'')
      | Some mounts \<Rightarrow>
          if list_ex (\<lambda>target. unsafe_propagation (coveringMount target mounts)) (pc_ProtectedPaths c @ [pc_BaseRoot c])
          then Some (host_deny ''unsafe_mount_propagation'') else None)"

definition checkOwnerControlledPath :: "Probe \<Rightarrow> bool \<Rightarrow> string \<Rightarrow> go_error option" where
  "checkOwnerControlledPath p allowFile path =
     (case pr_Stat p path of
        None \<Rightarrow> Some (ErrUnavailable PkgHost ''required path unavailable'')
      | Some info \<Rightarrow>
          if fi_mode info AND ModeSymlink \<noteq> 0 \<or> \<not> allowFile \<and> \<not> mode_IsDir (fi_mode info) \<or>
             allowFile \<and> \<not> mode_IsRegular (fi_mode info) \<or> mode_Perm (fi_mode info) AND 0x12 \<noteq> 0 \<or> ownerUID info \<noteq> 0
          then Some (host_deny ''unsafe_protected_path'') else None)"

definition checkClock :: "Probe \<Rightarrow> go_error option" where
  "checkClock p = (case pr_Now p of None \<Rightarrow> Some (ErrUnavailable PkgHost ''clock unavailable'') | Some _ \<Rightarrow> None)"

text \<open>The checks of a Linux host, in the order in which they are made.\<close>

definition preflight_checks :: "PreflightConfig \<Rightarrow> Probe \<Rightarrow> go_error option list" where
  "preflight_checks c p =
     [checkKernel c p, checkCgroupV2 p, checkUserNamespaces p, checkSeccomp p, checkLSM c p, checkClock p,
      checkMountPropagation c p] @
     map (checkOwnerControlledPath p False) (pc_ProtectedPaths c) @
     map (checkOwnerControlledPath p True) (pc_RequiredServiceFiles c) @
     [checkOwnerControlledPath p False (pc_BaseRoot c)]"

definition Check :: "Preflight option \<Rightarrow> bool \<Rightarrow> go_error option" where
  "Check preflight cancelled =
     (case preflight of
        None \<Rightarrow> Some (ErrUnavailable PkgHost ''nil preflight'')
      | Some pf \<Rightarrow>
          (case pc_Probe (pf_config pf) of
             None \<Rightarrow> Some (ErrUnavailable PkgHost ''nil preflight'')
           | Some p \<Rightarrow>
               if cancelled then Some (ErrUnavailable PkgHost ''request canceled'')
               else if pr_GOOS p \<noteq> ''linux'' then Some (host_deny ''unsupported_platform'')
               else first_error (preflight_checks (pf_config pf) p)))"

section \<open>The base root and the layers of a cage\<close>

text \<open>
  The tree that \<open>filepath.WalkDir\<close> visits: what \<open>Info\<close> returns for an entry, and what
  \<open>ReadDir\<close> returns for a directory, each \<^const>\<open>None\<close> if it fails.
\<close>

datatype dir_tree = Entry (tree_info: "FileInfo option") (tree_children: "dir_tree list option")

type_synonym host_fs = "string \<Rightarrow> FileInfo option"

record host_env =
  he_lstat_fault :: "string \<Rightarrow> bool"
  he_mkdir_fault :: "string \<Rightarrow> bool"
  he_keeps :: "string \<Rightarrow> bool"
  he_umask :: u32
  he_euid :: u32
  he_tree :: "dir_tree option"

record BaseRootConfig =
  bc_BaseRoot :: string
  bc_EphemeralRoot :: string
  bc_ExpectedOwnerUID :: u32
  bc_ExpectedRootMode :: u32
  bc_AllowedFilesystems :: "int list"
  bc_Probe :: "Probe option"

record BaseRootAuthority = ba_config :: BaseRootConfig

record Layer =
  ly_CageID :: string
  ly_BaseRoot :: string
  ly_UpperDir :: string
  ly_WorkDir :: string

definition NewBaseRootAuthority :: "BaseRootConfig \<Rightarrow> BaseRootAuthority go_result" where
  "NewBaseRootAuthority config =
     (if bc_Probe config = None \<or> \<not> safeAbsolutePath (bc_BaseRoot config) \<or> \<not> safeAbsolutePath (bc_EphemeralRoot config) \<or>
         bc_BaseRoot config = bc_EphemeralRoot config \<or> bc_ExpectedRootMode config = 0 \<or> bc_AllowedFilesystems config = []
      then Inl (ErrUnavailable PkgHost ''incomplete base-root configuration'')
      else Inr \<lparr>ba_config = config\<rparr>)"

definition validCageID :: "string \<Rightarrow> bool" where
  "validCageID value =
     (if \<not> HasPrefix value ''cage-'' \<or> length value < 8 \<or> length value > 68 then False
      else list_all (\<lambda>c. c = CHR ''-'' \<or> CHR ''a'' \<le> c \<and> c \<le> CHR ''z'' \<or> CHR ''0'' \<le> c \<and> c \<le> CHR ''9'') value)"

definition os_Lstat_at :: "host_env \<Rightarrow> host_fs \<Rightarrow> string \<Rightarrow> FileInfo option" where
  "os_Lstat_at env fs path = (if he_lstat_fault env path then None else fs path)"

definition validateOwnerDirectory :: "host_env \<Rightarrow> host_fs \<Rightarrow> string \<Rightarrow> u32 \<Rightarrow> u32 \<Rightarrow> go_error option" where
  "validateOwnerDirectory env fs path expectedUID expectedMode =
     (case os_Lstat_at env fs path of
        None \<Rightarrow> Some (ErrUnavailable PkgHost ''managed directory unavailable'')
      | Some info \<Rightarrow>
          if fi_mode info AND ModeSymlink \<noteq> 0 \<or> \<not> mode_IsDir (fi_mode info) \<or> mode_Perm (fi_mode info) \<noteq> expectedMode \<or>
             ownerUID info \<noteq> expectedUID
          then Some (host_deny ''unsafe_managed_directory'') else None)"

definition unsafe_entry :: "u32 \<Rightarrow> FileInfo \<Rightarrow> bool" where
  "unsafe_entry owner info =
     (let mode = fi_mode info
      in mode AND ModeSymlink \<noteq> 0 \<or> mode AND ModeDevice \<noteq> 0 \<or> mode AND ModeCharDevice \<noteq> 0 \<or> mode AND 0xC00 \<noteq> 0 \<or>
         mode_Perm mode AND 0x12 \<noteq> 0 \<or> ownerUID info \<noteq> owner)"

text \<open>The walk: each entry before its children, in order, up to the first error.\<close>

fun scan_tree :: "u32 \<Rightarrow> dir_tree \<Rightarrow> go_error option" where
  "scan_tree owner (Entry info children) =
     (case info of
        None \<Rightarrow> Some (ErrUnavailable PkgHost ''inspect base-root entry'')
      | Some i \<Rightarrow>
          if unsafe_entry owner i then Some (host_deny ''unsafe_base_root_entry'')
          else if \<not> mode_IsDir (fi_mode i) then None
          else (case children of
             None \<Rightarrow> Some (ErrUnavailable PkgHost ''read base-root entry'')
           | Some ts \<Rightarrow> first_error (map (scan_tree owner) ts)))"

definition scanImmutableTree :: "host_env \<Rightarrow> u32 \<Rightarrow> go_error option" where
  "scanImmutableTree env owner =
     (case he_tree env of None \<Rightarrow> Some (ErrUnavailable PkgHost ''read base-root entry'') | Some t \<Rightarrow> scan_tree owner t)"

definition validateBaseRoot :: "host_env \<Rightarrow> BaseRootConfig \<Rightarrow> host_fs \<Rightarrow> go_error option" where
  "validateBaseRoot env c fs =
     (case validateOwnerDirectory env fs (bc_BaseRoot c) (bc_ExpectedOwnerUID c) (bc_ExpectedRootMode c) of
        Some err \<Rightarrow> Some err
      | None \<Rightarrow>
          (case bc_Probe c of
             None \<Rightarrow> Some (ErrOther ''nil pointer dereference'')
           | Some p \<Rightarrow>
          (case pr_Statfs p (bc_BaseRoot c) of
             None \<Rightarrow> Some (ErrUnavailable PkgHost ''base-root filesystem unavailable'')
           | Some fstype \<Rightarrow>
               if fstype \<notin> set (bc_AllowedFilesystems c) then Some (host_deny ''unsafe_base_root_filesystem'')
               else (case pr_ReadMounts p of
                  None \<Rightarrow> Some (ErrUnavailable PkgHost ''base-root mount information unavailable'')
                | Some mounts \<Rightarrow>
                    (case coveringMount (bc_BaseRoot c) mounts of
                       None \<Rightarrow> Some (host_deny ''unsafe_base_root_propagation'')
                     | Some entry \<Rightarrow>
                         if mi_Propagation entry \<noteq> ''private'' then Some (host_deny ''unsafe_base_root_propagation'')
                         else scanImmutableTree env (bc_ExpectedOwnerUID c))))))"

section \<open>Directories\<close>

definition ErrExist :: go_error where "ErrExist = ErrOther ''file exists''"

text \<open>
  \<open>os.Mkdir(path, 0o700)\<close>: the umask applies, and a set-group-ID parent passes its bit on.
  \<open>os.RemoveAll\<close> removes the path and all below it, except what the system does not let go.
\<close>

definition new_dir :: "host_env \<Rightarrow> FileInfo \<Rightarrow> FileInfo" where
  "new_dir env d = \<lparr>fi_mode = ModeDir OR (0x1C0 AND NOT (he_umask env)) OR (fi_mode d AND ModeSetgid),
     fi_uid = Some (he_euid env)\<rparr>"

definition Mkdir :: "host_env \<Rightarrow> string \<Rightarrow> (host_fs, unit) prog" where
  "Mkdir env path fs =
     (if he_mkdir_fault env path then (Inl (ErrOther ''mkdir''), fs)
      else if fs path \<noteq> None then (Inl ErrExist, fs)
      else case fs (path_Dir path) of
        None \<Rightarrow> (Inl (ErrOther ''no such file or directory''), fs)
      | Some d \<Rightarrow>
          if \<not> mode_IsDir (fi_mode d) then (Inl (ErrOther ''not a directory''), fs)
          else (Inr (), fs(path \<mapsto> new_dir env d)))"

definition RemoveAll :: "host_env \<Rightarrow> string \<Rightarrow> host_fs \<Rightarrow> host_fs" where
  "RemoveAll env path fs =
     (\<lambda>q. if (q = path \<or> HasPrefix q (path @ ''/'')) \<and> \<not> he_keeps env q then None else fs q)"

definition mkdir_or :: "host_env \<Rightarrow> string \<Rightarrow> string \<Rightarrow> (host_fs, unit) prog" where
  "mkdir_or env path msg fs =
     (case Mkdir env path fs of
        (Inl _, fs') \<Rightarrow> (Inl (ErrUnavailable PkgHost msg), fs')
      | (Inr u, fs') \<Rightarrow> (Inr u, fs'))"

definition check_dir :: "host_env \<Rightarrow> BaseRootConfig \<Rightarrow> string \<Rightarrow> (host_fs, unit) prog" where
  "check_dir env c path fs =
     (case validateOwnerDirectory env fs path (bc_ExpectedOwnerUID c) 0x1C0 of
        Some err \<Rightarrow> (Inl err, fs)
      | None \<Rightarrow> (Inr (), fs))"

definition make_layer :: "host_env \<Rightarrow> BaseRootConfig \<Rightarrow> string \<Rightarrow> string \<Rightarrow> (host_fs, Layer) prog" where
  "make_layer env c cageID parent =
     (let upper = path_Join [parent, ''upper'']; work = path_Join [parent, ''work'']
      in thenE (mkdir_or env upper ''create upper layer'')
        (thenE (mkdir_or env work ''create work layer'')
        (thenE (check_dir env c parent)
        (thenE (check_dir env c upper)
        (thenE (check_dir env c work)
          (returnE \<lparr>ly_CageID = cageID, ly_BaseRoot = bc_BaseRoot c, ly_UpperDir = upper, ly_WorkDir = work\<rparr>))))))"

text \<open>The deferred function: unless the layer is complete, the parent is removed again.\<close>

definition with_cleanup :: "host_env \<Rightarrow> string \<Rightarrow> (host_fs, 'a) prog \<Rightarrow> (host_fs, 'a) prog" where
  "with_cleanup env parent m fs =
     (case m fs of (Inl err, fs') \<Rightarrow> (Inl err, RemoveAll env parent fs') | (Inr x, fs') \<Rightarrow> (Inr x, fs'))"

definition PrepareLayer :: "host_env \<Rightarrow> BaseRootAuthority option \<Rightarrow> bool \<Rightarrow> string \<Rightarrow> (host_fs, Layer) prog" where
  "PrepareLayer env authority cancelled cageID fs =
     (case authority of
        None \<Rightarrow> (Inl (ErrUnavailable PkgHost ''nil base-root authority''), fs)
      | Some a \<Rightarrow>
          (let c = ba_config a; parent = path_Join [bc_EphemeralRoot c, cageID] in
           if cancelled then (Inl (ErrUnavailable PkgHost ''request canceled''), fs)
           else if \<not> validCageID cageID then (Inl (host_deny ''invalid_cage_id''), fs)
           else
               (case validateBaseRoot env c fs of
                  Some err \<Rightarrow> (Inl err, fs)
                | None \<Rightarrow>
                    (case validateOwnerDirectory env fs (bc_EphemeralRoot c) (bc_ExpectedOwnerUID c) 0x1C0 of
                       Some err \<Rightarrow> (Inl err, fs)
                     | None \<Rightarrow>
                         (case Mkdir env parent fs of
                            (Inl err, fs') \<Rightarrow>
                              (Inl (if err = ErrExist then host_deny ''ephemeral_layer_already_exists''
                                    else ErrUnavailable PkgHost ''create cage layer parent''), fs')
                          | (Inr _, fs') \<Rightarrow> with_cleanup env parent (make_layer env c cageID parent) fs')))))"

section \<open>What the checks accept\<close>

lemma first_error_None [simp]: "first_error es = None \<longleftrightarrow> (\<forall>e\<in>set es. e = None)"
  by (induction es) (auto split: option.split)

lemma ownerUID_zero [simp]: "ownerUID info = 0 \<longleftrightarrow> fi_uid info = Some 0"
  by (auto simp: ownerUID_def split: option.split)

lemma TrimSpace_Nil: "TrimSpace s = [] \<longleftrightarrow> (\<forall>c\<in>set s. is_space c)"
proof -
  have "TrimSpace s = [] \<longleftrightarrow> (\<forall>c\<in>set (dropWhile is_space s). is_space c)"
    by (simp add: TrimSpace_def)
  also have "\<dots> \<longleftrightarrow> (\<forall>c\<in>set s. is_space c)"
    by (induction s) auto
  finally show ?thesis .
qed

text \<open>The conditions of admission, in terms of what the host shows.\<close>

definition root_controlled :: "Probe \<Rightarrow> (u32 \<Rightarrow> bool) \<Rightarrow> string \<Rightarrow> bool" where
  "root_controlled p kind path \<longleftrightarrow>
     (\<exists>info. pr_Stat p path = Some info \<and> fi_uid info = Some 0 \<and> kind (fi_mode info) \<and>
        fi_mode info AND ModeSymlink = 0 \<and> mode_Perm (fi_mode info) AND 0x12 = 0)"

definition kernel_features :: "PreflightConfig \<Rightarrow> Probe \<Rightarrow> bool" where
  "kernel_features c p \<longleftrightarrow> pr_GOOS p = ''linux'' \<and>
     (\<exists>data major minor. pr_ReadFile p ''/proc/sys/kernel/osrelease'' = Some data \<and>
        Sscanf_version (TrimSpace data) = Some (major, minor) \<and>
        (pc_MinimumKernelMajor c < major \<or> pc_MinimumKernelMajor c = major \<and> pc_MinimumKernelMinor c \<le> minor)) \<and>
     (\<exists>data. pr_ReadFile p ''/sys/fs/cgroup/cgroup.controllers'' = Some data \<and> (\<exists>ch\<in>set data. \<not> is_space ch)) \<and>
     (\<exists>data n. pr_ReadFile p ''/proc/sys/user/max_user_namespaces'' = Some data \<and> Sscan_int64 (TrimSpace data) = Some n \<and> 0 < n) \<and>
     (\<exists>data. pr_ReadFile p ''/proc/sys/kernel/seccomp/actions_avail'' = Some data \<and> ''filter'' \<in> set (Fields data)) \<and>
     (\<exists>data path expected state. pr_ReadFile p ''/sys/kernel/security/lsm'' = Some data \<and>
        pc_RequiredLSM c \<in> TrimSpace ` set (split_on (CHR '','') (TrimSpace data)) \<and>
        lsm_posture (pc_RequiredLSM c) = Some (path, expected) \<and> pr_ReadFile p path = Some state \<and> TrimSpace state = expected) \<and>
     pr_Now p \<noteq> None"

definition host_paths_safe :: "PreflightConfig \<Rightarrow> Probe \<Rightarrow> bool" where
  "host_paths_safe c p \<longleftrightarrow>
     (\<exists>mounts. pr_ReadMounts p = Some mounts \<and>
        (\<forall>t\<in>insert (pc_BaseRoot c) (set (pc_ProtectedPaths c)). \<exists>m. coveringMount t mounts = Some m \<and>
           mi_Propagation m \<notin> {''shared'', ''slave'', ''unbindable''})) \<and>
     (\<forall>path\<in>insert (pc_BaseRoot c) (set (pc_ProtectedPaths c)). root_controlled p mode_IsDir path) \<and>
     (\<forall>path\<in>set (pc_RequiredServiceFiles c). root_controlled p mode_IsRegular path)"

lemma checkKernel_iff:
  "checkKernel c p = None \<longleftrightarrow> (\<exists>data major minor. pr_ReadFile p ''/proc/sys/kernel/osrelease'' = Some data \<and>
     Sscanf_version (TrimSpace data) = Some (major, minor) \<and>
     (pc_MinimumKernelMajor c < major \<or> pc_MinimumKernelMajor c = major \<and> pc_MinimumKernelMinor c \<le> minor))"
  by (auto simp: checkKernel_def split: option.split)

lemma checkCgroupV2_iff:
  "checkCgroupV2 p = None \<longleftrightarrow>
     (\<exists>data. pr_ReadFile p ''/sys/fs/cgroup/cgroup.controllers'' = Some data \<and> (\<exists>ch\<in>set data. \<not> is_space ch))"
  by (auto simp: checkCgroupV2_def TrimSpace_Nil split: option.split)

lemma checkUserNamespaces_iff:
  "checkUserNamespaces p = None \<longleftrightarrow> (\<exists>data n. pr_ReadFile p ''/proc/sys/user/max_user_namespaces'' = Some data \<and>
     Sscan_int64 (TrimSpace data) = Some n \<and> 0 < n)"
  by (auto simp: checkUserNamespaces_def split: option.split)

lemma checkSeccomp_iff:
  "checkSeccomp p = None \<longleftrightarrow>
     (\<exists>data. pr_ReadFile p ''/proc/sys/kernel/seccomp/actions_avail'' = Some data \<and> ''filter'' \<in> set (Fields data))"
  by (auto simp: checkSeccomp_def split: option.split)

lemma listed_image: "list_ex (\<lambda>x. f x = y) xs \<longleftrightarrow> y \<in> f ` set xs"
  by (auto simp: list_ex_iff)

lemma checkLSM_iff:
  "checkLSM c p = None \<longleftrightarrow> (\<exists>data path expected state. pr_ReadFile p ''/sys/kernel/security/lsm'' = Some data \<and>
     pc_RequiredLSM c \<in> TrimSpace ` set (split_on (CHR '','') (TrimSpace data)) \<and>
     lsm_posture (pc_RequiredLSM c) = Some (path, expected) \<and> pr_ReadFile p path = Some state \<and> TrimSpace state = expected)"
  by (auto simp: checkLSM_def listed_image split: option.split)

lemma checkMountPropagation_iff:
  "checkMountPropagation c p = None \<longleftrightarrow> (\<exists>mounts. pr_ReadMounts p = Some mounts \<and>
     (\<forall>t\<in>insert (pc_BaseRoot c) (set (pc_ProtectedPaths c)). \<exists>m. coveringMount t mounts = Some m \<and>
        mi_Propagation m \<notin> {''shared'', ''slave'', ''unbindable''}))"
  by (auto simp: checkMountPropagation_def unsafe_propagation_def list_ex_iff split: option.split option.splits)

lemma checkOwnerControlledPath_iff:
  "checkOwnerControlledPath p False path = None \<longleftrightarrow> root_controlled p mode_IsDir path"
  "checkOwnerControlledPath p True path = None \<longleftrightarrow> root_controlled p mode_IsRegular path"
  by (auto simp: checkOwnerControlledPath_def root_controlled_def split: option.split)

lemma checkClock_iff: "checkClock p = None \<longleftrightarrow> pr_Now p \<noteq> None"
  by (simp add: checkClock_def split: option.split)

lemmas check_iffs = checkKernel_iff checkCgroupV2_iff checkUserNamespaces_iff checkSeccomp_iff checkLSM_iff
  checkMountPropagation_iff checkOwnerControlledPath_iff checkClock_iff

lemma Check_core:
  "Check (Some pf) cancelled = None \<longleftrightarrow>
     \<not> cancelled \<and> (\<exists>p. pc_Probe (pf_config pf) = Some p \<and> kernel_features (pf_config pf) p \<and> host_paths_safe (pf_config pf) p)"
proof (cases "pc_Probe (pf_config pf)")
  case None
  then show ?thesis by (simp add: Check_def)
next
  case (Some p)
  have "first_error (preflight_checks c p) = None \<longleftrightarrow> kernel_features c p \<and> host_paths_safe c p" if "pr_GOOS p = ''linux''" for c
    unfolding first_error_None preflight_checks_def kernel_features_def host_paths_safe_def check_iffs [symmetric]
    using that by auto
  moreover have "kernel_features c p \<Longrightarrow> pr_GOOS p = ''linux''" for c by (simp add: kernel_features_def)
  ultimately show ?thesis
    unfolding Check_def option.case Some by (cases cancelled; cases "pr_GOOS p = ''linux''") auto
qed

section \<open>The mount that covers a path\<close>

definition first_longest :: "MountInfo list \<Rightarrow> MountInfo \<Rightarrow> bool" where
  "first_longest ms m \<longleftrightarrow> (\<exists>before after. ms = before @ m # after \<and>
     (\<forall>x\<in>set before. length (mi_MountPoint x) < length (mi_MountPoint m)) \<and>
     (\<forall>x\<in>set after. length (mi_MountPoint x) \<le> length (mi_MountPoint m)))"

lemma first_longest_skip:
  assumes "length (mi_MountPoint x) < length (mi_MountPoint y)"
  shows "first_longest (x # y # ms) m \<longleftrightarrow> first_longest (y # ms) m"
proof
  assume "first_longest (x # y # ms) m"
  then obtain before after where s: "x # y # ms = before @ m # after"
      "\<forall>z\<in>set before. length (mi_MountPoint z) < length (mi_MountPoint m)"
      "\<forall>z\<in>set after. length (mi_MountPoint z) \<le> length (mi_MountPoint m)"
    unfolding first_longest_def by blast
  then obtain b where "before = x # b" using assms by (cases before) auto
  then show "first_longest (y # ms) m" using s unfolding first_longest_def by auto
next
  assume "first_longest (y # ms) m"
  then obtain before after where s: "y # ms = before @ m # after"
      "\<forall>z\<in>set before. length (mi_MountPoint z) < length (mi_MountPoint m)"
      "\<forall>z\<in>set after. length (mi_MountPoint z) \<le> length (mi_MountPoint m)"
    unfolding first_longest_def by blast
  then have "length (mi_MountPoint x) < length (mi_MountPoint m)" using assms by (cases before) auto
  with s have "x # y # ms = (x # before) @ m # after"
      "\<forall>z\<in>set (x # before). length (mi_MountPoint z) < length (mi_MountPoint m)" by simp_all
  with s(3) show "first_longest (x # y # ms) m" unfolding first_longest_def by blast
qed

lemma first_longest_drop:
  assumes "length (mi_MountPoint y) \<le> length (mi_MountPoint x)"
  shows "first_longest (x # y # ms) m \<longleftrightarrow> first_longest (x # ms) m"
proof
  assume "first_longest (x # y # ms) m"
  then obtain before after where s: "x # y # ms = before @ m # after"
      "\<forall>z\<in>set before. length (mi_MountPoint z) < length (mi_MountPoint m)"
      "\<forall>z\<in>set after. length (mi_MountPoint z) \<le> length (mi_MountPoint m)"
    unfolding first_longest_def by blast
  show "first_longest (x # ms) m"
  proof (cases before)
    case Nil
    then have "x # ms = [] @ m # ms" "\<forall>z\<in>set ms. length (mi_MountPoint z) \<le> length (mi_MountPoint m)" using s by auto
    then show ?thesis unfolding first_longest_def by fastforce
  next
    case (Cons b bs)
    then obtain bs' where "bs = y # bs'" using s assms by (cases bs) auto
    with Cons s have "x # ms = (x # bs') @ m # after"
      "\<forall>z\<in>set (x # bs'). length (mi_MountPoint z) < length (mi_MountPoint m)" by auto
    with s(3) show ?thesis unfolding first_longest_def by blast
  qed
next
  assume "first_longest (x # ms) m"
  then obtain before after where s: "x # ms = before @ m # after"
      "\<forall>z\<in>set before. length (mi_MountPoint z) < length (mi_MountPoint m)"
      "\<forall>z\<in>set after. length (mi_MountPoint z) \<le> length (mi_MountPoint m)"
    unfolding first_longest_def by blast
  show "first_longest (x # y # ms) m"
  proof (cases before)
    case Nil
    then have "x # y # ms = [] @ m # y # ms" "\<forall>z\<in>set (y # ms). length (mi_MountPoint z) \<le> length (mi_MountPoint m)"
      using s assms by auto
    then show ?thesis unfolding first_longest_def by fastforce
  next
    case (Cons b bs)
    with s assms have "x # y # ms = (x # y # bs) @ m # after"
      "\<forall>z\<in>set (x # y # bs). length (mi_MountPoint z) < length (mi_MountPoint m)" by auto
    with s(3) show ?thesis unfolding first_longest_def by blast
  qed
qed

lemma first_longest_single: "first_longest [x] m \<longleftrightarrow> x = m"
  by (auto simp: first_longest_def Cons_eq_append_conv)

lemma covering_loop_iff:
  "covering_loop target result ms = Some m \<longleftrightarrow>
     first_longest ((case result of None \<Rightarrow> [] | Some r \<Rightarrow> [r]) @ filter (covers target) ms) m"
proof (induction ms arbitrary: result)
  case Nil
  show ?case by (cases result) (auto simp: first_longest_single, simp add: first_longest_def)
next
  case (Cons x ms)
  show ?case
    using Cons.IH first_longest_skip first_longest_drop
    by (cases result) (auto simp: not_less)
qed

lemma coveringMount_core: "coveringMount target mounts = Some m \<longleftrightarrow> first_longest (filter (covers target) mounts) m"
  by (simp add: coveringMount_def covering_loop_iff)

section \<open>Modes and the walk\<close>

lemma word_and_or: "(a OR b) AND c = (a AND c) OR (b AND c)" for a b c :: u32
  by (rule bit.conj_disj_distrib2)

lemma mode_bits_setuid:
  "file_mode_of_stat (s OR S_ISUID OR S_ISGID) =
     (s AND 0x1FF) OR file_type_bits s OR ModeSetgid OR ModeSetuid OR (if s AND S_ISVTX \<noteq> 0 then ModeSticky else 0)"
proof -
  have "(s OR S_ISUID OR S_ISGID) AND 0xF000 = s AND 0xF000" "(s OR S_ISUID OR S_ISGID) AND 0x1FF = s AND 0x1FF"
      "(s OR S_ISUID OR S_ISGID) AND S_ISVTX = s AND S_ISVTX"
    by (simp_all add: word_and_or S_ISUID_def S_ISGID_def S_ISVTX_def)
  moreover have "(s OR S_ISUID OR S_ISGID) AND S_ISGID \<noteq> 0" "(s OR S_ISUID OR S_ISGID) AND S_ISUID \<noteq> 0"
    by (simp_all add: word_and_or S_ISUID_def S_ISGID_def)
  ultimately show ?thesis by (simp add: file_mode_of_stat_def file_type_bits_def)
qed

text \<open>No bit that a check of the walk looks at depends on the set-user-ID and set-group-ID bits.\<close>

lemma file_mode_masked:
  assumes "ModeSetgid AND k = 0" "ModeSetuid AND k = 0" "ModeSticky AND k = 0"
  shows "file_mode_of_stat s AND k = ((s AND 0x1FF) OR file_type_bits s) AND k"
  using assms by (simp add: file_mode_of_stat_def word_and_or)

lemma file_mode_masked_setuid:
  assumes "ModeSetgid AND k = 0" "ModeSetuid AND k = 0" "ModeSticky AND k = 0"
  shows "file_mode_of_stat (s OR S_ISUID OR S_ISGID) AND k = file_mode_of_stat s AND k"
  unfolding file_mode_masked [OF assms] mode_bits_setuid
  using assms by (simp add: word_and_or)

lemma unsafe_entry_setuid:
  "unsafe_entry owner \<lparr>fi_mode = file_mode_of_stat (s OR S_ISUID OR S_ISGID), fi_uid = u\<rparr> =
   unsafe_entry owner \<lparr>fi_mode = file_mode_of_stat s, fi_uid = u\<rparr>"
  "mode_IsDir (file_mode_of_stat (s OR S_ISUID OR S_ISGID)) = mode_IsDir (file_mode_of_stat s)"
  by (simp_all add: unsafe_entry_def mode_IsDir_def mode_Perm_def ownerUID_def Let_def file_mode_masked_setuid mode_defs)

text \<open>The entries that the walk visits.\<close>

inductive visited :: "dir_tree \<Rightarrow> FileInfo \<Rightarrow> bool" where
  here: "visited (Entry (Some i) children) i"
| below: "mode_IsDir (fi_mode i) \<Longrightarrow> t \<in> set ts \<Longrightarrow> visited t j \<Longrightarrow> visited (Entry (Some i) (Some ts)) j"

inductive_cases visited_cases: "visited (Entry info children) i"

lemma scan_tree_visited: "visited t i \<Longrightarrow> scan_tree owner t = None \<Longrightarrow> \<not> unsafe_entry owner i"
proof (induction rule: visited.induct)
  case (here i children)
  then show ?case by (auto split: if_splits)
next
  case (below i t ts j)
  have "\<forall>t\<in>set ts. scan_tree owner t = None" using below.prems below.hyps(1) by (auto split: if_splits)
  with below.hyps(2) have "scan_tree owner t = None" by simp
  then show ?case by (rule below.IH)
qed

section \<open>Effects on the managed directories\<close>

lemma validCageID_plain: "validCageID v \<Longrightarrow> plain v"
proof -
  assume v: "validCageID v"
  then have len: "8 \<le> length v" by (simp add: validCageID_def split: if_splits)
  have "list_all (\<lambda>c. c = CHR ''-'' \<or> CHR ''a'' \<le> c \<and> c \<le> CHR ''z'' \<or> CHR ''0'' \<le> c \<and> c \<le> CHR ''9'') v"
    using v unfolding validCageID_def by (simp only: split: if_splits)
  moreover have "\<not> (CHR ''/'' = CHR ''-'' \<or> CHR ''a'' \<le> CHR ''/'' \<and> CHR ''/'' \<le> CHR ''z'' \<or> CHR ''0'' \<le> CHR ''/'' \<and> CHR ''/'' \<le> CHR ''9'')"
    by code_simp
  ultimately have "CHR ''/'' \<notin> set v" unfolding list_all_iff by blast
  with len show "plain v" by (auto simp: plain_def)
qed

text \<open>The entry that \<open>Mkdir\<close> makes, and what the checks ask of a managed directory.\<close>

definition private_dir :: "u32 \<Rightarrow> u32 \<Rightarrow> FileInfo \<Rightarrow> bool" where
  "private_dir uid mode info \<longleftrightarrow>
     mode_IsDir (fi_mode info) \<and> fi_mode info AND ModeSymlink = 0 \<and> mode_Perm (fi_mode info) = mode \<and> ownerUID info = uid"

lemma validateOwnerDirectory_iff:
  "validateOwnerDirectory env fs path uid mode = None \<longleftrightarrow>
     \<not> he_lstat_fault env path \<and> (\<exists>info. fs path = Some info \<and> private_dir uid mode info)"
  by (auto simp: validateOwnerDirectory_def os_Lstat_at_def private_dir_def split: option.split)

lemma Mkdir_effect: "fst (Mkdir env path fs) = Inr () \<and> fs path = None \<and> (\<exists>info. snd (Mkdir env path fs) = fs(path \<mapsto> info)) \<or>
    (\<exists>err. fst (Mkdir env path fs) = Inl err) \<and> snd (Mkdir env path fs) = fs"
  unfolding Mkdir_def by (cases "fs path"; cases "fs (path_Dir path)") (simp_all, blast)

lemma Mkdir_cases:
  assumes "Mkdir env path fs = (res, fs')"
  obtains (failed) err where "res = Inl err" "fs' = fs"
    | (made) info where "res = Inr ()" "fs path = None" "fs' = fs(path \<mapsto> info)"
  using Mkdir_effect [of env path fs] assms by fastforce

lemma mkdir_or_cases:
  assumes "mkdir_or env path msg fs = (res, fs')"
  obtains (failed) err where "res = Inl (ErrUnavailable PkgHost msg)" "fs' = fs"
    | (made) info where "res = Inr ()" "fs path = None" "fs' = fs(path \<mapsto> info)"
  using assms by (auto simp: mkdir_or_def split: prod.splits sum.splits elim!: Mkdir_cases)

lemma check_dir_cases:
  assumes "check_dir env c path fs = (res, fs')"
  obtains (failed) err where "res = Inl err" "fs' = fs" "validateOwnerDirectory env fs path (bc_ExpectedOwnerUID c) 0x1C0 = Some err"
    | (passed) info where "res = Inr ()" "fs' = fs" "fs path = Some info" "private_dir (bc_ExpectedOwnerUID c) 0x1C0 info"
  using assms by (auto simp: check_dir_def validateOwnerDirectory_iff split: option.splits)

lemma thenE_cases:
  assumes "thenE m k st = (res, st'')"
  obtains (stopped) err where "m st = (Inl err, st'')" "res = Inl err"
    | (went_on) x st' where "m st = (Inr x, st')" "k st' = (res, st'')"
  using assms by (auto simp: thenE_def bindE_def split: prod.splits sum.splits)

text \<open>What \<open>make_layer\<close> may change: it adds entries at the two directories and removes none.\<close>

definition adds_at :: "string set \<Rightarrow> host_fs \<Rightarrow> host_fs \<Rightarrow> bool" where
  "adds_at P fs fs' \<longleftrightarrow> (\<forall>q. fs' q \<noteq> fs q \<longrightarrow> q \<in> P \<and> fs q = None)"

lemma adds_at_refl [simp]: "adds_at P fs fs"
  by (simp add: adds_at_def)

lemma adds_at_upd: "adds_at P fs fs' \<Longrightarrow> fs' q = None \<Longrightarrow> q \<in> P \<Longrightarrow> adds_at P fs (fs'(q \<mapsto> info))"
  unfolding adds_at_def by (metis fun_upd_apply)

lemma mkdir_or_adds: "q \<in> P \<Longrightarrow> triple (adds_at P fs) (mkdir_or env q msg) (\<lambda>_. adds_at P fs) (\<lambda>_. adds_at P fs)"
  by (rule tripleI) (auto elim!: mkdir_or_cases intro: adds_at_upd)

lemma check_dir_adds: "triple (adds_at P fs) (check_dir env c q) (\<lambda>_. adds_at P fs) (\<lambda>_. adds_at P fs)"
  by (rule tripleI) (auto elim!: check_dir_cases)

lemma make_layer_adds:
  "triple (adds_at {path_Join [parent, ''upper''], path_Join [parent, ''work'']} fs) (make_layer env c cageID parent)
     (\<lambda>_. adds_at {path_Join [parent, ''upper''], path_Join [parent, ''work'']} fs)
     (\<lambda>_. adds_at {path_Join [parent, ''upper''], path_Join [parent, ''work'']} fs)"
  unfolding make_layer_def Let_def
  by (rule triple_then mkdir_or_adds check_dir_adds triple_return | simp)+

lemma make_layer_Inr:
  assumes "make_layer env c cageID parent fs = (Inr layer, fs')"
  obtains d0 d1 d2 where
    "layer = \<lparr>ly_CageID = cageID, ly_BaseRoot = bc_BaseRoot c, ly_UpperDir = path_Join [parent, ''upper''],
       ly_WorkDir = path_Join [parent, ''work'']\<rparr>"
    "fs' = fs(path_Join [parent, ''upper''] \<mapsto> d1, path_Join [parent, ''work''] \<mapsto> d2)"
    "fs (path_Join [parent, ''upper'']) = None" "fs (path_Join [parent, ''work'']) = None"
    "fs' parent = Some d0" "private_dir (bc_ExpectedOwnerUID c) 0x1C0 d0"
    "fs' (path_Join [parent, ''upper'']) = Some d1" "private_dir (bc_ExpectedOwnerUID c) 0x1C0 d1"
    "private_dir (bc_ExpectedOwnerUID c) 0x1C0 d2"
proof -
  from assms obtain f1 f2 u w where m: "mkdir_or env (path_Join [parent, ''upper'']) ''create upper layer'' fs = (Inr u, f1)"
      "mkdir_or env (path_Join [parent, ''work'']) ''create work layer'' f1 = (Inr w, f2)"
      "thenE (check_dir env c parent) (thenE (check_dir env c (path_Join [parent, ''upper'']))
         (thenE (check_dir env c (path_Join [parent, ''work'']))
           (returnE \<lparr>ly_CageID = cageID, ly_BaseRoot = bc_BaseRoot c, ly_UpperDir = path_Join [parent, ''upper''],
              ly_WorkDir = path_Join [parent, ''work'']\<rparr>))) f2 = (Inr layer, fs')"
    unfolding make_layer_def Let_def by (elim thenE_cases) simp_all
  from m(1) obtain d1 where d1: "fs (path_Join [parent, ''upper'']) = None" "f1 = fs(path_Join [parent, ''upper''] \<mapsto> d1)"
    by (rule mkdir_or_cases) simp_all
  from m(2) obtain d2 where d2: "f1 (path_Join [parent, ''work'']) = None" "f2 = f1(path_Join [parent, ''work''] \<mapsto> d2)"
    by (rule mkdir_or_cases) simp_all
  from m(3) obtain e0 e1 e2 where e: "fs' = f2" "f2 parent = Some e0" "private_dir (bc_ExpectedOwnerUID c) 0x1C0 e0"
      "f2 (path_Join [parent, ''upper'']) = Some e1" "private_dir (bc_ExpectedOwnerUID c) 0x1C0 e1"
      "f2 (path_Join [parent, ''work'']) = Some e2" "private_dir (bc_ExpectedOwnerUID c) 0x1C0 e2"
      "layer = \<lparr>ly_CageID = cageID, ly_BaseRoot = bc_BaseRoot c, ly_UpperDir = path_Join [parent, ''upper''],
         ly_WorkDir = path_Join [parent, ''work'']\<rparr>"
    by (elim thenE_cases check_dir_cases) (auto simp: returnE_def)
  have ne: "path_Join [parent, ''work''] \<noteq> path_Join [parent, ''upper'']" using d1(2) d2(1) by auto
  show ?thesis
    by (rule that [of d1 d2 e0]) (use d1 d2 e ne in auto)
qed

section \<open>Layers\<close>

lemma NewBaseRootAuthority_ok:
  "NewBaseRootAuthority c = Inr a \<longleftrightarrow>
     bc_Probe c \<noteq> None \<and> safeAbsolutePath (bc_BaseRoot c) \<and> safeAbsolutePath (bc_EphemeralRoot c) \<and>
     bc_BaseRoot c \<noteq> bc_EphemeralRoot c \<and> bc_ExpectedRootMode c \<noteq> 0 \<and> bc_AllowedFilesystems c \<noteq> [] \<and> a = \<lparr>ba_config = c\<rparr>"
  by (auto simp: NewBaseRootAuthority_def)

definition layer_parent :: "BaseRootConfig \<Rightarrow> string \<Rightarrow> string" where
  "layer_parent c cageID = bc_EphemeralRoot c @ ''/'' @ cageID"

lemma layer_paths:
  assumes "safeAbsolutePath (bc_EphemeralRoot c)" "validCageID cageID"
  shows "path_Join [bc_EphemeralRoot c, cageID] = layer_parent c cageID"
    and "path_Join [layer_parent c cageID, ''upper''] = layer_parent c cageID @ ''/upper''"
    and "path_Join [layer_parent c cageID, ''work''] = layer_parent c cageID @ ''/work''"
proof -
  obtain cs where cs: "cs \<noteq> []" "\<forall>d\<in>set cs. plain d" "bc_EphemeralRoot c = abs_path cs"
    using assms(1) by (auto simp: safeAbsolutePath_iff)
  have id: "plain cageID" by (rule validCageID_plain [OF assms(2)])
  have parent: "layer_parent c cageID = abs_path (cs @ [cageID])" by (simp add: layer_parent_def cs(3) abs_path_def)
  show "path_Join [bc_EphemeralRoot c, cageID] = layer_parent c cageID"
    unfolding parent cs(3) by (rule path_Join_abs [OF cs(1,2) id])
  have below: "path_Join [layer_parent c cageID, d] = layer_parent c cageID @ ''/'' @ d" if "plain d" for d
    using path_Join_abs [of "cs @ [cageID]" d] cs id that unfolding parent by (simp add: abs_path_def)
  have "plain ''upper''" "plain ''work''" by (simp_all add: plain_def)
  from below [OF this(1)] below [OF this(2)]
  show "path_Join [layer_parent c cageID, ''upper''] = layer_parent c cageID @ ''/upper''"
    and "path_Join [layer_parent c cageID, ''work''] = layer_parent c cageID @ ''/work''" by simp_all
qed

lemma PrepareLayer_cases:
  assumes "NewBaseRootAuthority c = Inr a" "PrepareLayer env (Some a) cancelled cageID fs = (res, fs')"
  obtains (refused) err where "res = Inl err" "fs' = fs"
    | (tried) info f1 where "\<not> cancelled" "validCageID cageID" "validateBaseRoot env c fs = None"
        "fs (layer_parent c cageID) = None" "f1 = fs(layer_parent c cageID \<mapsto> info)"
        "with_cleanup env (layer_parent c cageID) (make_layer env c cageID (layer_parent c cageID)) f1 = (res, fs')"
proof (cases "\<not> cancelled \<and> validCageID cageID \<and> validateBaseRoot env c fs = None \<and>
    validateOwnerDirectory env fs (bc_EphemeralRoot c) (bc_ExpectedOwnerUID c) 0x1C0 = None")
  case False
  then have "\<exists>err. res = Inl err \<and> fs' = fs"
    using assms by (auto simp: PrepareLayer_def NewBaseRootAuthority_ok Let_def split: if_splits option.splits)
  then show ?thesis using refused by blast
next
  case True
  have a: "ba_config a = c" and eph: "safeAbsolutePath (bc_EphemeralRoot c)"
    using assms(1) by (auto simp: NewBaseRootAuthority_ok)
  have join: "path_Join [bc_EphemeralRoot c, cageID] = layer_parent c cageID"
    using layer_paths(1) [OF eph] True by blast
  obtain mres f1 where mk: "Mkdir env (layer_parent c cageID) fs = (mres, f1)" by (rule prod.exhaust)
  have run: "(case (mres, f1) of
      (Inl err, fs') \<Rightarrow> (Inl (if err = ErrExist then host_deny ''ephemeral_layer_already_exists''
         else ErrUnavailable PkgHost ''create cage layer parent''), fs')
    | (Inr _, fs') \<Rightarrow> with_cleanup env (layer_parent c cageID) (make_layer env c cageID (layer_parent c cageID)) fs') = (res, fs')"
    using assms(2) True unfolding PrepareLayer_def option.case a Let_def join mk by simp
  from mk show ?thesis
  proof (cases rule: Mkdir_cases)
    case (failed err)
    then show ?thesis using run refused by auto
  next
    case (made info)
    then show ?thesis using run True tried [of f1 info] by simp
  qed
qed

lemma with_cleanup_cases:
  assumes "with_cleanup env parent m fs = (res, fs')"
  obtains (undone) err f where "res = Inl err" "m fs = (Inl err, f)" "fs' = RemoveAll env parent f"
    | (complete) x where "res = Inr x" "m fs = (Inr x, fs')"
  using assms by (auto simp: with_cleanup_def split: prod.splits sum.splits)

lemma validateBaseRoot_iff:
  "validateBaseRoot env c fs = None \<longleftrightarrow>
     validateOwnerDirectory env fs (bc_BaseRoot c) (bc_ExpectedOwnerUID c) (bc_ExpectedRootMode c) = None \<and>
     (\<exists>p fstype mounts m. bc_Probe c = Some p \<and> pr_Statfs p (bc_BaseRoot c) = Some fstype \<and>
        fstype \<in> set (bc_AllowedFilesystems c) \<and> pr_ReadMounts p = Some mounts \<and>
        coveringMount (bc_BaseRoot c) mounts = Some m \<and> mi_Propagation m = ''private'') \<and>
     scanImmutableTree env (bc_ExpectedOwnerUID c) = None"
  by (auto simp: validateBaseRoot_def split: option.splits)

lemma scanImmutableTree_visited:
  assumes "scanImmutableTree env owner = None"
  shows "\<exists>t. he_tree env = Some t \<and> (\<forall>i. visited t i \<longrightarrow> \<not> unsafe_entry owner i)"
  using assms scan_tree_visited by (fastforce simp: scanImmutableTree_def split: option.splits)

lemma RemoveAll_undoes:
  assumes keeps: "\<forall>q. \<not> he_keeps env q" and absent: "fs parent = None" and below: "\<forall>q. HasPrefix q (parent @ ''/'') \<longrightarrow> fs q = None"
    and adds: "adds_at P (fs(parent \<mapsto> info)) f" "\<forall>q\<in>P. HasPrefix q (parent @ ''/'')"
  shows "RemoveAll env parent f = fs"
proof
  fix q
  show "RemoveAll env parent f q = fs q"
  proof (cases "q = parent \<or> HasPrefix q (parent @ ''/'')")
    case True
    then show ?thesis using keeps absent below by (auto simp: RemoveAll_def)
  next
    case False
    then have "f q = (fs(parent \<mapsto> info)) q" using adds unfolding adds_at_def by blast
    with False show ?thesis by (simp add: RemoveAll_def)
  qed
qed

section \<open>A concrete host\<close>

definition demo_root_dir :: FileInfo where "demo_root_dir = \<lparr>fi_mode = ModeDir OR 0x1ED, fi_uid = Some 0\<rparr>"
definition demo_private_dir :: FileInfo where "demo_private_dir = \<lparr>fi_mode = ModeDir OR 0x1C0, fi_uid = Some 0\<rparr>"

definition demo_host_fs :: host_fs where
  "demo_host_fs = [''/srv/base'' \<mapsto> demo_root_dir, ''/run/layers'' \<mapsto> demo_private_dir]"

text \<open>The base root holds one program, which has the set-user-ID bit if \<open>setuid\<close> is given.\<close>

definition demo_tree :: "u32 \<Rightarrow> dir_tree" where
  "demo_tree special = Entry (Some demo_root_dir)
     (Some [Entry (Some \<lparr>fi_mode = file_mode_of_stat (0x81ED OR special), fi_uid = Some 0\<rparr>) None])"

definition demo_host_env :: host_env where
  "demo_host_env = \<lparr>he_lstat_fault = (\<lambda>_. False), he_mkdir_fault = (\<lambda>_. False), he_keeps = (\<lambda>_. False), he_umask = 0x12,
     he_euid = 0, he_tree = Some (demo_tree 0)\<rparr>"

definition demo_os :: host_os where
  "demo_os = \<lparr>os_GOOS = ''linux'',
     os_ReadFile = map_of [(''/proc/self/mountinfo'', ''22 1 8:1 / / rw - ext4 /dev/sda1 rw'')],
     os_Lstat = demo_host_fs, os_Statfs = (\<lambda>_. Some 61267), os_Now = \<lparr>t_ns = 0, t_zone = 0\<rparr>\<rparr>"

definition demo_base_config :: BaseRootConfig where
  "demo_base_config = \<lparr>bc_BaseRoot = ''/srv/base'', bc_EphemeralRoot = ''/run/layers'', bc_ExpectedOwnerUID = 0,
     bc_ExpectedRootMode = 0x1ED, bc_AllowedFilesystems = [61267], bc_Probe = Some (LinuxProbe demo_os)\<rparr>"

definition demo_base_authority :: BaseRootAuthority where "demo_base_authority = \<lparr>ba_config = demo_base_config\<rparr>"

lemma demo_base_new: "NewBaseRootAuthority demo_base_config = Inr demo_base_authority"
proof -
  have "safeAbsolutePath ''/srv/base''" "safeAbsolutePath ''/run/layers''" by code_simp+
  then show ?thesis by (simp add: NewBaseRootAuthority_ok demo_base_config_def demo_base_authority_def)
qed

lemma demo_layer:
  "fst (PrepareLayer demo_host_env (Some demo_base_authority) False ''cage-abc'' demo_host_fs) =
     Inr \<lparr>ly_CageID = ''cage-abc'', ly_BaseRoot = ''/srv/base'', ly_UpperDir = ''/run/layers/cage-abc/upper'',
       ly_WorkDir = ''/run/layers/cage-abc/work''\<rparr>"
  by code_simp

section \<open>Properties\<close>

text \<open>
  The mount that \<open>coveringMount\<close> returns is, among the entries of the table that cover the path,
  the first of the longest mount points. Of two mounts on one point it takes the older, although
  the later one hides it.
\<close>

theorem coveringMount_first_longest:
  "coveringMount target mounts = Some m \<longleftrightarrow>
     (\<exists>before after. filter (covers target) mounts = before @ m # after \<and>
        list_all (\<lambda>x. length (mi_MountPoint x) < length (mi_MountPoint m)) before \<and>
        list_all (\<lambda>x. length (mi_MountPoint x) \<le> length (mi_MountPoint m)) after)"
  unfolding coveringMount_core first_longest_def list_all_iff by blast

text \<open>
  C19. A prepared layer belongs to a well-formed cage identifier. The base root was an owner-controlled
  directory of the expected mode on a private mount, and every entry of its tree passed the check. In
  the file system exactly three directories are new, the parent of the cage below the ephemeral
  root and \<open>upper\<close> and \<open>work\<close> in it, each private to the owner, and none of them existed before.
\<close>

theorem PrepareLayer_sound:
  assumes "NewBaseRootAuthority c = Inr a" and "PrepareLayer env (Some a) cancelled cageID fs = (Inr layer, fs')"
  shows "\<not> cancelled \<and> validCageID cageID \<and>
    layer = \<lparr>ly_CageID = cageID, ly_BaseRoot = bc_BaseRoot c, ly_UpperDir = layer_parent c cageID @ ''/upper'',
      ly_WorkDir = layer_parent c cageID @ ''/work''\<rparr> \<and>
    (\<exists>d0 d1 d2. fs' = fs(layer_parent c cageID \<mapsto> d0, ly_UpperDir layer \<mapsto> d1, ly_WorkDir layer \<mapsto> d2) \<and>
       private_dir (bc_ExpectedOwnerUID c) 0x1C0 d0 \<and> private_dir (bc_ExpectedOwnerUID c) 0x1C0 d1 \<and>
       private_dir (bc_ExpectedOwnerUID c) 0x1C0 d2) \<and>
    fs (layer_parent c cageID) = None \<and> fs (ly_UpperDir layer) = None \<and> fs (ly_WorkDir layer) = None \<and>
    (\<exists>d. fs (bc_BaseRoot c) = Some d \<and> private_dir (bc_ExpectedOwnerUID c) (bc_ExpectedRootMode c) d) \<and>
    (\<exists>p mounts m. bc_Probe c = Some p \<and> pr_ReadMounts p = Some mounts \<and>
       coveringMount (bc_BaseRoot c) mounts = Some m \<and> mi_Propagation m = ''private'') \<and>
    (\<exists>t. he_tree env = Some t \<and> (\<forall>i. visited t i \<longrightarrow> \<not> unsafe_entry (bc_ExpectedOwnerUID c) i))"
proof -
  have eph: "safeAbsolutePath (bc_EphemeralRoot c)" using assms(1) by (simp add: NewBaseRootAuthority_ok)
  from assms show ?thesis
  proof (cases rule: PrepareLayer_cases)
    case (tried info f1)
    note paths = layer_paths(2,3) [OF eph tried(2)]
    from tried(6) have "make_layer env c cageID (layer_parent c cageID) f1 = (Inr layer, fs')"
      by (rule with_cleanup_cases) simp_all
    then obtain d0 d1 d2 where m:
      "layer = \<lparr>ly_CageID = cageID, ly_BaseRoot = bc_BaseRoot c, ly_UpperDir = layer_parent c cageID @ ''/upper'',
         ly_WorkDir = layer_parent c cageID @ ''/work''\<rparr>"
      "fs' = f1(layer_parent c cageID @ ''/upper'' \<mapsto> d1, layer_parent c cageID @ ''/work'' \<mapsto> d2)"
      "f1 (layer_parent c cageID @ ''/upper'') = None" "f1 (layer_parent c cageID @ ''/work'') = None"
      "fs' (layer_parent c cageID) = Some d0" "private_dir (bc_ExpectedOwnerUID c) 0x1C0 d0"
      "private_dir (bc_ExpectedOwnerUID c) 0x1C0 d1" "private_dir (bc_ExpectedOwnerUID c) 0x1C0 d2"
      by (elim make_layer_Inr) (simp only: paths)
    have "info = d0" using m(2,5) tried(5) by simp
    moreover have "fs (layer_parent c cageID @ ''/upper'') = None" "fs (layer_parent c cageID @ ''/work'') = None"
      using m(3,4) tried(5) by (auto split: if_splits)
    ultimately show ?thesis
      using tried(1-5) m scanImmutableTree_visited unfolding validateBaseRoot_iff validateOwnerDirectory_iff
      by (intro conjI) (simp_all, blast+)
  qed simp
qed

lemma PrepareLayer_sound_witness:
  "layer_parent demo_base_config ''cage-abc'' = ''/run/layers/cage-abc'' \<and>
     (\<exists>t. he_tree demo_host_env = Some t \<and> (\<forall>i. visited t i \<longrightarrow> \<not> unsafe_entry 0 i))"
proof -
  obtain fs' where "PrepareLayer demo_host_env (Some demo_base_authority) False ''cage-abc'' demo_host_fs =
     (Inr \<lparr>ly_CageID = ''cage-abc'', ly_BaseRoot = ''/srv/base'', ly_UpperDir = ''/run/layers/cage-abc/upper'',
       ly_WorkDir = ''/run/layers/cage-abc/work''\<rparr>, fs')"
    using demo_layer by (metis prod.collapse)
  from PrepareLayer_sound [OF demo_base_new this] show ?thesis
    by (simp add: demo_base_config_def layer_parent_def)
qed

text \<open>
  C20. If \<open>PrepareLayer\<close> fails, whatever it had made is gone: when the system lets go of what it is told
  to remove, and nothing lies below a parent that does not exist, the file system is the one
  before the call.
\<close>

theorem PrepareLayer_rollback:
  assumes "NewBaseRootAuthority c = Inr a" and "PrepareLayer env (Some a) cancelled cageID fs = (Inl err, fs')"
    and "\<forall>q. \<not> he_keeps env q" and "\<forall>q. fs (layer_parent c cageID) = None \<and> HasPrefix q (layer_parent c cageID @ ''/'') \<longrightarrow> fs q = None"
  shows "fs' = fs"
proof -
  have eph: "safeAbsolutePath (bc_EphemeralRoot c)" using assms(1) by (simp add: NewBaseRootAuthority_ok)
  from assms(1,2) show ?thesis
  proof (cases rule: PrepareLayer_cases)
    case (tried info f1)
    let ?parent = "layer_parent c cageID"
    obtain e f where f: "make_layer env c cageID ?parent f1 = (Inl e, f)" "fs' = RemoveAll env ?parent f"
      using tried(6) by (rule with_cleanup_cases) auto
    have "adds_at {?parent @ ''/upper'', ?parent @ ''/work''} f1 f"
      using tripleD(2) [OF make_layer_adds adds_at_refl f(1)] by (simp only: layer_paths(2,3) [OF eph tried(2)])
    then show ?thesis
      unfolding f(2) using assms(3,4) tried(4,5) by (intro RemoveAll_undoes) (auto simp: HasPrefix_def)
  qed simp
qed

lemma PrepareLayer_rollback_witness:
  "\<exists>err. PrepareLayer (demo_host_env\<lparr>he_mkdir_fault := (\<lambda>p. p = ''/run/layers/cage-abc/work'')\<rparr>) (Some demo_base_authority)
     False ''cage-abc'' demo_host_fs = (Inl err, demo_host_fs)"
proof -
  let ?env = "demo_host_env\<lparr>he_mkdir_fault := (\<lambda>p. p = ''/run/layers/cage-abc/work'')\<rparr>"
  have "isl (fst (PrepareLayer ?env (Some demo_base_authority) False ''cage-abc'' demo_host_fs))" by code_simp
  then obtain err fs' where run: "PrepareLayer ?env (Some demo_base_authority) False ''cage-abc'' demo_host_fs = (Inl err, fs')"
    by (metis isl_def prod.collapse)
  have parent: "layer_parent demo_base_config ''cage-abc'' = ''/run/layers/cage-abc''"
    by (simp add: layer_parent_def demo_base_config_def)
  have closed: "demo_host_fs q = None" if "HasPrefix q (''/run/layers/cage-abc'' @ ''/'')" for q
  proof -
    have "q \<noteq> ''/srv/base''" "q \<noteq> ''/run/layers''" using that by (auto simp: HasPrefix_def)
    then show ?thesis by (simp add: demo_host_fs_def)
  qed
  show ?thesis
    using PrepareLayer_rollback [OF demo_base_new run] run closed parent by (auto simp: demo_host_env_def)
qed

text \<open>
  The walk over the base root does not see the set-user-ID and set-group-ID bits: Go keeps them in
  bits of \<open>fs.FileMode\<close> that the mask \<open>0o6000\<close> does not contain. A file with both bits set is judged
  as the same file without them.
\<close>

theorem scan_ignores_setuid:
  "scan_tree owner (Entry (Some \<lparr>fi_mode = file_mode_of_stat (s OR S_ISUID OR S_ISGID), fi_uid = u\<rparr>) children) =
     scan_tree owner (Entry (Some \<lparr>fi_mode = file_mode_of_stat s, fi_uid = u\<rparr>) children) \<and>
   file_mode_of_stat (s OR S_ISUID OR S_ISGID) AND ModeSetuid \<noteq> 0"
proof
  show "scan_tree owner (Entry (Some \<lparr>fi_mode = file_mode_of_stat (s OR S_ISUID OR S_ISGID), fi_uid = u\<rparr>) children) =
     scan_tree owner (Entry (Some \<lparr>fi_mode = file_mode_of_stat s, fi_uid = u\<rparr>) children)"
    unfolding scan_tree.simps option.case FileInfo.select_convs unsafe_entry_setuid ..
  have set: "(x OR ModeSetuid OR y) AND ModeSetuid = ModeSetuid" for x y
    by (rule bit_word_eqI) (auto simp: bit_and_iff bit_or_iff)
  have "file_mode_of_stat (s OR S_ISUID OR S_ISGID) AND ModeSetuid = ModeSetuid"
    using set [of "(s AND 0x1FF) OR file_type_bits s OR ModeSetgid" "if s AND S_ISVTX \<noteq> 0 then ModeSticky else 0"]
    unfolding mode_bits_setuid by (simp only: or.assoc)
  then show "file_mode_of_stat (s OR S_ISUID OR S_ISGID) AND ModeSetuid \<noteq> 0" by (simp add: ModeSetuid_def)
qed

end
