(* ===== verification/Go_Float.thy ===== *)
theory Go_Float
  imports Go_Time "HOL-Library.Log_Nat"
begin

text \<open>
  Go's \<open>float64\<close> as the token bucket of the broker uses it: a value is the rational number that
  it stands for, and the result of an operation is rounded to 53 significant bits, to the
  nearest and to even at a tie. The values of the bucket are between 1e-13 and 1e14 or zero, so
  the bounds of the exponent, infinities and NaNs do not occur.
\<close>

definition round_even :: "rat \<Rightarrow> int" where
  "round_even x =
     (let n = \<lfloor>x\<rfloor>; d = x - of_int n
      in if d < 1 / 2 then n else if d > 1 / 2 then n + 1 else if even n then n else n + 1)"

definition f64_exp :: "rat \<Rightarrow> int" where
  "f64_exp x =
     (case quotient_of x of
        (p, q) \<Rightarrow> (let k = bitlen p - bitlen q in if 2 powi k \<le> x then k - 52 else k - 53))"

definition f64_pos :: "rat \<Rightarrow> rat" where
  "f64_pos x = of_int (round_even (x / 2 powi f64_exp x)) * 2 powi f64_exp x"

definition f64 :: "rat \<Rightarrow> rat" where
  "f64 x = (if x = 0 then 0 else if x < 0 then - f64_pos (- x) else f64_pos x)"

text \<open>\<open>Duration.Seconds\<close> of a duration that is not negative.\<close>

definition duration_Seconds :: "int \<Rightarrow> rat" where
  "duration_Seconds d = f64 (f64 (of_int (d div Second)) + f64 (f64 (of_int (d mod Second)) / 1000000000))"

section \<open>Rounding\<close>

lemma round_even_bounds: "\<lfloor>x\<rfloor> \<le> round_even x" "round_even x \<le> \<lfloor>x\<rfloor> + 1"
  by (simp_all add: round_even_def Let_def)

lemma round_even_of_int [simp]: "round_even (of_int n) = n"
  by (simp add: round_even_def)

lemma round_even_mono:
  assumes "x \<le> y"
  shows "round_even x \<le> round_even y"
proof (cases "\<lfloor>x\<rfloor> = \<lfloor>y\<rfloor>")
  case True
  with assms have "x - of_int \<lfloor>x\<rfloor> \<le> y - of_int \<lfloor>y\<rfloor>" by simp
  with True show ?thesis by (auto simp: round_even_def Let_def)
next
  case False
  then have "\<lfloor>x\<rfloor> + 1 \<le> \<lfloor>y\<rfloor>" using floor_mono [OF assms] by simp
  then show ?thesis using round_even_bounds(2) [of x] round_even_bounds(1) [of y] by linarith
qed

lemma f64_exp_bounds:
  assumes "0 < x"
  shows "2 powi (f64_exp x + 52) \<le> x" and "x < 2 powi (f64_exp x + 53)"
proof -
  obtain p q where pq: "quotient_of x = (p, q)" by (rule prod.exhaust)
  have q: "0 < q" using quotient_of_denom_pos [OF pq] .
  have x: "x = of_int p / of_int q" using quotient_of_div [OF pq] .
  have p: "0 < p" using assms q x by (simp add: zero_less_divide_iff)
  have bits: "2 powi (bitlen n - 1) \<le> (of_int n :: rat) \<and> (of_int n :: rat) < 2 powi bitlen n" if "0 < n" for n
  proof -
    have b: "2 ^ nat (bitlen n - 1) \<le> n" "n < 2 ^ nat (bitlen n)" "0 < bitlen n"
      using bitlen_bounds [OF that] bitlen_le_iff_power [of n 0] that by (auto simp: not_less)
    from b(1,2) have "(of_int (2 ^ nat (bitlen n - 1)) :: rat) \<le> of_int n" "(of_int n :: rat) < of_int (2 ^ nat (bitlen n))"
      by (simp_all only: of_int_le_iff of_int_less_iff)
    with b(3) show ?thesis by (simp add: power_int_def)
  qed
  have "x < 2 powi bitlen p / 2 powi (bitlen q - 1)"
    unfolding x using bits [OF p] bits [OF q] p q by (intro frac_less) auto
  also have "\<dots> = 2 powi (bitlen p - bitlen q + 1)" by (simp flip: power_int_diff add: algebra_simps)
  finally have hi: "x < 2 powi (bitlen p - bitlen q + 1)" .
  have "2 powi (bitlen p - bitlen q - 1) = 2 powi (bitlen p - 1) / (2 powi bitlen q :: rat)"
    by (simp flip: power_int_diff add: algebra_simps)
  also have "\<dots> \<le> x"
    unfolding x using bits [OF p] bits [OF q] p q by (intro frac_le) auto
  finally have lo: "2 powi (bitlen p - bitlen q - 1) \<le> x" .
  have e: "f64_exp x = (if 2 powi (bitlen p - bitlen q) \<le> x then bitlen p - bitlen q - 52 else bitlen p - bitlen q - 53)"
    by (simp add: f64_exp_def pq Let_def)
  show "2 powi (f64_exp x + 52) \<le> x" "x < 2 powi (f64_exp x + 53)"
    using hi lo unfolding e by (auto simp: algebra_simps not_le)
qed

lemma f64_exp_mono:
  assumes "0 < x" "x \<le> y"
  shows "f64_exp x \<le> f64_exp y"
proof (rule ccontr)
  assume "\<not> f64_exp x \<le> f64_exp y"
  then have "(2 :: rat) powi (f64_exp y + 53) \<le> 2 powi (f64_exp x + 52)" by (intro power_int_increasing) auto
  then show False using f64_exp_bounds(1) [OF assms(1)] f64_exp_bounds(2) [of y] assms by linarith
qed

lemma scaled_bounds:
  assumes "0 < x"
  shows "2 ^ 52 \<le> x / 2 powi f64_exp x" and "x / 2 powi f64_exp x < 2 ^ 53"
  using f64_exp_bounds [OF assms] by (simp_all add: power_int_add field_simps)

lemma f64_pos_bounds:
  assumes "0 < x"
  shows "2 powi (f64_exp x + 52) \<le> f64_pos x" and "f64_pos x \<le> 2 powi (f64_exp x + 53)"
proof -
  have "(2 :: rat) ^ 52 = of_int (2 ^ 52)" "(2 :: rat) ^ 53 = of_int (2 ^ 53)" by simp_all
  then have "round_even (of_int (2 ^ 52)) \<le> round_even (x / 2 powi f64_exp x)"
      "round_even (x / 2 powi f64_exp x) \<le> round_even (of_int (2 ^ 53))"
    using scaled_bounds [OF assms] by (intro round_even_mono, simp)+
  then have "2 ^ 52 \<le> round_even (x / 2 powi f64_exp x)" "round_even (x / 2 powi f64_exp x) \<le> 2 ^ 53"
    by (simp_all only: round_even_of_int)
  then have "(of_int (2 ^ 52) :: rat) \<le> of_int (round_even (x / 2 powi f64_exp x))"
      "(of_int (round_even (x / 2 powi f64_exp x)) :: rat) \<le> of_int (2 ^ 53)"
    by (simp_all only: of_int_le_iff)
  then show "2 powi (f64_exp x + 52) \<le> f64_pos x" "f64_pos x \<le> 2 powi (f64_exp x + 53)"
    by (simp_all add: f64_pos_def power_int_add mult.commute [of "2 powi f64_exp x"])
qed

lemma f64_pos_mono:
  assumes "0 < x" "x \<le> y"
  shows "f64_pos x \<le> f64_pos y"
proof (cases "f64_exp x = f64_exp y")
  case True
  have "x / 2 powi f64_exp x \<le> y / 2 powi f64_exp x" using assms(2) by (simp add: divide_right_mono)
  from round_even_mono [OF this] show ?thesis by (simp add: f64_pos_def True)
next
  case False
  then have "(2 :: rat) powi (f64_exp x + 53) \<le> 2 powi (f64_exp y + 52)"
    using f64_exp_mono [OF assms] by (intro power_int_increasing) auto
  then show ?thesis using f64_pos_bounds(2) [OF assms(1)] f64_pos_bounds(1) [of y] assms by linarith
qed

lemma f64_zero [simp]: "f64 0 = 0"
  by (simp add: f64_def)

lemma f64_nonneg: "0 \<le> x \<Longrightarrow> 0 \<le> f64 x"
proof -
  assume "0 \<le> x"
  then consider "x = 0" | "0 < x" by linarith
  then show ?thesis
  proof cases
    case 2
    have "0 < (2 :: rat) powi (f64_exp x + 52)" by simp
    then have "0 < f64_pos x" using f64_pos_bounds(1) [OF 2] by (rule less_le_trans)
    with 2 show ?thesis by (simp add: f64_def)
  qed simp
qed

lemma f64_mono: "0 \<le> x \<Longrightarrow> x \<le> y \<Longrightarrow> f64 x \<le> f64 y"
  using f64_nonneg [of y] f64_pos_mono [of x y] by (auto simp: f64_def)

text \<open>An integer of at most 53 bits is represented exactly.\<close>

lemma f64_of_nat:
  assumes "n < 2 ^ 53"
  shows "f64 (of_nat n) = of_nat n"
proof (cases "n = 0")
  case False
  then have pos: "0 < (of_nat n :: rat)" by simp
  let ?e = "f64_exp (of_nat n)"
  have "(of_nat n :: rat) < of_nat (2 ^ 53)" using assms by (simp only: of_nat_less_iff)
  then have "(2 :: rat) powi (?e + 52) < 2 powi 53"
    using f64_exp_bounds(1) [OF pos] by simp
  then have e: "?e \<le> 0" using power_int_increasing [of 53 "?e + 52" "2 :: rat"] by (cases "?e \<le> 0") simp_all
  have "(of_nat n :: rat) / 2 powi ?e = of_int (int n * 2 ^ nat (- ?e))"
    using e by (cases "?e = 0") (simp_all add: power_int_def field_simps)
  then have "f64_pos (of_nat n) = of_int (int n * 2 ^ nat (- ?e)) * 2 powi ?e"
    unfolding f64_pos_def by (simp only: round_even_of_int)
  also have "\<dots> = of_nat n" using e by (cases "?e = 0") (simp_all add: power_int_def field_simps)
  finally show ?thesis using pos by (simp add: f64_def)
qed simp

lemma duration_Seconds_zero [simp]: "duration_Seconds 0 = 0"
  by (simp add: duration_Seconds_def)

lemma duration_Seconds_nonneg: "0 \<le> d \<Longrightarrow> 0 \<le> duration_Seconds d"
  unfolding duration_Seconds_def Second_def by (intro f64_nonneg add_nonneg_nonneg divide_nonneg_nonneg) simp_all

end
