(* ===== verification/Broker.thy ===== *)
theory Broker
  imports Replay_Ledger Host Go_Float
begin

text \<open>
  Package \<open>broker\<close> (\<open>broker/broker.go\<close>): the local authorization broker. It listens on a Unix
  socket, checks the user and the certificate of a peer, reads one framed request, limits the rate
  of each identity, runs the host preflight, asks the lifecycle authority and answers after the
  decision is in the audit log. A connection is a record of what the peer and the system do on
  it: its credentials, the result of the TLS handshake, the bytes that arrive, what the writer
  accepts. The rate limiter computes in \<open>float64\<close> (theory \<open>Go_Float\<close>).
\<close>

section \<open>Configuration\<close>

definition Protocol :: string where "Protocol = ''brick.host-isolation.broker.v1''"

record RateLimit =
  rl_Capacity :: int
  rl_RefillInterval :: int

text \<open>The fields of \<open>tls.Config\<close> that are looked at; \<open>tc_Certificates\<close> is the number of certificates.\<close>

record TLSConfig =
  tc_MinVersion :: u16
  tc_ClientAuth :: int
  tc_ClientCAs :: bool
  tc_Certificates :: nat

definition VersionTLS13 :: u16 where "VersionTLS13 = 0x0304"
definition RequireAndVerifyClientCert :: int where "RequireAndVerifyClientCert = 4"

type_synonym 'l authorizer = "lifecycle_Request \<Rightarrow> 'l lifecycle_state \<Rightarrow> lifecycle_Attestation go_result \<times> 'l lifecycle_state"

record ('l, 'h) broker_Config =
  bk_SocketPath :: string
  bk_SocketOwnerUID :: u32
  bk_SocketMode :: u32
  bk_AllowedPeerUIDs :: "u32 list"
  bk_AllowedSPIFFEIDs :: "string list"
  bk_TLSConfig :: "TLSConfig option"
  bk_Authority :: "'l authorizer option"
  bk_Audit :: "audit_sink option"
  bk_Preflight :: "('h \<Rightarrow> bool \<Rightarrow> go_error option) option"
  bk_Clock :: "(nat \<Rightarrow> gotime option) option"
  bk_RateLimit :: RateLimit
  bk_MaxRequestBytes :: u32
  bk_MaxResponseBytes :: u32
  bk_RequestTimeout :: int
  bk_MaxConcurrentConnections :: int

record RequestEnvelope =
  re_Protocol :: string
  re_Request :: lifecycle_Request

record ResponseEnvelope =
  rs_Protocol :: string
  rs_Status :: string
  rs_ReasonCode :: string
  rs_Attestation :: "lifecycle_Attestation option"

record bucket =
  bu_tokens :: rat
  bu_last :: gotime

type_synonym limiter_entries = "string \<Rightarrow> bucket option"

record ('l, 'h) broker =
  br_config :: "('l, 'h) broker_Config"
  br_trustedIdentities :: "string list"
  br_allowedUIDs :: "u32 list"

definition validSPIFFE :: "string \<Rightarrow> bool" where
  "validSPIFFE value =
     (case ParseRequestURI value of
        None \<Rightarrow> False
      | Some u \<Rightarrow> u_Scheme u = ''spiffe'' \<and> u_Host u \<noteq> [] \<and> HasPrefix (u_Path u) ''/'' \<and>
          u_RawQuery u = [] \<and> u_Fragment u = [] \<and> \<not> u_User u)"

text \<open>The loop over the identities reports the first that is malformed or repeated.\<close>

fun identities_error :: "string list \<Rightarrow> string list \<Rightarrow> go_error option" where
  "identities_error seen [] = None"
| "identities_error seen (identity # rest) =
     (if \<not> validSPIFFE identity then Some (ErrUnavailable PkgBroker ''invalid SPIFFE identity'')
      else if identity \<in> set seen then Some (ErrUnavailable PkgBroker ''duplicate SPIFFE identity'')
      else identities_error (identity # seen) rest)"

definition bounds_ok :: "('l, 'h) broker_Config \<Rightarrow> bool" where
  "bounds_ok c =
     (\<not> (bk_AllowedPeerUIDs c = [] \<or> bk_AllowedSPIFFEIDs c = [] \<or> bk_MaxRequestBytes c < 256 \<or> bk_MaxRequestBytes c > 65536 \<or>
         bk_MaxResponseBytes c < 256 \<or> bk_MaxResponseBytes c > 16384 \<or> bk_RequestTimeout c < Second \<or>
         bk_RequestTimeout c > Minute \<or> bk_MaxConcurrentConnections c < 1 \<or> bk_MaxConcurrentConnections c > 1024 \<or>
         rl_Capacity (bk_RateLimit c) < 1 \<or> rl_Capacity (bk_RateLimit c) > 10000 \<or>
         rl_RefillInterval (bk_RateLimit c) < Millisecond \<or> rl_RefillInterval (bk_RateLimit c) > Hour))"

definition validateConfig :: "('l, 'h) broker_Config \<Rightarrow> go_error option" where
  "validateConfig c =
     (case (bk_Authority c, bk_Audit c, bk_Preflight c, bk_Clock c, bk_TLSConfig c) of
        (Some _, Some _, Some _, Some _, Some tls) \<Rightarrow>
          if \<not> HasPrefix (bk_SocketPath c) ''/'' \<or> path_Clean (bk_SocketPath c) \<noteq> bk_SocketPath c \<or>
             path_Base (bk_SocketPath c) = ''.'' \<or> length (bk_SocketPath c) > 100
          then Some (ErrUnavailable PkgBroker ''unsafe socket path'')
          else if bk_SocketMode c \<noteq> 0x180 \<and> bk_SocketMode c \<noteq> 0x1B0
          then Some (ErrUnavailable PkgBroker ''invalid socket mode'')
          else if \<not> bounds_ok c then Some (ErrUnavailable PkgBroker ''invalid bounds'')
          else if tc_MinVersion tls < VersionTLS13 \<or> tc_ClientAuth tls \<noteq> RequireAndVerifyClientCert \<or>
                  \<not> tc_ClientCAs tls \<or> tc_Certificates tls = 0
          then Some (ErrUnavailable PkgBroker ''invalid mutual TLS configuration'')
          else (case identities_error [] (bk_AllowedSPIFFEIDs c) of
             Some err \<Rightarrow> Some err
           | None \<Rightarrow>
               if \<not> distinct (bk_AllowedPeerUIDs c) then Some (ErrUnavailable PkgBroker ''duplicate peer UID'') else None)
      | _ \<Rightarrow> Some (ErrUnavailable PkgBroker ''missing mandatory dependency''))"

definition New :: "('l, 'h) broker_Config \<Rightarrow> (('l, 'h) broker \<times> limiter_entries) go_result" where
  "New config =
     (case validateConfig config of
        Some err \<Rightarrow> Inl err
      | None \<Rightarrow> Inr (\<lparr>br_config = config, br_trustedIdentities = bk_AllowedSPIFFEIDs config,
                     br_allowedUIDs = bk_AllowedPeerUIDs config\<rparr>, \<lambda>_. None))"

section \<open>Frames\<close>

text \<open>\<open>io.ReadFull\<close>: the first \<open>n\<close> bytes, or an error if fewer arrive.\<close>

definition ReadFull :: "nat \<Rightarrow> bytes \<Rightarrow> (bytes \<times> bytes) option" where
  "ReadFull n input = (if length input < n then None else Some (take n input, drop n input))"

definition BigEndian_Uint32 :: "bytes \<Rightarrow> u32" where
  "BigEndian_Uint32 header = hd (be_words header)"

definition readFrame :: "bytes \<Rightarrow> u32 \<Rightarrow> (bytes \<times> bytes) option" where
  "readFrame input limit =
     (case ReadFull 4 input of
        None \<Rightarrow> None
      | Some (header, rest) \<Rightarrow>
          (let len = BigEndian_Uint32 header
           in if len = 0 \<or> len > limit then None else ReadFull (unat len) rest))"

text \<open>
  A writer says for each call of \<open>Write\<close> how many of the bytes it is given it takes, and whether it
  succeeds; as \<open>io.Writer\<close> allows, it may fail after it took some. The result is whether all was
  written, what was written, and the number of the next call.
\<close>

type_synonym writer = "nat \<Rightarrow> bytes \<Rightarrow> nat \<times> bool"

function writeAll :: "writer \<Rightarrow> nat \<Rightarrow> bytes \<Rightarrow> bool \<times> bytes \<times> nat" where
  "writeAll w k payload =
     (if payload = [] then (True, [], k)
      else case w k payload of
        (written, success) \<Rightarrow>
          if \<not> success then (False, take written payload, k + 1)
          else if written = 0 then (False, [], k + 1)
          else case writeAll w (k + 1) (drop written payload) of
            (ok, out, k') \<Rightarrow> (ok, take written payload @ out, k'))"
  by pat_completeness auto
termination by (relation "measure (\<lambda>(w, k, payload). length payload)") auto

declare writeAll.simps [simp del]

definition writeFrame :: "writer \<Rightarrow> bytes \<Rightarrow> bool \<times> bytes" where
  "writeFrame w payload =
     (if payload = [] \<or> length payload > 2 ^ 32 - 1 then (False, [])
      else case writeAll w 0 (be_bytes 4 (length payload)) of
        (ok, out, k) \<Rightarrow>
          if \<not> ok then (False, out)
          else (case writeAll w k payload of (ok', out', _) \<Rightarrow> (ok', out @ out')))"

definition json_ResponseEnvelope :: "ResponseEnvelope \<Rightarrow> json" where
  "json_ResponseEnvelope r = JObj
     ([(''protocol'', JStr (rs_Protocol r)), (''status'', JStr (rs_Status r))] @
      (if rs_ReasonCode r = [] then [] else [(''reasonCode'', JStr (rs_ReasonCode r))]) @
      (case rs_Attestation r of None \<Rightarrow> [] | Some a \<Rightarrow> [(''attestation'', json_Attestation a)]))"

definition marshalResponse :: "ResponseEnvelope \<Rightarrow> bytes option" where
  "marshalResponse r =
     (case rs_Attestation r of
        Some a \<Rightarrow> if time_encodable (at_IssuedAt a) \<and> time_encodable (at_ExpiresAt a)
                  then Some (json_print (json_ResponseEnvelope r)) else None
      | None \<Rightarrow> Some (json_print (json_ResponseEnvelope r)))"

definition writeResponse :: "u32 \<Rightarrow> writer \<Rightarrow> ResponseEnvelope \<Rightarrow> bool \<times> bytes" where
  "writeResponse maxResponseBytes w r =
     (case marshalResponse r of
        None \<Rightarrow> (False, [])
      | Some payload \<Rightarrow>
          if payload = [] \<or> (word_of_nat (length payload) :: u32) > maxResponseBytes then (False, []) else writeFrame w payload)"

text \<open>
  A strict decoder reads one envelope from the front of a text and leaves the rest, or fails; the
  second \<open>Decode\<close> must find nothing but white space.
\<close>

type_synonym envelope_decoder = "bytes \<Rightarrow> (RequestEnvelope \<times> bytes) option"

definition strictDecode :: "envelope_decoder \<Rightarrow> bytes \<Rightarrow> RequestEnvelope option" where
  "strictDecode decode payload =
     (case decode payload of
        None \<Rightarrow> None
      | Some (envelope, rest) \<Rightarrow> if list_all json_space rest then Some envelope else None)"

section \<open>Rate limiter\<close>

definition allow :: "RateLimit \<Rightarrow> string \<Rightarrow> gotime option \<Rightarrow> limiter_entries \<Rightarrow> bool \<times> limiter_entries" where
  "allow limit identity clock entries =
     (case clock of
        None \<Rightarrow> (False, entries)
      | Some now \<Rightarrow>
          if time_IsZero now then (False, entries)
          else
            (let entry = (case entries identity of Some e \<Rightarrow> e
                          | None \<Rightarrow> \<lparr>bu_tokens = f64 (of_int (rl_Capacity limit)), bu_last = time_UTC now\<rparr>);
                 elapsed = time_Sub (time_UTC now) (bu_last entry)
             in if elapsed < 0 then (False, entries)
                else (let tokens = min (f64 (of_int (rl_Capacity limit)))
                             (f64 (bu_tokens entry + f64 (duration_Seconds elapsed / duration_Seconds (rl_RefillInterval limit))))
                      in if tokens < 1 then (False, entries(identity \<mapsto> \<lparr>bu_tokens = tokens, bu_last = time_UTC now\<rparr>))
                         else (True, entries(identity \<mapsto> \<lparr>bu_tokens = f64 (tokens - 1), bu_last = time_UTC now\<rparr>)))))"

section \<open>One connection\<close>

text \<open>The peer certificates, leaf first, each with its URI names; a nil URI is \<^const>\<open>None\<close>.\<close>

record tls_state =
  ts_VerifiedChains :: nat
  ts_PeerCertificates :: "string option list list"

record 'h connection =
  cn_peerUID :: "u32 option"
  cn_setDeadline :: bool
  cn_handshake :: "tls_state option"
  cn_input :: bytes
  cn_host :: 'h
  cn_cancelled :: bool
  cn_writer :: writer

record 'l broker_world =
  bw_state :: "'l lifecycle_state"
  bw_entries :: limiter_entries
  bw_ticks :: nat

fun first_trusted :: "string list \<Rightarrow> string option list \<Rightarrow> string option" where
  "first_trusted trusted [] = None"
| "first_trusted trusted (uri # uris) =
     (case uri of
        None \<Rightarrow> first_trusted trusted uris
      | Some value \<Rightarrow> if value \<in> set trusted then Some value else first_trusted trusted uris)"

definition verifyPeerIdentity :: "string list \<Rightarrow> tls_state \<Rightarrow> string option" where
  "verifyPeerIdentity trusted state =
     (if ts_VerifiedChains state = 0 \<or> ts_PeerCertificates state = [] then None
      else first_trusted trusted (hd (ts_PeerCertificates state)))"

definition authorizationResult :: "go_error \<Rightarrow> string \<times> string" where
  "authorizationResult err =
     (case err of
        DecisionError PkgLifecycle code \<Rightarrow> (''denied'', code)
      | ErrUnavailable PkgLifecycle _ \<Rightarrow> (''unavailable'', ''authority_unavailable'')
      | _ \<Rightarrow> (''unavailable'', ''authorization_unavailable''))"

definition broker_event :: "string \<Rightarrow> string \<Rightarrow> string \<Rightarrow> string \<Rightarrow> string \<Rightarrow> audit_event" where
  "broker_event actor action outcome resource reason =
     mk_event actor action outcome resource [(''reasonCode'', MStr reason), (''protocol'', MStr Protocol)]"

definition broker_record ::
  "audit_sink \<Rightarrow> string \<Rightarrow> string \<Rightarrow> string \<Rightarrow> string \<Rightarrow> string \<Rightarrow> 'l broker_world \<Rightarrow> bool \<times> 'l broker_world" where
  "broker_record sink actor action outcome resource reason w =
     (case RecordEvent sink (broker_event actor action outcome resource reason) (ls_log (bw_state w)) of
        (ok, events) \<Rightarrow> (ok, w\<lparr>bw_state := (bw_state w)\<lparr>ls_log := events\<rparr>\<rparr>))"

text \<open>Record first; answer only if the record was accepted.\<close>

definition answer ::
  "audit_sink \<Rightarrow> string \<Rightarrow> string \<Rightarrow> string \<Rightarrow> string \<Rightarrow> string \<Rightarrow> ResponseEnvelope \<Rightarrow> 'l broker_world \<Rightarrow>
   ResponseEnvelope option \<times> 'l broker_world" where
  "answer sink actor action outcome resource reason response w =
     (case broker_record sink actor action outcome resource reason w of
        (ok, w') \<Rightarrow> (if ok then Some response else None, w'))"

definition refuse ::
  "audit_sink \<Rightarrow> string \<Rightarrow> string \<Rightarrow> string \<Rightarrow> string \<Rightarrow> string \<Rightarrow> 'l broker_world \<Rightarrow> ResponseEnvelope option \<times> 'l broker_world" where
  "refuse sink actor action resource reason status w =
     answer sink actor action ''denied'' resource reason
       \<lparr>rs_Protocol = Protocol, rs_Status = status, rs_ReasonCode = reason, rs_Attestation = None\<rparr> w"

definition drop_connection :: "audit_sink \<Rightarrow> string \<Rightarrow> string \<Rightarrow> 'l broker_world \<Rightarrow> ResponseEnvelope option \<times> 'l broker_world" where
  "drop_connection sink actor reason w =
     (None, snd (broker_record sink actor ''connection'' ''denied'' ''unidentified'' reason w))"

definition uid_actor :: "u32 \<Rightarrow> string" where
  "uid_actor uid = ''unix-uid:'' @ dec_nat (unat uid)"

text \<open>The part of a connection after the request is read: identity, rate, preflight, authority.\<close>

definition decide_request ::
  "('l, 'h) broker \<Rightarrow> audit_sink \<Rightarrow> (nat \<Rightarrow> gotime option) \<Rightarrow> ('h \<Rightarrow> bool \<Rightarrow> go_error option) \<Rightarrow> 'l authorizer \<Rightarrow> 'h connection \<Rightarrow>
   string \<Rightarrow> lifecycle_Request \<Rightarrow> 'l broker_world \<Rightarrow> ResponseEnvelope option \<times> 'l broker_world" where
  "decide_request b sink clock preflight authority cn identity request w =
     (if rq_CallerSPIFFEID request \<noteq> identity
      then refuse sink identity (rq_Action request) (rq_CageID request) ''spiffe_request_identity_mismatch'' ''denied'' w
      else case allow (bk_RateLimit (br_config b)) identity (clock (bw_ticks w)) (bw_entries w) of
        (allowed, entries) \<Rightarrow>
          (let w = w\<lparr>bw_entries := entries, bw_ticks := bw_ticks w + 1\<rparr> in
           if \<not> allowed
           then refuse sink identity (rq_Action request) (rq_CageID request) ''rate_limit_exhausted'' ''denied'' w
           else if preflight (cn_host cn) (cn_cancelled cn) \<noteq> None
           then refuse sink identity (rq_Action request) (rq_CageID request) ''host_preflight_unavailable'' ''unavailable'' w
           else case authority request (bw_state w) of
             (Inl err, st) \<Rightarrow>
               (case authorizationResult err of
                  (status, code) \<Rightarrow>
                    answer sink identity (rq_Action request) status (rq_CageID request) code
                      \<lparr>rs_Protocol = Protocol, rs_Status = status, rs_ReasonCode = code, rs_Attestation = None\<rparr>
                      (w\<lparr>bw_state := st\<rparr>))
           | (Inr attestation, st) \<Rightarrow>
               answer sink identity (rq_Action request) ''authorized'' (rq_CageID request) ''authorized''
                 \<lparr>rs_Protocol = Protocol, rs_Status = ''authorized'', rs_ReasonCode = [], rs_Attestation = Some attestation\<rparr>
                 (w\<lparr>bw_state := st\<rparr>)))"

text \<open>The part after the handshake: the identity of the certificate, the frame and the envelope.\<close>

definition read_request ::
  "envelope_decoder \<Rightarrow> ('l, 'h) broker \<Rightarrow> audit_sink \<Rightarrow> (nat \<Rightarrow> gotime option) \<Rightarrow> ('h \<Rightarrow> bool \<Rightarrow> go_error option) \<Rightarrow>
   'l authorizer \<Rightarrow> 'h connection \<Rightarrow> u32 \<Rightarrow> tls_state \<Rightarrow> 'l broker_world \<Rightarrow> ResponseEnvelope option \<times> 'l broker_world" where
  "read_request decode b sink clock preflight authority cn uid tls w =
     (case verifyPeerIdentity (br_trustedIdentities b) tls of
        None \<Rightarrow> drop_connection sink (uid_actor uid) ''untrusted_spiffe_identity'' w
      | Some identity \<Rightarrow>
          (case readFrame (cn_input cn) (bk_MaxRequestBytes (br_config b)) of
             None \<Rightarrow> refuse sink identity ''connection'' ''unidentified'' ''malformed_or_oversized_frame'' ''denied'' w
           | Some (payload, _) \<Rightarrow>
               (case strictDecode decode payload of
                  None \<Rightarrow> refuse sink identity ''connection'' ''unidentified'' ''malformed_envelope'' ''denied'' w
                | Some envelope \<Rightarrow>
                    if re_Protocol envelope \<noteq> Protocol
                    then refuse sink identity ''connection'' ''unidentified'' ''malformed_envelope'' ''denied'' w
                    else decide_request b sink clock preflight authority cn identity (re_Request envelope) w)))"

definition deadline :: "(nat \<Rightarrow> gotime option) \<Rightarrow> int \<Rightarrow> nat \<Rightarrow> gotime option" where
  "deadline clock timeout tick =
     (case clock tick of None \<Rightarrow> None | Some now \<Rightarrow> if time_IsZero now then None else Some (time_Add (time_UTC now) timeout))"

text \<open>The response that \<open>serveConnection\<close> writes, if any; then the bytes that reach the peer.\<close>

definition serve_decision ::
  "envelope_decoder \<Rightarrow> ('l, 'h) broker \<Rightarrow> 'h connection \<Rightarrow> 'l broker_world \<Rightarrow> ResponseEnvelope option \<times> 'l broker_world" where
  "serve_decision decode b cn w =
     (case (bk_Audit (br_config b), bk_Clock (br_config b), bk_Preflight (br_config b), bk_Authority (br_config b)) of
        (Some sink, Some clock, Some preflight, Some authority) \<Rightarrow>
          (case cn_peerUID cn of
             None \<Rightarrow> drop_connection sink ''unidentified'' ''peer_credential_unavailable'' w
           | Some uid \<Rightarrow>
               if uid \<notin> set (br_allowedUIDs b) then drop_connection sink (uid_actor uid) ''unexpected_peer_uid'' w
               else (case deadline clock (bk_RequestTimeout (br_config b)) (bw_ticks w) of
                  None \<Rightarrow> drop_connection sink ''unidentified'' ''clock_unavailable'' (w\<lparr>bw_ticks := bw_ticks w + 1\<rparr>)
                | Some _ \<Rightarrow>
                    (let w = w\<lparr>bw_ticks := bw_ticks w + 1\<rparr> in
                     if \<not> cn_setDeadline cn then (None, w)
                     else case cn_handshake cn of
                       None \<Rightarrow> drop_connection sink (uid_actor uid) ''mutual_tls_failed'' w
                     | Some tls \<Rightarrow> read_request decode b sink clock preflight authority cn uid tls w)))
      | _ \<Rightarrow> (None, w))"

definition serveConnection ::
  "envelope_decoder \<Rightarrow> ('l, 'h) broker \<Rightarrow> 'h connection \<Rightarrow> 'l broker_world \<Rightarrow> bytes \<times> 'l broker_world" where
  "serveConnection decode b cn w =
     (case serve_decision decode b cn w of
        (None, w') \<Rightarrow> ([], w')
      | (Some r, w') \<Rightarrow> (snd (writeResponse (bk_MaxResponseBytes (br_config b)) (cn_writer cn) r), w'))"

section \<open>The socket\<close>

text \<open>
  What may fail when the broker starts to listen, and the identity under which the socket file is
  made. \<open>net.ListenUnix\<close> binds and then listens, and leaves the socket file if only the second
  fails. Closing a listener removes its socket file, as \<open>net.UnixListener\<close> does, unless the removal
  fails, which it does not report.
\<close>

datatype listen_op = LDir | LStale | LRemove | LBind | LListen | LChmod | LBound | LClose | LCloseStat | LCloseRemove

record listen_env =
  li_fault :: "listen_op \<Rightarrow> bool"
  li_umask :: u32
  li_euid :: u32

definition checkSocketDirectory :: "('l, 'h) broker_Config \<Rightarrow> listen_env \<Rightarrow> host_fs \<Rightarrow> go_error option" where
  "checkSocketDirectory c env fs =
     (case (if li_fault env LDir then None else fs (path_Dir (bk_SocketPath c))) of
        None \<Rightarrow> Some (ErrUnavailable PkgBroker ''unsafe socket directory'')
      | Some info \<Rightarrow>
          if \<not> mode_IsDir (fi_mode info) \<or> fi_mode info AND ModeSymlink \<noteq> 0
          then Some (ErrUnavailable PkgBroker ''unsafe socket directory'')
          else if fi_uid info \<noteq> Some (bk_SocketOwnerUID c) \<or> mode_Perm (fi_mode info) AND 0x12 \<noteq> 0
          then Some (ErrUnavailable PkgBroker ''insecure socket directory'')
          else None)"

definition validateSocket :: "('l, 'h) broker_Config \<Rightarrow> FileInfo \<Rightarrow> go_error option" where
  "validateSocket c info =
     (if fi_mode info AND ModeSocket = 0 \<or> fi_uid info \<noteq> Some (bk_SocketOwnerUID c) \<or>
         mode_Perm (fi_mode info) \<noteq> bk_SocketMode c \<or> mode_Perm (fi_mode info) AND 7 \<noteq> 0
      then Some (ErrUnavailable PkgBroker ''insecure socket'') else None)"

definition bound_socket :: "listen_env \<Rightarrow> FileInfo" where
  "bound_socket env = \<lparr>fi_mode = ModeSocket OR (ModePerm AND NOT (li_umask env)), fi_uid = Some (li_euid env)\<rparr>"

definition bind_socket :: "('l, 'h) broker_Config \<Rightarrow> listen_env \<Rightarrow> (host_fs, unit) prog" where
  "bind_socket c env fs =
     (if li_fault env LBind \<or> fs (bk_SocketPath c) \<noteq> None then (Inl (ErrUnavailable PkgBroker ''socket bind failed''), fs)
      else (let fs' = fs(bk_SocketPath c \<mapsto> bound_socket env)
            in if li_fault env LListen then (Inl (ErrUnavailable PkgBroker ''socket bind failed''), fs') else (Inr (), fs')))"

definition close_socket :: "('l, 'h) broker_Config \<Rightarrow> listen_env \<Rightarrow> host_fs \<Rightarrow> host_fs" where
  "close_socket c env fs = (if li_fault env LClose then fs else fs(bk_SocketPath c := None))"

text \<open>The stale socket of an earlier run is removed only if it is one that the broker would make.\<close>

definition remove_stale :: "('l, 'h) broker_Config \<Rightarrow> listen_env \<Rightarrow> (host_fs, unit) prog" where
  "remove_stale c env fs =
     (if li_fault env LStale then (Inl (ErrUnavailable PkgBroker ''socket path inspection failed''), fs)
      else case fs (bk_SocketPath c) of
        None \<Rightarrow> (Inr (), fs)
      | Some info \<Rightarrow>
          (case validateSocket c info of
             Some err \<Rightarrow> (Inl err, fs)
           | None \<Rightarrow>
               if li_fault env LRemove then (Inl (ErrUnavailable PkgBroker ''stale socket removal failed''), fs)
               else (Inr (), fs(bk_SocketPath c := None))))"

definition secure_socket :: "('l, 'h) broker_Config \<Rightarrow> listen_env \<Rightarrow> (host_fs, unit) prog" where
  "secure_socket c env fs =
     (case (if li_fault env LChmod then None else fs (bk_SocketPath c)) of
        None \<Rightarrow> (Inl (ErrUnavailable PkgBroker ''socket permissions failed''), close_socket c env fs)
      | Some info \<Rightarrow>
          (let info' = info\<lparr>fi_mode := (fi_mode info AND NOT ModePerm) OR bk_SocketMode c\<rparr>;
               fs' = fs(bk_SocketPath c \<mapsto> info')
           in if li_fault env LBound \<or> validateSocket c info' \<noteq> None
              then (Inl (ErrUnavailable PkgBroker ''unsafe bound socket''), close_socket c env fs')
              else (Inr (), fs')))"

definition listen :: "('l, 'h) broker_Config \<Rightarrow> listen_env \<Rightarrow> (host_fs, unit) prog" where
  "listen c env fs =
     (case checkSocketDirectory c env fs of
        Some err \<Rightarrow> (Inl err, fs)
      | None \<Rightarrow> thenE (remove_stale c env) (thenE (bind_socket c env) (secure_socket c env)) fs)"

definition closeListener :: "('l, 'h) broker_Config \<Rightarrow> listen_env \<Rightarrow> host_fs \<Rightarrow> host_fs" where
  "closeListener c env fs =
     (let fs = close_socket c env fs
      in case (if li_fault env LCloseStat then None else fs (bk_SocketPath c)) of
           Some info \<Rightarrow>
             if validateSocket c info = None \<and> \<not> li_fault env LCloseRemove then fs(bk_SocketPath c := None) else fs
         | None \<Rightarrow> fs)"

section \<open>The accept loop\<close>

text \<open>
  The state of \<open>Serve\<close>: whether the listener is open, how many connections were accepted, which of
  them hold a slot of the semaphore, and what was answered. Here a connection takes effect when it
  is served, in any order; this is enough for the semaphore, the answers and their records. What depends on
  the accesses of two goroutines that overlap is shown of the threads of \<open>Broker_Pool\<close>.
\<close>

record 'l serve_state =
  sv_open :: bool
  sv_accepted :: nat
  sv_active :: "nat set"
  sv_answers :: "(nat \<times> ResponseEnvelope) list"
  sv_world :: "'l broker_world"

definition serve_start :: "'l broker_world \<Rightarrow> 'l serve_state" where
  "serve_start w = \<lparr>sv_open = True, sv_accepted = 0, sv_active = {}, sv_answers = [], sv_world = w\<rparr>"

text \<open>\<open>Serve\<close> up to the loop: the listener is open, or the error is returned.\<close>

definition Serve_open ::
  "('l, 'h) broker option \<Rightarrow> listen_env \<Rightarrow> 'l broker_world \<Rightarrow> (host_fs, 'l serve_state) prog" where
  "Serve_open broker env w fs =
     (case broker of
        None \<Rightarrow> (Inl (ErrUnavailable PkgBroker ''nil broker''), fs)
      | Some b \<Rightarrow> bindE (listen (br_config b) env) (\<lambda>_. returnE (serve_start w)) fs)"

inductive serve_step ::
  "envelope_decoder \<Rightarrow> ('l, 'h) broker \<Rightarrow> audit_sink \<Rightarrow> (nat \<Rightarrow> 'h connection) \<Rightarrow> 'l serve_state \<Rightarrow> 'l serve_state \<Rightarrow> bool"
  for decode b sink conn where
  accept: "sv_open s \<Longrightarrow> int (card (sv_active s)) < bk_MaxConcurrentConnections (br_config b) \<Longrightarrow>
     serve_step decode b sink conn s
       (s\<lparr>sv_accepted := sv_accepted s + 1, sv_active := insert (sv_accepted s) (sv_active s)\<rparr>)"
| full: "sv_open s \<Longrightarrow> \<not> int (card (sv_active s)) < bk_MaxConcurrentConnections (br_config b) \<Longrightarrow>
     serve_step decode b sink conn s
       (s\<lparr>sv_accepted := sv_accepted s + 1,
          sv_world := snd (broker_record sink ''unidentified'' ''connection'' ''denied'' ''unidentified''
            ''connection_capacity_exhausted'' (sv_world s))\<rparr>)"
| serve: "k \<in> sv_active s \<Longrightarrow> serve_decision decode b (conn k) (sv_world s) = (resp, w) \<Longrightarrow>
     serve_step decode b sink conn s
       (s\<lparr>sv_active := sv_active s - {k}, sv_world := w,
          sv_answers := (case resp of None \<Rightarrow> sv_answers s | Some r \<Rightarrow> sv_answers s @ [(k, r)])\<rparr>)"
| stop: "sv_open s \<Longrightarrow> serve_step decode b sink conn s (s\<lparr>sv_open := False\<rparr>)"


inductive_cases serve_step_cases: "serve_step decode b sink conn s s'"

section \<open>Frames round trip\<close>

lemma be_words_be_bytes: "n < 2 ^ 32 \<Longrightarrow> be_words (be_bytes 4 n) = [word_of_nat n]"
proof -
  assume n: "n < 2 ^ 32"
  let ?d = "\<lambda>i. n div 256 ^ i mod 256"
  have c: "ccode (char_of (m mod 256)) = m mod 256" for m :: nat by (simp add: ccode_def)
  have s: "be_bytes 4 n = [char_of (?d 3), char_of (?d 2), char_of (?d 1), char_of (?d 0)]"
    by (simp add: be_bytes_def upt_rec)
  have "((?d 3 * 256 + ?d 2) * 256 + ?d 1) * 256 + ?d 0 = n"
  proof -
    have "n div 256 ^ 3 = n div 256 div 256 div 256" "n div 256 ^ 2 = n div 256 div 256"
      by (simp_all add: div_mult2_eq [symmetric])
    moreover have "n div 256 div 256 div 256 < 256" using n by (simp add: div_mult2_eq [symmetric] div_less_iff_less_mult)
    ultimately show ?thesis by (simp add: div_mult_mod_eq)
  qed
  then show ?thesis unfolding s be_words.simps c by (simp only:)
qed

definition progressing :: "writer \<Rightarrow> bool" where
  "progressing w \<longleftrightarrow> (\<forall>k payload. payload \<noteq> [] \<longrightarrow> (\<exists>n. w k payload = (n, True) \<and> 0 < n))"

lemma writeAll_progress:
  "progressing w \<Longrightarrow> \<exists>k'. writeAll w k payload = (True, payload, k')"
proof (induction w k payload rule: writeAll.induct)
  case (1 w k payload)
  show ?case
  proof (cases "payload = []")
    case True
    then show ?thesis by (simp add: writeAll.simps)
  next
    case False
    then obtain n where n: "w k payload = (n, True)" "0 < n" using 1(2) unfolding progressing_def by blast
    then obtain k' where "writeAll w (k + 1) (drop n payload) = (True, drop n payload, k')"
      using 1(1) [OF False n(1) [symmetric]] 1(2) by auto
    with False n show ?thesis by (simp add: writeAll.simps [of w k])
  qed
qed

lemma writeAll_prefix: "writeAll w k payload = (ok, out, k') \<Longrightarrow> prefix out payload \<and> (ok \<longrightarrow> out = payload)"
proof (induction w k payload arbitrary: ok out k' rule: writeAll.induct)
  case (1 w k payload)
  show ?case
  proof (cases "payload = [] \<or> \<not> snd (w k payload) \<or> fst (w k payload) = 0")
    case True
    then show ?thesis using 1(2) by (cases "w k payload") (auto simp: writeAll.simps [of w k] take_is_prefix split: if_splits)
  next
    case False
    then obtain n where n: "payload \<noteq> []" "w k payload = (n, True)" "n \<noteq> 0" by (cases "w k payload") auto
    obtain ok' out' k'' where rec: "writeAll w (k + 1) (drop n payload) = (ok', out', k'')" by (rule prod_cases3)
    have "ok = ok'" "out = take n payload @ out'" using 1(2) n rec by (simp_all add: writeAll.simps [of w k])
    moreover have "prefix out' (drop n payload)" "ok' \<longrightarrow> out' = drop n payload" using 1(1) [OF n(1) n(2) [symmetric] _ n(3) rec] by auto
    ultimately show ?thesis by (metis append_take_drop_id same_prefix_prefix)
  qed
qed

lemma readFrame_frame:
  assumes "payload \<noteq> []" "length payload < 2 ^ 32"
  shows "readFrame (be_bytes 4 (length payload) @ payload @ rest) limit =
    (if length payload \<le> unat limit then Some (payload, rest) else None)"
proof -
  have len: "length (be_bytes 4 (length payload)) = 4" by simp
  have hd: "BigEndian_Uint32 (be_bytes 4 (length payload)) = word_of_nat (length payload)"
    using assms(2) by (simp add: BigEndian_Uint32_def be_words_be_bytes)
  have u: "unat (word_of_nat (length payload) :: u32) = length payload"
    using assms(2) by (simp add: unsigned_of_nat take_bit_nat_eq_self)
  have nz: "word_of_nat (length payload) \<noteq> (0 :: u32)" using u assms(1) by (metis length_0_conv unat_0)
  have gt: "word_of_nat (length payload) > limit \<longleftrightarrow> \<not> length payload \<le> unat limit"
    using u by (simp add: word_less_nat_alt not_le)
  show ?thesis
    by (simp add: readFrame_def ReadFull_def len hd u nz gt Let_def)
qed

lemma writeAll_calls: "writeAll w k payload = (ok, out, k') \<Longrightarrow> k' \<le> k + max 1 (length payload)"
proof (induction w k payload arbitrary: ok out k' rule: writeAll.induct)
  case (1 w k payload)
  show ?case
  proof (cases "payload = [] \<or> \<not> snd (w k payload) \<or> fst (w k payload) = 0")
    case True
    then show ?thesis using 1(2) by (cases "w k payload") (auto simp: writeAll.simps [of w k] take_is_prefix split: if_splits)
  next
    case False
    then obtain n where n: "payload \<noteq> []" "w k payload = (n, True)" "n \<noteq> 0" by (cases "w k payload") auto
    obtain ok' out' k'' where rec: "writeAll w (k + 1) (drop n payload) = (ok', out', k'')" by (rule prod_cases3)
    have k: "k' = k''" using 1(2) n rec by (simp add: writeAll.simps [of w k])
    show ?thesis
    proof (cases "drop n payload = []")
      case True
      then have "k'' = k + 1" using rec unfolding True by (simp add: writeAll.simps [of w "Suc k"])
      then show ?thesis using k by simp
    next
      case False
      then have "k'' \<le> k + 1 + length (drop n payload)" using 1(1) [OF n(1) n(2) [symmetric] _ n(3) rec] by (cases "drop n payload") auto
      moreover have "length (drop n payload) < length payload" using n by (cases payload) auto
      ultimately show ?thesis using k by simp
    qed
  qed
qed

section \<open>What the limiter does\<close>

definition limit_ok :: "RateLimit \<Rightarrow> bool" where
  "limit_ok l \<longleftrightarrow> 1 \<le> rl_Capacity l \<and> rl_Capacity l \<le> 10000 \<and> Millisecond \<le> rl_RefillInterval l \<and> rl_RefillInterval l \<le> Hour"

lemma capacity_f64:
  assumes "limit_ok l"
  shows "f64 (of_int (rl_Capacity l)) = of_int (rl_Capacity l)"
proof -
  obtain n where n: "rl_Capacity l = int n" using assms by (auto simp: limit_ok_def intro: nonneg_int_cases [of "rl_Capacity l"])
  then have "n < 2 ^ 53" using assms by (simp add: limit_ok_def)
  then show ?thesis using f64_of_nat [of n] n by simp
qed

definition bucket_ok :: "RateLimit \<Rightarrow> bucket \<Rightarrow> bool" where
  "bucket_ok l e \<longleftrightarrow> 0 \<le> bu_tokens e \<and> bu_tokens e \<le> of_int (rl_Capacity l)"

definition entries_ok :: "RateLimit \<Rightarrow> limiter_entries \<Rightarrow> bool" where
  "entries_ok l entries \<longleftrightarrow> (\<forall>identity e. entries identity = Some e \<longrightarrow> bucket_ok l e)"

text \<open>The three outcomes of a call: nothing happens, the bucket is too empty, or a token is taken.\<close>

definition bucket_of :: "RateLimit \<Rightarrow> string \<Rightarrow> gotime \<Rightarrow> limiter_entries \<Rightarrow> bucket" where
  "bucket_of l identity now entries =
     (case entries identity of Some e \<Rightarrow> e | None \<Rightarrow> \<lparr>bu_tokens = f64 (of_int (rl_Capacity l)), bu_last = time_UTC now\<rparr>)"

definition refilled :: "RateLimit \<Rightarrow> gotime \<Rightarrow> bucket \<Rightarrow> rat" where
  "refilled l now e =
     min (f64 (of_int (rl_Capacity l)))
       (f64 (bu_tokens e + f64 (duration_Seconds (time_Sub (time_UTC now) (bu_last e)) / duration_Seconds (rl_RefillInterval l))))"

lemma allow_eq:
  "allow l identity clock entries =
     (case clock of
        None \<Rightarrow> (False, entries)
      | Some now \<Rightarrow>
          (let e = bucket_of l identity now entries; tokens = refilled l now e in
           if time_IsZero now \<or> time_Sub (time_UTC now) (bu_last e) < 0 then (False, entries)
           else if tokens < 1 then (False, entries(identity \<mapsto> \<lparr>bu_tokens = tokens, bu_last = time_UTC now\<rparr>))
           else (True, entries(identity \<mapsto> \<lparr>bu_tokens = f64 (tokens - 1), bu_last = time_UTC now\<rparr>))))"
  by (simp add: allow_def bucket_of_def refilled_def Let_def split: option.split)

lemma time_Sub_nonneg: "0 \<le> time_Sub a b \<longleftrightarrow> t_ns b \<le> t_ns a"
  by (auto simp: time_Sub_def max_i64_def min_i64_def)

lemma bucket_of_ok: "limit_ok l \<Longrightarrow> entries_ok l entries \<Longrightarrow> bucket_ok l (bucket_of l identity now entries)"
  by (auto simp: bucket_of_def entries_ok_def bucket_ok_def capacity_f64 limit_ok_def split: option.split)

lemma refilled_bounds:
  assumes "limit_ok l" "bucket_ok l e" "0 \<le> time_Sub (time_UTC now) (bu_last e)"
  shows "0 \<le> refilled l now e" and "refilled l now e \<le> of_int (rl_Capacity l)"
proof -
  have "0 \<le> f64 (duration_Seconds (time_Sub (time_UTC now) (bu_last e)) / duration_Seconds (rl_RefillInterval l))"
    using assms(1,3) by (intro f64_nonneg divide_nonneg_nonneg duration_Seconds_nonneg) (auto simp: limit_ok_def Millisecond_def)
  then have "0 \<le> f64 (bu_tokens e + f64 (duration_Seconds (time_Sub (time_UTC now) (bu_last e)) / duration_Seconds (rl_RefillInterval l)))"
    using assms(2) by (intro f64_nonneg) (simp add: bucket_ok_def)
  then show "0 \<le> refilled l now e" "refilled l now e \<le> of_int (rl_Capacity l)"
    using assms(1) by (simp_all add: refilled_def capacity_f64 limit_ok_def)
qed

lemma entries_ok_upd: "entries_ok l entries \<Longrightarrow> bucket_ok l e \<Longrightarrow> entries_ok l (entries(identity \<mapsto> e))"
  by (simp add: entries_ok_def)

lemma taken_ok:
  assumes "limit_ok l" "1 \<le> tokens" "tokens \<le> of_int (rl_Capacity l)"
  shows "0 \<le> f64 (tokens - 1)" "f64 (tokens - 1) \<le> of_int (rl_Capacity l)"
proof -
  show "0 \<le> f64 (tokens - 1)" using assms(2) by (intro f64_nonneg) simp
  have "f64 (tokens - 1) \<le> f64 (of_int (rl_Capacity l))" using assms(2,3) by (intro f64_mono) simp_all
  then show "f64 (tokens - 1) \<le> of_int (rl_Capacity l)" using assms(1) by (simp add: capacity_f64)
qed

lemma allow_step:
  assumes l: "limit_ok l" and e: "entries_ok l entries" and run: "allow l identity clock entries = (ok, entries')"
  shows "entries_ok l entries'" and "\<forall>other. other \<noteq> identity \<longrightarrow> entries' other = entries other"
    and "\<forall>b. entries identity = Some b \<longrightarrow> (\<exists>b'. entries' identity = Some b' \<and> t_ns (bu_last b) \<le> t_ns (bu_last b'))"
proof -
  consider (none) "\<not> ok" "entries' = entries"
    | (some) now where "clock = Some now" "0 \<le> time_Sub (time_UTC now) (bu_last (bucket_of l identity now entries))"
        "entries' = entries(identity \<mapsto> \<lparr>bu_tokens = refilled l now (bucket_of l identity now entries), bu_last = time_UTC now\<rparr>) \<or>
         1 \<le> refilled l now (bucket_of l identity now entries) \<and>
         entries' = entries(identity \<mapsto> \<lparr>bu_tokens = f64 (refilled l now (bucket_of l identity now entries) - 1), bu_last = time_UTC now\<rparr>)"
    using run by (auto simp: allow_eq Let_def not_less split: option.splits if_splits)
  then have "entries_ok l entries' \<and> (\<forall>other. other \<noteq> identity \<longrightarrow> entries' other = entries other) \<and>
      (\<forall>b. entries identity = Some b \<longrightarrow> (\<exists>b'. entries' identity = Some b' \<and> t_ns (bu_last b) \<le> t_ns (bu_last b')))"
  proof cases
    case none
    with e show ?thesis by simp
  next
    case some
    let ?b = "bucket_of l identity now entries"
    have b: "bucket_ok l ?b" by (rule bucket_of_ok [OF l e])
    note r = refilled_bounds [OF l b some(2)]
    have "t_ns (bu_last b') \<le> t_ns now" if "entries identity = Some b'" for b'
      using some(2) that by (simp add: time_Sub_nonneg bucket_of_def)
    moreover have "entries_ok l entries'"
      using some(3) r taken_ok [OF l _ r(2)] by (auto intro!: entries_ok_upd [OF e] simp: bucket_ok_def)
    ultimately show ?thesis using some(3) by auto
  qed
  then show "entries_ok l entries'" "\<forall>other. other \<noteq> identity \<longrightarrow> entries' other = entries other"
    "\<forall>b. entries identity = Some b \<longrightarrow> (\<exists>b'. entries' identity = Some b' \<and> t_ns (bu_last b) \<le> t_ns (bu_last b'))"
    by blast+
qed

text \<open>Calls for one identity with the given readings of the clock, one after the other.\<close>

fun allow_all :: "RateLimit \<Rightarrow> string \<Rightarrow> gotime option list \<Rightarrow> limiter_entries \<Rightarrow> bool list \<times> limiter_entries" where
  "allow_all l identity [] entries = ([], entries)"
| "allow_all l identity (t # ts) entries =
     (case allow l identity t entries of
        (ok, entries1) \<Rightarrow> (case allow_all l identity ts entries1 of (oks, entries2) \<Rightarrow> (ok # oks, entries2)))"

lemma refilled_still:
  assumes "limit_ok l" "bu_last e = time_UTC now" "bu_tokens e = of_nat n" "int n \<le> rl_Capacity l"
  shows "refilled l now e = of_nat n"
proof -
  have "n < 2 ^ 53" using assms(1,4) by (simp add: limit_ok_def)
  then have "f64 (of_nat n) = of_nat n" by (rule f64_of_nat)
  moreover have "time_Sub (time_UTC now) (time_UTC now) = 0" by (simp add: time_Sub_def max_i64_def min_i64_def)
  moreover have "(of_nat n :: rat) \<le> of_int (rl_Capacity l)" using assms(4) by (metis of_int_le_iff of_int_of_nat_eq)
  ultimately show ?thesis using assms by (simp add: refilled_def capacity_f64 min_def)
qed

lemma allow_still:
  assumes l: "limit_ok l" and t: "\<not> time_IsZero now"
    and e: "bucket_of l identity now entries = \<lparr>bu_tokens = of_nat n, bu_last = time_UTC now\<rparr>" and n: "int n \<le> rl_Capacity l"
  shows "allow l identity (Some now) entries = (0 < n, entries(identity \<mapsto> \<lparr>bu_tokens = of_nat (n - 1), bu_last = time_UTC now\<rparr>))"
proof -
  have r: "refilled l now (bucket_of l identity now entries) = of_nat n"
    using refilled_still [OF l, of "bucket_of l identity now entries" now n] e n by simp
  have s: "time_Sub (time_UTC now) (time_UTC now) = 0" by (simp add: time_Sub_def max_i64_def min_i64_def)
  show ?thesis
  proof (cases n)
    case 0
    then show ?thesis using t r s unfolding allow_eq Let_def by (simp add: e)
  next
    case (Suc m)
    have "m < 2 ^ 53" using l n Suc by (simp add: limit_ok_def)
    then have "f64 (of_nat n - 1) = of_nat m" using f64_of_nat [of m] Suc by simp
    then show ?thesis using t r s Suc unfolding allow_eq Let_def by (simp add: e)
  qed
qed

lemma allow_all_still:
  assumes "limit_ok l" "\<not> time_IsZero now"
  shows "bucket_of l identity now entries = \<lparr>bu_tokens = of_nat n, bu_last = time_UTC now\<rparr> \<Longrightarrow> int n \<le> rl_Capacity l \<Longrightarrow>
    fst (allow_all l identity (replicate k (Some now)) entries) = replicate (min k n) True @ replicate (k - n) False"
proof (induction k arbitrary: entries n)
  case (Suc k)
  let ?entries = "entries(identity \<mapsto> \<lparr>bu_tokens = of_nat (n - 1), bu_last = time_UTC now\<rparr>)"
  have "bucket_of l identity now ?entries = \<lparr>bu_tokens = of_nat (n - 1), bu_last = time_UTC now\<rparr>" by (simp add: bucket_of_def)
  moreover have "int (n - 1) \<le> rl_Capacity l" using Suc.prems(2) by simp
  ultimately have "fst (allow_all l identity (replicate k (Some now)) ?entries) = replicate (min k (n - 1)) True @ replicate (k - (n - 1)) False"
    by (rule Suc.IH)
  then show ?case
    using allow_still [OF assms Suc.prems]
    by (cases n) (simp_all add: case_prod_beta)
qed simp

section \<open>What is answered, and after which record\<close>


definition world_log :: "'l broker_world \<Rightarrow> audit_log" where
  "world_log w = ls_log (bw_state w)"



lemma answer_result:
  assumes "answer sink actor action outcome resource reason response w = (resp, w')"
  shows "world_log w' = world_log w @ [(broker_event actor action outcome resource reason, resp \<noteq> None)]"
    and "resp \<noteq> None \<Longrightarrow> resp = Some response"
  using assms by (auto simp: answer_def broker_record_def RecordEvent_def Let_def world_log_def split: if_splits)






lemma authorizationResult_status: "authorizationResult err = (status, code) \<Longrightarrow> status = ''denied'' \<or> status = ''unavailable''"
  by (auto simp: authorizationResult_def split: go_error.splits package.splits)




section \<open>When a request is authorized\<close>

lemma refuse_not_authorized:
  "refuse sink actor action resource reason status w = (Some r, w') \<Longrightarrow> rs_Status r = status"
  using answer_result(2) unfolding refuse_def by fastforce

lemma decide_request_authorized:
  assumes run: "decide_request b sink clock preflight authority cn identity request w = (Some r, w')"
    and "rs_Status r = ''authorized''"
  obtains attestation st entries where "rq_CallerSPIFFEID request = identity"
    "allow (bk_RateLimit (br_config b)) identity (clock (bw_ticks w)) (bw_entries w) = (True, entries)"
    "preflight (cn_host cn) (cn_cancelled cn) = None" "authority request (bw_state w) = (Inr attestation, st)"
    "rs_Attestation r = Some attestation"
    "world_log w' = ls_log st @ [(broker_event identity (rq_Action request) ''authorized'' (rq_CageID request) ''authorized'', True)]"
proof -
  have id: "rq_CallerSPIFFEID request = identity"
    using assms refuse_not_authorized unfolding decide_request_def by (fastforce split: if_splits)
  obtain allowed entries where al: "allow (bk_RateLimit (br_config b)) identity (clock (bw_ticks w)) (bw_entries w) = (allowed, entries)"
    by (rule prod.exhaust)
  let ?w = "w\<lparr>bw_entries := entries, bw_ticks := bw_ticks w + 1\<rparr>"
  have allowed: "allowed" "preflight (cn_host cn) (cn_cancelled cn) = None"
    using assms id al refuse_not_authorized unfolding decide_request_def by (fastforce simp: Let_def split: if_splits)+
  obtain res st where auth: "authority request (bw_state w) = (res, st)" by (rule prod.exhaust)
  show ?thesis
  proof (cases res)
    case (Inl e)
    obtain status code where sc: "authorizationResult e = (status, code)" by (rule prod.exhaust)
    have "answer sink identity (rq_Action request) status (rq_CageID request) code
        \<lparr>rs_Protocol = Protocol, rs_Status = status, rs_ReasonCode = code, rs_Attestation = None\<rparr> (?w\<lparr>bw_state := st\<rparr>) = (Some r, w')"
      using run al id allowed auth sc Inl by (simp add: decide_request_def Let_def)
    from answer_result(2) [OF this] authorizationResult_status [OF sc] assms(2) show ?thesis by auto
  next
    case (Inr a)
    have ans: "answer sink identity (rq_Action request) ''authorized'' (rq_CageID request) ''authorized''
        \<lparr>rs_Protocol = Protocol, rs_Status = ''authorized'', rs_ReasonCode = [], rs_Attestation = Some a\<rparr> (?w\<lparr>bw_state := st\<rparr>) = (Some r, w')"
      using run al id allowed auth Inr by (simp add: decide_request_def Let_def)
    show ?thesis
      by (rule that [OF id _ allowed(2)])
        (use al allowed auth Inr answer_result [OF ans] in \<open>auto simp: world_log_def\<close>)
  qed
qed

lemma first_trusted_Some: "first_trusted trusted uris = Some v \<Longrightarrow> Some v \<in> set uris \<and> v \<in> set trusted"
  by (induction uris) (auto split: option.splits if_splits)

section \<open>The accept loop keeps its bounds and its records\<close>








section \<open>The socket file\<close>

definition socket_secure :: "('l, 'h) broker_Config \<Rightarrow> FileInfo \<Rightarrow> bool" where
  "socket_secure c info \<longleftrightarrow> fi_mode info AND ModeSocket \<noteq> 0 \<and> fi_uid info = Some (bk_SocketOwnerUID c) \<and>
     mode_Perm (fi_mode info) = bk_SocketMode c \<and> mode_Perm (fi_mode info) AND 7 = 0"

definition directory_secure :: "('l, 'h) broker_Config \<Rightarrow> FileInfo \<Rightarrow> bool" where
  "directory_secure c info \<longleftrightarrow> mode_IsDir (fi_mode info) \<and> fi_mode info AND ModeSymlink = 0 \<and>
     fi_uid info = Some (bk_SocketOwnerUID c) \<and> mode_Perm (fi_mode info) AND 0x12 = 0"

lemma validateSocket_iff: "validateSocket c info = None \<longleftrightarrow> socket_secure c info"
  by (auto simp: validateSocket_def socket_secure_def)

lemma checkSocketDirectory_None:
  "checkSocketDirectory c env fs = None \<Longrightarrow> \<exists>info. fs (path_Dir (bk_SocketPath c)) = Some info \<and> directory_secure c info"
  by (auto simp: checkSocketDirectory_def directory_secure_def split: option.splits if_splits)

text \<open>What a failure of \<open>listen(2)\<close> or of the removal in \<open>Close\<close> leaves: a socket that this run made.\<close>

definition socket_left :: "('l, 'h) broker_Config \<Rightarrow> listen_env \<Rightarrow> host_fs \<Rightarrow> bool" where
  "socket_left c env fs \<longleftrightarrow> (li_fault env LListen \<or> li_fault env LClose) \<and>
     (\<exists>info. fs (bk_SocketPath c) = Some info \<and> fi_mode info AND ModeSocket \<noteq> 0 \<and> fi_uid info = Some (li_euid env))"

definition socket_result :: "('l, 'h) broker_Config \<Rightarrow> listen_env \<Rightarrow> host_fs \<Rightarrow> unit go_result \<Rightarrow> host_fs \<Rightarrow> bool" where
  "socket_result c env fs res fs' \<longleftrightarrow> (\<forall>q. q \<noteq> bk_SocketPath c \<longrightarrow> fs' q = fs q) \<and>
     (case res of
        Inr _ \<Rightarrow> \<exists>info. fs' (bk_SocketPath c) = Some info \<and> socket_secure c info
      | Inl _ \<Rightarrow> fs' = fs \<or> fs' (bk_SocketPath c) = None \<or> socket_left c env fs')"

lemma bound_socket_bits:
  "fi_mode (bound_socket env) AND ModeSocket \<noteq> 0" "fi_uid (bound_socket env) = Some (li_euid env)"
  "((fi_mode (bound_socket env) AND NOT ModePerm) OR m) AND ModeSocket \<noteq> 0"
  by (simp_all add: bound_socket_def word_and_or mode_defs)

lemma secure_socket_cases:
  assumes "secure_socket c env fs = (res, fs')" "fs (bk_SocketPath c) = Some (bound_socket env)"
  shows "\<forall>q. q \<noteq> bk_SocketPath c \<longrightarrow> fs' q = fs q"
    and "res = Inr () \<Longrightarrow> \<exists>info. fs' (bk_SocketPath c) = Some info \<and> socket_secure c info"
    and "res \<noteq> Inr () \<Longrightarrow> fs' (bk_SocketPath c) = None \<or> socket_left c env fs'"
  using assms bound_socket_bits
  by (auto simp: secure_socket_def socket_left_def close_socket_def Let_def validateSocket_iff split: option.splits if_splits)

lemma bind_socket_cases:
  assumes "bind_socket c env fs = (res, fs')"
  shows "\<forall>q. q \<noteq> bk_SocketPath c \<longrightarrow> fs' q = fs q"
    and "res = Inr () \<Longrightarrow> fs' (bk_SocketPath c) = Some (bound_socket env)"
    and "res \<noteq> Inr () \<Longrightarrow> fs' = fs \<or> socket_left c env fs'"
  using assms bound_socket_bits by (auto simp: bind_socket_def socket_left_def Let_def split: if_splits)

lemma remove_stale_cases:
  assumes "remove_stale c env fs = (res, fs')"
  shows "(\<forall>q. q \<noteq> bk_SocketPath c \<longrightarrow> fs' q = fs q) \<and>
    (res = Inr () \<longrightarrow> fs' (bk_SocketPath c) = None \<and> (\<forall>info. fs (bk_SocketPath c) = Some info \<longrightarrow> socket_secure c info)) \<and>
    (res \<noteq> Inr () \<longrightarrow> fs' = fs)"
  using assms by (auto simp: remove_stale_def validateSocket_iff split: option.splits if_splits)

lemma listen_result:
  assumes "listen c env fs = (res, fs')"
  shows "socket_result c env fs res fs'"
    and "res = Inr () \<Longrightarrow> \<exists>info. fs (path_Dir (bk_SocketPath c)) = Some info \<and> directory_secure c info"
    and "fs (bk_SocketPath c) = Some old \<Longrightarrow> \<not> socket_secure c old \<Longrightarrow> res \<noteq> Inr () \<and> fs' = fs"
proof -
  have unchanged: "socket_result c env fs (Inl err) fs" for err by (simp add: socket_result_def)
  have "socket_result c env fs res fs' \<and>
      (res = Inr () \<longrightarrow> (\<exists>info. fs (path_Dir (bk_SocketPath c)) = Some info \<and> directory_secure c info)) \<and>
      (\<forall>old. fs (bk_SocketPath c) = Some old \<longrightarrow> \<not> socket_secure c old \<longrightarrow> res \<noteq> Inr () \<and> fs' = fs)"
  proof (cases "checkSocketDirectory c env fs")
    case (Some err)
    then show ?thesis using assms unchanged by (auto simp: listen_def)
  next
    case None
    then have run: "thenE (remove_stale c env) (thenE (bind_socket c env) (secure_socket c env)) fs = (res, fs')"
      using assms by (simp add: listen_def)
    then show ?thesis
    proof (cases rule: thenE_cases)
      case (stopped err)
      then show ?thesis using remove_stale_cases [OF stopped(1)] unchanged by auto
    next
      case (went_on u f1)
      note r = remove_stale_cases [OF went_on(1)]
      have f1: "\<forall>q. q \<noteq> bk_SocketPath c \<longrightarrow> f1 q = fs q" "f1 (bk_SocketPath c) = None"
        "\<forall>info. fs (bk_SocketPath c) = Some info \<longrightarrow> socket_secure c info" using r by auto
      from went_on(2) have "socket_result c env f1 res fs'"
      proof (cases rule: thenE_cases)
        case (stopped err)
        then show ?thesis using bind_socket_cases [OF stopped(1)] by (auto simp: socket_result_def)
      next
        case (went_on v f2)
        note b = bind_socket_cases [OF went_on(1)]
        have "f2 (bk_SocketPath c) = Some (bound_socket env)" by (rule b(2)) simp
        note ok = secure_socket_cases [OF went_on(2) this]
        show ?thesis using ok b(1) by (cases res) (auto simp: socket_result_def)
      qed
      then have "socket_result c env fs res fs'" using f1(1,2) by (auto simp: socket_result_def split: sum.splits)
      then show ?thesis using f1(3) checkSocketDirectory_None [OF None] by blast
    qed
  qed
  then show "socket_result c env fs res fs'"
    "res = Inr () \<Longrightarrow> \<exists>info. fs (path_Dir (bk_SocketPath c)) = Some info \<and> directory_secure c info"
    "fs (bk_SocketPath c) = Some old \<Longrightarrow> \<not> socket_secure c old \<Longrightarrow> res \<noteq> Inr () \<and> fs' = fs" by blast+
qed

section \<open>Calls of the limiter for several identities\<close>

fun allow_calls :: "RateLimit \<Rightarrow> (string \<times> gotime option) list \<Rightarrow> limiter_entries \<Rightarrow> bool list \<times> limiter_entries" where
  "allow_calls l [] entries = ([], entries)"
| "allow_calls l ((identity, t) # calls) entries =
     (case allow l identity t entries of
        (ok, entries1) \<Rightarrow> (case allow_calls l calls entries1 of (oks, entries2) \<Rightarrow> (ok # oks, entries2)))"

text \<open>The answers that one identity got.\<close>

definition answers_of :: "string \<Rightarrow> (string \<times> gotime option) list \<Rightarrow> bool list \<Rightarrow> bool list" where
  "answers_of identity calls oks = map snd (filter (\<lambda>(c, _). fst c = identity) (zip calls oks))"

lemma answers_of_simps [simp]:
  "answers_of identity [] oks = []"
  "answers_of identity (c # calls) (x # oks) =
     (if fst c = identity then x # answers_of identity calls oks else answers_of identity calls oks)"
  by (simp_all add: answers_of_def)

lemma allow_local:
  assumes "e1 identity = e2 identity"
  shows "fst (allow l identity t e1) = fst (allow l identity t e2)"
    and "snd (allow l identity t e1) identity = snd (allow l identity t e2) identity"
    and "other \<noteq> identity \<Longrightarrow> snd (allow l identity t e1) other = e1 other"
proof -
  have "bucket_of l identity now e1 = bucket_of l identity now e2" for now using assms by (simp add: bucket_of_def)
  then show "fst (allow l identity t e1) = fst (allow l identity t e2)"
    "snd (allow l identity t e1) identity = snd (allow l identity t e2) identity"
    using assms by (simp_all add: allow_eq Let_def split: option.split)
  show "other \<noteq> identity \<Longrightarrow> snd (allow l identity t e1) other = e1 other"
    by (simp add: allow_eq Let_def split: option.split)
qed

lemma allow_calls_local:
  assumes "e1 identity = e2 identity"
  shows "answers_of identity calls (fst (allow_calls l calls e1)) =
    fst (allow_all l identity (map snd (filter (\<lambda>c. fst c = identity) calls)) e2)"
  using assms
proof (induction calls arbitrary: e1 e2)
  case (Cons c calls)
  obtain i t where c: "c = (i, t)" by (rule prod.exhaust)
  show ?case
  proof (cases "i = identity")
    case True
    have "snd (allow l i t e1) identity = snd (allow l i t e2) identity" "fst (allow l i t e1) = fst (allow l i t e2)"
      using allow_local(1,2) [of e1 i e2] Cons.prems True by auto
    then show ?thesis using Cons.IH [of "snd (allow l i t e1)" "snd (allow l i t e2)"] True c by (simp add: case_prod_beta)
  next
    case False
    then have "snd (allow l i t e1) identity = e2 identity" using allow_local(3) [of e1 i e1 identity] Cons.prems by simp
    then show ?thesis using Cons.IH False c by (simp add: case_prod_beta)
  qed
qed simp

lemma allow_calls_ok:
  assumes "limit_ok l"
  shows "entries_ok l entries \<Longrightarrow> entries_ok l (snd (allow_calls l calls entries))"
proof (induction calls arbitrary: entries)
  case (Cons c calls)
  obtain i t where c: "c = (i, t)" by (rule prod.exhaust)
  have "entries_ok l (snd (allow l i t entries))" using allow_step(1) [OF assms Cons.prems] by (metis prod.collapse)
  then show ?case using Cons.IH c by (simp add: case_prod_beta)
qed simp

section \<open>A configured broker\<close>

text \<open>What a configuration must satisfy, apart from naming the services.\<close>

definition config_ok :: "('l, 'h) broker_Config \<Rightarrow> TLSConfig \<Rightarrow> bool" where
  "config_ok c tls \<longleftrightarrow> HasPrefix (bk_SocketPath c) ''/'' \<and> path_Clean (bk_SocketPath c) = bk_SocketPath c \<and>
     path_Base (bk_SocketPath c) \<noteq> ''.'' \<and> length (bk_SocketPath c) \<le> 100 \<and>
     (bk_SocketMode c = 0x180 \<or> bk_SocketMode c = 0x1B0) \<and> bounds_ok c \<and>
     VersionTLS13 \<le> tc_MinVersion tls \<and> tc_ClientAuth tls = RequireAndVerifyClientCert \<and> tc_ClientCAs tls \<and>
     tc_Certificates tls \<noteq> 0 \<and> distinct (bk_AllowedSPIFFEIDs c) \<and> list_all validSPIFFE (bk_AllowedSPIFFEIDs c) \<and>
     distinct (bk_AllowedPeerUIDs c)"

lemma identities_error_None:
  "identities_error seen ids = None \<longleftrightarrow> distinct ids \<and> set ids \<inter> set seen = {} \<and> list_all validSPIFFE ids"
  by (induction ids arbitrary: seen) auto

lemma validateConfig_None:
  assumes "bk_Authority c = Some authority" "bk_Audit c = Some sink" "bk_Preflight c = Some preflight"
    and "bk_Clock c = Some clock" "bk_TLSConfig c = Some tls"
  shows "validateConfig c = None \<longleftrightarrow> config_ok c tls"
proof -
  have refused: "(if P then Some e else y) = None \<longleftrightarrow> \<not> P \<and> y = None" for P and e :: go_error and y by simp
  have last: "(case x of None \<Rightarrow> if \<not> P then Some e else None | Some err \<Rightarrow> Some err) = None \<longleftrightarrow> x = None \<and> P"
    for x and P and e :: go_error by (simp split: option.split)
  show ?thesis
    unfolding validateConfig_def assms prod.case option.case config_ok_def refused last identities_error_None
    by (simp only: de_Morgan_disj de_Morgan_conj not_not not_less list.set Int_empty_right conj_assoc simp_thms)
qed

lemma validateConfig_services:
  assumes "validateConfig c = None"
  obtains authority sink preflight clock tls where
    "bk_Authority c = Some authority" "bk_Audit c = Some sink" "bk_Preflight c = Some preflight"
    "bk_Clock c = Some clock" "bk_TLSConfig c = Some tls"
  using assms by (cases "bk_Authority c"; cases "bk_Audit c"; cases "bk_Preflight c"; cases "bk_Clock c"; cases "bk_TLSConfig c")
    (simp_all add: validateConfig_def)

lemma New_Inr:
  assumes "New config = Inr (b, entries)"
  obtains authority sink preflight clock tls where
    "bk_Authority config = Some authority" "bk_Audit config = Some sink" "bk_Preflight config = Some preflight"
    "bk_Clock config = Some clock" "bk_TLSConfig config = Some tls" "config_ok config tls" "entries = (\<lambda>_. None)"
    "br_config b = config" "br_trustedIdentities b = bk_AllowedSPIFFEIDs config" "br_allowedUIDs b = bk_AllowedPeerUIDs config"
proof -
  have v: "validateConfig config = None" "b = \<lparr>br_config = config, br_trustedIdentities = bk_AllowedSPIFFEIDs config,
      br_allowedUIDs = bk_AllowedPeerUIDs config\<rparr>" "entries = (\<lambda>_. None)"
    using assms by (auto simp: New_def split: option.splits)
  obtain authority sink preflight clock tls where s: "bk_Authority config = Some authority" "bk_Audit config = Some sink"
      "bk_Preflight config = Some preflight" "bk_Clock config = Some clock" "bk_TLSConfig config = Some tls"
    by (rule validateConfig_services [OF v(1)])
  with v show ?thesis using validateConfig_None [OF s] by (intro that [of authority sink preflight clock tls]) simp_all
qed

lemma New_bounds:
  assumes "New config = Inr (b, entries)"
  shows "limit_ok (bk_RateLimit config)" and "1 \<le> bk_MaxConcurrentConnections config"
  using New_Inr [OF assms] by (auto simp: config_ok_def bounds_ok_def limit_ok_def not_less)

section \<open>What an authorized answer shows\<close>

text \<open>The request that was read, as the later steps of the connection see it.\<close>

lemma serve_decision_reads:
  assumes "New config = Inr (b, entries0)" and run: "serve_decision decode b cn w = (Some r, w')"
  obtains uid tls sink clock preflight authority where
    "cn_peerUID cn = Some uid" "uid \<in> set (bk_AllowedPeerUIDs config)" "cn_handshake cn = Some tls"
    "bk_Audit config = Some sink" "bk_Clock config = Some clock" "bk_Preflight config = Some preflight"
    "bk_Authority config = Some authority"
    "read_request decode b sink clock preflight authority cn uid tls (w\<lparr>bw_ticks := bw_ticks w + 1\<rparr>) = (Some r, w')"
proof -
  obtain authority sink preflight clock tls' where c: "bk_Authority config = Some authority" "bk_Audit config = Some sink"
      "bk_Preflight config = Some preflight" "bk_Clock config = Some clock" "br_config b = config"
      "br_allowedUIDs b = bk_AllowedPeerUIDs config"
    using assms(1) by (rule New_Inr)
  have silent: "drop_connection sink actor reason v \<noteq> (Some r, w')" for actor reason v
    by (simp add: drop_connection_def)
  show ?thesis
    using run silent
    unfolding serve_decision_def c option.case prod.case Let_def
    by (auto intro: that [OF _ _ _ c(2,4,3,1)] split: option.splits if_splits)
qed

lemma read_request_decides:
  assumes run: "read_request decode b sink clock preflight authority cn uid tls w = (Some r, w')"
    and "rs_Status r = ''authorized''"
  obtains identity payload rest envelope where
    "verifyPeerIdentity (br_trustedIdentities b) tls = Some identity"
    "readFrame (cn_input cn) (bk_MaxRequestBytes (br_config b)) = Some (payload, rest)"
    "strictDecode decode payload = Some envelope" "re_Protocol envelope = Protocol"
    "decide_request b sink clock preflight authority cn identity (re_Request envelope) w = (Some r, w')"
proof -
  have silent: "drop_connection sink actor reason w \<noteq> (Some r, w')" for actor reason by (simp add: drop_connection_def)
  have refused: "refuse sink actor action resource reason ''denied'' w \<noteq> (Some r, w')" for actor action resource reason
    using refuse_not_authorized assms(2) by fastforce
  show ?thesis
    using run silent refused that unfolding read_request_def by (auto split: option.splits if_splits)
qed

section \<open>Properties\<close>

text \<open>
  C9. The broker answers ``authorized'' only to a peer whose user is on the list, whose certificate was
  verified and carries, in its leaf, the listed identity under which the request was made, after
  a frame within the bound with one strictly decoded envelope of the protocol, within the rate,
  on a host that passed the preflight, when the authority issued the attestation that it sends;
  and the last record of the log is the accepted one of this answer.
\<close>

theorem serve_authorized:
  assumes "New config = Inr (b, entries0)" "serve_decision decode b cn w = (Some r, w')" "rs_Status r = ''authorized''"
  shows "\<exists>uid tls identity payload rest envelope clock preflight authority attestation st.
    cn_peerUID cn = Some uid \<and> uid \<in> set (bk_AllowedPeerUIDs config) \<and>
    cn_handshake cn = Some tls \<and> 0 < ts_VerifiedChains tls \<and> Some identity \<in> set (hd (ts_PeerCertificates tls)) \<and>
    identity \<in> set (bk_AllowedSPIFFEIDs config) \<and>
    readFrame (cn_input cn) (bk_MaxRequestBytes config) = Some (payload, rest) \<and>
    strictDecode decode payload = Some envelope \<and> re_Protocol envelope = Protocol \<and>
    rq_CallerSPIFFEID (re_Request envelope) = identity \<and>
    bk_Clock config = Some clock \<and> fst (allow (bk_RateLimit config) identity (clock (bw_ticks w + 1)) (bw_entries w)) \<and>
    bk_Preflight config = Some preflight \<and> preflight (cn_host cn) (cn_cancelled cn) = None \<and>
    bk_Authority config = Some authority \<and> authority (re_Request envelope) (bw_state w) = (Inr attestation, st) \<and>
    rs_Attestation r = Some attestation \<and>
    world_log w' = ls_log st @ [(broker_event identity (rq_Action (re_Request envelope)) ''authorized''
      (rq_CageID (re_Request envelope)) ''authorized'', True)]"
proof -
  obtain uid tls sink clock preflight authority where u: "cn_peerUID cn = Some uid" "uid \<in> set (bk_AllowedPeerUIDs config)"
      "cn_handshake cn = Some tls" "bk_Clock config = Some clock" "bk_Preflight config = Some preflight"
      "bk_Authority config = Some authority"
      "read_request decode b sink clock preflight authority cn uid tls (w\<lparr>bw_ticks := bw_ticks w + 1\<rparr>) = (Some r, w')"
    using assms(1,2) by (rule serve_decision_reads)
  obtain identity payload rest envelope where e: "verifyPeerIdentity (br_trustedIdentities b) tls = Some identity"
      "readFrame (cn_input cn) (bk_MaxRequestBytes (br_config b)) = Some (payload, rest)"
      "strictDecode decode payload = Some envelope" "re_Protocol envelope = Protocol"
      "decide_request b sink clock preflight authority cn identity (re_Request envelope) (w\<lparr>bw_ticks := bw_ticks w + 1\<rparr>) = (Some r, w')"
    using u(7) assms(3) by (rule read_request_decides)
  have b: "br_config b = config" "br_trustedIdentities b = bk_AllowedSPIFFEIDs config"
    using New_Inr [OF assms(1)] by auto
  have i: "0 < ts_VerifiedChains tls" "Some identity \<in> set (hd (ts_PeerCertificates tls))" "identity \<in> set (bk_AllowedSPIFFEIDs config)"
    using e(1) first_trusted_Some b(2) unfolding verifyPeerIdentity_def by (auto split: if_splits)
  from e(5) assms(3) obtain attestation st entries where
      "rq_CallerSPIFFEID (re_Request envelope) = identity"
      "allow (bk_RateLimit (br_config b)) identity (clock (bw_ticks w + 1)) (bw_entries w) = (True, entries)"
      "preflight (cn_host cn) (cn_cancelled cn) = None" "authority (re_Request envelope) (bw_state w) = (Inr attestation, st)"
      "rs_Attestation r = Some attestation"
      "world_log w' = ls_log st @ [(broker_event identity (rq_Action (re_Request envelope)) ''authorized''
        (rq_CageID (re_Request envelope)) ''authorized'', True)]"
    by (rule decide_request_authorized) simp_all
  then show ?thesis
    using u(1-6) e(2-4) i b(1)
    by (intro exI [of _ uid] exI [of _ tls] exI [of _ identity] exI [of _ payload] exI [of _ rest] exI [of _ envelope]
        exI [of _ clock] exI [of _ preflight] exI [of _ authority] exI [of _ attestation] exI [of _ st] conjI) simp_all
qed

definition demo_limit :: RateLimit where "demo_limit = \<lparr>rl_Capacity = 3, rl_RefillInterval = Second\<rparr>"

definition demo_tls :: TLSConfig where
  "demo_tls = \<lparr>tc_MinVersion = VersionTLS13, tc_ClientAuth = RequireAndVerifyClientCert, tc_ClientCAs = True, tc_Certificates = 1\<rparr>"

definition demo_config :: "'l authorizer \<Rightarrow> ('l, bool) broker_Config" where
  "demo_config authority =
     \<lparr>bk_SocketPath = ''/run/brick/broker.sock'', bk_SocketOwnerUID = 0, bk_SocketMode = 0x1B0,
      bk_AllowedPeerUIDs = [1000], bk_AllowedSPIFFEIDs = [''spiffe://brick/broker''],
      bk_TLSConfig = Some demo_tls,
      bk_Authority = Some authority,
      bk_Audit = Some accept_all,
      bk_Preflight = Some (\<lambda>safe cancelled. if safe \<and> \<not> cancelled then None else Some (host_deny ''unsafe'')),
      bk_Clock = Some (\<lambda>_. Some demo_now), bk_RateLimit = demo_limit, bk_MaxRequestBytes = 65536,
      bk_MaxResponseBytes = 16384, bk_RequestTimeout = 5 * Second, bk_MaxConcurrentConnections = 2\<rparr>"

definition demo_broker :: "'l authorizer \<Rightarrow> ('l, bool) broker" where
  "demo_broker authority = \<lparr>br_config = demo_config authority, br_trustedIdentities = [''spiffe://brick/broker''], br_allowedUIDs = [1000]\<rparr>"

definition demo_authorizer :: "nat authorizer" where
  "demo_authorizer = Authorize demo_ed25519 (Some (demo_authority accept_all count_claim))"

definition demo_connection :: "bool connection" where
  "demo_connection =
     \<lparr>cn_peerUID = Some 1000, cn_setDeadline = True,
      cn_handshake = Some \<lparr>ts_VerifiedChains = 1, ts_PeerCertificates = [[None, Some ''spiffe://brick/broker'']]\<rparr>,
      cn_input = be_bytes 4 1 @ ''x'', cn_host = True, cn_cancelled = False, cn_writer = (\<lambda>_ payload. (length payload, True))\<rparr>"

definition demo_decoder :: envelope_decoder where
  "demo_decoder payload =
     (if payload = ''x'' then Some (\<lparr>re_Protocol = Protocol, re_Request = demo_signed\<rparr>, []) else None)"

definition demo_world :: "nat broker_world" where
  "demo_world = \<lparr>bw_state = demo_state 0, bw_entries = (\<lambda>_. None), bw_ticks = 0\<rparr>"

lemma demo_limit_ok: "limit_ok demo_limit"
  by (simp add: limit_ok_def demo_limit_def duration_defs)

lemma demo_New: "New (demo_config authority) = Inr (demo_broker authority, \<lambda>_. None)"
proof -
  have "validSPIFFE ''spiffe://brick/broker''" "path_Clean ''/run/brick/broker.sock'' = ''/run/brick/broker.sock''"
    "path_Base ''/run/brick/broker.sock'' \<noteq> ''.''" "HasPrefix ''/run/brick/broker.sock'' ''/''"
    by code_simp+
  then have "validateConfig (demo_config authority) = None"
    by (subst validateConfig_None [where tls = demo_tls])
      (simp_all add: demo_tls_def demo_config_def config_ok_def bounds_ok_def demo_limit_def duration_defs VersionTLS13_def)
  then show ?thesis by (simp add: New_def demo_broker_def demo_config_def)
qed

lemma demo_now_set: "\<not> time_IsZero demo_now" by code_simp

lemma demo_allow:
  "allow demo_limit ''spiffe://brick/broker'' (Some demo_now) (\<lambda>_. None) =
     (True, [''spiffe://brick/broker'' \<mapsto> \<lparr>bu_tokens = 2, bu_last = demo_now\<rparr>])"
  using allow_still [OF demo_limit_ok, of demo_now "''spiffe://brick/broker''" "\<lambda>_. None" 3]
  by (simp add: bucket_of_def demo_limit_def capacity_f64 [OF demo_limit_ok, unfolded demo_limit_def, simplified] demo_now_UTC
      demo_now_set)

text \<open>The demo connection is served: the authority is asked, and what it says is answered.\<close>

lemma demo_frame: "readFrame (be_bytes 4 1 @ ''x'') 65536 = Some (''x'', [])"
  using readFrame_frame [of "''x''" "[]" 65536] by simp

lemma demo_serve:
  assumes "allow demo_limit ''spiffe://brick/broker'' (Some demo_now) (bw_entries w) = (True, entries)"
    and "authority demo_signed (bw_state w) = (res, st)"
  obtains r w' where "serve_decision demo_decoder (demo_broker authority) demo_connection w = (Some r, w')"
    "rs_Status r = ''authorized'' \<longleftrightarrow> \<not> isl res" "bw_entries w' = entries" "ls_ledger (bw_state w') = ls_ledger st"
proof -
  have caller: "rq_CallerSPIFFEID demo_signed = ''spiffe://brick/broker''"
    by (simp add: demo_signed_def set_request_sig_def demo_request_def)
  have late: "deadline (\<lambda>_. Some demo_now) (5 * Second) t = Some (time_Add (time_UTC demo_now) (5 * Second))" for t
    by (simp add: deadline_def demo_now_set)
  have "serve_decision demo_decoder (demo_broker authority) demo_connection w =
      decide_request (demo_broker authority) accept_all (\<lambda>_. Some demo_now)
        (\<lambda>safe cancelled. if safe \<and> \<not> cancelled then None else Some (host_deny ''unsafe''))
        authority demo_connection ''spiffe://brick/broker'' demo_signed (w\<lparr>bw_ticks := bw_ticks w + 1\<rparr>)"
    by (simp add: serve_decision_def demo_broker_def demo_config_def demo_connection_def read_request_def late
        verifyPeerIdentity_def demo_frame [unfolded One_nat_def] strictDecode_def demo_decoder_def Let_def)
  moreover have "\<exists>r w'. decide_request (demo_broker authority) accept_all (\<lambda>_. Some demo_now)
        (\<lambda>safe cancelled. if safe \<and> \<not> cancelled then None else Some (host_deny ''unsafe''))
        authority demo_connection ''spiffe://brick/broker'' demo_signed (w\<lparr>bw_ticks := bw_ticks w + 1\<rparr>) = (Some r, w') \<and>
      (rs_Status r = ''authorized'' \<longleftrightarrow> \<not> isl res) \<and> bw_entries w' = entries \<and> ls_ledger (bw_state w') = ls_ledger st"
  proof (cases res)
    case (Inl e)
    obtain status code where "authorizationResult e = (status, code)" by (rule prod.exhaust)
    with authorizationResult_status [OF this] show ?thesis
      using assms Inl
      by (auto simp: decide_request_def caller demo_broker_def demo_config_def demo_connection_def Let_def answer_def
          broker_record_def RecordEvent_def accept_all_def)
  next
    case (Inr a)
    with assms show ?thesis
      by (auto simp: decide_request_def caller demo_broker_def demo_config_def demo_connection_def Let_def answer_def
          broker_record_def RecordEvent_def accept_all_def)
  qed
  ultimately show ?thesis by (auto intro: that)
qed

lemma demo_decision:
  obtains r w' where "serve_decision demo_decoder (demo_broker demo_authorizer) demo_connection demo_world = (Some r, w')"
    "rs_Status r = ''authorized''"
proof -
  obtain att st where "demo_authorizer demo_signed (bw_state demo_world) = (Inr att, st)"
    using demo_run_granted unfolding demo_run_def demo_authorizer_def demo_world_def by auto
  moreover have "allow demo_limit ''spiffe://brick/broker'' (Some demo_now) (bw_entries demo_world) =
      (True, [''spiffe://brick/broker'' \<mapsto> \<lparr>bu_tokens = 2, bu_last = demo_now\<rparr>])"
    using demo_allow by (simp add: demo_world_def)
  ultimately obtain r w' where "serve_decision demo_decoder (demo_broker demo_authorizer) demo_connection demo_world = (Some r, w')"
      "rs_Status r = ''authorized'' \<longleftrightarrow> \<not> isl (Inr att :: lifecycle_Attestation go_result)"
    using demo_serve by metis
  then show ?thesis by (simp add: that)
qed

theorem serve_authorized_witness:
  "\<exists>r w'. serve_decision demo_decoder (demo_broker demo_authorizer) demo_connection demo_world = (Some r, w') \<and>
     (\<exists>att. fst demo_run = Inr att \<and> rs_Attestation r = Some att)"
proof -
  obtain r w' where run: "serve_decision demo_decoder (demo_broker demo_authorizer) demo_connection demo_world = (Some r, w')"
      "rs_Status r = ''authorized''"
    by (rule demo_decision)
  have "readFrame (be_bytes 4 1 @ ''x'') 65536 = Some (''x'', [])"
    using readFrame_frame [of "''x''" "[]" 65536] by simp
  with serve_authorized [OF demo_New run] run show ?thesis
    by (auto simp: demo_config_def demo_authorizer_def demo_connection_def strictDecode_def demo_decoder_def demo_world_def demo_run_def)
qed




text \<open>
  C23. A payload written to a connection that takes some bytes at each \<open>Write\<close> arrives as one frame: a
  reader whose bound it keeps reads exactly it and leaves what follows, and one with a smaller bound
  refuses it.
\<close>

theorem writeFrame_readFrame:
  assumes "progressing w" "payload \<noteq> []" "length payload < 2 ^ 32"
  shows "\<exists>out. writeFrame w payload = (True, out) \<and>
    readFrame (out @ rest) limit = (if length payload \<le> unat limit then Some (payload, rest) else None)"
proof -
  obtain k where 1: "writeAll w 0 (be_bytes 4 (length payload)) = (True, be_bytes 4 (length payload), k)"
    using writeAll_progress [OF assms(1)] by blast
  obtain k' where 2: "writeAll w k payload = (True, payload, k')" using writeAll_progress [OF assms(1)] by blast
  have "writeFrame w payload = (True, be_bytes 4 (length payload) @ payload)"
    using assms(2,3) 1 2 by (simp add: writeFrame_def)
  then show ?thesis using readFrame_frame [OF assms(2,3)] by simp
qed

theorem writeFrame_readFrame_witness:
  "\<exists>out. writeFrame (\<lambda>_ payload. (1, True)) ''hi'' = (True, out) \<and> readFrame (out @ ''more'') 2 = Some (''hi'', ''more'') \<and>
     readFrame (out @ ''more'') 1 = None"
proof -
  have "progressing (\<lambda>_ payload. (1, True))" by (simp add: progressing_def)
  from writeFrame_readFrame [OF this, of "''hi''" "''more''" 2] writeFrame_readFrame [OF this, of "''hi''" "''more''" 1]
  show ?thesis by auto
qed

text \<open>
  C24. \<open>writeAll\<close> returns after at most one \<open>Write\<close> for each byte, or one for no progress, and what it
  wrote is a part of the payload from its front, the whole if it reports success, which it does
  when each \<open>Write\<close> takes some bytes.
\<close>

theorem writeAll_returns:
  "\<exists>ok out k'. writeAll w k payload = (ok, out, k') \<and> k' \<le> k + max 1 (length payload) \<and> prefix out payload \<and>
     (ok \<longrightarrow> out = payload) \<and> (progressing w \<longrightarrow> ok)"
proof -
  obtain ok out k' where run: "writeAll w k payload = (ok, out, k')" by (rule prod_cases3)
  then show ?thesis using writeAll_calls [OF run] writeAll_prefix [OF run] writeAll_progress [of w k payload] by auto
qed

theorem writeAll_returns_witness:
  "\<exists>k'. writeAll (\<lambda>_ _. (1, True)) 0 ''hi'' = (True, ''hi'', k') \<and> k' \<le> 2"
  using writeAll_returns [of "\<lambda>_ _. (1, True)" 0 "''hi''"] by (auto simp: progressing_def)

text \<open>
  C22. The limiter gives an identity a burst of exactly the configured capacity: of any number of
  requests in the same instant the first so many are allowed and the rest refused, in float64 as
  in exact arithmetic.
\<close>

theorem allow_burst:
  assumes "New config = Inr (b, entries)" "\<not> time_IsZero now"
  shows "fst (allow_all (bk_RateLimit config) identity (replicate k (Some now)) entries) =
    replicate (min k (nat (rl_Capacity (bk_RateLimit config)))) True @ replicate (k - nat (rl_Capacity (bk_RateLimit config))) False"
proof -
  let ?l = "bk_RateLimit config"
  have l: "limit_ok ?l" by (rule New_bounds [OF assms(1)])
  have "entries = (\<lambda>_. None)" using New_Inr [OF assms(1)] by auto
  moreover have "0 \<le> rl_Capacity ?l" using l by (simp add: limit_ok_def)
  ultimately have "bucket_of ?l identity now entries = \<lparr>bu_tokens = of_nat (nat (rl_Capacity ?l)), bu_last = time_UTC now\<rparr>"
    using capacity_f64 [OF l] by (simp add: bucket_of_def of_nat_nat)
  then show ?thesis using allow_all_still [OF l assms(2)] \<open>0 \<le> rl_Capacity ?l\<close> by simp
qed

theorem allow_burst_witness:
  "fst (allow_all demo_limit ''spiffe://a/b'' (replicate 5 (Some demo_now)) (\<lambda>_. None)) = [True, True, True, False, False]"
  using allow_burst [OF demo_New [of demo_authorizer] demo_now_set, of "''spiffe://a/b''" 5]
  by (simp add: demo_config_def demo_limit_def numeral_eq_Suc)

text \<open>
  Identities do not share their rate: whatever other identities ask in between, an identity gets the
  answers that it would get alone, and no bucket ever holds more than the capacity or less than
  nothing.
\<close>

theorem allow_isolated:
  assumes "New config = Inr (b, entries)"
  shows "answers_of identity calls (fst (allow_calls (bk_RateLimit config) calls entries)) =
    fst (allow_all (bk_RateLimit config) identity (map snd (filter (\<lambda>c. fst c = identity) calls)) entries) \<and>
    (\<forall>other e. snd (allow_calls (bk_RateLimit config) calls entries) other = Some e \<longrightarrow>
      0 \<le> bu_tokens e \<and> bu_tokens e \<le> of_int (rl_Capacity (bk_RateLimit config)))"
proof
  show "answers_of identity calls (fst (allow_calls (bk_RateLimit config) calls entries)) =
      fst (allow_all (bk_RateLimit config) identity (map snd (filter (\<lambda>c. fst c = identity) calls)) entries)"
    by (rule allow_calls_local) (rule refl)
  have "entries_ok (bk_RateLimit config) entries" using New_Inr [OF assms] by (auto simp: entries_ok_def)
  from allow_calls_ok [OF New_bounds(1) [OF assms] this]
  show "\<forall>other e. snd (allow_calls (bk_RateLimit config) calls entries) other = Some e \<longrightarrow>
      0 \<le> bu_tokens e \<and> bu_tokens e \<le> of_int (rl_Capacity (bk_RateLimit config))"
    unfolding entries_ok_def bucket_ok_def by blast
qed

theorem allow_isolated_witness:
  "answers_of ''a'' [(''a'', Some demo_now), (''b'', Some demo_now), (''a'', Some demo_now)]
     (fst (allow_calls demo_limit [(''a'', Some demo_now), (''b'', Some demo_now), (''a'', Some demo_now)] (\<lambda>_. None))) =
   fst (allow_all demo_limit ''a'' [Some demo_now, Some demo_now] (\<lambda>_. None))"
  using allow_isolated [OF demo_New [of demo_authorizer], of "''a''" "[(''a'', Some demo_now), (''b'', Some demo_now), (''a'', Some demo_now)]"]
  by (simp add: demo_config_def)

text \<open>
  C21. When the broker listens, the socket is a socket of the configured owner and mode, closed to
  others, in a directory that is the owner's, not a link and not writable by others. Whatever
  happens nothing else is touched, a file at the path that is not such a socket is left as it is
  and makes the start fail. A failure leaves the path as it was or empty, unless \<open>listen(2)\<close> or the
  removal of the socket by \<open>Close\<close> failed; then it can leave a socket that this run made.
\<close>

theorem listen_secure:
  assumes "listen c env fs = (res, fs')"
  shows "(\<forall>q. q \<noteq> bk_SocketPath c \<longrightarrow> fs' q = fs q) \<and>
    (case res of
       Inr _ \<Rightarrow> (\<exists>info. fs' (bk_SocketPath c) = Some info \<and> socket_secure c info) \<and>
         (\<exists>info. fs (path_Dir (bk_SocketPath c)) = Some info \<and> directory_secure c info)
     | Inl _ \<Rightarrow> fs' = fs \<or> fs' (bk_SocketPath c) = None \<or> socket_left c env fs') \<and>
    (\<forall>old. fs (bk_SocketPath c) = Some old \<and> \<not> socket_secure c old \<longrightarrow> isl res \<and> fs' = fs)"
  using listen_result [OF assms] by (auto simp: socket_result_def split: sum.splits)

definition demo_listen_env :: listen_env where
  "demo_listen_env = \<lparr>li_fault = (\<lambda>_. False), li_umask = 0x12, li_euid = 0\<rparr>"

definition demo_socket_fs :: host_fs where
  "demo_socket_fs = [''/run/brick'' \<mapsto> demo_private_dir]"

theorem listen_secure_witness:
  "\<exists>fs' info. listen (demo_config demo_authorizer) demo_listen_env demo_socket_fs = (Inr (), fs') \<and>
     fs' ''/run/brick/broker.sock'' = Some info \<and> socket_secure (demo_config demo_authorizer) info"
proof -
  have "\<not> isl (fst (listen (demo_config demo_authorizer) demo_listen_env demo_socket_fs))" by code_simp
  then obtain fs' where run: "listen (demo_config demo_authorizer) demo_listen_env demo_socket_fs = (Inr (), fs')"
    by (cases "listen (demo_config demo_authorizer) demo_listen_env demo_socket_fs"; cases "fst (listen (demo_config demo_authorizer) demo_listen_env demo_socket_fs)")
      auto
  from listen_secure [OF run] run show ?thesis by (auto simp: demo_config_def)
qed

end
