(* ===== verification/Broker_Pool.thy ===== *)
theory Broker_Pool
  imports Broker
begin

text \<open>
  The goroutines of the broker at the grain of their accesses to what they share. Each accepted
  connection is a thread: a tree of steps, where a step reads and changes the shared world once and the
  rest of the thread depends on what the world was. The pool runs the threads in any order. The only
  lock between two claims is the advisory lock of the ledger, taken after the clock is read.
\<close>

section \<open>Threads\<close>

text \<open>
  \<open>Step g f\<close> is one access: the world \<open>w\<close> becomes \<open>g w\<close> and the thread goes on as \<open>f w\<close>. \<open>Acquire\<close> waits for
  the exclusive lock and \<open>Release\<close> gives it back.
\<close>

datatype ('w, 'r) thread =
    Return 'r
  | Step "'w \<Rightarrow> 'w" "'w \<Rightarrow> ('w, 'r) thread"
  | Acquire "('w, 'r) thread"
  | Release "('w, 'r) thread"

text \<open>A thread that nobody interferes with.\<close>

primrec run_thread :: "('w, 'r) thread \<Rightarrow> 'w \<Rightarrow> 'r \<times> 'w" where
  "run_thread (Return r) w = (r, w)"
| "run_thread (Step g f) w = run_thread (f w) (g w)"
| "run_thread (Acquire t) w = run_thread t w"
| "run_thread (Release t) w = run_thread t w"

type_synonym world = "ledger_state broker_world"
type_synonym service = "(world, ResponseEnvelope option) thread"

definition world_ledger :: "world \<Rightarrow> ledger_state" where "world_ledger w = ls_ledger (bw_state w)"

definition set_ledger :: "ledger_state \<Rightarrow> world \<Rightarrow> world" where
  "set_ledger st w = w\<lparr>bw_state := (bw_state w)\<lparr>ls_ledger := st\<rparr>\<rparr>"

definition set_files :: "ledger_fs \<Rightarrow> world \<Rightarrow> world" where
  "set_files fs w = set_ledger ((world_ledger w)\<lparr>lg_fs := fs\<rparr>) w"

abbreviation world_files :: "world \<Rightarrow> ledger_fs" where "world_files w \<equiv> lg_fs (world_ledger w)"

section \<open>The ledger\<close>

text \<open>\<open>Claim\<close> under the lock: the file is read, and replaced if the identifier is not held.\<close>

definition claim_critical ::
  "ledger_decoder \<Rightarrow> FileReplayLedger \<Rightarrow> ledger_env \<Rightarrow> gotime \<Rightarrow> string \<Rightarrow> gotime \<Rightarrow> (bool go_result \<Rightarrow> service) \<Rightarrow> service" where
  "claim_critical dec l env now requestID expiresAt k =
     Step (\<lambda>w. w) (\<lambda>w.
       case loadRecords dec l env (world_files w) of
         Inl err \<Rightarrow> Release (k (Inl err))
       | Inr records \<Rightarrow>
           (case scan_active now requestID [] records of
              Inl err \<Rightarrow> Release (k (Inl err))
            | Inr None \<Rightarrow> Release (k (Inr False))
            | Inr (Some active) \<Rightarrow>
                if int (length active) \<ge> fl_maxEntries l
                then Release (k (Inl (ErrLedgerUnavailable ''capacity exhausted'')))
                else let records = sort_key rr_RequestID
                       (active @ [\<lparr>rr_RequestID = requestID, rr_ExpiresAt = time_UTC expiresAt\<rparr>])
                     in Step (\<lambda>w. set_files (snd (storeRecords l env records (world_files w))) w) (\<lambda>w.
                       case fst (storeRecords l env records (world_files w)) of
                         Inl err \<Rightarrow> Release (k (Inl err))
                       | Inr _ \<Rightarrow> Release (k (Inr True)))))"

text \<open>The parent directory and the lock file, on the way to the lock.\<close>

definition claim_enter ::
  "ledger_decoder \<Rightarrow> FileReplayLedger \<Rightarrow> ledger_env \<Rightarrow> gotime \<Rightarrow> string \<Rightarrow> gotime \<Rightarrow> (bool go_result \<Rightarrow> service) \<Rightarrow> service" where
  "claim_enter dec l env now requestID expiresAt k =
     Step (\<lambda>w. w) (\<lambda>w.
       case checkParent l env (world_files w) of
         Inl err \<Rightarrow> k (Inl err)
       | Inr _ \<Rightarrow>
           Step (\<lambda>w. set_files (snd (openOwnedFile l env (fl_path l @ ''.lock'') True True False (world_files w))) w) (\<lambda>w.
             case fst (openOwnedFile l env (fl_path l @ ''.lock'') True True False (world_files w)) of
               Inl err \<Rightarrow> k (Inl err)
             | Inr _ \<Rightarrow>
                 if le_fault env OpFlock then k (Inl (ErrLedgerUnavailable ''unable to acquire lock''))
                 else Acquire (claim_critical dec l env now requestID expiresAt k)))"

text \<open>
  \<open>Claim\<close>. The clock is read first. Between this and the lock other claims may run, so the reading may be
  old when the file is read. The step counts the call also where the code returns before it reads
  the clock; a reading that is not used has no effect.
\<close>

definition claim_thread ::
  "ledger_decoder \<Rightarrow> FileReplayLedger \<Rightarrow> (nat \<Rightarrow> ledger_env) \<Rightarrow> string \<Rightarrow> gotime \<Rightarrow> (bool go_result \<Rightarrow> service) \<Rightarrow> service" where
  "claim_thread dec l envs requestID expiresAt k =
     Step (\<lambda>w. set_ledger ((world_ledger w)\<lparr>lg_calls := lg_calls (world_ledger w) + 1\<rparr>) w) (\<lambda>w.
       let n = lg_calls (world_ledger w) in
       case fl_clock l of
         None \<Rightarrow> k (Inl (ErrLedgerUnavailable ''invalid claim input''))
       | Some clock \<Rightarrow>
           if requestID = [] \<or> time_IsZero expiresAt then k (Inl (ErrLedgerUnavailable ''invalid claim input''))
           else (case clock n of
             None \<Rightarrow> k (Inl (ErrLedgerUnavailable ''clock unavailable or stale claim''))
           | Some now \<Rightarrow>
               if time_IsZero now \<or> \<not> time_After expiresAt (time_UTC now)
               then k (Inl (ErrLedgerUnavailable ''clock unavailable or stale claim''))
               else claim_enter dec l (envs n) now requestID expiresAt k))"

section \<open>The authority\<close>

text \<open>One record in the audit log; the sink's answer decides how the thread goes on.\<close>

definition audit_thread :: "audit_sink \<Rightarrow> audit_event \<Rightarrow> (bool \<Rightarrow> service) \<Rightarrow> service" where
  "audit_thread sink event k =
     Step (\<lambda>w. w\<lparr>bw_state := (bw_state w)\<lparr>ls_log := snd (RecordEvent sink event (ls_log (bw_state w)))\<rparr>\<rparr>)
       (\<lambda>w. k (fst (RecordEvent sink event (ls_log (bw_state w)))))"

definition deny_thread ::
  "audit_sink \<Rightarrow> lifecycle_Request \<Rightarrow> string \<Rightarrow> (lifecycle_Attestation go_result \<Rightarrow> service) \<Rightarrow> service" where
  "deny_thread sink req reason k =
     audit_thread sink
       (mk_event (fallback (rq_CallerSPIFFEID req)) (rq_Action req) ''denied'' (fallback (rq_CageID req)) (auditMetadata req reason))
       (\<lambda>ok. if ok then k (Inl (DecisionError PkgLifecycle reason))
             else k (Inl (ErrUnavailable PkgLifecycle ''audit sink rejected denial'')))"

text \<open>The sequence is an atomic counter.\<close>

definition issue_thread ::
  "ed25519 \<Rightarrow> ledger_state lifecycle_Authority \<Rightarrow> audit_sink \<Rightarrow> lifecycle_Request \<Rightarrow> gotime \<Rightarrow>
   (lifecycle_Attestation go_result \<Rightarrow> service) \<Rightarrow> service" where
  "issue_thread E a sink req now k =
     Step (\<lambda>w. w\<lparr>bw_state := (bw_state w)\<lparr>ls_sequence := ls_sequence (bw_state w) + 1\<rparr>\<rparr>) (\<lambda>w.
       case SignAttestation E (new_attestation a req now (ls_sequence (bw_state w) + 1)) (la_engineKey a) of
         Inl _ \<Rightarrow> k (Inl (ErrUnavailable PkgLifecycle ''unable to sign attestation''))
       | Inr attestation \<Rightarrow>
           audit_thread sink
             (mk_event (rq_CallerSPIFFEID req) (rq_Action req) ''authorized'' (rq_CageID req) (auditMetadata req ''authorized''))
             (\<lambda>ok. if ok then k (Inr attestation)
                   else k (Inl (ErrUnavailable PkgLifecycle ''audit sink rejected authorization''))))"

definition authorize_thread ::
  "ed25519 \<Rightarrow> ledger_state lifecycle_Authority \<Rightarrow> (string \<Rightarrow> gotime \<Rightarrow> (bool go_result \<Rightarrow> service) \<Rightarrow> service) \<Rightarrow>
   lifecycle_Request \<Rightarrow> (lifecycle_Attestation go_result \<Rightarrow> service) \<Rightarrow> service" where
  "authorize_thread E a claim req k =
     (case (la_clock a, la_audit a, la_replay a) of
        (Some clock, Some sink, Some _) \<Rightarrow>
          Step (\<lambda>w. w\<lparr>bw_state := (bw_state w)\<lparr>ls_ticks := ls_ticks (bw_state w) + 1\<rparr>\<rparr>) (\<lambda>w.
            let now = time_UTC (clock (ls_ticks (bw_state w))); reason = validateRequestShape req now in
            if reason \<noteq> [] then deny_thread sink req reason k
            else case map_of (la_trustedCallers a) (rq_CallerSPIFFEID req) of
              None \<Rightarrow> deny_thread sink req ''unknown_caller_identity'' k
            | Some key \<Rightarrow>
                (case base64_DecodeString (rq_Signature req) of
                   None \<Rightarrow> deny_thread sink req ''invalid_signature_encoding'' k
                 | Some signature \<Rightarrow>
                     if length signature \<noteq> SignatureSize then deny_thread sink req ''invalid_signature_encoding'' k
                     else if (case canonicalRequest req of None \<Rightarrow> True
                              | Some payload \<Rightarrow> \<not> ed_verify E key payload signature)
                     then deny_thread sink req ''invalid_request_signature'' k
                     else claim (rq_RequestID req) (rq_ExpiresAt req) (\<lambda>res.
                       case res of
                         Inl _ \<Rightarrow> deny_thread sink req ''replay_ledger_unavailable'' k
                       | Inr claimed \<Rightarrow>
                           if \<not> claimed then deny_thread sink req ''replayed_request'' k
                           else issue_thread E a sink req now k)))
      | _ \<Rightarrow> k (Inl (ErrUnavailable PkgLifecycle ''authority dependency unavailable'')))"

section \<open>A connection\<close>

definition answer_thread ::
  "audit_sink \<Rightarrow> string \<Rightarrow> string \<Rightarrow> string \<Rightarrow> string \<Rightarrow> string \<Rightarrow> ResponseEnvelope \<Rightarrow> service" where
  "answer_thread sink actor action outcome resource reason response =
     audit_thread sink (broker_event actor action outcome resource reason) (\<lambda>ok. Return (if ok then Some response else None))"

definition refuse_thread :: "audit_sink \<Rightarrow> string \<Rightarrow> string \<Rightarrow> string \<Rightarrow> string \<Rightarrow> string \<Rightarrow> service" where
  "refuse_thread sink actor action resource reason status =
     answer_thread sink actor action ''denied'' resource reason
       \<lparr>rs_Protocol = Protocol, rs_Status = status, rs_ReasonCode = reason, rs_Attestation = None\<rparr>"

definition drop_thread :: "audit_sink \<Rightarrow> string \<Rightarrow> string \<Rightarrow> service" where
  "drop_thread sink actor reason =
     audit_thread sink (broker_event actor ''connection'' ''denied'' ''unidentified'' reason) (\<lambda>_. Return None)"

type_synonym authority_thread = "lifecycle_Request \<Rightarrow> (lifecycle_Attestation go_result \<Rightarrow> service) \<Rightarrow> service"

text \<open>The limiter reads the clock before it takes its mutex.\<close>

definition decide_thread ::
  "(ledger_state, 'h) broker \<Rightarrow> audit_sink \<Rightarrow> (nat \<Rightarrow> gotime option) \<Rightarrow> ('h \<Rightarrow> bool \<Rightarrow> go_error option) \<Rightarrow> authority_thread \<Rightarrow>
   'h connection \<Rightarrow> string \<Rightarrow> lifecycle_Request \<Rightarrow> service" where
  "decide_thread b sink clock preflight authority cn identity request =
     (if rq_CallerSPIFFEID request \<noteq> identity
      then refuse_thread sink identity (rq_Action request) (rq_CageID request) ''spiffe_request_identity_mismatch'' ''denied''
      else Step (\<lambda>w. w\<lparr>bw_ticks := bw_ticks w + 1\<rparr>) (\<lambda>w.
        let now = clock (bw_ticks w) in
        Step (\<lambda>w. w\<lparr>bw_entries := snd (allow (bk_RateLimit (br_config b)) identity now (bw_entries w))\<rparr>) (\<lambda>w.
          if \<not> fst (allow (bk_RateLimit (br_config b)) identity now (bw_entries w))
          then refuse_thread sink identity (rq_Action request) (rq_CageID request) ''rate_limit_exhausted'' ''denied''
          else if preflight (cn_host cn) (cn_cancelled cn) \<noteq> None
          then refuse_thread sink identity (rq_Action request) (rq_CageID request) ''host_preflight_unavailable'' ''unavailable''
          else authority request (\<lambda>res.
            case res of
              Inl err \<Rightarrow>
                (case authorizationResult err of
                   (status, code) \<Rightarrow>
                     answer_thread sink identity (rq_Action request) status (rq_CageID request) code
                       \<lparr>rs_Protocol = Protocol, rs_Status = status, rs_ReasonCode = code, rs_Attestation = None\<rparr>)
            | Inr attestation \<Rightarrow>
                answer_thread sink identity (rq_Action request) ''authorized'' (rq_CageID request) ''authorized''
                  \<lparr>rs_Protocol = Protocol, rs_Status = ''authorized'', rs_ReasonCode = [], rs_Attestation = Some attestation\<rparr>))))"

definition read_thread ::
  "envelope_decoder \<Rightarrow> (ledger_state, 'h) broker \<Rightarrow> audit_sink \<Rightarrow> (nat \<Rightarrow> gotime option) \<Rightarrow> ('h \<Rightarrow> bool \<Rightarrow> go_error option) \<Rightarrow>
   authority_thread \<Rightarrow> 'h connection \<Rightarrow> u32 \<Rightarrow> tls_state \<Rightarrow> service" where
  "read_thread decode b sink clock preflight authority cn uid tls =
     (case verifyPeerIdentity (br_trustedIdentities b) tls of
        None \<Rightarrow> drop_thread sink (uid_actor uid) ''untrusted_spiffe_identity''
      | Some identity \<Rightarrow>
          (case readFrame (cn_input cn) (bk_MaxRequestBytes (br_config b)) of
             None \<Rightarrow> refuse_thread sink identity ''connection'' ''unidentified'' ''malformed_or_oversized_frame'' ''denied''
           | Some (payload, _) \<Rightarrow>
               (case strictDecode decode payload of
                  None \<Rightarrow> refuse_thread sink identity ''connection'' ''unidentified'' ''malformed_envelope'' ''denied''
                | Some envelope \<Rightarrow>
                    if re_Protocol envelope \<noteq> Protocol
                    then refuse_thread sink identity ''connection'' ''unidentified'' ''malformed_envelope'' ''denied''
                    else decide_thread b sink clock preflight authority cn identity (re_Request envelope))))"

text \<open>The goroutine of a connection, up to the response that it writes.\<close>

definition serve_thread ::
  "envelope_decoder \<Rightarrow> (ledger_state, 'h) broker \<Rightarrow> authority_thread \<Rightarrow> 'h connection \<Rightarrow> service" where
  "serve_thread decode b authority cn =
     (case (bk_Audit (br_config b), bk_Clock (br_config b), bk_Preflight (br_config b)) of
        (Some sink, Some clock, Some preflight) \<Rightarrow>
          (case cn_peerUID cn of
             None \<Rightarrow> drop_thread sink ''unidentified'' ''peer_credential_unavailable''
           | Some uid \<Rightarrow>
               if uid \<notin> set (br_allowedUIDs b) then drop_thread sink (uid_actor uid) ''unexpected_peer_uid''
               else Step (\<lambda>w. w\<lparr>bw_ticks := bw_ticks w + 1\<rparr>) (\<lambda>w.
                 case deadline clock (bk_RequestTimeout (br_config b)) (bw_ticks w) of
                   None \<Rightarrow> drop_thread sink ''unidentified'' ''clock_unavailable''
                 | Some _ \<Rightarrow>
                     if \<not> cn_setDeadline cn then Return None
                     else case cn_handshake cn of
                       None \<Rightarrow> drop_thread sink (uid_actor uid) ''mutual_tls_failed''
                     | Some tls \<Rightarrow> read_thread decode b sink clock preflight authority cn uid tls))
      | _ \<Rightarrow> Return None)"

section \<open>The pool\<close>

text \<open>
  The state of the accept loop with its goroutines: the threads that hold a slot of the semaphore, the
  connection that holds the lock of the ledger, and the answers. Every flock is on a file of its own
  opening, so the lock excludes the goroutines of one process from each other too.
\<close>

record pool =
  po_open :: bool
  po_accepted :: nat
  po_threads :: "nat \<Rightarrow> service option"
  po_lock :: "nat option"
  po_answers :: "(nat \<times> ResponseEnvelope) list"
  po_world :: world

definition pool_start :: "world \<Rightarrow> pool" where
  "pool_start w = \<lparr>po_open = True, po_accepted = 0, po_threads = (\<lambda>_. None), po_lock = None, po_answers = [], po_world = w\<rparr>"

inductive pool_step ::
  "(ledger_state, 'h) broker \<Rightarrow> audit_sink \<Rightarrow> (nat \<Rightarrow> service) \<Rightarrow> pool \<Rightarrow> pool \<Rightarrow> bool"
  for b sink threads where
  accept: "po_open s \<Longrightarrow> int (card (dom (po_threads s))) < bk_MaxConcurrentConnections (br_config b) \<Longrightarrow>
     pool_step b sink threads s
       (s\<lparr>po_accepted := po_accepted s + 1,
          po_threads := (po_threads s)(po_accepted s \<mapsto> threads (po_accepted s))\<rparr>)"
| full: "po_open s \<Longrightarrow> \<not> int (card (dom (po_threads s))) < bk_MaxConcurrentConnections (br_config b) \<Longrightarrow>
     pool_step b sink threads s
       (s\<lparr>po_accepted := po_accepted s + 1,
          po_world := snd (broker_record sink ''unidentified'' ''connection'' ''denied'' ''unidentified''
            ''connection_capacity_exhausted'' (po_world s))\<rparr>)"
| access: "po_threads s k = Some (Step g f) \<Longrightarrow>
     pool_step b sink threads s
       (s\<lparr>po_threads := (po_threads s)(k \<mapsto> f (po_world s)), po_world := g (po_world s)\<rparr>)"
| lock: "po_threads s k = Some (Acquire t) \<Longrightarrow> po_lock s = None \<Longrightarrow>
     pool_step b sink threads s (s\<lparr>po_threads := (po_threads s)(k \<mapsto> t), po_lock := Some k\<rparr>)"
| unlock: "po_threads s k = Some (Release t) \<Longrightarrow> po_lock s = Some k \<Longrightarrow>
     pool_step b sink threads s (s\<lparr>po_threads := (po_threads s)(k \<mapsto> t), po_lock := None\<rparr>)"
| finish: "po_threads s k = Some (Return resp) \<Longrightarrow>
     pool_step b sink threads s
       (s\<lparr>po_threads := (po_threads s)(k := None),
          po_answers := (case resp of None \<Rightarrow> po_answers s | Some r \<Rightarrow> po_answers s @ [(k, r)])\<rparr>)"
| stop: "po_open s \<Longrightarrow> pool_step b sink threads s (s\<lparr>po_open := False\<rparr>)"

inductive pool_reachable ::
  "(ledger_state, 'h) broker \<Rightarrow> audit_sink \<Rightarrow> (nat \<Rightarrow> service) \<Rightarrow> world \<Rightarrow> pool \<Rightarrow> bool"
  for b sink threads w0 where
  start: "pool_reachable b sink threads w0 (pool_start w0)"
| step: "pool_reachable b sink threads w0 s \<Longrightarrow> pool_step b sink threads s s' \<Longrightarrow>
     pool_reachable b sink threads w0 s'"

inductive_cases pool_step_cases: "pool_step b sink threads s s'"

section \<open>A connection that runs alone\<close>

lemma set_ledger_simps [simp]:
  "world_ledger (set_ledger st w) = st" "set_ledger st (set_ledger st' w) = set_ledger st w" "set_ledger (world_ledger w) w = w"
  "bw_state (set_ledger st w) = (bw_state w)\<lparr>ls_ledger := st\<rparr>"
  "bw_entries (set_ledger st w) = bw_entries w" "bw_ticks (set_ledger st w) = bw_ticks w"
  by (simp_all add: world_ledger_def set_ledger_def)

lemma ledger_update:
  "st\<lparr>lg_calls := c\<rparr> = \<lparr>lg_fs = lg_fs st, lg_calls = c\<rparr>" "st\<lparr>lg_fs := fs\<rparr> = \<lparr>lg_fs = fs, lg_calls = lg_calls st\<rparr>"
  by simp_all

lemma run_claim_thread:
  "run_thread (claim_thread dec l envs i e k) w =
     (case Claim dec l envs i e (world_ledger w) of (res, st) \<Rightarrow> run_thread (k res) (set_ledger st w))"
  by (simp add: claim_thread_def claim_enter_def claim_critical_def Claim_def claim_file_def claim_locked_def set_files_def ledger_update Let_def split_beta
      split: option.split sum.split)

lemma run_audit_thread:
  "run_thread (audit_thread sink event k) w =
     (case RecordEvent sink event (ls_log (bw_state w)) of
        (ok, events) \<Rightarrow> run_thread (k ok) (w\<lparr>bw_state := (bw_state w)\<lparr>ls_log := events\<rparr>\<rparr>))"
  by (simp add: audit_thread_def split_beta)

lemma run_deny_thread:
  "run_thread (deny_thread sink req reason k) w =
     (case lifecycle_deny sink req reason (bw_state w) of (res, st) \<Rightarrow> run_thread (k res) (w\<lparr>bw_state := st\<rparr>))"
  by (simp add: deny_thread_def run_audit_thread lifecycle_deny_def split_beta)

lemma run_issue_thread:
  "run_thread (issue_thread E a sink req now k) w =
     (case issue_attestation E a sink req now (bw_state w) of (res, st) \<Rightarrow> run_thread (k res) (w\<lparr>bw_state := st\<rparr>))"
  by (simp add: issue_thread_def run_audit_thread issue_attestation_def Let_def split_beta split: sum.split)

lemma run_authorize_thread:
  assumes "la_replay a = Some (Claim dec l envs)"
  shows "run_thread (authorize_thread E a (claim_thread dec l envs) req k) w =
     (case Authorize E (Some a) req (bw_state w) of (res, st) \<Rightarrow> run_thread (k res) (w\<lparr>bw_state := st\<rparr>))"
  by (simp add: authorize_thread_def Authorize_def authorize_with_def assms run_claim_thread run_deny_thread run_issue_thread
      Let_def split_beta world_ledger_def set_ledger_def split: option.split sum.split)

lemma run_answer_thread:
  "run_thread (answer_thread sink actor action outcome resource reason response) w =
     answer sink actor action outcome resource reason response w"
  "run_thread (refuse_thread sink actor action resource reason status) w = refuse sink actor action resource reason status w"
  "run_thread (drop_thread sink actor reason) w = drop_connection sink actor reason w"
  by (simp_all add: answer_thread_def refuse_thread_def drop_thread_def run_audit_thread answer_def refuse_def
      drop_connection_def broker_record_def split_beta)

lemma ticks_entries: "w\<lparr>bw_ticks := t, bw_entries := e\<rparr> = w\<lparr>bw_entries := e, bw_ticks := t\<rparr>"
  by simp

lemma run_decide_thread:
  assumes "\<And>req k w. run_thread (thread req k) w = (case authority req (bw_state w) of (res, st) \<Rightarrow> run_thread (k res) (w\<lparr>bw_state := st\<rparr>))"
  shows "run_thread (decide_thread b sink clock preflight thread cn identity req) w =
    decide_request b sink clock preflight authority cn identity req w"
  by (simp add: decide_thread_def decide_request_def run_answer_thread assms Let_def split_beta ticks_entries split: sum.split)

lemma run_read_thread:
  assumes "\<And>req k w. run_thread (thread req k) w = (case authority req (bw_state w) of (res, st) \<Rightarrow> run_thread (k res) (w\<lparr>bw_state := st\<rparr>))"
  shows "run_thread (read_thread decode b sink clock preflight thread cn uid tls) w =
    read_request decode b sink clock preflight authority cn uid tls w"
  by (simp add: read_thread_def read_request_def run_answer_thread run_decide_thread [OF assms] split: option.split)

text \<open>A thread that runs alone is the connection served in one step.\<close>

theorem run_serve_thread:
  assumes "la_replay a = Some (Claim dec l envs)" "bk_Authority (br_config b) = Some (Authorize E (Some a))"
  shows "run_thread (serve_thread decode b (authorize_thread E a (claim_thread dec l envs)) cn) w = serve_decision decode b cn w"
  using run_authorize_thread [OF assms(1), of E]
  by (simp add: serve_thread_def serve_decision_def run_answer_thread run_read_thread [where authority = "Authorize E (Some a)"]
      assms(2) Let_def split: option.split)

text \<open>The request in the frame of a connection, as the broker decodes it.\<close>

definition request_of :: "envelope_decoder \<Rightarrow> ('l, 'h) broker \<Rightarrow> 'h connection \<Rightarrow> lifecycle_Request option" where
  "request_of decode b cn =
     (case readFrame (cn_input cn) (bk_MaxRequestBytes (br_config b)) of
        None \<Rightarrow> None
      | Some (payload, _) \<Rightarrow> map_option re_Request (strictDecode decode payload))"

section \<open>The protocol of a thread\<close>

text \<open>
  Where a thread stands with its claim, and what it may do next. A thread is idle before its claim and after a
  refused one; \<open>Timed\<close> has read the clock, \<open>Locked\<close> holds the lock, \<open>Loaded\<close> has read the file under it and found
  the identifier unheld, \<open>Leaving\<close> has only to unlock, \<open>Granted\<close> has been granted its claim.
\<close>

datatype phase = Idle | Timed gotime | Locked gotime | Loaded gotime "replayRecord list" | Leaving bool | Granted

definition holding :: "phase \<Rightarrow> bool" where
  "holding p \<longleftrightarrow> (case p of Locked _ \<Rightarrow> True | Loaded _ _ \<Rightarrow> True | Leaving _ \<Rightarrow> True | _ \<Rightarrow> False)"

definition granted :: "phase \<Rightarrow> bool" where
  "granted p \<longleftrightarrow> p = Granted \<or> p = Leaving True"

definition unheld :: "gotime \<Rightarrow> string \<Rightarrow> replayRecord list \<Rightarrow> bool" where
  "unheld now i rs \<longleftrightarrow> (\<forall>r\<in>set rs. t_ns now < t_ns (rr_ExpiresAt r) \<longrightarrow> rr_RequestID r \<noteq> i)"

definition lives_until :: "gotime \<Rightarrow> ResponseEnvelope \<Rightarrow> bool" where
  "lives_until e r \<longleftrightarrow> (\<exists>att. rs_Attestation r = Some att \<and> t_ns (at_ExpiresAt att) \<le> t_ns e)"

inductive follows :: "FileReplayLedger \<Rightarrow> string \<Rightarrow> gotime \<Rightarrow> phase \<Rightarrow> service \<Rightarrow> bool" for l i e where
  refused: "\<forall>r. resp = Some r \<longrightarrow> rs_Status r \<noteq> ''authorized'' \<Longrightarrow> follows l i e Idle (Return resp)"
| answered: "\<forall>r. resp = Some r \<and> rs_Status r = ''authorized'' \<longrightarrow> lives_until e r \<Longrightarrow> follows l i e Granted (Return resp)"
| aside: "p = Idle \<or> p = Granted \<Longrightarrow> \<forall>w. world_ledger (g w) = world_ledger w \<Longrightarrow> \<forall>w. follows l i e p (f w) \<Longrightarrow>
    follows l i e p (Step g f)"
| reads: "\<forall>w. world_ledger (g w) = (world_ledger w)\<lparr>lg_calls := lg_calls (world_ledger w) + 1\<rparr> \<Longrightarrow>
    \<forall>w. follows l i e Idle (f w) \<or>
      (\<exists>clock now. fl_clock l = Some clock \<and> clock (lg_calls (world_ledger w)) = Some now \<and> t_ns now < t_ns e \<and>
         follows l i e (Timed now) (f w)) \<Longrightarrow>
    follows l i e Idle (Step g f)"
| opens: "\<forall>w. lg_calls (world_ledger (g w)) = lg_calls (world_ledger w) \<and> world_files (g w) (fl_path l) = world_files w (fl_path l) \<Longrightarrow>
    \<forall>w. follows l i e Idle (f w) \<or> follows l i e (Timed now) (f w) \<Longrightarrow> follows l i e (Timed now) (Step g f)"
| locks: "follows l i e (Locked now) t \<Longrightarrow> follows l i e (Timed now) (Acquire t)"
| loads: "\<forall>w. world_ledger (g w) = world_ledger w \<Longrightarrow>
    \<forall>w. follows l i e (Leaving False) (f w) \<or>
      (\<exists>rs. (\<forall>rs'. holds l (world_files w) rs' \<longrightarrow> rs' = rs \<and> unheld now i rs) \<and> follows l i e (Loaded now rs) (f w)) \<Longrightarrow>
    follows l i e (Locked now) (Step g f)"
| stores: "\<forall>w. lg_calls (world_ledger (g w)) = lg_calls (world_ledger w) \<Longrightarrow>
    \<forall>w. holds l (world_files w) rs \<longrightarrow>
      follows l i e (Leaving False) (f w) \<and> world_files (g w) (fl_path l) = world_files w (fl_path l) \<or>
      (\<exists>b. follows l i e (Leaving b) (f w) \<and> holds l (world_files (g w)) (next_records now i e rs)) \<Longrightarrow>
    follows l i e (Loaded now rs) (Step g f)"
| unlocks: "follows l i e (if b then Granted else Idle) t \<Longrightarrow> follows l i e (Leaving b) (Release t)"

inductive_cases follows_Return: "follows l i e p (Return resp)"
inductive_cases follows_Step: "follows l i e p (Step g f)"
inductive_cases follows_Acquire: "follows l i e p (Acquire t)"
inductive_cases follows_Release: "follows l i e p (Release t)"

lemma set_files_simps [simp]:
  "lg_calls (world_ledger (set_files fs w)) = lg_calls (world_ledger w)" "world_files (set_files fs w) = fs"
  by (simp_all add: set_files_def)

text \<open>The claim follows the protocol, if what comes after it does.\<close>

lemma load_follows:
  assumes "ledger_decoder_ok dec" "loadRecords dec l env fs = Inr rs" "scan_active now i [] rs = Inr (Some active)"
  shows "holds l fs rs' \<longrightarrow> rs' = rs \<and> unheld now i rs" "active = filter (\<lambda>r. t_ns now < t_ns (rr_ExpiresAt r)) rs"
  using loadRecords_holds [OF assms(1) _ assms(2)] scan_active_Some [OF assms(3)] by (auto simp: unheld_def)

lemma store_follows:
  assumes "holds l fs rs" "requestIDPattern i" "temp_path l env \<noteq> fl_path l"
    and "storeRecords l env (next_records now i e rs) fs = (res, fs')"
  obtains "fs' (fl_path l) = fs (fl_path l)" "res \<noteq> Inr ()" | "holds l fs' (next_records now i e rs)"
  using assms(4,3)
proof (cases rule: storeRecords_file)
  case (replaced nd)
  have "list_all record_ok (next_records now i e rs)"
    using assms(1,2) replaced(2) by (auto simp: next_records_def holds_def record_ok_def list_all_iff)
  then show ?thesis using that(2) replaced(1) by (simp add: holds_def)
qed (use that in blast)

lemma store_step_follows:
  assumes "requestIDPattern i" "temp_path l env \<noteq> fl_path l"
    and "\<And>err. follows l i e Idle (k (Inl err))" "follows l i e Granted (k (Inr True))"
  shows "follows l i e (Loaded now rs)
    (Step (\<lambda>w. set_files (snd (storeRecords l env (next_records now i e rs) (world_files w))) w)
       (\<lambda>w. case fst (storeRecords l env (next_records now i e rs) (world_files w)) of
          Inl err \<Rightarrow> Release (k (Inl err)) | Inr _ \<Rightarrow> Release (k (Inr True))))"
proof (rule stores, goal_cases)
  case 2
  show ?case
  proof (intro allI impI)
    fix w assume h: "holds l (world_files w) rs"
    obtain res fs' where st: "storeRecords l env (next_records now i e rs) (world_files w) = (res, fs')" by (rule prod.exhaust)
    have leave: "follows l i e (Leaving (res = Inr ())) (case res of Inl err \<Rightarrow> Release (k (Inl err)) | Inr _ \<Rightarrow> Release (k (Inr True)))"
      using assms(3,4) by (auto intro!: unlocks split: sum.split)
    from h assms(1,2) st show "follows l i e (Leaving False)
           (case fst (storeRecords l env (next_records now i e rs) (world_files w)) of
            Inl err \<Rightarrow> Release (k (Inl err)) | Inr _ \<Rightarrow> Release (k (Inr True))) \<and>
          world_files (set_files (snd (storeRecords l env (next_records now i e rs) (world_files w))) w) (fl_path l) =
          world_files w (fl_path l) \<or>
          (\<exists>b. follows l i e (Leaving b)
             (case fst (storeRecords l env (next_records now i e rs) (world_files w)) of
              Inl err \<Rightarrow> Release (k (Inl err)) | Inr _ \<Rightarrow> Release (k (Inr True))) \<and>
             holds l (world_files (set_files (snd (storeRecords l env (next_records now i e rs) (world_files w))) w))
              (next_records now i e rs))"
    proof (cases rule: store_follows)
      case 1
      then show ?thesis using leave st by simp
    next
      case 2
      then show ?thesis using leave st by auto
    qed
  qed
qed simp

lemma leave_follows: "follows l i e Idle t \<Longrightarrow> follows l i e (Leaving False) (Release t)"
  by (rule unlocks) simp

lemma claim_critical_follows:
  assumes "ledger_decoder_ok dec" "temp_path l env \<noteq> fl_path l" "requestIDPattern i"
    and "\<And>err. follows l i e Idle (k (Inl err))" "follows l i e Idle (k (Inr False))" "follows l i e Granted (k (Inr True))"
  shows "follows l i e (Locked now) (claim_critical dec l env now i e k)"
  unfolding claim_critical_def
proof ((rule loads; intro allI), goal_cases)
  case (2 w)
  note leave = leave_follows [OF assms(4)] leave_follows [OF assms(5)]
  show ?case
  proof (cases "loadRecords dec l env (world_files w)")
    case (Inl err)
    then show ?thesis using leave(1) by simp
  next
    case load: (Inr rs)
    show ?thesis
    proof (cases "scan_active now i [] rs")
      case (Inl err)
      then show ?thesis using leave(1) load by simp
    next
      case scan: (Inr found)
      show ?thesis
      proof (cases found)
        case None
        then show ?thesis using leave(2) load scan by simp
      next
        case (Some active)
        note f = load_follows [OF assms(1) load scan [unfolded Some]]
        from store_step_follows [OF assms(3,2,4,6), of now rs] f(1)
        show ?thesis using leave(1) load scan Some
          by (auto simp: f(2) next_records_def Let_def)
      qed
    qed
  qed
qed simp

lemma open_lock_other: "snd (openOwnedFile l env (fl_path l @ ''.lock'') write create excl fs) (fl_path l) = fs (fl_path l)"
  by (rule openOwnedFile_other [OF prod.collapse [symmetric]]) simp

lemma claim_enter_follows:
  assumes "\<And>err. follows l i e Idle (k (Inl err))" "follows l i e (Locked now) (claim_critical dec l env now i e k)"
  shows "follows l i e (Timed now) (claim_enter dec l env now i e k)"
  unfolding claim_enter_def
proof ((rule opens; intro allI), goal_cases)
  case (2 w)
  have "follows l i e (Timed now) (Acquire (claim_critical dec l env now i e k))" using assms(2) by (rule locks)
  then show ?case
    using assms(1)
    by (auto intro!: opens simp: open_lock_other split: sum.split)
qed simp

lemma claim_follows:
  assumes "ledger_decoder_ok dec" "\<And>n. temp_path l (envs n) \<noteq> fl_path l" "requestIDPattern i"
    and "\<And>err. follows l i e Idle (k (Inl err))" "follows l i e Idle (k (Inr False))" "follows l i e Granted (k (Inr True))"
  shows "follows l i e Idle (claim_thread dec l envs i e k)"
  unfolding claim_thread_def
proof ((rule reads; intro allI), goal_cases)
  case (2 w)
  show ?case
    using assms(4) claim_enter_follows [OF assms(4) claim_critical_follows [OF assms(1) assms(2) assms(3-6)]]
    by (auto simp: Let_def time_After_def split: option.split)
qed simp

text \<open>So does a connection, with the identifier and the expiry of its request.\<close>

lemma audit_follows:
  assumes "p = Idle \<or> p = Granted" "\<And>ok. follows l i e p (k ok)"
  shows "follows l i e p (audit_thread sink event k)"
  unfolding audit_thread_def using assms by (intro aside) (auto simp: world_ledger_def)

lemma deny_follows:
  assumes "\<And>err. follows l i e Idle (k (Inl err))"
  shows "follows l i e Idle (deny_thread sink req reason k)"
  unfolding deny_thread_def using assms by (intro audit_follows) simp_all

lemma issue_follows:
  assumes "\<And>err. follows l i e Granted (k (Inl err))"
    and "\<And>att. t_ns (at_ExpiresAt att) \<le> t_ns (rq_ExpiresAt req) \<Longrightarrow> follows l i e Granted (k (Inr att))"
  shows "follows l i e Granted (issue_thread E a sink req now k)"
  unfolding issue_thread_def
proof (intro aside allI, goal_cases)
  case (3 w)
  show ?case
  proof (cases "SignAttestation E (new_attestation a req now (ls_sequence (bw_state w) + 1)) (la_engineKey a)")
    case (Inl err)
    then show ?thesis using assms(1) by simp
  next
    case (Inr att)
    have "t_ns (at_ExpiresAt att) \<le> t_ns (rq_ExpiresAt req)"
      using SignAttestation_fields [OF Inr] new_attestation_times(1) by auto
    then have "follows l i e Granted (k (Inr att))" by (rule assms(2))
    then show ?thesis using assms(1) by (simp add: Inr audit_follows)
  qed
qed (simp_all add: world_ledger_def)

lemma shape_requestID: "validateRequestShape req now = [] \<Longrightarrow> requestIDPattern (rq_RequestID req)"
  by (auto simp: validateRequestShape_iff validIdentity_def)

lemma authorize_follows:
  assumes "i = rq_RequestID req" "e = rq_ExpiresAt req"
    and claim: "\<And>k. requestIDPattern i \<Longrightarrow> (\<And>err. follows l i e Idle (k (Inl err))) \<Longrightarrow> follows l i e Idle (k (Inr False)) \<Longrightarrow>
      follows l i e Granted (k (Inr True)) \<Longrightarrow> follows l i e Idle (claim i e k)"
    and k: "\<And>err. follows l i e Idle (k (Inl err))" "\<And>err. follows l i e Granted (k (Inl err))"
      "\<And>att. t_ns (at_ExpiresAt att) \<le> t_ns e \<Longrightarrow> follows l i e Granted (k (Inr att))"
  shows "follows l i e Idle (authorize_thread E a claim req k)"
proof (cases "\<exists>clock sink claim. la_clock a = Some clock \<and> la_audit a = Some sink \<and> la_replay a = Some claim")
  case False
  then show ?thesis using k(1) unfolding authorize_thread_def by (auto split: option.split)
next
  case True
  then obtain clock sink c0 where c: "la_clock a = Some clock" "la_audit a = Some sink" "la_replay a = Some c0" by blast
  note deny = deny_follows [where k = k, OF k(1)]
  have claimed: "follows l i e Idle (claim i e (\<lambda>res. case res of
        Inl _ \<Rightarrow> deny_thread sink req ''replay_ledger_unavailable'' k
      | Inr claimed \<Rightarrow> if \<not> claimed then deny_thread sink req ''replayed_request'' k else issue_thread E a sink req now k))"
    if "validateRequestShape req now = []" for now
    using claim shape_requestID [OF that] deny issue_follows [OF k(2,3)] assms(1,2) by simp
  show ?thesis
    unfolding authorize_thread_def c option.case prod.case
  proof (intro aside allI, goal_cases)
    case (3 w)
    show ?case using claimed deny assms(1,2) by (auto simp: Let_def split: option.split)
  qed (simp_all add: world_ledger_def)
qed

lemma answer_follows:
  "status \<noteq> ''authorized'' \<Longrightarrow> p = Idle \<or> p = Granted \<Longrightarrow>
    follows l i e p (answer_thread sink actor action outcome resource reason
      \<lparr>rs_Protocol = Protocol, rs_Status = status, rs_ReasonCode = code, rs_Attestation = None\<rparr>)"
  "t_ns (at_ExpiresAt att) \<le> t_ns e \<Longrightarrow>
    follows l i e Granted (answer_thread sink actor action outcome resource reason
      \<lparr>rs_Protocol = Protocol, rs_Status = status, rs_ReasonCode = code, rs_Attestation = Some att\<rparr>)"
  "status \<noteq> ''authorized'' \<Longrightarrow> follows l i e Idle (refuse_thread sink actor action resource reason status)"
  "follows l i e Idle (drop_thread sink actor reason)"
  unfolding answer_thread_def refuse_thread_def drop_thread_def
  by (auto intro!: audit_follows refused answered simp: lives_until_def split: if_splits)

lemma decide_follows:
  assumes "\<And>k. (\<And>err. follows l i e Idle (k (Inl err))) \<Longrightarrow> (\<And>err. follows l i e Granted (k (Inl err))) \<Longrightarrow>
      (\<And>att. t_ns (at_ExpiresAt att) \<le> t_ns e \<Longrightarrow> follows l i e Granted (k (Inr att))) \<Longrightarrow> follows l i e Idle (authority request k)"
  shows "follows l i e Idle (decide_thread b sink clock preflight authority cn identity request)"
proof -
  have err: "follows l i e p (case authorizationResult err of (status, code) \<Rightarrow>
      answer_thread sink actor (rq_Action request) status (rq_CageID request) code
        \<lparr>rs_Protocol = Protocol, rs_Status = status, rs_ReasonCode = code, rs_Attestation = None\<rparr>)"
    if "p = Idle \<or> p = Granted" for err p actor
  proof (cases "authorizationResult err")
    case (Pair status code)
    then have "status \<noteq> ''authorized''" using authorizationResult_status by fastforce
    then show ?thesis using answer_follows(1) that Pair by simp
  qed
  show ?thesis
    unfolding decide_thread_def Let_def
    by (auto intro!: aside assms answer_follows(2,3) err simp: world_ledger_def)
qed

lemma serve_follows:
  assumes "\<And>q. request_of decode b cn = Some q \<Longrightarrow> i = rq_RequestID q \<and> e = rq_ExpiresAt q"
    and "\<And>q k. i = rq_RequestID q \<Longrightarrow> e = rq_ExpiresAt q \<Longrightarrow>
      (\<And>err. follows l i e Idle (k (Inl err))) \<Longrightarrow> (\<And>err. follows l i e Granted (k (Inl err))) \<Longrightarrow>
      (\<And>att. t_ns (at_ExpiresAt att) \<le> t_ns e \<Longrightarrow> follows l i e Granted (k (Inr att))) \<Longrightarrow> follows l i e Idle (authority q k)"
  shows "follows l i e Idle (serve_thread decode b authority cn)"
proof -
  have read: "follows l i e Idle (read_thread decode b sink clock preflight authority cn uid tls)" for sink clock preflight uid tls
    unfolding read_thread_def
    using assms(1) by (auto intro!: answer_follows(3,4) decide_follows assms(2) simp: request_of_def split: option.split)
  show ?thesis
    unfolding serve_thread_def
    by (auto intro!: aside read answer_follows(4) refused simp: world_ledger_def split: option.split)
qed

section \<open>The invariant of the pool\<close>

text \<open>The clock of the ledger has been read at \<open>x\<close> or later.\<close>

definition passed :: "FileReplayLedger \<Rightarrow> ledger_state \<Rightarrow> int \<Rightarrow> bool" where
  "passed l st x \<longleftrightarrow>
     (\<exists>clock n t. fl_clock l = Some clock \<and> n < lg_calls st \<and> clock n = Some t \<and> x \<le> t_ns t)"

definition on_record :: "FileReplayLedger \<Rightarrow> ledger_state \<Rightarrow> string \<Rightarrow> int \<Rightarrow> bool" where
  "on_record l st i x \<longleftrightarrow>
     (\<exists>rs. holds l (lg_fs st) rs \<and> (\<exists>r\<in>set rs. rr_RequestID r = i \<and> t_ns (rr_ExpiresAt r) = x)) \<or> passed l st x"

definition timed :: "FileReplayLedger \<Rightarrow> ledger_state \<Rightarrow> gotime \<Rightarrow> bool" where
  "timed l st now \<longleftrightarrow> (\<exists>clock n. fl_clock l = Some clock \<and> n < lg_calls st \<and> clock n = Some now)"

definition phase_inv :: "FileReplayLedger \<Rightarrow> string \<Rightarrow> gotime \<Rightarrow> phase \<Rightarrow> ledger_state \<Rightarrow> bool" where
  "phase_inv l i e p st \<longleftrightarrow>
     (case p of
        Idle \<Rightarrow> True
      | Timed now \<Rightarrow> timed l st now
      | Locked now \<Rightarrow> timed l st now
      | Loaded now rs \<Rightarrow> timed l st now \<and> holds l (lg_fs st) rs \<and> unheld now i rs
      | Leaving b \<Rightarrow> b \<longrightarrow> on_record l st i (t_ns e)
      | Granted \<Rightarrow> on_record l st i (t_ns e))"

text \<open>What a step of one thread may do to the ledger, as the others see it.\<close>

definition later :: "FileReplayLedger \<Rightarrow> ledger_state \<Rightarrow> ledger_state \<Rightarrow> bool" where
  "later l st st' \<longleftrightarrow> lg_calls st \<le> lg_calls st' \<and> (ledger_wf l st \<longrightarrow> ledger_wf l st') \<and>
     (\<forall>i x. on_record l st i x \<longrightarrow> on_record l st' i x)"

lemma later_refl: "later l st st" by (simp add: later_def)

lemma passed_mono: "passed l st x \<Longrightarrow> lg_calls st \<le> lg_calls st' \<Longrightarrow> passed l st' x"
  unfolding passed_def by (meson less_le_trans)

lemma timed_mono: "timed l st now \<Longrightarrow> lg_calls st \<le> lg_calls st' \<Longrightarrow> timed l st' now"
  unfolding timed_def by (meson less_le_trans)

lemma later_same_file:
  assumes "lg_calls st \<le> lg_calls st'" "lg_fs st' (fl_path l) = lg_fs st (fl_path l)"
  shows "later l st st'"
  unfolding later_def on_record_def ledger_wf_def
  using assms(1) passed_mono holds_unchanged [where fs = "lg_fs st" and fs' = "lg_fs st'", OF _ assms(2)] by blast

lemma later_stored:
  assumes "ledger_decoder_ok dec" "lg_calls st' = lg_calls st" "timed l st now"
    and "holds l (lg_fs st) rs" "holds l (lg_fs st') (next_records now i e rs)"
  shows "later l st st'"
proof -
  have "on_record l st' j x" if "on_record l st j x" for j x
  proof (cases "passed l st x")
    case True
    then show ?thesis using passed_mono assms(2) by (simp add: on_record_def)
  next
    case False
    then obtain r where r: "r \<in> set rs" "rr_RequestID r = j" "t_ns (rr_ExpiresAt r) = x"
      using \<open>on_record l st j x\<close> holds_unique [OF assms(1) assms(4)] by (auto simp: on_record_def)
    then have "r \<in> set (next_records now i e rs)"
      using False assms(3) by (force simp: next_records_set passed_def timed_def)
    then show ?thesis using r assms(5) unfolding on_record_def by blast
  qed
  then show ?thesis using assms(2,5) by (auto simp: later_def ledger_wf_def)
qed

lemma phase_inv_later:
  assumes "phase_inv l i e p st" "later l st st'" "holding p \<Longrightarrow> lg_fs st' (fl_path l) = lg_fs st (fl_path l)"
  shows "phase_inv l i e p st'"
  using assms timed_mono holds_unchanged
  by (cases p) (auto simp: phase_inv_def later_def holding_def)

text \<open>
  One access of a thread: it goes on with the protocol, changes the ledger file only while it holds the
  lock, and is granted a claim only if the file did not hold the identifier.
\<close>

lemma access_follows:
  assumes "follows l i e p (Step g f)" "phase_inv l i e p (world_ledger w)" "ledger_decoder_ok dec"
    and "ledger_wf l (world_ledger w)"
  obtains p' where "follows l i e p' (f w)" "phase_inv l i e p' (world_ledger (g w))" "holding p' = holding p"
    "later l (world_ledger w) (world_ledger (g w))"
    "\<not> holding p \<Longrightarrow> world_files (g w) (fl_path l) = world_files w (fl_path l)"
    "granted p' \<Longrightarrow> granted p \<or> (\<forall>x. on_record l (world_ledger w) i x \<longrightarrow> passed l (world_ledger w) x)"
  using assms(1)
proof (cases rule: follows.cases)
  case aside
  then have "world_ledger (g w) = world_ledger w" "follows l i e p (f w)" by blast+
  then show ?thesis using assms(2) by (intro that [of p]) (auto simp: later_refl)
next
  case reads
  have l: "world_ledger (g w) = (world_ledger w)\<lparr>lg_calls := lg_calls (world_ledger w) + 1\<rparr>" using reads(2) by blast
  then have later: "later l (world_ledger w) (world_ledger (g w))" by (intro later_same_file) simp_all
  from reads(3) consider (idle) "follows l i e Idle (f w)"
    | (timed) clock now where "fl_clock l = Some clock" "clock (lg_calls (world_ledger w)) = Some now" "follows l i e (Timed now) (f w)"
    by blast
  then show ?thesis
  proof cases
    case idle
    then show ?thesis using later by (intro that [of Idle]) (auto simp: l reads(1) phase_inv_def granted_def)
  next
    case timed
    then have "timed l (world_ledger (g w)) now" unfolding timed_def l by (auto intro!: exI [of _ "lg_calls (world_ledger w)"])
    then show ?thesis using timed(3) later
      by (intro that [of "Timed now"]) (auto simp: l reads(1) phase_inv_def holding_def granted_def)
  qed
next
  case (opens now)
  have l: "lg_calls (world_ledger (g w)) = lg_calls (world_ledger w)" "world_files (g w) (fl_path l) = world_files w (fl_path l)"
    using opens(2) by blast+
  then have later: "later l (world_ledger w) (world_ledger (g w))" by (intro later_same_file) simp_all
  have "timed l (world_ledger (g w)) now" using assms(2) l(1) timed_mono by (simp add: opens(1) phase_inv_def)
  with opens(3) [rule_format, of w] l later show ?thesis
    using that [of Idle] that [of "Timed now"] by (auto simp: opens(1) phase_inv_def holding_def granted_def)
next
  case (loads now)
  have l: "world_ledger (g w) = world_ledger w" using loads(2) by blast
  obtain rs0 where rs0: "holds l (world_files w) rs0" using assms(4) by (auto simp: ledger_wf_def)
  from loads(3) consider (leave) "follows l i e (Leaving False) (f w)"
    | (loaded) rs where "follows l i e (Loaded now rs) (f w)" "rs0 = rs" "unheld now i rs"
    using rs0 by blast
  then show ?thesis
  proof cases
    case leave
    then show ?thesis
      by (intro that [of "Leaving False"]) (auto simp: l loads(1) later_refl phase_inv_def holding_def granted_def)
  next
    case loaded
    then show ?thesis using rs0 assms(2)
      by (intro that [of "Loaded now rs"]) (auto simp: l loads(1) later_refl phase_inv_def holding_def granted_def)
  qed
next
  case (stores rs now)
  have c: "lg_calls (world_ledger (g w)) = lg_calls (world_ledger w)" using stores(2) by blast
  have inv: "timed l (world_ledger w) now" "holds l (world_files w) rs" "unheld now i rs"
    using assms(2) by (simp_all add: stores(1) phase_inv_def)
  from stores(3) [rule_format, OF inv(2)] consider
      (kept) "follows l i e (Leaving False) (f w)" "world_files (g w) (fl_path l) = world_files w (fl_path l)"
    | (stored) b where "follows l i e (Leaving b) (f w)" "holds l (world_files (g w)) (next_records now i e rs)"
    by blast
  then show ?thesis
  proof cases
    case kept
    then show ?thesis using later_same_file [of "world_ledger w" "world_ledger (g w)" l] c
      by (intro that [of "Leaving False"]) (simp_all add: stores(1) phase_inv_def holding_def granted_def)
  next
    case stored
    have "\<lparr>rr_RequestID = i, rr_ExpiresAt = time_UTC e\<rparr> \<in> set (next_records now i e rs)" by (simp add: next_records_set)
    then have rec: "on_record l (world_ledger (g w)) i (t_ns e)"
      using stored(2) unfolding on_record_def by force
    have "passed l (world_ledger w) x" if "on_record l (world_ledger w) i x" for x
    proof (rule ccontr)
      assume "\<not> passed l (world_ledger w) x"
      then obtain r where r: "r \<in> set rs" "rr_RequestID r = i" "t_ns (rr_ExpiresAt r) = x"
        using \<open>on_record _ _ _ x\<close> holds_unique [OF assms(3) inv(2)] by (auto simp: on_record_def)
      then have "x \<le> t_ns now" using inv(3) by (force simp: unheld_def)
      then show False using \<open>\<not> passed _ _ x\<close> inv(1) by (auto simp: passed_def timed_def)
    qed
    then show ?thesis using stored(1) rec later_stored [OF assms(3) c inv(1,2) stored(2)]
      by (intro that [of "Leaving b"]) (simp_all add: stores(1) phase_inv_def holding_def)
  qed
qed

text \<open>
  The invariant. \<open>key\<close> gives the identifier and the expiry of each connection's request, \<open>ph\<close> where its thread
  stands. Of two connections that were granted one identifier, the clock has passed the expiry of one.
\<close>

definition granted_once :: "FileReplayLedger \<Rightarrow> (nat \<Rightarrow> string \<times> gotime) \<Rightarrow> (nat \<Rightarrow> phase) \<Rightarrow> ledger_state \<Rightarrow> bool" where
  "granted_once l key ph st \<longleftrightarrow>
     (\<forall>j k. j \<noteq> k \<and> granted (ph j) \<and> granted (ph k) \<and> fst (key j) = fst (key k) \<longrightarrow>
        passed l st (t_ns (snd (key j))) \<or> passed l st (t_ns (snd (key k))))"

definition pool_inv ::
  "FileReplayLedger \<Rightarrow> (nat \<Rightarrow> string \<times> gotime) \<Rightarrow> pool \<Rightarrow> (nat \<Rightarrow> phase) \<Rightarrow> bool" where
  "pool_inv l key s ph \<longleftrightarrow> ledger_wf l (world_ledger (po_world s)) \<and>
     (\<forall>k. phase_inv l (fst (key k)) (snd (key k)) (ph k) (world_ledger (po_world s))) \<and>
     (\<forall>k. holding (ph k) \<longleftrightarrow> po_lock s = Some k) \<and>
     (\<forall>k t. po_threads s k = Some t \<longrightarrow> follows l (fst (key k)) (snd (key k)) (ph k) t) \<and>
     granted_once l key ph (world_ledger (po_world s)) \<and>
     (\<forall>k\<ge>po_accepted s. ph k = Idle \<and> po_threads s k = None)"

definition answers_inv :: "(nat \<Rightarrow> string \<times> gotime) \<Rightarrow> pool \<Rightarrow> (nat \<Rightarrow> phase) \<Rightarrow> bool" where
  "answers_inv key s ph \<longleftrightarrow> distinct (map fst (po_answers s)) \<and>
     (\<forall>(k, r) \<in> set (po_answers s). k < po_accepted s \<and> po_threads s k = None \<and>
        (rs_Status r = ''authorized'' \<longrightarrow> ph k = Granted \<and> lives_until (snd (key k)) r))"

lemma pool_inv_access:
  assumes "pool_inv l key s ph" "po_threads s k = Some (Step g f)" "ledger_decoder_ok dec"
  obtains p where
    "pool_inv l key (s\<lparr>po_threads := (po_threads s)(k \<mapsto> f (po_world s)), po_world := g (po_world s)\<rparr>) (ph(k := p))"
proof -
  let ?w = "po_world s" and ?i = "\<lambda>k. fst (key k)" and ?e = "\<lambda>k. snd (key k)"
  have inv: "ledger_wf l (world_ledger ?w)" "\<And>k. phase_inv l (?i k) (?e k) (ph k) (world_ledger ?w)"
      "\<And>k. holding (ph k) \<longleftrightarrow> po_lock s = Some k"
      "\<And>k t. po_threads s k = Some t \<Longrightarrow> follows l (?i k) (?e k) (ph k) t"
      "granted_once l key ph (world_ledger ?w)"
      "\<And>k. po_accepted s \<le> k \<Longrightarrow> ph k = Idle \<and> po_threads s k = None"
    using assms(1) unfolding pool_inv_def by blast+
  from inv(4) [OF assms(2)] inv(2) [of k] assms(3) inv(1) obtain p where p:
      "follows l (?i k) (?e k) p (f ?w)" "phase_inv l (?i k) (?e k) p (world_ledger (g ?w))" "holding p = holding (ph k)"
      "later l (world_ledger ?w) (world_ledger (g ?w))"
      "\<not> holding (ph k) \<Longrightarrow> world_files (g ?w) (fl_path l) = world_files ?w (fl_path l)"
      "granted p \<Longrightarrow> granted (ph k) \<or> (\<forall>x. on_record l (world_ledger ?w) (?i k) x \<longrightarrow> passed l (world_ledger ?w) x)"
    by (rule access_follows) blast
  have others: "phase_inv l (?i j) (?e j) (ph j) (world_ledger (g ?w))" if "j \<noteq> k" for j
  proof (rule phase_inv_later [OF inv(2) p(4)])
    assume "holding (ph j)"
    then have "\<not> holding (ph k)" using inv(3) that by simp
    then show "world_files (g ?w) (fl_path l) = world_files ?w (fl_path l)" by (rule p(5))
  qed
  have passes: "passed l (world_ledger ?w) x \<Longrightarrow> passed l (world_ledger (g ?w)) x" for x
    using p(4) passed_mono by (auto simp: later_def)
  have new: "passed l (world_ledger ?w) (t_ns (?e j)) \<or> passed l (world_ledger ?w) (t_ns (?e k))"
    if "j \<noteq> k" "granted (ph j)" "granted p" "?i j = ?i k" for j
  proof (cases "granted (ph k)")
    case True
    then show ?thesis using inv(5) that(1,2,4) unfolding granted_once_def by blast
  next
    case False
    have "on_record l (world_ledger ?w) (?i k) (t_ns (?e j))"
      using inv(2) [of j] that(2,4) by (auto simp: granted_def phase_inv_def)
    then show ?thesis using p(6) [OF that(3)] False by blast
  qed
  have once: "granted_once l key (ph(k := p)) (world_ledger (g ?w))"
    unfolding granted_once_def
  proof (intro allI impI)
    fix a b
    assume ab: "a \<noteq> b \<and> granted ((ph(k := p)) a) \<and> granted ((ph(k := p)) b) \<and> ?i a = ?i b"
    then consider "a = k" "b \<noteq> k" | "b = k" "a \<noteq> k" | "a \<noteq> k" "b \<noteq> k" by blast
    then have "passed l (world_ledger ?w) (t_ns (?e a)) \<or> passed l (world_ledger ?w) (t_ns (?e b))"
    proof cases
      case 1
      then show ?thesis using ab new [of b] by auto
    next
      case 2
      then show ?thesis using ab new [of a] by auto
    next
      case 3
      then show ?thesis using ab inv(5) by (auto simp: granted_once_def)
    qed
    then show "passed l (world_ledger (g ?w)) (t_ns (?e a)) \<or> passed l (world_ledger (g ?w)) (t_ns (?e b))" using passes by blast
  qed
  have wf: "ledger_wf l (world_ledger (g ?w))" using p(4) inv(1) by (simp add: later_def)
  show ?thesis
  proof (rule that [of p])
    show "pool_inv l key (s\<lparr>po_threads := (po_threads s)(k \<mapsto> f ?w), po_world := g ?w\<rparr>) (ph(k := p))"
      unfolding pool_inv_def
      using wf once p(1-3) others inv(3,4,6) assms(2) by auto
  qed
qed

text \<open>A step that leaves the world alone and moves one thread to a phase with the same standing.\<close>

lemma pool_inv_move:
  assumes "pool_inv l key s ph" "po_threads s k \<noteq> None" "world_ledger (po_world s') = world_ledger (po_world s)"
    and "\<And>j. j \<noteq> k \<Longrightarrow> po_threads s' j = po_threads s j" "po_accepted s' = po_accepted s"
    and "\<And>t. po_threads s' k = Some t \<Longrightarrow> follows l (fst (key k)) (snd (key k)) p t"
    and "phase_inv l (fst (key k)) (snd (key k)) p (world_ledger (po_world s))" "granted p = granted (ph k)"
    and "\<And>j. po_lock s' = Some j \<longleftrightarrow> holding ((ph(k := p)) j)"
  shows "pool_inv l key s' (ph(k := p))"
proof -
  have "granted ((ph(k := p)) j) = granted (ph j)" for j using assms(8) by simp
  moreover have "granted_once l key ph (world_ledger (po_world s))" using assms(1) by (simp add: pool_inv_def)
  ultimately have "granted_once l key (ph(k := p)) (world_ledger (po_world s'))"
    unfolding granted_once_def assms(3) by (simp only:)
  moreover have "\<not> po_accepted s \<le> k" using assms(1,2) by (auto simp: pool_inv_def)
  ultimately show ?thesis using assms unfolding pool_inv_def by auto
qed

lemma answers_inv_same:
  assumes "answers_inv key s ph" "po_answers s' = po_answers s" "po_accepted s \<le> po_accepted s'"
    and "\<And>k. k < po_accepted s \<Longrightarrow> po_threads s k = None \<Longrightarrow> po_threads s' k = None \<and> ph' k = ph k"
  shows "answers_inv key s' ph'"
  using assms unfolding answers_inv_def by fastforce

lemma pool_step_inv:
  assumes step: "pool_step b sink threads s s'" and dec: "ledger_decoder_ok dec"
    and threads: "\<And>k. follows l (fst (key k)) (snd (key k)) Idle (threads k)"
    and inv: "pool_inv l key s ph" and ans: "answers_inv key s ph"
  shows "\<exists>ph'. pool_inv l key s' ph' \<and> answers_inv key s' ph'"
  using step
proof (cases rule: pool_step.cases)
  case accept
  have "pool_inv l key s' ph" using inv threads by (auto simp: accept(1) pool_inv_def)
  moreover have "answers_inv key s' ph" by (rule answers_inv_same [OF ans]) (auto simp: accept(1))
  ultimately show ?thesis by blast
next
  case full
  have "world_ledger (po_world s') = world_ledger (po_world s)"
    by (simp add: full(1) world_ledger_def broker_record_def split: prod.split)
  then have "pool_inv l key s' ph" using inv by (auto simp: full(1) pool_inv_def)
  moreover have "answers_inv key s' ph" by (rule answers_inv_same [OF ans]) (auto simp: full(1))
  ultimately show ?thesis by blast
next
  case (access k g f)
  obtain p where "pool_inv l key s' (ph(k := p))" using pool_inv_access [OF inv access(2) dec] unfolding access(1) by blast
  moreover have "answers_inv key s' (ph(k := p))" by (rule answers_inv_same [OF ans]) (use access(2) in \<open>auto simp: access(1)\<close>)
  ultimately show ?thesis by blast
next
  case (lock k t)
  have "follows l (fst (key k)) (snd (key k)) (ph k) (Acquire t)" using inv lock(2) by (simp add: pool_inv_def)
  then obtain now where f: "ph k = Timed now" "follows l (fst (key k)) (snd (key k)) (Locked now) t" by (auto elim: follows_Acquire)
  have "phase_inv l (fst (key k)) (snd (key k)) (ph k) (world_ledger (po_world s))" using inv by (simp add: pool_inv_def)
  moreover have "holding (ph j) \<longleftrightarrow> po_lock s = Some j" for j using inv by (simp add: pool_inv_def)
  ultimately have "pool_inv l key s' (ph(k := Locked now))"
    by (intro pool_inv_move [OF inv]) (auto simp: lock f phase_inv_def granted_def holding_def)
  moreover have "answers_inv key s' (ph(k := Locked now))" by (rule answers_inv_same [OF ans]) (use lock(2) in \<open>auto simp: lock(1)\<close>)
  ultimately show ?thesis by blast
next
  case (unlock k t)
  have "follows l (fst (key k)) (snd (key k)) (ph k) (Release t)" using inv unlock(2) by (simp add: pool_inv_def)
  then obtain c where f: "ph k = Leaving c" "follows l (fst (key k)) (snd (key k)) (if c then Granted else Idle) t"
    by (auto elim: follows_Release)
  let ?p = "if c then Granted else Idle"
  have "phase_inv l (fst (key k)) (snd (key k)) (ph k) (world_ledger (po_world s))" using inv by (simp add: pool_inv_def)
  moreover have "holding (ph j) \<longleftrightarrow> po_lock s = Some j" for j using inv by (simp add: pool_inv_def)
  ultimately have "pool_inv l key s' (ph(k := ?p))"
    using f(2) by (intro pool_inv_move [OF inv]) (auto simp: unlock f(1) phase_inv_def granted_def holding_def)
  moreover have "answers_inv key s' (ph(k := ?p))" by (rule answers_inv_same [OF ans]) (use unlock(2) in \<open>auto simp: unlock(1)\<close>)
  ultimately show ?thesis by blast
next
  case (finish k resp)
  have f: "follows l (fst (key k)) (snd (key k)) (ph k) (Return resp)" using inv finish(2) by (simp add: pool_inv_def)
  have "pool_inv l key s' (ph(k := ph k))"
    by (rule pool_inv_move [OF inv]) (use inv in \<open>auto simp: finish pool_inv_def\<close>)
  moreover have "answers_inv key s' ph"
  proof -
    have "k < po_accepted s" using inv finish(2) by (force simp: pool_inv_def linorder_not_le [symmetric])
    moreover have "rs_Status r = ''authorized'' \<longrightarrow> ph k = Granted \<and> lives_until (snd (key k)) r" if "resp = Some r" for r
      using f that by (auto elim: follows_Return)
    moreover have "k \<notin> fst ` set (po_answers s)" using ans finish(2) by (auto simp: answers_inv_def)
    ultimately show ?thesis using ans by (auto simp: finish(1) answers_inv_def split: option.split)
  qed
  ultimately show ?thesis by auto
next
  case stop
  have "pool_inv l key s' ph" using inv by (simp add: stop(1) pool_inv_def)
  moreover have "answers_inv key s' ph" by (rule answers_inv_same [OF ans]) (simp_all add: stop(1))
  ultimately show ?thesis by blast
qed

lemma pool_reachable_inv:
  assumes "pool_reachable b sink threads w0 s" "ledger_decoder_ok dec"
    and "\<And>k. follows l (fst (key k)) (snd (key k)) Idle (threads k)" "ledger_wf l (world_ledger w0)"
  shows "\<exists>ph. pool_inv l key s ph \<and> answers_inv key s ph"
  using assms(1)
proof induction
  case start
  have "pool_inv l key (pool_start w0) (\<lambda>_. Idle) \<and> answers_inv key (pool_start w0) (\<lambda>_. Idle)"
    using assms(4) by (simp add: pool_inv_def answers_inv_def pool_start_def granted_once_def granted_def holding_def phase_inv_def)
  then show ?case by blast
next
  case (step s s')
  then show ?case using pool_step_inv assms(2,3) by blast
qed

section \<open>What the answers of a pool show\<close>

text \<open>The goroutine of a connection with the lifecycle authority and the ledger of \<open>broker/ledger.go\<close>.\<close>

abbreviation service_thread ::
  "envelope_decoder \<Rightarrow> (ledger_state, 'h) broker \<Rightarrow> ed25519 \<Rightarrow> ledger_state lifecycle_Authority \<Rightarrow> ledger_decoder \<Rightarrow>
   FileReplayLedger \<Rightarrow> (nat \<Rightarrow> ledger_env) \<Rightarrow> 'h connection \<Rightarrow> service" where
  "service_thread decode b E a dec l envs cn \<equiv> serve_thread decode b (authorize_thread E a (claim_thread dec l envs)) cn"

lemma service_follows:
  assumes "ledger_decoder_ok dec" "\<And>n. temp_path l (envs n) \<noteq> fl_path l"
  shows "follows l (rq_RequestID (the (request_of decode b cn))) (rq_ExpiresAt (the (request_of decode b cn))) Idle
    (service_thread decode b E a dec l envs cn)"
  by (rule serve_follows) (auto intro!: authorize_follows claim_follows assms)

text \<open>At time \<open>t\<close> the request has expired, and the answer carries an attestation that has expired too.\<close>

definition expired_answer :: "lifecycle_Request \<Rightarrow> ResponseEnvelope \<Rightarrow> gotime \<Rightarrow> bool" where
  "expired_answer q r t \<longleftrightarrow> t_ns (rq_ExpiresAt q) \<le> t_ns t \<and>
     (\<exists>att. rs_Attestation r = Some att \<and> t_ns (at_ExpiresAt att) \<le> t_ns t)"

lemma pool_answers_once:
  assumes dec: "ledger_decoder_ok dec" and tmp: "\<And>n. temp_path l (envs n) \<noteq> fl_path l" and clock: "fl_clock l = Some clock"
    and run: "pool_reachable b sink (\<lambda>k. service_thread decode b E a dec l envs (conn k)) w0 s" and wf: "ledger_wf l (world_ledger w0)"
    and ans: "po_answers s = before @ (i, r) # between @ (j, r') # after" "rs_Status r = ''authorized''" "rs_Status r' = ''authorized''"
    and req: "request_of decode b (conn i) = Some q" "request_of decode b (conn j) = Some q'" "rq_RequestID q = rq_RequestID q'"
  shows "\<exists>n t. n < lg_calls (world_ledger (po_world s)) \<and> clock n = Some t \<and> (expired_answer q r t \<or> expired_answer q' r' t)"
proof -
  let ?key = "\<lambda>k. (rq_RequestID (the (request_of decode b (conn k))), rq_ExpiresAt (the (request_of decode b (conn k))))"
  have "\<exists>ph. pool_inv l ?key s ph \<and> answers_inv ?key s ph"
    by (rule pool_reachable_inv [OF run dec _ wf]) (simp add: service_follows [OF dec tmp])
  then obtain ph where p: "granted_once l ?key ph (world_ledger (po_world s))" "answers_inv ?key s ph"
    by (auto simp: pool_inv_def)
  have in_ans: "(i, r) \<in> set (po_answers s)" "(j, r') \<in> set (po_answers s)" by (simp_all add: ans(1))
  have "i \<noteq> j" using p(2) by (auto simp: answers_inv_def ans(1))
  moreover have g: "ph i = Granted" "ph j = Granted" "lives_until (rq_ExpiresAt q) r" "lives_until (rq_ExpiresAt q') r'"
    using p(2) in_ans ans(2,3) req(1,2) by (simp_all add: answers_inv_def ans(1))
  ultimately have "passed l (world_ledger (po_world s)) (t_ns (rq_ExpiresAt q)) \<or> passed l (world_ledger (po_world s)) (t_ns (rq_ExpiresAt q'))"
    using p(1) [unfolded granted_once_def, rule_format, of i j] req by (simp add: granted_def)
  moreover have "\<exists>n t. n < lg_calls (world_ledger (po_world s)) \<and> clock n = Some t \<and> expired_answer q0 r0 t"
    if "passed l (world_ledger (po_world s)) (t_ns (rq_ExpiresAt q0))" "lives_until (rq_ExpiresAt q0) r0" for q0 r0
    using that clock unfolding passed_def lives_until_def expired_answer_def by fastforce
  ultimately show ?thesis using g(3,4) by blast
qed

section \<open>The lock\<close>

text \<open>A thread takes the lock only when it does not hold it, and has given it back when it ends.\<close>

primrec balanced :: "('w, 'r) thread \<Rightarrow> bool \<Rightarrow> bool" where
  "balanced (Return r) held = (\<not> held)"
| "balanced (Step g f) held = (\<forall>w. balanced (f w) held)"
| "balanced (Acquire t) held = (\<not> held \<and> balanced t True)"
| "balanced (Release t) held = (held \<and> balanced t False)"

lemma claim_balanced: "(\<And>res. balanced (k res) False) \<Longrightarrow> balanced (claim_thread dec l envs i e k) False"
  by (simp add: claim_thread_def claim_enter_def claim_critical_def Let_def split: option.split sum.split)

lemma audit_balanced: "(\<And>ok. balanced (k ok) False) \<Longrightarrow> balanced (audit_thread sink event k) False"
  by (simp add: audit_thread_def)

lemma authorize_balanced:
  assumes "\<And>res. balanced (k res) False"
  shows "balanced (authorize_thread E a (claim_thread dec l envs) req k) False"
  using assms
  by (auto intro!: claim_balanced audit_balanced simp: authorize_thread_def deny_thread_def issue_thread_def Let_def
      split: option.split sum.split)

lemma service_balanced: "balanced (service_thread decode b E a dec l envs cn) False"
  by (auto intro!: audit_balanced authorize_balanced simp: serve_thread_def read_thread_def decide_thread_def refuse_thread_def
      drop_thread_def answer_thread_def Let_def split: option.split sum.split prod.split)

text \<open>So a connection that runs while no other does is answered, and leaves the lock free.\<close>

lemma run_alone:
  assumes "pool_reachable b sink threads w0 s" "po_threads s k = Some t" "balanced t held"
    and "po_lock s = (if held then Some k else None)" "run_thread t (po_world s) = (resp, w)"
  shows "pool_reachable b sink threads w0 (s\<lparr>po_threads := (po_threads s)(k := None), po_lock := None, po_world := w,
    po_answers := (case resp of None \<Rightarrow> po_answers s | Some r \<Rightarrow> po_answers s @ [(k, r)])\<rparr>)"
  using assms
proof (induction t arbitrary: s held)
  case (Return r)
  have "pool_step b sink threads s
       (s\<lparr>po_threads := (po_threads s)(k := None), po_answers := (case resp of None \<Rightarrow> po_answers s | Some r \<Rightarrow> po_answers s @ [(k, r)])\<rparr>)"
    using Return.prems(2,5) by (intro pool_step.finish) simp
  from pool_reachable.step [OF Return.prems(1) this] Return.prems(3-5) show ?case by (cases s) (auto simp: fun_upd_def)
next
  case (Step g f)
  let ?s = "s\<lparr>po_threads := (po_threads s)(k \<mapsto> f (po_world s)), po_world := g (po_world s)\<rparr>"
  have "pool_reachable b sink threads w0 ?s"
    by (rule pool_reachable.step [OF Step.prems(1) pool_step.access]) (rule Step.prems(2))
  from Step.IH [OF _ this, of "f (po_world s)" held] Step.prems(3-5) show ?case by (simp add: fun_upd_same del: fun_upd_apply cong: option.case_cong)
next
  case (Acquire t)
  let ?s = "s\<lparr>po_threads := (po_threads s)(k \<mapsto> t), po_lock := Some k\<rparr>"
  have "pool_reachable b sink threads w0 ?s"
    by (rule pool_reachable.step [OF Acquire.prems(1) pool_step.lock]) (use Acquire.prems in simp_all)
  from Acquire.IH [OF this, of True] Acquire.prems(3-5) show ?case by (simp add: fun_upd_same del: fun_upd_apply cong: option.case_cong)
next
  case (Release t)
  let ?s = "s\<lparr>po_threads := (po_threads s)(k \<mapsto> t), po_lock := None\<rparr>"
  have "pool_reachable b sink threads w0 ?s"
    by (rule pool_reachable.step [OF Release.prems(1) pool_step.unlock]) (use Release.prems in simp_all)
  from Release.IH [OF this, of False] Release.prems(3-5) show ?case by (simp add: fun_upd_same del: fun_upd_apply cong: option.case_cong)
qed

section \<open>A stale reading\<close>

text \<open>
  The clock is read before the lock is taken, so the invariant cannot say more than that one of two granted requests
  has expired. A claim that prunes an expired record lets a claim of the same identifier pass that took its
  reading before the expiry and gets the lock only now: the identifier is no longer on file, and the old
  reading says that the request is still valid.
\<close>

theorem stale_claim_regrants:
  assumes "ledger_decoder_ok dec" "holds l fs rs" "\<forall>r\<in>set rs. rr_RequestID r = i \<longrightarrow> t_ns (rr_ExpiresAt r) \<le> t_ns now2"
    and "requestIDPattern j" "j \<noteq> i" "temp_path l env2 \<noteq> fl_path l"
    and "claim_locked dec l env2 now2 j e2 fs = (Inr True, fs2)" "claim_locked dec l env1 now1 i e fs2 = (res, fs1)"
  shows "res \<noteq> Inr False"
proof -
  from assms(1,2,4,6,7) have h: "holds l fs2 (next_records now2 j e2 rs)" by (rule claim_locked_effect) auto
  then have n: "\<forall>r\<in>set (next_records now2 j e2 rs). rr_RequestID r \<noteq> i"
    using assms(3,5) by (auto simp: next_records_set)
  have scan: "scan_active now1 i acc rs' \<noteq> Inr None" if "\<forall>r\<in>set rs'. rr_RequestID r \<noteq> i" for acc rs'
    using that by (induction rs' arbitrary: acc) auto
  show ?thesis
    using assms(8) loadRecords_holds [OF assms(1) h] scan n
    by (auto simp: claim_locked_def split: sum.splits option.splits if_splits prod.splits)
qed

section \<open>Property\<close>

text \<open>
  C2. Goroutines may interleave between any two of their accesses to the shared state, and the replay ledger may
  meet any file-system faults. If two connections are answered ``authorized'' for requests with one
  identifier, then the clock of the ledger has been read at or after the expiry of one of the two requests,
  and the attestation of that answer has expired at this reading too. So while it is valid a captured frame is
  not authorized again, and one identifier has at most one attestation that is alive. Nothing is assumed of the clock.
\<close>

theorem Serve_no_replay:
  assumes "ledger_decoder_ok dec" "\<And>n. temp_path l (envs n) \<noteq> fl_path l" "fl_clock l = Some clock"
    and "pool_reachable b sink (\<lambda>k. serve_thread decode b (authorize_thread E a (claim_thread dec l envs)) (conn k)) w0 s"
    and "ledger_wf l (world_ledger w0)"
    and "po_answers s = before @ (i, r) # between @ (j, r') # after"
    and "rs_Status r = ''authorized''" "rs_Status r' = ''authorized''"
    and "request_of decode b (conn i) = Some q" "request_of decode b (conn j) = Some q'"
    and "rq_RequestID q = rq_RequestID q'"
  shows "\<exists>n t. n < lg_calls (world_ledger (po_world s)) \<and> clock n = Some t \<and> (expired_answer q r t \<or> expired_answer q' r' t)"
  by (rule pool_answers_once [OF assms])

abbreviation demo_file_authority :: "ledger_state lifecycle_Authority" where
  "demo_file_authority \<equiv> demo_authority accept_all (Claim inverse_decoder demo_ledger (\<lambda>_. demo_env))"

definition demo_file_authorizer :: "ledger_state authorizer" where
  "demo_file_authorizer = Authorize demo_ed25519 (Some demo_file_authority)"

definition demo_file_world :: world where
  "demo_file_world = \<lparr>bw_state = demo_state \<lparr>lg_fs = demo_fs, lg_calls = 0\<rparr>, bw_entries = (\<lambda>_. None), bw_ticks = 0\<rparr>"

abbreviation demo_pool :: "pool \<Rightarrow> bool" where
  "demo_pool \<equiv> pool_reachable (demo_broker demo_file_authorizer) accept_all
     (\<lambda>_. service_thread demo_decoder (demo_broker demo_file_authorizer) demo_ed25519 demo_file_authority inverse_decoder
        demo_ledger (\<lambda>_. demo_env) demo_connection) demo_file_world"

lemma demo_service:
  "run_thread (service_thread demo_decoder (demo_broker demo_file_authorizer) demo_ed25519 demo_file_authority inverse_decoder
      demo_ledger (\<lambda>_. demo_env) demo_connection) w = serve_decision demo_decoder (demo_broker demo_file_authorizer) demo_connection w"
  by (rule run_serve_thread) (simp_all add: demo_authority_def demo_broker_def demo_config_def demo_file_authorizer_def)

text \<open>One more connection is accepted and served while no other is.\<close>

lemma demo_next:
  assumes "demo_pool s" "po_open s" "po_threads s = (\<lambda>_. None)" "po_lock s = None"
    and "serve_decision demo_decoder (demo_broker demo_file_authorizer) demo_connection (po_world s) = (Some r, w)"
  obtains s' where "demo_pool s'" "po_open s'" "po_threads s' = (\<lambda>_. None)" "po_lock s' = None" "po_world s' = w"
    "po_accepted s' = po_accepted s + 1" "po_answers s' = po_answers s @ [(po_accepted s, r)]"
proof -
  let ?t = "service_thread demo_decoder (demo_broker demo_file_authorizer) demo_ed25519 demo_file_authority inverse_decoder
        demo_ledger (\<lambda>_. demo_env) demo_connection"
  let ?s = "s\<lparr>po_accepted := po_accepted s + 1, po_threads := (po_threads s)(po_accepted s \<mapsto> ?t)\<rparr>"
  have "demo_pool ?s"
    by (rule pool_reachable.step [OF assms(1) pool_step.accept]) (use assms(2,3) in \<open>simp_all add: demo_broker_def demo_config_def\<close>)
  then have "demo_pool (?s\<lparr>po_threads := (po_threads ?s)(po_accepted s := None), po_lock := None, po_world := w,
    po_answers := (case Some r of None \<Rightarrow> po_answers ?s | Some r \<Rightarrow> po_answers ?s @ [(po_accepted s, r)])\<rparr>)"
    by (rule run_alone [OF _ _ service_balanced]) (use assms(4,5) demo_service [of "po_world s"] in simp_all)
  then show ?thesis by (rule that) (use assms(2,3) in \<open>auto simp: fun_upd_def\<close>)
qed

text \<open>Two connections with the same frame are served; the first is authorized.\<close>

lemma demo_two_connections:
  obtains s r r' where "demo_pool s" "po_answers s = [(0, r), (1, r')]" "rs_Status r = ''authorized''"
proof -
  let ?b = "demo_broker demo_file_authorizer"
  have "fst (Claim inverse_decoder demo_ledger (\<lambda>_. demo_env) (rq_RequestID demo_signed) (rq_ExpiresAt demo_signed)
      \<lparr>lg_fs = demo_fs, lg_calls = 0\<rparr>) = Inr True"
    unfolding demo_signed_sel by (rule demo_claim [OF _ demo_expiry(1,3,2)]) simp
  then obtain att st1 where 1: "demo_file_authorizer demo_signed (bw_state demo_file_world) = (Inr att, st1)"
    unfolding demo_file_authorizer_def demo_file_world_def by (auto elim: demo_granted)
  have al0: "allow demo_limit ''spiffe://brick/broker'' (Some demo_now) (bw_entries demo_file_world) =
      (True, [''spiffe://brick/broker'' \<mapsto> \<lparr>bu_tokens = 2, bu_last = demo_now\<rparr>])"
    using demo_allow by (simp add: demo_file_world_def)
  obtain r w1 where
    a: "serve_decision demo_decoder ?b demo_connection demo_file_world = (Some r, w1)"
      "rs_Status r = ''authorized'' \<longleftrightarrow> \<not> isl (Inr att :: lifecycle_Attestation go_result)"
      "bw_entries w1 = [''spiffe://brick/broker'' \<mapsto> \<lparr>bu_tokens = 2, bu_last = demo_now\<rparr>]"
    by (rule demo_serve [of demo_file_world _ demo_file_authorizer, OF al0 1])
  obtain res st2 where 2: "demo_file_authorizer demo_signed (bw_state w1) = (res, st2)" by (rule prod.exhaust)
  have "\<exists>entries. allow demo_limit ''spiffe://brick/broker'' (Some demo_now) (bw_entries w1) = (True, entries)"
    unfolding a(3) using allow_still [OF demo_limit_ok demo_now_set, of "''spiffe://brick/broker''" _ 2]
    by (simp add: bucket_of_def demo_now_UTC demo_limit_def)
  then obtain entries where al: "allow demo_limit ''spiffe://brick/broker'' (Some demo_now) (bw_entries w1) = (True, entries)" ..
  obtain r' w2 where b: "serve_decision demo_decoder ?b demo_connection w1 = (Some r', w2)"
    by (rule demo_serve [of w1 _ demo_file_authorizer, OF al 2])
  have "demo_pool (pool_start demo_file_world)" by (rule pool_reachable.start)
  from demo_next [OF this, of r w1] a(1) obtain s1 where s1: "demo_pool s1" "po_open s1" "po_threads s1 = (\<lambda>_. None)"
      "po_lock s1 = None" "po_world s1 = w1" "po_accepted s1 = 1" "po_answers s1 = [(0, r)]"
    by (auto simp: pool_start_def)
  from demo_next [OF s1(1-4), of r' w2] b s1(5-7) obtain s2 where "demo_pool s2" "po_answers s2 = [(0, r), (1, r')]"
    by auto
  then show ?thesis by (rule that) (use a(2) in simp)
qed

theorem Serve_no_replay_witness:
  "\<exists>s r r'. demo_pool s \<and> po_answers s = [(0, r), (1, r')] \<and> rs_Status r = ''authorized'' \<and> rs_Status r' \<noteq> ''authorized''"
proof -
  obtain s r r' where s: "demo_pool s" "po_answers s = [(0, r), (1, r')]" "rs_Status r = ''authorized''"
    by (rule demo_two_connections)
  have q: "request_of demo_decoder (demo_broker demo_file_authorizer) demo_connection = Some demo_signed"
    by (simp add: request_of_def demo_connection_def demo_broker_def demo_config_def demo_frame [unfolded One_nat_def]
        strictDecode_def demo_decoder_def)
  have wf: "ledger_wf demo_ledger (world_ledger demo_file_world)"
    using demo_ledger_wf by (simp add: world_ledger_def demo_file_world_def demo_state_def)
  have "rs_Status r' \<noteq> ''authorized''"
  proof
    assume r': "rs_Status r' = ''authorized''"
    from Serve_no_replay [OF demo_file.decoder demo_file.temp_fresh demo_file.has_clock s(1) wf
        _ s(3) r' q q refl, of "[]" 0 "[]" 1 "[]"] s(2)
    have "t_ns (rq_ExpiresAt demo_signed) \<le> t_ns demo_now" by (auto simp: expired_answer_def)
    then show False using demo_expiry(2) by (simp add: demo_signed_sel)
  qed
  with s show ?thesis by blast
qed

end
