(* ===== verification/Host_Preflight.thy ===== *)
theory Host_Preflight
  imports Host
begin

text \<open>
  What the preflight check of \<open>host/host.go\<close> means on a Linux host. The state of the host is
  described here as the kernel has it: a version, a table of mounts with their peer groups,
  inodes with the modes of \<open>stat(2)\<close>. \<open>shows_host\<close> says how the files under \<open>/proc\<close> and
  \<open>/sys\<close> print that state, as documented in \<open>proc(5)\<close>, \<open>sysfs(5)\<close> and the kernel's
  documentation of the security modules. The theorem relates the decision of \<open>Check\<close>, which
  parses these files, to the state itself; none of the parsers of the code, nor its search of
  the mount table, appears in the specification.
\<close>

section \<open>Words and lines\<close>

definition word :: "string \<Rightarrow> bool" where
  "word w \<longleftrightarrow> w \<noteq> [] \<and> list_all (\<lambda>c. \<not> is_space c) w"

lemma fields_aux_word: "list_all (\<lambda>c. \<not> is_space c) w \<Longrightarrow> fields_aux cur (w @ s) = fields_aux (rev w @ cur) s"
  by (induction w arbitrary: cur) auto

lemma is_space_blank [simp]: "is_space (CHR '' '')" "is_space (CHR 0x0A)"
  by (simp_all add: is_space_def)

lemma Fields_join:
  assumes "list_all word ws" "s = [] \<or> s = [CHR 0x0A]"
  shows "Fields (join '' '' ws @ s) = ws"
  unfolding Fields_def using assms
proof (induction "'' ''" ws rule: join.induct)
  case 1
  then show ?case by auto
next
  case (2 w)
  then show ?case by (auto simp: word_def fields_aux_word)
next
  case (3 x y ys)
  then show ?case by (simp add: word_def fields_aux_word)
qed

lemma TrimSpace_id:
  assumes "s \<noteq> []" "\<not> is_space (hd s)" "\<not> is_space (last s)" "list_all is_space t"
  shows "TrimSpace (s @ t) = s"
proof -
  have "dropWhile is_space (s @ t) = s @ t" using assms(1,2) by (cases s) auto
  moreover have "dropWhile is_space (rev (s @ t)) = rev s"
    using assms by (cases s rule: rev_cases) (auto simp: list_all_iff dropWhile_append)
  ultimately show ?thesis by (simp add: TrimSpace_def)
qed

lemma join_ends:
  assumes "ws \<noteq> []" "list_all (\<lambda>w. w \<noteq> []) ws"
  shows "join sep ws \<noteq> [] \<and> hd (join sep ws) = hd (hd ws) \<and> last (join sep ws) = last (last ws)"
  using assms by (induction sep ws rule: join.induct) auto

lemma join_line: "concat (map (\<lambda>l. l @ [c]) ls) = (if ls = [] then [] else join [c] ls @ [c])"
  by (induction "[c]" ls rule: join.induct) auto

section \<open>The state of a host\<close>

text \<open>The optional fields of a line of the mount table.\<close>

datatype peer_tag = Shared nat | Master nat | Propagate_From nat | Unbindable

record kernel_mount =
  km_id :: nat
  km_parent :: nat
  km_device :: "nat \<times> nat"
  km_root :: string
  km_point :: "string list"
  km_options :: string
  km_tags :: "peer_tag list"
  km_source :: "string list"

text \<open>
  A component that is \<^const>\<open>None\<close> belongs to a file that cannot be read. \<open>kv_stat\<close> gives the
  mode and the owner of the inode at a path.
\<close>

record kernel_view =
  kv_version :: "(nat \<times> nat \<times> string) option"
  kv_controllers :: "string list option"
  kv_namespaces :: "nat option"
  kv_seccomp :: "string list option"
  kv_lsms :: "string list option"
  kv_apparmor :: "bool option"
  kv_selinux :: "bool option"
  kv_mounts :: "kernel_mount list option"
  kv_stat :: "string \<Rightarrow> (u32 \<times> u32) option"

definition tag_text :: "peer_tag \<Rightarrow> string" where
  "tag_text t =
     (case t of
        Shared n \<Rightarrow> ''shared:'' @ dec_nat n
      | Master n \<Rightarrow> ''master:'' @ dec_nat n
      | Propagate_From n \<Rightarrow> ''propagate_from:'' @ dec_nat n
      | Unbindable \<Rightarrow> ''unbindable'')"

text \<open>The path of a list of components, and how the mount table prints its blanks.\<close>

definition path_text :: "string list \<Rightarrow> string" where
  "path_text cs = (if cs = [] then ''/'' else abs_path cs)"

definition escape_blank :: "string \<Rightarrow> string" where
  "escape_blank s = concat (map (\<lambda>c. if c = CHR '' '' then [CHR 0x5C, CHR ''0'', CHR ''4'', CHR ''0''] else [c]) s)"

definition mount_words :: "kernel_mount \<Rightarrow> string list" where
  "mount_words m =
     [dec_nat (km_id m), dec_nat (km_parent m), dec_nat (fst (km_device m)) @ '':'' @ dec_nat (snd (km_device m)),
      km_root m, escape_blank (path_text (km_point m)), km_options m] @
     map tag_text (km_tags m) @ ''-'' # km_source m"

definition table_text :: "kernel_mount list \<Rightarrow> string" where
  "table_text ms = concat (map (\<lambda>m. join '' '' (mount_words m) @ [CHR 0x0A]) ms)"

text \<open>
  The names the table can show: the roots, options and sources are words, and the components of
  a mount point may have blanks, but neither backslashes nor other white space.
\<close>

definition point_chars :: "string \<Rightarrow> bool" where
  "point_chars = list_all (\<lambda>c. c = CHR '' '' \<or> c \<noteq> CHR 0x5C \<and> \<not> is_space c)"

definition plain_mount :: "kernel_mount \<Rightarrow> bool" where
  "plain_mount m \<longleftrightarrow>
     word (km_root m) \<and> km_root m \<noteq> ''-'' \<and> word (km_options m) \<and> km_options m \<noteq> ''-'' \<and> list_all word (km_source m) \<and>
     list_all plain (km_point m) \<and> list_all point_chars (km_point m)"

definition inode_types :: "u32 list" where
  "inode_types = [0x1000, 0x2000, 0x4000, 0x6000, 0x8000, 0xA000, 0xC000]"

definition shows_host :: "host_os \<Rightarrow> kernel_view \<Rightarrow> bool" where
  "shows_host sys k \<longleftrightarrow>
     (let file = os_ReadFile sys; line = (\<lambda>s. s @ [CHR 0x0A])
      in file ''/proc/sys/kernel/osrelease'' =
           map_option (\<lambda>(a, b, rest). line (dec_nat a @ ''.'' @ dec_nat b @ rest)) (kv_version k) \<and>
         file ''/sys/fs/cgroup/cgroup.controllers'' = map_option (line \<circ> join '' '') (kv_controllers k) \<and>
         file ''/proc/sys/user/max_user_namespaces'' = map_option (line \<circ> dec_nat) (kv_namespaces k) \<and>
         file ''/proc/sys/kernel/seccomp/actions_avail'' = map_option (line \<circ> join '' '') (kv_seccomp k) \<and>
         file ''/sys/kernel/security/lsm'' = map_option (join '','') (kv_lsms k) \<and>
         file ''/sys/module/apparmor/parameters/enabled'' =
           map_option (\<lambda>on. line (if on then ''Y'' else ''N'')) (kv_apparmor k) \<and>
         file ''/sys/fs/selinux/enforce'' = map_option (\<lambda>on. if on then ''1'' else ''0'') (kv_selinux k) \<and>
         file ''/proc/self/mountinfo'' = map_option table_text (kv_mounts k)) \<and>
     os_Lstat sys = (\<lambda>path. map_option (\<lambda>(mode, uid). \<lparr>fi_mode = file_mode_of_stat mode, fi_uid = Some uid\<rparr>) (kv_stat k path))"

text \<open>The words and numbers that a kernel has there.\<close>

definition plain_view :: "kernel_view \<Rightarrow> bool" where
  "plain_view k \<longleftrightarrow>
     (case kv_version k of None \<Rightarrow> True
      | Some (a, b, rest) \<Rightarrow> a < 2 ^ 63 \<and> b < 2 ^ 63 \<and> no_digit rest \<and> list_all (\<lambda>c. \<not> is_space c) rest) \<and>
     (case kv_namespaces k of None \<Rightarrow> True | Some n \<Rightarrow> n < 2 ^ 63) \<and>
     (case kv_controllers k of None \<Rightarrow> True | Some ws \<Rightarrow> list_all word ws) \<and>
     (case kv_seccomp k of None \<Rightarrow> True | Some ws \<Rightarrow> list_all word ws) \<and>
     (case kv_lsms k of None \<Rightarrow> True | Some ws \<Rightarrow> list_all (\<lambda>w. word w \<and> CHR '','' \<notin> set w) ws) \<and>
     (case kv_mounts k of None \<Rightarrow> True | Some ms \<Rightarrow> list_all plain_mount ms) \<and>
     (\<forall>path mode uid. kv_stat k path = Some (mode, uid) \<longrightarrow> mode AND 0xF000 \<in> set inode_types)"

text \<open>
  The mount that a path resolves to is the youngest of those at or above it: the table is in the
  order in which they were mounted, and each hides what lies under its mount point. It is
  private if it is in no peer group, receives from none and is not unbindable.
\<close>

definition covering :: "string list \<Rightarrow> kernel_mount \<Rightarrow> bool" where
  "covering cs m \<longleftrightarrow> prefix (km_point m) cs"

definition visible_mount :: "kernel_mount list \<Rightarrow> string list \<Rightarrow> kernel_mount option" where
  "visible_mount ms cs = (case rev (filter (covering cs) ms) of [] \<Rightarrow> None | m # _ \<Rightarrow> Some m)"

definition private_mount :: "kernel_mount \<Rightarrow> bool" where
  "private_mount m \<longleftrightarrow> list_all (\<lambda>t. case t of Propagate_From _ \<Rightarrow> True | _ \<Rightarrow> False) (km_tags m)"

text \<open>No mount above the path hides an earlier one.\<close>

definition unhidden :: "kernel_mount list \<Rightarrow> string list \<Rightarrow> bool" where
  "unhidden ms cs \<longleftrightarrow> sorted_wrt (\<lambda>x y. \<not> prefix (km_point y) (km_point x)) (filter (covering cs) ms)"

definition components :: "string \<Rightarrow> string list" where
  "components path = tl (split_on (CHR ''/'') path)"

text \<open>An inode of the type, owned by root and not writable by its group or by others.\<close>

definition root_owned :: "kernel_view \<Rightarrow> u32 \<Rightarrow> string \<Rightarrow> bool" where
  "root_owned k type path \<longleftrightarrow> (\<exists>mode. kv_stat k path = Some (mode, 0) \<and> mode AND 0xF000 = type \<and> mode AND 0x12 = 0)"

section \<open>Reading a number\<close>

lemma is_digit_hex: "is_digit c \<Longrightarrow> is_hex c \<and> unhex c = digit_val c \<and> digit_val c < 10 \<and> c \<noteq> CHR ''_'' \<and> \<not> is_space c"
  by (auto simp: is_hex_def unhex_def digit_val_def is_digit_def char_le_nat is_space_def)

lemma eval_digits_read:
  "list_all is_digit s \<Longrightarrow> eval_digits 10 acc s = Some (fst (read_dec acc s))"
  by (induction s arbitrary: acc) (auto simp: digit_below_def dest: is_digit_hex)

lemma dec_nat_hd: "0 < n \<Longrightarrow> hd (dec_nat n) \<noteq> CHR ''0''"
proof (induction n rule: dec_nat.induct)
  case (1 n)
  show ?case
  proof (cases "n < 10")
    case True
    then have "(of_char (digit_char n) :: nat) \<noteq> of_char (CHR ''0'')" using 1 by simp
    then have "digit_char n \<noteq> CHR ''0''" by metis
    then show ?thesis using True by (subst dec_nat.simps) simp
  next
    case False
    then show ?thesis using 1 by (subst dec_nat.simps) simp
  qed
qed

lemma dec_nat_all: "list_all is_digit (dec_nat n)"
  by (auto simp: list_all_iff dec_nat_digits)

lemma Sscan_dec_nat:
  assumes "n < 2 ^ 63"
  shows "Sscan_int64 (dec_nat n) = Some (int n)"
proof (cases "n = 0")
  case True
  have "Sscan_int64 (dec_nat 0) = Some 0" by code_simp
  then show ?thesis using True by simp
next
  case False
  obtain d ds where d: "dec_nat n = d # ds" by (cases "dec_nat n") auto
  then have dig: "is_digit d" "list_all is_digit ds" "d \<noteq> CHR ''0''"
    using dec_nat_all [of n] dec_nat_hd [of n] False by auto
  have skip: "SkipSpace True (d # ds) = Some (d # ds)" "accept_sign (d # ds) = (False, d # ds)"
    using is_digit_space [OF dig(1)] by (simp_all add: accept_sign_def)
  have all: "list_all (\<lambda>c. digit_below 10 c \<or> c = CHR ''_'') (d # ds)"
    using dig is_digit_hex by (auto simp: list_all_iff digit_below_def)
  then have "takeWhile (\<lambda>c. digit_below 10 c \<or> c = CHR ''_'') (d # ds) = d # ds"
    by (simp only: takeWhile_eq_all_conv list_all_iff)
  then have tok: "number_token (d # ds) = Some (d # ds)" using all dig(3) by (simp add: number_token_def)
  have "CHR ''_'' \<notin> set (d # ds)" using dig is_digit_hex by (auto simp: list_all_iff)
  then have "ParseUint0 (d # ds) = eval_digits 10 0 (d # ds)" using dig(3) by (simp add: ParseUint0_def)
  also have "\<dots> = Some n"
    using eval_digits_read [OF dec_nat_all, of 0 n] read_dec_inverse [of "[]" n] by (simp add: d no_digit_def)
  finally have "ParseUint0 (d # ds) = Some n" .
  then show ?thesis
    using skip tok assms by (simp add: d Sscan_int64_def i64_range_def signed_value_def)
qed

lemma dec_nat_ends: "\<not> is_space (hd (dec_nat n))" "\<not> is_space (last (dec_nat n))"
  using dec_nat_digits [of "hd (dec_nat n)" n] dec_nat_digits [of "last (dec_nat n)" n] is_digit_hex by auto

lemma word_dec_nat: "word (dec_nat n)"
  using dec_nat_all [of n] is_digit_hex by (auto simp: word_def list_all_iff)

section \<open>Reading the kernel's files\<close>

lemma TrimSpace_line:
  assumes "word s" "t = [] \<or> t = [CHR 0x0A]"
  shows "TrimSpace (s @ t) = s"
  using assms by (intro TrimSpace_id) (auto simp: word_def list_all_iff)

lemma checkKernel_shown:
  assumes "shows_host sys k" "plain_view k"
  shows "checkKernel c (LinuxProbe sys) = None \<longleftrightarrow>
    (\<exists>a b rest. kv_version k = Some (a, b, rest) \<and>
       (pc_MinimumKernelMajor c, pc_MinimumKernelMinor c) \<le> (int a, int b))"
proof (cases "kv_version k")
  case None
  then show ?thesis using assms(1) by (simp add: checkKernel_iff LinuxProbe_def shows_host_def Let_def)
next
  case (Some v)
  obtain a b rest where v: "v = (a, b, rest)" by (cases v)
  have p: "a < 2 ^ 63" "b < 2 ^ 63" "no_digit rest" "list_all (\<lambda>c. \<not> is_space c) rest"
    using assms(2) by (simp_all add: plain_view_def Some v)
  have "word (dec_nat a @ ''.'' @ dec_nat b @ rest)"
    using p(4) word_dec_nat by (auto simp: word_def is_space_def)
  then have "TrimSpace ((dec_nat a @ ''.'' @ dec_nat b @ rest) @ [CHR 0x0A]) = dec_nat a @ ''.'' @ dec_nat b @ rest"
    by (rule TrimSpace_line) simp
  then show ?thesis
    using assms(1) Sscanf_version_dec_nat [OF p(1-3)]
    by (auto simp: checkKernel_iff LinuxProbe_def shows_host_def Let_def Some v)
qed

lemma checkUserNamespaces_shown:
  assumes "shows_host sys k" "plain_view k"
  shows "checkUserNamespaces (LinuxProbe sys) = None \<longleftrightarrow> (\<exists>n>0. kv_namespaces k = Some n)"
  using assms TrimSpace_line [OF word_dec_nat] Sscan_dec_nat
  by (auto simp: checkUserNamespaces_iff LinuxProbe_def shows_host_def plain_view_def Let_def)

lemma join_blank: "list_all word ws \<Longrightarrow> (\<exists>ch\<in>set (join '' '' ws). \<not> is_space ch) \<longleftrightarrow> ws \<noteq> []"
  by (cases ws; cases "tl ws") (auto simp: word_def list_all_iff neq_Nil_conv)

lemma checkCgroupV2_shown:
  assumes "shows_host sys k" "plain_view k"
  shows "checkCgroupV2 (LinuxProbe sys) = None \<longleftrightarrow> (\<exists>ws. kv_controllers k = Some ws \<and> ws \<noteq> [])"
  using assms join_blank
  by (auto simp: checkCgroupV2_iff LinuxProbe_def shows_host_def plain_view_def Let_def)

lemma checkSeccomp_shown:
  assumes "shows_host sys k" "plain_view k"
  shows "checkSeccomp (LinuxProbe sys) = None \<longleftrightarrow> (\<exists>ws. kv_seccomp k = Some ws \<and> ''filter'' \<in> set ws)"
  using assms Fields_join
  by (auto simp: checkSeccomp_iff LinuxProbe_def shows_host_def plain_view_def Let_def)

lemma lsm_words:
  assumes "list_all (\<lambda>w. word w \<and> CHR '','' \<notin> set w) ws"
  shows "TrimSpace ` set (split_on (CHR '','') (TrimSpace (join '','' ws))) = (if ws = [] then {[]} else set ws)"
proof (cases "ws = []")
  case True
  then show ?thesis by (simp add: TrimSpace_def)
next
  case False
  have ne: "list_all (\<lambda>w. w \<noteq> []) ws" using assms by (simp add: list_all_iff word_def)
  have "word (hd ws)" "word (last ws)" using assms False by (simp_all add: list_all_iff)
  then have "\<not> is_space (hd (hd ws))" "\<not> is_space (last (last ws))"
    by (simp_all add: list_all_iff word_def)
  then have "TrimSpace (join '','' ws) = join '','' ws"
    using TrimSpace_id [of "join '','' ws" "[]"] join_ends [OF False ne, of "'',''"] by simp
  moreover have "split_on (CHR '','') (join '','' ws) = ws"
    using False assms by (intro split_on_join) (auto simp: list_all_iff)
  moreover have "TrimSpace w = w" if "w \<in> set ws" for w
    using TrimSpace_line [of w "[]"] assms that by (simp add: list_all_iff)
  ultimately show ?thesis using False by simp
qed

definition enforcing :: "kernel_view \<Rightarrow> string \<Rightarrow> bool" where
  "enforcing k lsm \<longleftrightarrow>
     lsm = ''apparmor'' \<and> kv_apparmor k = Some True \<or> lsm = ''selinux'' \<and> kv_selinux k = Some True"

lemma checkLSM_shown:
  assumes "shows_host sys k" "plain_view k"
  shows "checkLSM c (LinuxProbe sys) = None \<longleftrightarrow>
    (\<exists>ws. kv_lsms k = Some ws \<and> pc_RequiredLSM c \<in> set ws) \<and> enforcing k (pc_RequiredLSM c)"
proof -
  let ?lsm = "pc_RequiredLSM c"
  have files: "os_ReadFile sys ''/sys/kernel/security/lsm'' = map_option (join '','') (kv_lsms k)"
      "os_ReadFile sys ''/sys/module/apparmor/parameters/enabled'' =
         map_option (\<lambda>on. if on then ''Y'' @ [CHR 0x0A] else ''N'' @ [CHR 0x0A]) (kv_apparmor k)"
      "os_ReadFile sys ''/sys/fs/selinux/enforce'' = map_option (\<lambda>on. if on then ''1'' else ''0'') (kv_selinux k)"
    using assms(1) by (simp_all add: shows_host_def Let_def if_distrib [of "\<lambda>s. s @ _"] cong: if_cong)
  have words: "?lsm \<in> TrimSpace ` set (split_on (CHR '','') (TrimSpace (join '','' ws))) \<longleftrightarrow> ?lsm \<in> set ws"
    if "kv_lsms k = Some ws" "?lsm \<noteq> []" for ws
    using lsm_words [of ws] assms(2) that by (auto simp: plain_view_def)
  have on: "TrimSpace (''Y'' @ [CHR 0x0A]) = ''Y''" "TrimSpace (''N'' @ [CHR 0x0A]) = ''N''" "TrimSpace ''1'' = ''1''" "TrimSpace ''0'' = ''0''"
    by code_simp+
  have listed: "(\<exists>data. pr_ReadFile (LinuxProbe sys) ''/sys/kernel/security/lsm'' = Some data \<and>
      ?lsm \<in> TrimSpace ` set (split_on (CHR '','') (TrimSpace data))) \<longleftrightarrow> (\<exists>ws. kv_lsms k = Some ws \<and> ?lsm \<in> set ws)"
    if "?lsm \<noteq> []"
    using that words files(1) by (cases "kv_lsms k") (simp_all add: LinuxProbe_def)
  have posture: "(\<exists>path expected state. lsm_posture ?lsm = Some (path, expected) \<and>
      pr_ReadFile (LinuxProbe sys) path = Some state \<and> TrimSpace state = expected) \<longleftrightarrow> enforcing k ?lsm"
  proof -
    consider "?lsm = ''apparmor''" | "?lsm = ''selinux''" | "?lsm \<noteq> ''apparmor''" "?lsm \<noteq> ''selinux''" by blast
    then show ?thesis
    proof cases
      case 1
      then show ?thesis using files(2) on(1,2)
        by (cases "kv_apparmor k") (auto simp: lsm_posture_def enforcing_def LinuxProbe_def)
    next
      case 2
      then show ?thesis using files(3) on(3,4)
        by (cases "kv_selinux k") (auto simp: lsm_posture_def enforcing_def LinuxProbe_def)
    next
      case 3
      then show ?thesis by (simp add: lsm_posture_def enforcing_def)
    qed
  qed
  have "enforcing k ?lsm \<Longrightarrow> ?lsm \<noteq> []" by (auto simp: enforcing_def)
  then show ?thesis using listed posture unfolding checkLSM_iff by blast
qed

section \<open>Reading the mount table\<close>

lemma escape_blank_Nil [simp]: "escape_blank [] = []"
  by (simp add: escape_blank_def)

lemma escape_blank_Cons:
  "escape_blank (c # s) = (if c = CHR '' '' then [CHR 0x5C, CHR ''0'', CHR ''4'', CHR ''0''] else [c]) @ escape_blank s"
  by (simp add: escape_blank_def)

lemma unescape_other: "c \<noteq> CHR 0x5C \<Longrightarrow> unescape_blank (c # s) = c # unescape_blank s"
  by (cases s rule: unescape_blank.cases; cases "tl (tl (tl s))") auto

lemma unescape_escape: "CHR 0x5C \<notin> set s \<Longrightarrow> unescape_blank (escape_blank s) = s"
  by (induction s) (auto simp: escape_blank_Cons unescape_other)

lemma point_chars_path:
  assumes "plain_mount m"
  shows "point_chars (path_text (km_point m))"
proof -
  have "list_all point_chars cs \<Longrightarrow> point_chars (abs_path cs)" for cs
    by (induction cs) (auto simp: point_chars_def is_space_def)
  moreover have "point_chars ''/''" by (simp add: point_chars_def is_space_def)
  ultimately show ?thesis using assms by (simp add: plain_mount_def path_text_def)
qed

lemma path_text_hd: "\<exists>s. path_text cs = CHR ''/'' # s"
  by (cases cs) (auto simp: path_text_def)

lemma not_space_escape [simp]: "\<not> is_space (CHR 0x5C)" "\<not> is_space (CHR ''0'')" "\<not> is_space (CHR ''4'')"
  "\<not> is_space (CHR '':'')" "\<not> is_space (CHR ''-'')" "\<not> is_space (CHR ''/'')"
  by (simp_all add: is_space_def)

lemma escape_word: "point_chars s \<Longrightarrow> list_all (\<lambda>c. \<not> is_space c) (escape_blank s)"
  by (induction s) (auto simp: escape_blank_Cons point_chars_def)

lemma point_chars_backslash: "point_chars s \<Longrightarrow> CHR 0x5C \<notin> set s"
  unfolding point_chars_def by (induction s) (simp, fastforce)

lemma escaped_point:
  assumes "plain_mount m"
  shows "word (escape_blank (path_text (km_point m)))" "escape_blank (path_text (km_point m)) \<noteq> ''-''"
    and "unescape_blank (escape_blank (path_text (km_point m))) = path_text (km_point m)"
proof -
  note p = point_chars_path [OF assms]
  obtain s where s: "path_text (km_point m) = CHR ''/'' # s" using path_text_hd by blast
  have e: "escape_blank (path_text (km_point m)) = CHR ''/'' # escape_blank s" unfolding s by (simp add: escape_blank_Cons)
  then show "word (escape_blank (path_text (km_point m)))" "escape_blank (path_text (km_point m)) \<noteq> ''-''"
    using escape_word [OF p] by (simp_all add: word_def)
  show "unescape_blank (escape_blank (path_text (km_point m))) = path_text (km_point m)"
    by (rule unescape_escape [OF point_chars_backslash [OF p]])
qed

lemma tag_text_word: "word (tag_text t)" "tag_text t \<noteq> ''-''"
  using dec_nat_all is_digit_hex by (cases t; auto simp: tag_text_def word_def is_space_def list_all_iff)+

lemma propagation_tag:
  "propagation_step (tag_text t) p =
     (case t of Shared _ \<Rightarrow> ''shared'' | Master _ \<Rightarrow> ''slave'' | Propagate_From _ \<Rightarrow> p | Unbindable \<Rightarrow> ''unbindable'')"
  by (cases t) (simp_all add: propagation_step_def tag_text_def HasPrefix_def)

definition unsafe_modes :: "string set" where
  "unsafe_modes = {''shared'', ''slave'', ''unbindable''}"

lemma propagation_tags:
  "fold propagation_step (map tag_text ts) p \<notin> unsafe_modes \<longleftrightarrow>
     p \<notin> unsafe_modes \<and> list_all (\<lambda>t. case t of Propagate_From _ \<Rightarrow> True | _ \<Rightarrow> False) ts"
proof (induction ts arbitrary: p)
  case (Cons t ts)
  then show ?case by (cases t) (auto simp: propagation_tag unsafe_modes_def)
qed simp

text \<open>The entry of the code's table for a mount of the kernel.\<close>

definition entry_of :: "kernel_mount \<Rightarrow> MountInfo" where
  "entry_of m = \<lparr>mi_MountPoint = path_text (km_point m),
     mi_Propagation = fold propagation_step (map tag_text (km_tags m)) ''private''\<rparr>"

lemma entry_private: "mi_Propagation (entry_of m) \<notin> unsafe_modes \<longleftrightarrow> private_mount m"
  by (simp add: entry_of_def propagation_tags private_mount_def) (simp add: unsafe_modes_def)

lemma mount_words_word: "plain_mount m \<Longrightarrow> list_all word (mount_words m)"
proof -
  assume m: "plain_mount m"
  have "word (dec_nat a @ '':'' @ dec_nat b)" for a b using word_dec_nat [of a] word_dec_nat [of b] by (simp add: word_def)
  moreover have "word ''-''" by (simp add: word_def)
  ultimately show ?thesis
    using m escaped_point(1) [OF m] tag_text_word(1) word_dec_nat
    unfolding mount_words_def plain_mount_def by (simp add: list.pred_map list.pred_True comp_def)
qed

lemma mount_words_separator:
  assumes "plain_mount m"
  shows "separator_index (mount_words m) = 6 + length (km_tags m)"
proof -
  have d: "dec_nat n \<noteq> ''-''" for n
    using dec_nat_all [of n] by (auto simp: is_digit_def char_le_nat)
  have dev: "dec_nat a @ CHR '':'' # dec_nat b \<noteq> ''-''" for a b by (cases "dec_nat a") auto
  have tags: "takeWhile (\<lambda>f. f \<noteq> ''-'') (map tag_text ts @ ''-'' # r) = map tag_text ts" for ts r
    by (induction ts) (auto simp: tag_text_word)
  show ?thesis
    using assms escaped_point(2) [OF assms]
    by (simp add: separator_index_def mount_words_def plain_mount_def d dev tags)
qed

lemma mount_line_shown:
  assumes "plain_mount m"
  shows "mount_line (join '' '' (mount_words m)) = Some (entry_of m)"
proof -
  have f: "Fields (join '' '' (mount_words m)) = mount_words m"
    using Fields_join [OF mount_words_word [OF assms], of "[]"] by simp
  have "length (mount_words m) = 7 + length (km_tags m) + length (km_source m)" by (simp add: mount_words_def)
  then show ?thesis
    using mount_words_separator [OF assms] escaped_point(3) [OF assms]
    by (simp add: mount_line_def Let_def f) (simp add: mount_words_def entry_of_def)
qed

lemma mount_lines_shown: "list_all plain_mount ms \<Longrightarrow> mount_lines (map (\<lambda>m. join '' '' (mount_words m)) ms) = Some (map entry_of ms)"
  by (induction ms) (simp_all add: mount_line_shown)

lemma join_words_no_newline:
  assumes "list_all word ws"
  shows "CHR 0x0A \<notin> set (join '' '' ws)"
proof -
  have "w \<in> set ws \<Longrightarrow> CHR 0x0A \<notin> set w" for w using assms is_space_blank(2) unfolding list_all_iff word_def by blast
  then show ?thesis by (induction "'' ''" ws rule: join.induct) auto
qed

lemma readMountInfo_shown:
  assumes "list_all plain_mount ms" "ms \<noteq> []"
  shows "readMountInfo (Some (table_text ms)) = Some (map entry_of ms)"
proof -
  let ?ls = "map (\<lambda>m. join '' '' (mount_words m)) ms"
  have table: "table_text ms = join [CHR 0x0A] ?ls @ [CHR 0x0A]"
    using assms(2) join_line [of "CHR 0x0A" ?ls] by (simp add: table_text_def comp_def)
  have w: "mount_words m \<noteq> []" "list_all (\<lambda>w. w \<noteq> []) (mount_words m)" "word (hd (mount_words m))" "word (last (mount_words m))"
    if "m \<in> set ms" for m
  proof -
    have "plain_mount m" using assms(1) that by (simp add: list_all_iff)
    then have "list_all word (mount_words m)" by (rule mount_words_word)
    moreover show ne: "mount_words m \<noteq> []" by (simp add: mount_words_def)
    ultimately show "word (hd (mount_words m))" "word (last (mount_words m))" by (simp_all add: list_all_iff)
    show "list_all (\<lambda>w. w \<noteq> []) (mount_words m)"
      using \<open>list_all word (mount_words m)\<close> by (simp add: list_all_iff word_def)
  qed
  have ends: "join '' '' (mount_words m) \<noteq> []" "\<not> is_space (hd (join '' '' (mount_words m)))"
      "\<not> is_space (last (join '' '' (mount_words m)))" if "m \<in> set ms" for m
    using join_ends [OF w(1,2) [OF that], of "'' ''"] w(3,4) [OF that] by (simp_all add: word_def list_all_iff)
  have "list_all (\<lambda>l. l \<noteq> []) ?ls" using ends(1) by (simp add: list_all_iff)
  from join_ends [OF _ this, of "[CHR 0x0A]"] have "TrimSpace (table_text ms) = join [CHR 0x0A] ?ls"
    unfolding table using assms(2) ends
    by (intro TrimSpace_id) (simp_all add: hd_map last_map)
  moreover have "split_on (CHR 0x0A) (join [CHR 0x0A] ?ls) = ?ls"
    using assms join_words_no_newline mount_words_word by (intro split_on_join) (auto simp: list_all_iff)
  ultimately show ?thesis using mount_lines_shown [OF assms(1)] by (simp add: readMountInfo_def)
qed

lemma readMountInfo_empty: "readMountInfo (Some (table_text [])) = None"
  by code_simp

section \<open>The mount of a path\<close>

lemma covers_entry:
  assumes "plain_mount m" "\<forall>c\<in>set cs. plain c"
  shows "covers (abs_path cs) (entry_of m) \<longleftrightarrow> covering cs m"
proof (cases "km_point m = []")
  case True
  then show ?thesis by (simp add: covers_def entry_of_def path_text_def covering_def)
next
  case False
  then obtain p ps where c: "km_point m = p # ps" by (cases "km_point m") auto
  have "\<forall>c\<in>set (km_point m). plain c" using assms(1) by (auto simp: plain_mount_def list_all_iff)
  moreover have "abs_path (km_point m) \<noteq> ''/''" using calculation by (auto simp: c plain_def)
  ultimately show ?thesis
    using abs_path_prefix_iff [OF _ assms(2) False] False
    by (simp add: covers_def entry_of_def path_text_def covering_def)
qed

lemma path_text_length: "\<forall>c\<in>set qs. plain c \<Longrightarrow> strict_prefix ps qs \<Longrightarrow> length (path_text ps) < length (path_text qs)"
proof -
  assume q: "\<forall>c\<in>set qs. plain c" and "strict_prefix ps qs"
  then obtain r rs where qs: "qs = ps @ r # rs" by (auto elim: strict_prefixE')
  then have "r \<noteq> []" using q by (simp add: plain_def)
  then show ?thesis by (cases r) (simp_all add: path_text_def qs abs_path_def)
qed

lemma first_longest_last:
  assumes "sorted_wrt (\<lambda>x y. length (mi_MountPoint x) < length (mi_MountPoint y)) l"
  shows "first_longest l m \<longleftrightarrow> l \<noteq> [] \<and> last l = m"
proof
  assume "first_longest l m"
  then obtain before after where l: "l = before @ m # after"
      "\<forall>x\<in>set after. length (mi_MountPoint x) \<le> length (mi_MountPoint m)"
    unfolding first_longest_def by blast
  then have "after = []" using assms by (cases after) (auto simp: sorted_wrt_append)
  then show "l \<noteq> [] \<and> last l = m" using l(1) by simp
next
  assume "l \<noteq> [] \<and> last l = m"
  then obtain l' where l: "l = l' @ [m]" by (cases l rule: rev_cases) auto
  then have "\<forall>x\<in>set l'. length (mi_MountPoint x) < length (mi_MountPoint m)"
    using assms by (simp add: sorted_wrt_append)
  then show "first_longest l m" unfolding first_longest_def l by fastforce
qed

lemma coveringMount_visible:
  assumes "list_all plain_mount ms" "\<forall>c\<in>set cs. plain c" "unhidden ms cs"
  shows "coveringMount (abs_path cs) (map entry_of ms) = map_option entry_of (visible_mount ms cs)"
proof -
  let ?l = "filter (covering cs) ms"
  have f: "filter (covers (abs_path cs)) (map entry_of ms) = map entry_of ?l"
    using assms(1) covers_entry [OF _ assms(2)]
    unfolding filter_map comp_def by (intro arg_cong [where f = "map entry_of"] filter_cong) (auto simp: list_all_iff)
  have "length (mi_MountPoint (entry_of x)) < length (mi_MountPoint (entry_of y))"
    if "x \<in> set ?l" "y \<in> set ?l" "\<not> prefix (km_point y) (km_point x)" for x y
  proof -
    have "prefix (km_point x) cs" "prefix (km_point y) cs" using that(1,2) by (simp_all add: covering_def)
    then have "strict_prefix (km_point x) (km_point y)"
      using that(3) prefix_same_cases [of "km_point x" cs "km_point y"] by (auto simp: strict_prefix_def)
    moreover have "\<forall>c\<in>set (km_point y). plain c" using assms(1) that(2) by (auto simp: plain_mount_def list_all_iff)
    ultimately show ?thesis using path_text_length by (simp add: entry_of_def)
  qed
  then have "sorted_wrt (\<lambda>x y. length (mi_MountPoint x) < length (mi_MountPoint y)) (map entry_of ?l)"
    unfolding sorted_wrt_map by (rule sorted_wrt_mono_rel [OF _ assms(3) [unfolded unhidden_def]])
  from first_longest_last [OF this]
  have "coveringMount (abs_path cs) (map entry_of ms) = Some e \<longleftrightarrow> ?l \<noteq> [] \<and> entry_of (last ?l) = e" for e
    unfolding coveringMount_core f by (simp add: last_map cong: conj_cong)
  then show ?thesis
    by (cases ?l rule: rev_cases; cases "coveringMount (abs_path cs) (map entry_of ms)") (auto simp: visible_mount_def)
qed

lemma checkMountPropagation_shown:
  assumes "shows_host sys k" "plain_view k"
    and "\<forall>t\<in>insert (pc_BaseRoot c) (set (pc_ProtectedPaths c)). safeAbsolutePath t"
    and "\<forall>ms. kv_mounts k = Some ms \<longrightarrow>
      (\<forall>t\<in>insert (pc_BaseRoot c) (set (pc_ProtectedPaths c)). unhidden ms (components t))"
  shows "checkMountPropagation c (LinuxProbe sys) = None \<longleftrightarrow>
    (\<exists>ms. kv_mounts k = Some ms \<and> (\<forall>t\<in>insert (pc_BaseRoot c) (set (pc_ProtectedPaths c)).
       \<exists>m. visible_mount ms (components t) = Some m \<and> private_mount m))"
proof (cases "kv_mounts k")
  case None
  then show ?thesis using assms(1) by (simp add: checkMountPropagation_iff LinuxProbe_def shows_host_def readMountInfo_def Let_def)
next
  case (Some ms)
  have table: "pr_ReadMounts (LinuxProbe sys) = readMountInfo (Some (table_text ms))"
    using assms(1) by (simp add: LinuxProbe_def shows_host_def Let_def Some)
  have plain_ms: "list_all plain_mount ms" using assms(2) by (simp add: plain_view_def Some)
  have entry: "coveringMount t (map entry_of ms) = map_option entry_of (visible_mount ms (components t))"
    if t: "t \<in> insert (pc_BaseRoot c) (set (pc_ProtectedPaths c))" for t
  proof -
    obtain cs where cs: "cs \<noteq> []" "\<forall>c\<in>set cs. plain c" "t = abs_path cs"
      using assms(3) t safeAbsolutePath_iff by blast
    have "components t = cs" unfolding components_def cs(3) split_abs_path [OF cs(1,2)] by simp
    then show ?thesis using coveringMount_visible [OF plain_ms cs(2)] assms(4) t Some cs(3) by auto
  qed
  have same: "(\<exists>e. coveringMount t (map entry_of ms) = Some e \<and> mi_Propagation e \<notin> unsafe_modes) \<longleftrightarrow>
      (\<exists>m. visible_mount ms (components t) = Some m \<and> private_mount m)"
    if "t \<in> insert (pc_BaseRoot c) (set (pc_ProtectedPaths c))" for t
    unfolding entry [OF that] by (cases "visible_mount ms (components t)") (simp_all add: entry_private)
  show ?thesis
  proof (cases "ms = []")
    case True
    then show ?thesis using Some table by (simp add: checkMountPropagation_iff readMountInfo_empty visible_mount_def)
  next
    case False
    show ?thesis
      unfolding checkMountPropagation_iff table readMountInfo_shown [OF plain_ms False] unsafe_modes_def [symmetric]
      using same Some by simp
  qed
qed

section \<open>Inodes\<close>

lemma stat_masked:
  "file_mode_of_stat s AND ModeDir = file_type_bits s AND ModeDir"
  "file_mode_of_stat s AND ModeSymlink = file_type_bits s AND ModeSymlink"
  "file_mode_of_stat s AND ModeType = file_type_bits s AND ModeType"
  "(file_mode_of_stat s AND ModePerm) AND 0x12 = s AND 0x12"
  by (simp_all add: file_mode_masked word_and_or mode_defs and.assoc)
     (simp_all add: file_type_bits_def Let_def mode_defs)

lemma stat_checks:
  assumes "s AND 0xF000 \<in> set inode_types"
  shows "mode_IsDir (file_mode_of_stat s) \<longleftrightarrow> s AND 0xF000 = 0x4000"
    and "mode_IsRegular (file_mode_of_stat s) \<longleftrightarrow> s AND 0xF000 = 0x8000"
    and "file_mode_of_stat s AND ModeSymlink \<noteq> 0 \<longleftrightarrow> s AND 0xF000 = 0xA000"
    and "mode_Perm (file_mode_of_stat s) AND 0x12 = s AND 0x12"
  using assms unfolding mode_IsDir_def mode_IsRegular_def mode_Perm_def stat_masked file_type_bits_def Let_def
  by (auto simp: inode_types_def mode_defs)

lemma checkOwnerControlledPath_shown:
  assumes "shows_host sys k" "plain_view k"
  shows "checkOwnerControlledPath (LinuxProbe sys) False path = None \<longleftrightarrow> root_owned k 0x4000 path"
    and "checkOwnerControlledPath (LinuxProbe sys) True path = None \<longleftrightarrow> root_owned k 0x8000 path"
proof -
  have stat: "pr_Stat (LinuxProbe sys) path =
      map_option (\<lambda>(mode, uid). \<lparr>fi_mode = file_mode_of_stat mode, fi_uid = Some uid\<rparr>) (kv_stat k path)"
    using assms(1) by (simp add: LinuxProbe_def shows_host_def Let_def)
  have "mode AND 0xF000 \<in> set inode_types" if "kv_stat k path = Some (mode, uid)" for mode uid
    using assms(2) that unfolding plain_view_def by blast
  note checks = stat_checks [OF this]
  show "checkOwnerControlledPath (LinuxProbe sys) False path = None \<longleftrightarrow> root_owned k 0x4000 path"
    and "checkOwnerControlledPath (LinuxProbe sys) True path = None \<longleftrightarrow> root_owned k 0x8000 path"
    unfolding checkOwnerControlledPath_iff root_controlled_def root_owned_def stat
    using checks by (cases "kv_stat k path"; auto)+
qed

section \<open>Admission\<close>

text \<open>
  What a host must have to be admitted: the kernel and its features, and the paths of the
  configuration.
\<close>

definition fit_kernel :: "PreflightConfig \<Rightarrow> kernel_view \<Rightarrow> bool" where
  "fit_kernel c k \<longleftrightarrow>
     (\<exists>a b rest. kv_version k = Some (a, b, rest) \<and> (pc_MinimumKernelMajor c, pc_MinimumKernelMinor c) \<le> (int a, int b)) \<and>
     (\<exists>ws. kv_controllers k = Some ws \<and> ws \<noteq> []) \<and>
     (\<exists>n>0. kv_namespaces k = Some n) \<and>
     (\<exists>ws. kv_seccomp k = Some ws \<and> ''filter'' \<in> set ws) \<and>
     (\<exists>ws. kv_lsms k = Some ws \<and> pc_RequiredLSM c \<in> set ws) \<and> enforcing k (pc_RequiredLSM c)"

definition protected_dirs :: "PreflightConfig \<Rightarrow> string set" where
  "protected_dirs c = insert (pc_BaseRoot c) (set (pc_ProtectedPaths c))"

definition fit_paths :: "PreflightConfig \<Rightarrow> kernel_view \<Rightarrow> bool" where
  "fit_paths c k \<longleftrightarrow>
     (\<exists>ms. kv_mounts k = Some ms \<and>
        (\<forall>t\<in>protected_dirs c. \<exists>m. visible_mount ms (components t) = Some m \<and> private_mount m)) \<and>
     (\<forall>t\<in>protected_dirs c. root_owned k 0x4000 t) \<and>
     (\<forall>t\<in>set (pc_RequiredServiceFiles c). root_owned k 0x8000 t)"

definition nothing_hidden :: "PreflightConfig \<Rightarrow> kernel_view \<Rightarrow> bool" where
  "nothing_hidden c k \<longleftrightarrow>
     (case kv_mounts k of None \<Rightarrow> True | Some ms \<Rightarrow> \<forall>t\<in>protected_dirs c. unhidden ms (components t))"

lemma NewPreflight_paths:
  assumes "NewPreflight c = Inr pf"
  shows "pc_Probe (pf_config pf) = pc_Probe c" "\<forall>t\<in>protected_dirs (pf_config pf). safeAbsolutePath t"
proof -
  obtain "pc_Probe (pf_config pf) = pc_Probe c"
      "list_all safeAbsolutePath (pc_ProtectedPaths (pf_config pf) @ pc_RequiredServiceFiles (pf_config pf) @ [pc_BaseRoot (pf_config pf)])"
    using assms by (auto simp: NewPreflight_def Let_def split: if_splits)
  then show "pc_Probe (pf_config pf) = pc_Probe c" "\<forall>t\<in>protected_dirs (pf_config pf). safeAbsolutePath t"
    by (auto simp: protected_dirs_def list_all_iff)
qed

lemma checks_but_mounts:
  assumes "shows_host sys k" "plain_view k"
  shows "first_error (preflight_checks c (LinuxProbe sys)) = None \<longleftrightarrow>
    fit_kernel c k \<and> checkMountPropagation c (LinuxProbe sys) = None \<and>
    (\<forall>t\<in>protected_dirs c. root_owned k 0x4000 t) \<and> (\<forall>t\<in>set (pc_RequiredServiceFiles c). root_owned k 0x8000 t)"
proof -
  have clock: "checkClock (LinuxProbe sys) = None" by (simp add: checkClock_def LinuxProbe_def)
  have "first_error (preflight_checks c (LinuxProbe sys)) = None \<longleftrightarrow>
      checkKernel c (LinuxProbe sys) = None \<and> checkCgroupV2 (LinuxProbe sys) = None \<and>
      checkUserNamespaces (LinuxProbe sys) = None \<and> checkSeccomp (LinuxProbe sys) = None \<and>
      checkLSM c (LinuxProbe sys) = None \<and> checkMountPropagation c (LinuxProbe sys) = None \<and>
      (\<forall>t\<in>protected_dirs c. checkOwnerControlledPath (LinuxProbe sys) False t = None) \<and>
      (\<forall>t\<in>set (pc_RequiredServiceFiles c). checkOwnerControlledPath (LinuxProbe sys) True t = None)"
    unfolding first_error_None preflight_checks_def protected_dirs_def using clock by auto
  then show ?thesis
    unfolding checkKernel_shown [OF assms] checkCgroupV2_shown [OF assms] checkUserNamespaces_shown [OF assms]
      checkSeccomp_shown [OF assms] checkLSM_shown [OF assms] checkOwnerControlledPath_shown [OF assms]
      fit_kernel_def by blast
qed

lemma checks_shown:
  assumes "shows_host sys k" "plain_view k" "\<forall>t\<in>protected_dirs c. safeAbsolutePath t" "nothing_hidden c k"
  shows "first_error (preflight_checks c (LinuxProbe sys)) = None \<longleftrightarrow> fit_kernel c k \<and> fit_paths c k"
proof -
  have hidden: "\<forall>ms. kv_mounts k = Some ms \<longrightarrow> (\<forall>t\<in>protected_dirs c. unhidden ms (components t))"
    using assms(4) by (simp add: nothing_hidden_def split: option.splits)
  have "checkMountPropagation c (LinuxProbe sys) = None \<longleftrightarrow> (\<exists>ms. kv_mounts k = Some ms \<and>
      (\<forall>t\<in>protected_dirs c. \<exists>m. visible_mount ms (components t) = Some m \<and> private_mount m))"
    unfolding protected_dirs_def
    by (rule checkMountPropagation_shown [OF assms(1,2)]) (use assms(3) hidden in \<open>simp_all add: protected_dirs_def\<close>)
  then show ?thesis unfolding checks_but_mounts [OF assms(1,2)] fit_paths_def by blast
qed

section \<open>A concrete host\<close>

text \<open>
  A host with a shared root mount and a private mount for the base root and the protected path.
  With \<open>hiding\<close>, a shared mount has been stacked on the private one.
\<close>

definition demo_mount :: "nat \<Rightarrow> string list \<Rightarrow> peer_tag list \<Rightarrow> kernel_mount" where
  "demo_mount n point tags = \<lparr>km_id = n, km_parent = 1, km_device = (8, 1), km_root = ''/'', km_point = point,
     km_options = ''rw'', km_tags = tags, km_source = [''ext4'', ''/dev/sda1'', ''rw'']\<rparr>"

definition demo_view :: "bool \<Rightarrow> kernel_view" where
  "demo_view hiding = \<lparr>kv_version = Some (5, 15, ''.0-91-generic''), kv_controllers = Some [''cpu'', ''memory'', ''pids''],
     kv_namespaces = Some 63204, kv_seccomp = Some [''kill_process'', ''filter'', ''log''],
     kv_lsms = Some [''lockdown'', ''apparmor''], kv_apparmor = Some True, kv_selinux = None,
     kv_mounts = Some ([demo_mount 22 [] [Shared 1], demo_mount 31 [''srv''] []] @
       (if hiding then [demo_mount 32 [''srv''] [Shared 2]] else [])),
     kv_stat = map_of [(''/srv/base'', (0x41ED, 0)), (''/srv/cages'', (0x41C0, 0)), (''/etc/cages.conf'', (0x81A4, 0))]\<rparr>"

text \<open>The operating system that shows a view, and the configuration of its preflight.\<close>

definition os_of :: "kernel_view \<Rightarrow> host_os" where
  "os_of k = \<lparr>os_GOOS = ''linux'',
     os_ReadFile = (\<lambda>path.
       if path = ''/proc/sys/kernel/osrelease''
       then map_option (\<lambda>(a, b, rest). (dec_nat a @ ''.'' @ dec_nat b @ rest) @ [CHR 0x0A]) (kv_version k)
       else if path = ''/sys/fs/cgroup/cgroup.controllers'' then map_option (\<lambda>ws. join '' '' ws @ [CHR 0x0A]) (kv_controllers k)
       else if path = ''/proc/sys/user/max_user_namespaces'' then map_option (\<lambda>n. dec_nat n @ [CHR 0x0A]) (kv_namespaces k)
       else if path = ''/proc/sys/kernel/seccomp/actions_avail'' then map_option (\<lambda>ws. join '' '' ws @ [CHR 0x0A]) (kv_seccomp k)
       else if path = ''/sys/kernel/security/lsm'' then map_option (join '','') (kv_lsms k)
       else if path = ''/sys/module/apparmor/parameters/enabled''
       then map_option (\<lambda>on. (if on then ''Y'' else ''N'') @ [CHR 0x0A]) (kv_apparmor k)
       else if path = ''/sys/fs/selinux/enforce'' then map_option (\<lambda>on. if on then ''1'' else ''0'') (kv_selinux k)
       else if path = ''/proc/self/mountinfo'' then map_option table_text (kv_mounts k) else None),
     os_Lstat = (\<lambda>path. map_option (\<lambda>(mode, uid). \<lparr>fi_mode = file_mode_of_stat mode, fi_uid = Some uid\<rparr>) (kv_stat k path)),
     os_Statfs = (\<lambda>_. None), os_Now = \<lparr>t_ns = 0, t_zone = 0\<rparr>\<rparr>"

definition demo_preflight_config :: "kernel_view \<Rightarrow> PreflightConfig" where
  "demo_preflight_config k = \<lparr>pc_ProtectedPaths = [''/srv/cages''], pc_RequiredServiceFiles = [''/etc/cages.conf''],
     pc_BaseRoot = ''/srv/base'', pc_RequiredLSM = ''apparmor'', pc_Probe = Some (LinuxProbe (os_of k)),
     pc_MinimumKernelMajor = 5, pc_MinimumKernelMinor = 4\<rparr>"

lemma os_of_shows: "shows_host (os_of k) k"
  by (simp add: shows_host_def os_of_def Let_def comp_def)

lemma demo_preflight_new: "NewPreflight (demo_preflight_config k) = Inr \<lparr>pf_config = demo_preflight_config k\<rparr>"
proof -
  have "list_all safeAbsolutePath [''/srv/cages'', ''/etc/cages.conf'', ''/srv/base'']" by code_simp
  then show ?thesis by (simp add: NewPreflight_def demo_preflight_config_def)
qed

lemma demo_stat_types:
  "kv_stat (demo_view hiding) path = Some (mode, uid) \<Longrightarrow> mode AND 0xF000 \<in> set inode_types"
  by (auto simp: demo_view_def inode_types_def split: if_splits)

lemma demo_view_plain: "plain_view (demo_view hiding)"
proof -
  have "no_digit ''.0-91-generic''" "list_all (\<lambda>c. \<not> is_space c) ''.0-91-generic''"
      "list_all word [''cpu'', ''memory'', ''pids'']" "list_all word [''kill_process'', ''filter'', ''log'']"
      "list_all (\<lambda>w. word w \<and> CHR '','' \<notin> set w) [''lockdown'', ''apparmor'']"
      "list_all plain_mount [demo_mount 22 [] [Shared 1], demo_mount 31 [''srv''] [], demo_mount 32 [''srv''] [Shared 2]]"
    by code_simp+
  then show ?thesis using demo_stat_types by (simp add: plain_view_def) (simp add: demo_view_def)
qed

text \<open>Everything but the mounts is as it must be, hiding or not.\<close>

lemma demo_dirs: "protected_dirs (demo_preflight_config k) = {''/srv/base'', ''/srv/cages''}"
  by (auto simp: protected_dirs_def demo_preflight_config_def)

lemma demo_components: "components ''/srv/base'' = [''srv'', ''base'']" "components ''/srv/cages'' = [''srv'', ''cages'']"
  by code_simp+

lemma demo_fit_kernel: "fit_kernel (demo_preflight_config k) (demo_view hiding)"
  by (simp add: fit_kernel_def enforcing_def demo_view_def demo_preflight_config_def)

lemma demo_root_owned:
  "\<forall>t\<in>protected_dirs (demo_preflight_config k). root_owned (demo_view hiding) 0x4000 t"
  "\<forall>t\<in>set (pc_RequiredServiceFiles (demo_preflight_config k)). root_owned (demo_view hiding) 0x8000 t"
  by (simp_all add: demo_dirs) (simp_all add: root_owned_def demo_view_def demo_preflight_config_def)

lemma hiding_admitted: "Check (Some \<lparr>pf_config = demo_preflight_config (demo_view True)\<rparr>) False = None"
proof -
  let ?k = "demo_view True" let ?c = "demo_preflight_config ?k"
  let ?ms = "[demo_mount 22 [] [Shared 1], demo_mount 31 [''srv''] [], demo_mount 32 [''srv''] [Shared 2]]"
  have ms: "kv_mounts ?k = Some ?ms" by (simp add: demo_view_def)
  have "list_all plain_mount ?ms" using demo_view_plain [of True] ms by (simp add: plain_view_def)
  then have "pr_ReadMounts (LinuxProbe (os_of ?k)) = Some (map entry_of ?ms)"
    using readMountInfo_shown [of ?ms] ms by (simp add: LinuxProbe_def os_of_def)
  moreover have "coveringMount t (map entry_of ?ms) = Some (entry_of (demo_mount 31 [''srv''] []))" if "t \<in> protected_dirs ?c" for t
  proof -
    have "coveringMount ''/srv/base'' (map entry_of ?ms) = Some (entry_of (demo_mount 31 [''srv''] []))"
      "coveringMount ''/srv/cages'' (map entry_of ?ms) = Some (entry_of (demo_mount 31 [''srv''] []))" by code_simp+
    then show ?thesis using that by (auto simp: demo_dirs)
  qed
  moreover have "mi_Propagation (entry_of (demo_mount 31 [''srv''] [])) \<notin> unsafe_modes"
    by (simp add: entry_private private_mount_def demo_mount_def)
  ultimately have "checkMountPropagation ?c (LinuxProbe (os_of ?k)) = None"
    unfolding checkMountPropagation_iff unsafe_modes_def [symmetric] protected_dirs_def [symmetric] by blast
  then have "first_error (preflight_checks ?c (LinuxProbe (os_of ?k))) = None"
    unfolding checks_but_mounts [OF os_of_shows demo_view_plain] using demo_fit_kernel demo_root_owned by blast
  then show ?thesis
    unfolding Check_def by (simp add: demo_preflight_config_def) (simp add: LinuxProbe_def os_of_def)
qed

section \<open>Properties\<close>

text \<open>
  C18. On a host whose files under \<open>/proc\<close> and \<open>/sys\<close> show the state of its kernel, a preflight
  that \<open>NewPreflight\<close> accepted admits a request exactly if it is not cancelled and the host
  runs Linux with the configured kernel version or a later one, has a controller in the cgroup v2
  hierarchy, allows user namespaces, offers the seccomp filter action, lists the required security
  module, which enforces, resolves every protected path and the base root to a mount that shares
  with no peer group, receives from none and is not unbindable, and has root own these directories
  and the service files, which are of their type, not links, and not writable by others. The mount
  that a path resolves to is the youngest above it; the hypothesis \<open>nothing_hidden\<close> excludes a
  path on which a mount hides an earlier one, where the check can judge the hidden mount instead.
\<close>

theorem Check_admits:
  assumes "NewPreflight c = Inr pf" "pc_Probe c = Some (LinuxProbe sys)"
    and "shows_host sys k" "plain_view k" "nothing_hidden (pf_config pf) k"
  shows "Check (Some pf) cancelled = None \<longleftrightarrow>
    \<not> cancelled \<and> os_GOOS sys = ''linux'' \<and> fit_kernel (pf_config pf) k \<and> fit_paths (pf_config pf) k"
proof -
  have "pc_Probe (pf_config pf) = Some (LinuxProbe sys)" using NewPreflight_paths(1) [OF assms(1)] assms(2) by simp
  moreover have "pr_GOOS (LinuxProbe sys) = os_GOOS sys" by (simp add: LinuxProbe_def)
  ultimately show ?thesis
    using checks_shown [OF assms(3,4) NewPreflight_paths(2) [OF assms(1)] assms(5)] unfolding Check_def by simp
qed

lemma Check_admits_witness:
  "Check (Some \<lparr>pf_config = demo_preflight_config (demo_view False)\<rparr>) False = None"
proof -
  let ?k = "demo_view False" let ?c = "demo_preflight_config ?k"
  let ?ms = "[demo_mount 22 [] [Shared 1], demo_mount 31 [''srv''] []]"
  have "unhidden ?ms (components t) \<and> visible_mount ?ms (components t) = Some (demo_mount 31 [''srv''] [])"
    if "t \<in> protected_dirs ?c" for t
    using that by (auto simp: demo_dirs demo_components unhidden_def visible_mount_def covering_def demo_mount_def)
  moreover have "private_mount (demo_mount 31 [''srv''] [])" by (simp add: private_mount_def demo_mount_def)
  moreover have "kv_mounts ?k = Some ?ms" by (simp add: demo_view_def)
  ultimately have "nothing_hidden ?c ?k" "fit_paths ?c ?k"
    using demo_root_owned [of ?k False] by (simp_all add: nothing_hidden_def fit_paths_def)
  moreover have "pc_Probe ?c = Some (LinuxProbe (os_of ?k))" "os_GOOS (os_of ?k) = ''linux''"
    by (simp_all add: demo_preflight_config_def os_of_def)
  ultimately show ?thesis
    using Check_admits [OF demo_preflight_new _ os_of_shows demo_view_plain] demo_fit_kernel by simp
qed

text \<open>
  Without the hypothesis the check can admit a host that must not be: on the demonstration host a
  shared mount stacked on the private one is what the base root resolves to, and it is not judged.
\<close>

theorem hidden_mount_admitted:
  "Check (Some \<lparr>pf_config = demo_preflight_config (demo_view True)\<rparr>) False = None \<and>
   visible_mount (the (kv_mounts (demo_view True))) (components ''/srv/base'') = Some (demo_mount 32 [''srv''] [Shared 2]) \<and>
   \<not> private_mount (demo_mount 32 [''srv''] [Shared 2])"
  using hiding_admitted
  by (simp add: visible_mount_def covering_def demo_components demo_view_def private_mount_def) (simp add: demo_mount_def)

end
