(* ===== verification/Plan_Seal.thy ===== *)
theory Plan_Seal
  imports Go_Json Go_Crypto
begin

text \<open>
  What the plan authorities (\<open>isolation\<close>, \<open>resource\<close>, \<open>integrity\<close>, \<open>edition\<close> and
  \<open>certification\<close>) share: the \<open>deny\<close> method that records a refusal before it returns it, the
  last step that records an authorization before the plan is returned, and the seal of a
  plan, the SHA-256 digest of its canonical JSON text with the digest field blank.
\<close>

section \<open>Refusing and authorizing\<close>

definition deny_with ::
  "package \<Rightarrow> string \<Rightarrow> audit_sink \<Rightarrow> string \<Rightarrow> string \<Rightarrow> string \<Rightarrow> (string \<Rightarrow> go_error) \<Rightarrow> audit_log \<Rightarrow>
   'p go_result \<times> audit_log" where
  "deny_with pkg action sink actor resource reason result log =
     (case RecordEvent sink
        (mk_event (fallback actor) action ''denied'' (fallback resource) [(''reasonCode'', MStr reason)]) log of
        (ok, log') \<Rightarrow>
          (if ok then Inl (result reason) else Inl (ErrUnavailable pkg ''audit sink rejected denial''), log'))"

definition authorize_plan ::
  "package \<Rightarrow> audit_sink \<Rightarrow> audit_event \<Rightarrow> 'p \<Rightarrow> audit_log \<Rightarrow> 'p go_result \<times> audit_log" where
  "authorize_plan pkg sink ev plan log =
     (case RecordEvent sink ev log of
        (ok, log') \<Rightarrow>
          (if ok then Inr plan else Inl (ErrUnavailable pkg ''audit sink rejected authorization''), log'))"

lemma deny_with_simps [simp]:
  "fst (deny_with pkg action sink actor resource reason result log) \<noteq> Inr p"
  "deny_with pkg action sink actor resource reason result log \<noteq> (Inr p, log')"
  by (auto simp: deny_with_def RecordEvent_def Let_def)

lemma deny_with_log:
  assumes "deny_with pkg action sink actor resource reason result log = (Inl err, log')"
  shows "\<exists>ok. log' = log @ [(mk_event (fallback actor) action ''denied'' (fallback resource)
      [(''reasonCode'', MStr reason)], ok)] \<and>
    err = (if ok then result reason else ErrUnavailable pkg ''audit sink rejected denial'')"
  using assms by (auto simp: deny_with_def RecordEvent_def Let_def split: if_splits)

lemma authorize_plan_Inr:
  "authorize_plan pkg sink ev plan log = (Inr p, log') \<longleftrightarrow> p = plan \<and> sink log ev \<and> log' = log @ [(ev, True)]"
  by (auto simp: authorize_plan_def RecordEvent_def Let_def)

lemma authorize_plan_Inl:
  "authorize_plan pkg sink ev plan log = (Inl err, log') \<longleftrightarrow>
     err = ErrUnavailable pkg ''audit sink rejected authorization'' \<and> \<not> sink log ev \<and> log' = log @ [(ev, False)]"
  by (auto simp: authorize_plan_def RecordEvent_def Let_def)

text \<open>
  What every refusal of a plan authority satisfies: a denial was recorded and accepted
  before its reason is returned, or the error is \<open>ErrUnavailable\<close> of the package.
\<close>

definition refusal_audited :: "package \<Rightarrow> go_error \<Rightarrow> audit_log \<Rightarrow> audit_log \<Rightarrow> bool" where
  "refusal_audited pkg err log log' \<longleftrightarrow>
     is_ErrUnavailable pkg err \<and> (log' = log \<or> (\<exists>ev ok. log' = log @ [(ev, ok)])) \<or>
     is_ErrDenied pkg err \<and> (\<exists>ev. log' = log @ [(ev, True)] \<and> ev_outcome ev = ''denied'')"

lemma refusal_auditedI:
  assumes "deny_with pkg action sink actor resource reason result log = (Inl err, log')"
    and "result = ErrDenied pkg \<or> result = ErrUnavailable pkg"
  shows "refusal_audited pkg err log log'"
proof -
  from deny_with_log [OF assms(1)] obtain ok ev where
    "log' = log @ [(ev, ok)]" "ev_outcome ev = ''denied''"
    "err = (if ok then result reason else ErrUnavailable pkg ''audit sink rejected denial'')"
    by auto
  then show ?thesis
    using assms(2) by (cases ok) (auto simp: refusal_audited_def is_ErrDenied_def is_ErrUnavailable_def)
qed

lemma refusal_audited_authorize:
  "authorize_plan pkg sink ev plan log = (Inl err, log') \<Longrightarrow> refusal_audited pkg err log log'"
  by (auto simp: authorize_plan_Inl refusal_audited_def is_ErrUnavailable_def)

lemma refusal_audited_unavailable: "refusal_audited pkg (ErrUnavailable pkg m) log log"
  by (simp add: refusal_audited_def is_ErrUnavailable_def)

section \<open>Sealing\<close>

text \<open>The digest of a document, and what it would take to give two documents the same digest.\<close>

definition digest_json :: "json \<Rightarrow> string" where
  "digest_json j = sha256_hex (json_print j)"

definition sha256_collision :: "bytes \<Rightarrow> bytes \<Rightarrow> bool" where
  "sha256_collision m m' \<longleftrightarrow> m \<noteq> m' \<and> sha256_hex m = sha256_hex m'"

lemma digest_json_pattern [simp]: "digestPattern (digest_json j)"
  by (simp add: digest_json_def)

lemma digest_json_nonempty [simp]: "digest_json j \<noteq> []"
  using digest_json_pattern [of j] by (auto simp: digestPattern_iff)

lemma digest_json_eqD:
  assumes "digest_json j = digest_json k" "json_wf j" "json_wf k"
  shows "j = k \<or> sha256_collision (json_print j) (json_print k)"
  using assms json_encode_inj [of j k "[]" "[]" True]
  by (auto simp: digest_json_def sha256_collision_def)

text \<open>
  A sealed plan carries the digest of its document; \<open>doc\<close> computes the document from the
  plan without looking at the digest it carries.
\<close>

locale sealed_plan =
  fixes doc :: "'p \<Rightarrow> json"
    and get_digest :: "'p \<Rightarrow> string"
    and set_digest :: "string \<Rightarrow> 'p \<Rightarrow> 'p"
  assumes doc_set: "doc (set_digest d p) = doc p"
    and get_set: "get_digest (set_digest d p) = d"
begin

lemma seal_verifies: "get_digest (set_digest (digest_json (doc p)) p) = digest_json (doc (set_digest (digest_json (doc p)) p))"
  by (simp add: doc_set get_set)

text \<open>Two plans under one digest have the same document, or exhibit a collision of SHA-256.\<close>

lemma seal_binds:
  assumes "get_digest p = digest_json (doc p)" "get_digest q = digest_json (doc q)"
    and "get_digest p = get_digest q" "json_wf (doc p)" "json_wf (doc q)"
  shows "doc p = doc q \<or> sha256_collision (json_print (doc p)) (json_print (doc q))"
  using assms digest_json_eqD by metis

end

lemma json_wf_slice: "json_wf (json_slice f xs) \<longleftrightarrow> (\<forall>x\<in>set xs. json_wf (f x))"
  by (auto simp: json_slice_def list_all_iff)

lemma json_slice_eq_iff: "inj f \<Longrightarrow> json_slice f xs = json_slice f ys \<longleftrightarrow> xs = ys"
  by (simp add: json_slice_def inj_map_eq_map)

section \<open>Validated text is ASCII\<close>

lemma az09_dash_ascii: "az09_dash c \<Longrightarrow> ccode c < 128"
  by (auto simp: az09_dash_def az09_def in_range_def is_digit_def char_le_nat ccode_def)

lemma hex_lower_ascii: "hex_lower c \<Longrightarrow> ccode c < 128"
  by (auto simp: hex_lower_def in_range_def is_digit_def char_le_nat ccode_def)

lemma digestPattern_utf8: "digestPattern s \<Longrightarrow> valid_utf8 s"
  by (rule valid_utf8_ascii) (auto simp: digestPattern_iff list_all_iff hex_lower_ascii)

lemma cageIDPattern_utf8: "cageIDPattern s \<Longrightarrow> valid_utf8 s"
  using cageIDPattern_plain(4) by (intro valid_utf8_ascii) (auto simp: list_all_iff az09_dash_ascii)

end
