(* ===== verification/Isolation.thy ===== *)
theory Isolation
  imports Lifecycle Plan_Seal
begin

text \<open>
  Package \<open>isolation\<close> (\<open>isolation/authority.go\<close>): validated Linux isolation plans. The theory
  holds the request and plan records, the validators, the canonical copy and its digest, the
  handler \<open>Prepare\<close> and the check \<open>VerifyPlan\<close> that later phases make.
\<close>

section \<open>Data\<close>

record UIDMap =
  um_ContainerID :: u32
  um_HostID :: u32
  um_Size :: u32

record MountSpec =
  ms_SourceKind :: string
  ms_Destination :: string
  ms_ReadOnly :: bool
  ms_Flags :: "string list"
  ms_Options :: "string list"

record mountRequirement =
  mr_source :: string
  mr_readOnly :: bool
  mr_flags :: "string list"

record isolation_Request =
  iq_Schema :: string
  iq_CageID :: string
  iq_Profile :: Profile
  iq_BaseRootDigest :: string
  iq_SeccompDigest :: string
  iq_Namespaces :: "string list"
  iq_UIDMappings :: "UIDMap list"
  iq_GIDMappings :: "UIDMap list"
  iq_Mounts :: "MountSpec list"
  iq_Devices :: "string list"
  iq_NoNewPrivileges :: bool
  iq_ClearEnvironment :: bool
  iq_CloseDescriptorsAt :: u32
  iq_ParentDeathSignal :: string
  iq_InitMode :: string
  iq_WorkingDirectory :: string
  iq_Capabilities :: "string list"

record isolation_Plan =
  ip_Schema :: string
  ip_CageID :: string
  ip_Profile :: Profile
  ip_NamespaceFlags :: "string list"
  ip_UIDMappings :: "UIDMap list"
  ip_GIDMappings :: "UIDMap list"
  ip_Mounts :: "MountSpec list"
  ip_Devices :: "string list"
  ip_SeccompDigest :: string
  ip_NoNewPrivileges :: bool
  ip_ClearEnvironment :: bool
  ip_CloseDescriptorsAt :: u32
  ip_ParentDeathSignal :: string
  ip_InitMode :: string
  ip_WorkingDirectory :: string
  ip_CapabilityBoundingSet :: "string list"
  ip_PlanDigest :: string

definition isolation_Schema :: string where "isolation_Schema = ''brick.host-isolation.isolation.v1''"

definition requiredNS :: "string list" where
  "requiredNS = [''ipc'', ''mount'', ''network'', ''pid'', ''user'', ''uts'']"

definition requiredMounts :: "(string \<times> mountRequirement) list" where
  "requiredMounts =
     [(''/'', \<lparr>mr_source = ''baseRoot'', mr_readOnly = True, mr_flags = [''nodev'', ''noexec'', ''nosuid'', ''readonly'']\<rparr>),
      (''/proc'', \<lparr>mr_source = ''proc'', mr_readOnly = True, mr_flags = [''nodev'', ''noexec'', ''nosuid'']\<rparr>),
      (''/dev'', \<lparr>mr_source = ''minimalDev'', mr_readOnly = False, mr_flags = [''nodev'', ''noexec'', ''nosuid'']\<rparr>),
      (''/tmp'', \<lparr>mr_source = ''tmpfs'', mr_readOnly = False, mr_flags = [''nodev'', ''noexec'', ''nosuid'']\<rparr>)]"

definition forbiddenPrefixes :: "string list" where
  "forbiddenPrefixes =
     [''/opt/brick'', ''/var/lib/brick'', ''/run/brick'', ''/etc/brick'', ''/root'', ''/proc/sys'', ''/proc/kcore'',
      ''/sys'', ''/dev/mem'', ''/dev/kmem'', ''/dev/kmsg'', ''/var/run/docker.sock'', ''/run/containerd/containerd.sock'']"

definition allowedDevices :: "string list" where
  "allowedDevices = [''null'', ''random'', ''urandom'', ''zero'']"

section \<open>Validators\<close>

definition equalSet :: "string list \<Rightarrow> string list \<Rightarrow> bool" where
  "equalSet = equal_set (\<lambda>v. v \<noteq> [])"

definition validMapping :: "UIDMap list \<Rightarrow> bool" where
  "validMapping mappings =
     (case mappings of [m] \<Rightarrow> um_ContainerID m = 0 \<and> um_HostID m > 0 \<and> um_Size m = 1 | _ \<Rightarrow> False)"

definition safeDestination :: "string \<Rightarrow> bool" where
  "safeDestination destination =
     (if destination = [] \<or> \<not> HasPrefix destination ''/'' \<or> path_Clean destination \<noteq> destination \<or>
         str_contains destination ''//''
      then False
      else \<not> list_ex (\<lambda>forbidden. destination = forbidden \<or> HasPrefix destination (forbidden @ ''/'')) forbiddenPrefixes)"

fun validMounts_loop :: "string list \<Rightarrow> MountSpec list \<Rightarrow> string" where
  "validMounts_loop seen [] = []"
| "validMounts_loop seen (mount # mounts) =
     (if \<not> safeDestination (ms_Destination mount) then ''unsafe_mount_destination''
      else case map_of requiredMounts (ms_Destination mount) of
        None \<Rightarrow> ''invalid_mount_policy''
      | Some requirement \<Rightarrow>
          if ms_SourceKind mount \<noteq> mr_source requirement \<or> ms_ReadOnly mount \<noteq> mr_readOnly requirement \<or>
             \<not> equalSet (ms_Flags mount) (mr_flags requirement) \<or> ms_Options mount = []
          then ''invalid_mount_policy''
          else if ms_Destination mount \<in> set seen then ''duplicate_mount_destination''
          else if ms_Destination mount = ''/proc'' \<and> \<not> equalSet (ms_Options mount) [''hidepid=2'', ''subset=pid'']
          then ''unsafe_proc_policy''
          else if ms_Destination mount = ''/dev'' \<and> \<not> equalSet (ms_Options mount) [''mode=0755'', ''size=16m'']
          then ''unsafe_device_mount''
          else if ms_Destination mount = ''/tmp'' \<and> \<not> equalSet (ms_Options mount) [''mode=1777'', ''size=64m'']
          then ''unsafe_tmp_mount''
          else if ms_Destination mount = ''/'' \<and> \<not> equalSet (ms_Options mount) [''privatePropagation'']
          then ''unsafe_base_root_mount''
          else validMounts_loop (ms_Destination mount # seen) mounts)"

definition validMounts :: "MountSpec list \<Rightarrow> string" where
  "validMounts mounts =
     (if length mounts \<noteq> length requiredMounts then ''incomplete_mount_policy''
      else validMounts_loop [] mounts)"

definition isolation_validateRequest :: "isolation_Request \<Rightarrow> string" where
  "isolation_validateRequest request =
     (if iq_Schema request \<noteq> isolation_Schema \<or> \<not> cageIDPattern (iq_CageID request) \<or>
         (iq_Profile request \<noteq> ProfileSharedTenant \<and> iq_Profile request \<noteq> ProfileDedicatedAdministrator) \<or>
         \<not> digestPattern (iq_BaseRootDigest request) \<or> \<not> digestPattern (iq_SeccompDigest request)
      then ''invalid_isolation_identity''
      else if \<not> equalSet (iq_Namespaces request) requiredNS \<or> \<not> validMapping (iq_UIDMappings request) \<or>
              \<not> validMapping (iq_GIDMappings request)
      then ''invalid_namespace_or_id_mapping''
      else if \<not> iq_NoNewPrivileges request \<or> \<not> iq_ClearEnvironment request \<or> iq_CloseDescriptorsAt request \<noteq> 3 \<or>
              iq_ParentDeathSignal request \<noteq> ''SIGKILL'' \<or> iq_InitMode request \<noteq> ''supervisedReaper'' \<or>
              iq_WorkingDirectory request \<noteq> ''/'' \<or> iq_Capabilities request \<noteq> []
      then ''invalid_process_controls''
      else if \<not> equalSet (iq_Devices request) allowedDevices then ''invalid_device_policy''
      else validMounts (iq_Mounts request))"

section \<open>Canonical copies and the digest\<close>

definition canonicalStrings :: "string list \<Rightarrow> string list" where
  "canonicalStrings values = sort values"

definition canonicalMappings :: "UIDMap list \<Rightarrow> UIDMap list" where
  "canonicalMappings values = values"

definition canonical_mount :: "MountSpec \<Rightarrow> MountSpec" where
  "canonical_mount m = m\<lparr>ms_Flags := canonicalStrings (ms_Flags m), ms_Options := canonicalStrings (ms_Options m)\<rparr>"

definition canonicalMounts :: "MountSpec list \<Rightarrow> MountSpec list" where
  "canonicalMounts values = sort_key ms_Destination (map canonical_mount values)"

definition json_UIDMap :: "UIDMap \<Rightarrow> json" where
  "json_UIDMap m = JObj
     [(''containerId'', json_u32 (um_ContainerID m)), (''hostId'', json_u32 (um_HostID m)),
      (''size'', json_u32 (um_Size m))]"

definition json_MountSpec :: "MountSpec \<Rightarrow> json" where
  "json_MountSpec m = JObj
     [(''sourceKind'', JStr (ms_SourceKind m)), (''destination'', JStr (ms_Destination m)),
      (''readOnly'', JBool (ms_ReadOnly m)), (''flags'', json_slice JStr (ms_Flags m)),
      (''options'', json_slice JStr (ms_Options m))]"

definition json_isolation_Plan :: "isolation_Plan \<Rightarrow> json" where
  "json_isolation_Plan p = JObj
     [(''schema'', JStr (ip_Schema p)), (''cageId'', JStr (ip_CageID p)), (''profile'', JStr (ip_Profile p)),
      (''namespaceFlags'', json_slice JStr (ip_NamespaceFlags p)),
      (''uidMappings'', json_appended json_UIDMap (ip_UIDMappings p)),
      (''gidMappings'', json_appended json_UIDMap (ip_GIDMappings p)),
      (''mounts'', json_appended json_MountSpec (ip_Mounts p)), (''devices'', json_slice JStr (ip_Devices p)),
      (''seccompDigest'', JStr (ip_SeccompDigest p)), (''noNewPrivileges'', JBool (ip_NoNewPrivileges p)),
      (''clearEnvironment'', JBool (ip_ClearEnvironment p)),
      (''closeDescriptorsAt'', json_u32 (ip_CloseDescriptorsAt p)),
      (''parentDeathSignal'', JStr (ip_ParentDeathSignal p)), (''initMode'', JStr (ip_InitMode p)),
      (''workingDirectory'', JStr (ip_WorkingDirectory p)),
      (''capabilityBoundingSet'', json_slice JStr (ip_CapabilityBoundingSet p)),
      (''planDigest'', JStr (ip_PlanDigest p))]"

definition isolation_digestPlan :: "isolation_Plan \<Rightarrow> string" where
  "isolation_digestPlan plan = digest_json (json_isolation_Plan (plan\<lparr>ip_PlanDigest := []\<rparr>))"

text \<open>The copy of a plan that \<open>VerifyPlan\<close> digests.\<close>

definition isolation_canonical :: "isolation_Plan \<Rightarrow> isolation_Plan" where
  "isolation_canonical plan =
     plan\<lparr>ip_NamespaceFlags := canonicalStrings (ip_NamespaceFlags plan),
          ip_UIDMappings := canonicalMappings (ip_UIDMappings plan),
          ip_GIDMappings := canonicalMappings (ip_GIDMappings plan),
          ip_Mounts := canonicalMounts (ip_Mounts plan),
          ip_Devices := canonicalStrings (ip_Devices plan),
          ip_CapabilityBoundingSet := canonicalStrings (ip_CapabilityBoundingSet plan),
          ip_PlanDigest := []\<rparr>"

text \<open>The request that \<open>VerifyPlan\<close> rebuilds from a plan, with a base root digest of zeros.\<close>

definition plan_request :: "isolation_Plan \<Rightarrow> isolation_Request" where
  "plan_request plan =
     \<lparr>iq_Schema = ip_Schema plan, iq_CageID = ip_CageID plan, iq_Profile = ip_Profile plan,
      iq_BaseRootDigest = replicate 64 (CHR ''0''), iq_SeccompDigest = ip_SeccompDigest plan,
      iq_Namespaces = ip_NamespaceFlags plan, iq_UIDMappings = ip_UIDMappings plan,
      iq_GIDMappings = ip_GIDMappings plan, iq_Mounts = ip_Mounts plan, iq_Devices = ip_Devices plan,
      iq_NoNewPrivileges = ip_NoNewPrivileges plan, iq_ClearEnvironment = ip_ClearEnvironment plan,
      iq_CloseDescriptorsAt = ip_CloseDescriptorsAt plan, iq_ParentDeathSignal = ip_ParentDeathSignal plan,
      iq_InitMode = ip_InitMode plan, iq_WorkingDirectory = ip_WorkingDirectory plan,
      iq_Capabilities = ip_CapabilityBoundingSet plan\<rparr>"

definition isolation_VerifyPlan :: "isolation_Plan \<Rightarrow> go_error option" where
  "isolation_VerifyPlan plan =
     (let reason = isolation_validateRequest (plan_request plan) in
      if reason \<noteq> [] then Some (ErrDenied PkgIsolation reason)
      else if ip_PlanDigest plan \<noteq> isolation_digestPlan (isolation_canonical plan)
      then Some (ErrDenied PkgIsolation ''plan digest mismatch'')
      else None)"

section \<open>The authority\<close>

text \<open>
  The preflight check is a function of the state of the host; the context is given by whether
  it was cancelled when the handler looked.
\<close>

record 'h isolation_Authority =
  ia_preflight :: "('h \<Rightarrow> unit go_result) option"
  ia_audit :: "audit_sink option"

definition isolation_NewAuthority ::
  "('h \<Rightarrow> unit go_result) option \<Rightarrow> audit_sink option \<Rightarrow> 'h isolation_Authority go_result" where
  "isolation_NewAuthority preflight audit =
     (if preflight = None \<or> audit = None then Inl (ErrUnavailable PkgIsolation ''missing authority dependency'')
      else Inr \<lparr>ia_preflight = preflight, ia_audit = audit\<rparr>)"

definition isolation_deny ::
  "audit_sink \<Rightarrow> string \<Rightarrow> string \<Rightarrow> string \<Rightarrow> (string \<Rightarrow> go_error) \<Rightarrow> audit_log \<Rightarrow>
   isolation_Plan go_result \<times> audit_log" where
  "isolation_deny = deny_with PkgIsolation ''prepareIsolationPlan''"

definition isolation_new_plan :: "isolation_Request \<Rightarrow> isolation_Plan" where
  "isolation_new_plan request =
     \<lparr>ip_Schema = isolation_Schema, ip_CageID = iq_CageID request, ip_Profile = iq_Profile request,
      ip_NamespaceFlags = canonicalStrings (iq_Namespaces request),
      ip_UIDMappings = canonicalMappings (iq_UIDMappings request),
      ip_GIDMappings = canonicalMappings (iq_GIDMappings request),
      ip_Mounts = canonicalMounts (iq_Mounts request), ip_Devices = canonicalStrings (iq_Devices request),
      ip_SeccompDigest = iq_SeccompDigest request, ip_NoNewPrivileges = True, ip_ClearEnvironment = True,
      ip_CloseDescriptorsAt = 3, ip_ParentDeathSignal = ''SIGKILL'', ip_InitMode = ''supervisedReaper'',
      ip_WorkingDirectory = ''/'', ip_CapabilityBoundingSet = [], ip_PlanDigest = []\<rparr>"

definition isolation_authorized_event :: "string \<Rightarrow> isolation_Plan \<Rightarrow> audit_event" where
  "isolation_authorized_event actor plan =
     mk_event actor ''prepareIsolationPlan'' ''authorized'' (ip_CageID plan)
       [(''planDigest'', MStr (ip_PlanDigest plan)), (''profile'', MStr (ip_Profile plan)),
        (''seccompDigest'', MStr (ip_SeccompDigest plan))]"

definition isolation_Prepare ::
  "'h isolation_Authority option \<Rightarrow> bool \<Rightarrow> 'h \<Rightarrow> string \<Rightarrow> isolation_Request \<Rightarrow> audit_log \<Rightarrow>
   isolation_Plan go_result \<times> audit_log" where
  "isolation_Prepare authority cancelled h actor request log =
     (case authority of
        None \<Rightarrow> (Inl (ErrUnavailable PkgIsolation ''authority dependency unavailable''), log)
      | Some a \<Rightarrow>
          (case (ia_preflight a, ia_audit a) of
             (Some preflight, Some sink) \<Rightarrow>
               if cancelled
               then isolation_deny sink actor (iq_CageID request) ''request_cancelled'' (ErrUnavailable PkgIsolation) log
               else (case preflight h of
                  Inl _ \<Rightarrow> isolation_deny sink actor (iq_CageID request) ''host_preflight_failed''
                            (ErrUnavailable PkgIsolation) log
                | Inr _ \<Rightarrow>
                    let reason = isolation_validateRequest request in
                    if reason \<noteq> [] then isolation_deny sink actor (iq_CageID request) reason (ErrDenied PkgIsolation) log
                    else let plan = isolation_new_plan request;
                             plan = plan\<lparr>ip_PlanDigest := isolation_digestPlan plan\<rparr>
                         in authorize_plan PkgIsolation sink (isolation_authorized_event actor plan) plan log)
           | _ \<Rightarrow> (Inl (ErrUnavailable PkgIsolation ''authority dependency unavailable''), log)))"

section \<open>What the validators accept\<close>

lemma equalSet_iff: "distinct expected \<Longrightarrow> equalSet actual expected \<longleftrightarrow> (\<forall>v\<in>set actual. v \<noteq> []) \<and> mset actual = mset expected"
  by (simp add: equalSet_def equal_set_iff)

text \<open>If the expected set is sorted and has no empty string, accepting is sorting to it.\<close>

lemma equalSet_sorted:
  assumes "distinct expected" "sorted expected" "[] \<notin> set expected"
  shows "equalSet actual expected \<longleftrightarrow> canonicalStrings actual = expected"
proof -
  have "mset actual = mset expected \<longleftrightarrow> sort actual = expected"
    using sort_eq_iff_mset [of actual expected] sorted_sort_id [OF assms(2)] by simp
  moreover have "mset actual = mset expected \<Longrightarrow> \<forall>v\<in>set actual. v \<noteq> []"
    using assms(3) mset_eq_setD by blast
  ultimately show ?thesis by (auto simp: equalSet_iff [OF assms(1)] canonicalStrings_def)
qed

text \<open>The mounts of every accepted plan, in the order the plan lists them.\<close>

definition required_mount :: "string \<Rightarrow> MountSpec" where
  "required_mount dest =
     (if dest = ''/'' then
        \<lparr>ms_SourceKind = ''baseRoot'', ms_Destination = ''/'', ms_ReadOnly = True,
         ms_Flags = [''nodev'', ''noexec'', ''nosuid'', ''readonly''], ms_Options = [''privatePropagation'']\<rparr>
      else if dest = ''/dev'' then
        \<lparr>ms_SourceKind = ''minimalDev'', ms_Destination = ''/dev'', ms_ReadOnly = False,
         ms_Flags = [''nodev'', ''noexec'', ''nosuid''], ms_Options = [''mode=0755'', ''size=16m'']\<rparr>
      else if dest = ''/proc'' then
        \<lparr>ms_SourceKind = ''proc'', ms_Destination = ''/proc'', ms_ReadOnly = True,
         ms_Flags = [''nodev'', ''noexec'', ''nosuid''], ms_Options = [''hidepid=2'', ''subset=pid'']\<rparr>
      else
        \<lparr>ms_SourceKind = ''tmpfs'', ms_Destination = ''/tmp'', ms_ReadOnly = False,
         ms_Flags = [''nodev'', ''noexec'', ''nosuid''], ms_Options = [''mode=1777'', ''size=64m'']\<rparr>)"

definition mount_points :: "string list" where
  "mount_points = [''/'', ''/dev'', ''/proc'', ''/tmp'']"

lemma mount_points_props:
  "sorted mount_points" "distinct mount_points" "length mount_points = length requiredMounts"
  "list_all safeDestination mount_points"
  "set mount_points = fst ` set requiredMounts"
  by code_simp+

lemma sorted_options:
  "sorted [''hidepid=2'', ''subset=pid'']" "sorted [''mode=0755'', ''size=16m'']"
  "sorted [''mode=1777'', ''size=64m'']" "sorted [''nodev'', ''noexec'', ''nosuid'']"
  "sorted [''nodev'', ''noexec'', ''nosuid'', ''readonly'']"
  by code_simp+

lemmas equalSet_options = sorted_options [THEN equalSet_sorted [rotated]]

text \<open>One turn of the loop, for an accepted mount.\<close>

definition mount_accepted :: "MountSpec \<Rightarrow> bool" where
  "mount_accepted m \<longleftrightarrow> ms_Destination m \<in> set mount_points \<and> canonical_mount m = required_mount (ms_Destination m)"

lemma canonical_mount_eq_iff:
  "canonical_mount m = (x :: MountSpec) \<longleftrightarrow>
     ms_SourceKind m = ms_SourceKind x \<and> ms_Destination m = ms_Destination x \<and> ms_ReadOnly m = ms_ReadOnly x \<and>
     canonicalStrings (ms_Flags m) = ms_Flags x \<and> canonicalStrings (ms_Options m) = ms_Options x"
  by (cases m; cases x) (auto simp: canonical_mount_def)

lemma canonicalStrings_Nil [simp]: "canonicalStrings [] = []"
  by (simp add: canonicalStrings_def)

lemma equalSet_single: "equalSet actual [''privatePropagation''] \<longleftrightarrow> canonicalStrings actual = [''privatePropagation'']"
  by (rule equalSet_sorted) simp_all

lemma validMounts_step:
  "validMounts_loop seen (m # mounts) = [] \<longleftrightarrow>
     mount_accepted m \<and> ms_Destination m \<notin> set seen \<and> validMounts_loop (ms_Destination m # seen) mounts = []"
proof (cases "ms_Destination m \<in> set mount_points")
  case False
  then have "map_of requiredMounts (ms_Destination m) = None"
    using mount_points_props(5) by (simp add: map_of_eq_None_iff)
  then show ?thesis using False by (simp add: mount_accepted_def)
next
  case True
  then have safe: "safeDestination (ms_Destination m)" using mount_points_props(4) by (auto simp: list_all_iff)
  obtain r where r: "map_of requiredMounts (ms_Destination m) = Some r"
    using True mount_points_props(5) by (metis map_of_eq_None_iff not_Some_eq)
  from True consider "ms_Destination m = ''/''" | "ms_Destination m = ''/dev''" | "ms_Destination m = ''/proc''"
    | "ms_Destination m = ''/tmp''"
    by (auto simp: mount_points_def)
  then have "mount_accepted m \<longleftrightarrow>
      ms_SourceKind m = mr_source r \<and> ms_ReadOnly m = mr_readOnly r \<and> equalSet (ms_Flags m) (mr_flags r) \<and>
      ms_Options m \<noteq> [] \<and>
      (ms_Destination m = ''/proc'' \<longrightarrow> equalSet (ms_Options m) [''hidepid=2'', ''subset=pid'']) \<and>
      (ms_Destination m = ''/dev'' \<longrightarrow> equalSet (ms_Options m) [''mode=0755'', ''size=16m'']) \<and>
      (ms_Destination m = ''/tmp'' \<longrightarrow> equalSet (ms_Options m) [''mode=1777'', ''size=64m'']) \<and>
      (ms_Destination m = ''/'' \<longrightarrow> equalSet (ms_Options m) [''privatePropagation''])"
    using r
    by cases (auto simp: mount_accepted_def mount_points_def required_mount_def requiredMounts_def
        canonical_mount_eq_iff equalSet_options equalSet_single)
  then show ?thesis using safe r by auto
qed

lemma validMounts_loop_iff:
  "validMounts_loop seen mounts = [] \<longleftrightarrow>
     list_all mount_accepted mounts \<and> distinct (map ms_Destination mounts) \<and>
     set (map ms_Destination mounts) \<inter> set seen = {}"
  by (induction mounts arbitrary: seen) (auto simp: validMounts_step simp del: validMounts_loop.simps(2))

text \<open>The validator accepts a mount list exactly if its canonical copy is the required one.\<close>

lemma canonical_mount_dest [simp]: "ms_Destination (canonical_mount m) = ms_Destination m"
  by (simp add: canonical_mount_def)

lemma required_mount_dest: "d \<in> set mount_points \<Longrightarrow> ms_Destination (required_mount d) = d"
  by (auto simp: mount_points_def required_mount_def)

lemma sorted_required: "sorted (map ms_Destination (map required_mount mount_points))"
proof -
  have "map ms_Destination (map required_mount mount_points) = mount_points"
    by (simp add: mount_points_def required_mount_def)
  then show ?thesis using mount_points_props(1) by simp
qed

lemma validMounts_iff: "validMounts mounts = [] \<longleftrightarrow> canonicalMounts mounts = map required_mount mount_points"
proof
  assume v: "validMounts mounts = []"
  then have len: "length mounts = length mount_points" and acc: "list_all mount_accepted mounts"
    and dist: "distinct (map ms_Destination mounts)"
    using mount_points_props(3) by (auto simp: validMounts_def validMounts_loop_iff split: if_splits)
  have sub: "set (map ms_Destination mounts) \<subseteq> set mount_points"
    using acc by (auto simp: list_all_iff mount_accepted_def)
  have "card (set (map ms_Destination mounts)) = card (set mount_points)"
    using dist len mount_points_props(2) distinct_card by (metis length_map)
  then have "set (map ms_Destination mounts) = set mount_points"
    using sub by (intro card_subset_eq) auto
  then have "mset (map ms_Destination mounts) = mset mount_points"
    using dist mount_points_props(2) set_eq_iff_mset_eq_distinct by blast
  then have "mset (map required_mount (map ms_Destination mounts)) = mset (map required_mount mount_points)"
    by (metis mset_map)
  moreover have "map required_mount (map ms_Destination mounts) = map canonical_mount mounts"
    using acc by (auto simp: list_all_iff mount_accepted_def)
  ultimately have "mset (map canonical_mount mounts) = mset (map required_mount mount_points)"
    by (simp only:)
  moreover have "inj_on ms_Destination (set (map canonical_mount mounts))"
    using dist by (auto simp: distinct_map inj_on_def)
  ultimately show "canonicalMounts mounts = map required_mount mount_points"
    unfolding canonicalMounts_def using sorted_required by (intro sort_key_inj_key_eq)
next
  assume c: "canonicalMounts mounts = map required_mount mount_points"
  then have m: "mset (map canonical_mount mounts) = mset (map required_mount mount_points)"
    unfolding canonicalMounts_def by (metis mset_sort)
  have "mount_accepted x" if "x \<in> set mounts" for x
  proof -
    have "canonical_mount x \<in> required_mount ` set mount_points"
      using that mset_eq_setD [OF m] by auto
    then obtain d where d: "d \<in> set mount_points" "canonical_mount x = required_mount d" by blast
    then have "ms_Destination x = d" using required_mount_dest canonical_mount_dest by metis
    then show ?thesis using d by (simp add: mount_accepted_def)
  qed
  moreover have "mset (map ms_Destination mounts) = mset (map ms_Destination (map required_mount mount_points))"
  proof -
    have "map ms_Destination mounts = map ms_Destination (map canonical_mount mounts)" by simp
    then show ?thesis using arg_cong [OF m, of "image_mset ms_Destination"] by (simp only: mset_map)
  qed
  then have "mset (map ms_Destination mounts) = mset mount_points"
    by (simp add: mount_points_def required_mount_def)
  then have "distinct (map ms_Destination mounts)" "length mounts = length mount_points"
    using mount_points_props(2) mset_eq_imp_distinct_iff mset_eq_length by (blast, metis length_map)
  ultimately show "validMounts mounts = []"
    using mount_points_props(3) by (simp add: validMounts_def validMounts_loop_iff list_all_iff)
qed

lemma requiredNS_sorted: "equalSet actual requiredNS \<longleftrightarrow> canonicalStrings actual = requiredNS"
proof (rule equalSet_sorted)
  show "distinct requiredNS" "sorted requiredNS" "[] \<notin> set requiredNS" by code_simp+
qed

lemma allowedDevices_sorted: "equalSet actual allowedDevices \<longleftrightarrow> canonicalStrings actual = allowedDevices"
proof (rule equalSet_sorted)
  show "distinct allowedDevices" "sorted allowedDevices" "[] \<notin> set allowedDevices" by code_simp+
qed

text \<open>
  The specification of an isolation request: everything but the cage, the profile, the
  digests and the mapped host identifiers is fixed, up to the order of the slices.
\<close>

definition isolation_request_ok :: "isolation_Request \<Rightarrow> bool" where
  "isolation_request_ok q \<longleftrightarrow>
     iq_Schema q = isolation_Schema \<and> cageIDPattern (iq_CageID q) \<and> validProfile (iq_Profile q) \<and>
     digestPattern (iq_BaseRootDigest q) \<and> digestPattern (iq_SeccompDigest q) \<and>
     canonicalStrings (iq_Namespaces q) = requiredNS \<and>
     (\<exists>h. 0 < h \<and> iq_UIDMappings q = [\<lparr>um_ContainerID = 0, um_HostID = h, um_Size = 1\<rparr>]) \<and>
     (\<exists>h. 0 < h \<and> iq_GIDMappings q = [\<lparr>um_ContainerID = 0, um_HostID = h, um_Size = 1\<rparr>]) \<and>
     iq_NoNewPrivileges q \<and> iq_ClearEnvironment q \<and> iq_CloseDescriptorsAt q = 3 \<and>
     iq_ParentDeathSignal q = ''SIGKILL'' \<and> iq_InitMode q = ''supervisedReaper'' \<and> iq_WorkingDirectory q = ''/'' \<and>
     iq_Capabilities q = [] \<and> canonicalStrings (iq_Devices q) = allowedDevices \<and>
     canonicalMounts (iq_Mounts q) = map required_mount mount_points"

lemma validMapping_iff:
  "validMapping ms \<longleftrightarrow> (\<exists>h. 0 < h \<and> ms = [\<lparr>um_ContainerID = 0, um_HostID = h, um_Size = 1\<rparr>])"
proof
  assume "validMapping ms"
  then obtain m where "ms = [m]" "um_ContainerID m = 0" "um_HostID m > 0" "um_Size m = 1"
    by (auto simp: validMapping_def split: list.splits)
  then show "\<exists>h. 0 < h \<and> ms = [\<lparr>um_ContainerID = 0, um_HostID = h, um_Size = 1\<rparr>]"
    by (cases m) auto
qed (auto simp: validMapping_def)

lemma isolation_validateRequest_iff: "isolation_validateRequest q = [] \<longleftrightarrow> isolation_request_ok q"
  unfolding isolation_validateRequest_def isolation_request_ok_def validProfile_def
    requiredNS_sorted allowedDevices_sorted validMapping_iff [symmetric] validMounts_iff [symmetric]
  by (subst reason_chain, simp)+ blast

section \<open>Sealing\<close>

definition isolation_doc :: "isolation_Plan \<Rightarrow> json" where
  "isolation_doc p = json_isolation_Plan (isolation_canonical p)"

interpretation isolation_seal: sealed_plan isolation_doc ip_PlanDigest "\<lambda>d p. p\<lparr>ip_PlanDigest := d\<rparr>"
  by unfold_locales (simp_all add: isolation_doc_def isolation_canonical_def)

lemma isolation_digest_doc: "isolation_digestPlan (isolation_canonical p) = digest_json (isolation_doc p)"
  by (simp add: isolation_digestPlan_def isolation_doc_def isolation_canonical_def)

lemma isolation_VerifyPlan_iff:
  "isolation_VerifyPlan p = None \<longleftrightarrow>
     isolation_request_ok (plan_request p) \<and> ip_PlanDigest p = digest_json (isolation_doc p)"
  by (simp add: isolation_VerifyPlan_def Let_def isolation_validateRequest_iff isolation_digest_doc)

lemma canonical_idem [simp]:
  "canonicalStrings (canonicalStrings xs) = canonicalStrings xs"
  "canonical_mount (canonical_mount m) = canonical_mount m"
  "canonicalMounts (canonicalMounts ms) = canonicalMounts ms"
proof -
  show 1: "canonicalStrings (canonicalStrings xs) = canonicalStrings xs" for xs
    by (simp add: canonicalStrings_def)
  have 2: "canonical_mount (canonical_mount m) = canonical_mount m" for m
    by (simp add: canonical_mount_def 1)
  show "canonical_mount (canonical_mount m) = canonical_mount m" by (rule 2)
  have "map canonical_mount (sort_key ms_Destination (map canonical_mount ms)) = sort_key ms_Destination (map canonical_mount ms)"
    by (rule map_idI) (auto simp: 2)
  then show "canonicalMounts (canonicalMounts ms) = canonicalMounts ms"
    by (simp add: canonicalMounts_def)
qed

lemma isolation_new_plan_doc:
  "isolation_digestPlan (isolation_new_plan q) = digest_json (isolation_doc (isolation_new_plan q))"
proof -
  have "isolation_canonical (isolation_new_plan q) = isolation_new_plan q"
    by (simp add: isolation_canonical_def isolation_new_plan_def canonicalMappings_def)
  then show ?thesis by (simp add: isolation_digestPlan_def isolation_doc_def isolation_new_plan_def)
qed

lemma digestPattern_zeros: "digestPattern (replicate 64 (CHR ''0''))"
  by code_simp

lemma required_canonical:
  "canonicalStrings requiredNS = requiredNS" "canonicalStrings allowedDevices = allowedDevices"
  "canonicalMounts (map required_mount mount_points) = map required_mount mount_points"
  by code_simp+

lemma isolation_new_plan_request:
  assumes "isolation_request_ok q"
  shows "isolation_request_ok (plan_request (isolation_new_plan q))"
  using assms
  by (simp add: isolation_request_ok_def plan_request_def isolation_new_plan_def canonicalMappings_def
      digestPattern_zeros required_canonical)

lemma isolation_Prepare_Inr:
  assumes "isolation_Prepare (Some a) cancelled h actor q log = (Inr plan, log')"
  obtains preflight sink u where
    "ia_preflight a = Some preflight" "ia_audit a = Some sink" "\<not> cancelled" "preflight h = Inr u"
    "isolation_request_ok q"
    "plan = (isolation_new_plan q)\<lparr>ip_PlanDigest := isolation_digestPlan (isolation_new_plan q)\<rparr>"
    "log' = log @ [(isolation_authorized_event actor plan, True)]"
  using assms
  by (auto simp: isolation_Prepare_def isolation_deny_def Let_def authorize_plan_Inr isolation_validateRequest_iff
      split: option.splits if_splits sum.splits)

lemma json_u32_eq_iff: "json_u32 v = json_u32 w \<longleftrightarrow> v = w"
  by (simp add: json_u32_def word_uint_eq_iff)

lemma json_UIDMap_inj: "inj json_UIDMap"
  by (rule injI) (auto simp: json_UIDMap_def json_u32_eq_iff intro!: UIDMap.equality)

lemma json_MountSpec_inj: "inj json_MountSpec"
  by (rule injI) (auto simp: json_MountSpec_def json_slice_eq_iff inj_JStr intro!: MountSpec.equality)

lemma json_isolation_Plan_inj: "json_isolation_Plan p = json_isolation_Plan q \<Longrightarrow> p = q"
  by (auto simp: json_isolation_Plan_def json_slice_eq_iff json_appended_eq_iff inj_JStr json_UIDMap_inj
      json_MountSpec_inj json_u32_eq_iff intro!: isolation_Plan.equality)

lemma json_u32_wf [simp]: "json_wf (json_u32 w)"
  by (simp add: json_u32_def)

lemma utf8_constants:
  "list_all valid_utf8 requiredNS" "list_all valid_utf8 allowedDevices" "valid_utf8 isolation_Schema"
  "valid_utf8 ProfileSharedTenant" "valid_utf8 ProfileDedicatedAdministrator"
  "list_all (\<lambda>m. json_wf (json_MountSpec m)) (map required_mount mount_points)"
  by (simp_all add: requiredNS_def allowedDevices_def isolation_Schema_def ProfileSharedTenant_def
      ProfileDedicatedAdministrator_def mount_points_def required_mount_def json_MountSpec_def json_wf_slice
      valid_utf8_ascii ccode_def)

lemma isolation_doc_wf:
  assumes "isolation_VerifyPlan p = None"
  shows "json_wf (isolation_doc p)"
proof -
  have ok: "isolation_request_ok (plan_request p)" using assms by (simp add: isolation_VerifyPlan_iff)
  have c: "ip_Schema p = isolation_Schema" "canonicalStrings (ip_NamespaceFlags p) = requiredNS"
      "canonicalStrings (ip_Devices p) = allowedDevices"
      "canonicalMounts (ip_Mounts p) = map required_mount mount_points" "ip_CapabilityBoundingSet p = []"
      "ip_ParentDeathSignal p = ''SIGKILL''" "ip_InitMode p = ''supervisedReaper''" "ip_WorkingDirectory p = ''/''"
      "cageIDPattern (ip_CageID p)" "digestPattern (ip_SeccompDigest p)" "valid_utf8 (ip_Profile p)"
    using ok utf8_constants(4,5) by (auto simp: isolation_request_ok_def plan_request_def validProfile_def)
  show ?thesis
    using c utf8_constants cageIDPattern_utf8 [OF c(9)] digestPattern_utf8 [OF c(10)]
    by (simp add: isolation_doc_def isolation_canonical_def json_isolation_Plan_def json_wf_slice json_wf_appended
        json_UIDMap_def list_all_iff valid_utf8_ascii ccode_def)
qed

section \<open>A concrete run\<close>

definition demo_isolation_request :: isolation_Request where
  "demo_isolation_request =
     \<lparr>iq_Schema = isolation_Schema, iq_CageID = ''cage-abc'', iq_Profile = ProfileSharedTenant,
      iq_BaseRootDigest = demo_digest, iq_SeccompDigest = demo_digest,
      iq_Namespaces = [''user'', ''pid'', ''mount'', ''ipc'', ''uts'', ''network''],
      iq_UIDMappings = [\<lparr>um_ContainerID = 0, um_HostID = 100001, um_Size = 1\<rparr>],
      iq_GIDMappings = [\<lparr>um_ContainerID = 0, um_HostID = 100001, um_Size = 1\<rparr>],
      iq_Mounts = rev (map required_mount mount_points),
      iq_Devices = [''null'', ''zero'', ''random'', ''urandom''], iq_NoNewPrivileges = True,
      iq_ClearEnvironment = True, iq_CloseDescriptorsAt = 3, iq_ParentDeathSignal = ''SIGKILL'',
      iq_InitMode = ''supervisedReaper'', iq_WorkingDirectory = ''/'', iq_Capabilities = []\<rparr>"

definition demo_isolation_authority :: "unit isolation_Authority" where
  "demo_isolation_authority = \<lparr>ia_preflight = Some Inr, ia_audit = Some accept_all\<rparr>"

lemma demo_isolation_ok: "isolation_validateRequest demo_isolation_request = []"
  by code_simp

definition demo_isolation_plan :: isolation_Plan where
  "demo_isolation_plan = (isolation_new_plan demo_isolation_request)
     \<lparr>ip_PlanDigest := isolation_digestPlan (isolation_new_plan demo_isolation_request)\<rparr>"

lemma demo_isolation_run:
  "isolation_Prepare (Some demo_isolation_authority) False () ''operator'' demo_isolation_request [] =
     (Inr demo_isolation_plan, [(isolation_authorized_event ''operator'' demo_isolation_plan, True)])"
  by (simp add: isolation_Prepare_def demo_isolation_authority_def demo_isolation_ok Let_def
      authorize_plan_def RecordEvent_def accept_all_def demo_isolation_plan_def)

lemma isolation_sealed_verifies:
  assumes "isolation_request_ok q"
  shows "isolation_VerifyPlan ((isolation_new_plan q)\<lparr>ip_PlanDigest := isolation_digestPlan (isolation_new_plan q)\<rparr>) = None"
proof -
  let ?plan = "(isolation_new_plan q)\<lparr>ip_PlanDigest := isolation_digestPlan (isolation_new_plan q)\<rparr>"
  have "isolation_request_ok (plan_request ?plan)"
    using isolation_new_plan_request [OF assms] by (simp add: plan_request_def)
  moreover have "ip_PlanDigest ?plan = digest_json (isolation_doc ?plan)"
    unfolding isolation_new_plan_doc by (rule isolation_seal.seal_verifies)
  ultimately show ?thesis by (simp add: isolation_VerifyPlan_iff)
qed

lemma demo_isolation_verified: "isolation_VerifyPlan demo_isolation_plan = None"
  using isolation_sealed_verifies demo_isolation_ok
  by (simp add: isolation_validateRequest_iff demo_isolation_plan_def)

definition demo_isolation_reordered :: isolation_Plan where
  "demo_isolation_reordered = demo_isolation_plan\<lparr>ip_Devices := rev (ip_Devices demo_isolation_plan)\<rparr>"

lemma demo_isolation_reordered_verified: "isolation_VerifyPlan demo_isolation_reordered = None"
proof -
  have "canonicalStrings (rev xs) = canonicalStrings xs" for xs
    by (simp add: canonicalStrings_def sort_eq_iff_mset)
  then show ?thesis
    using demo_isolation_verified
    by (simp add: isolation_VerifyPlan_iff isolation_request_ok_def plan_request_def demo_isolation_reordered_def
        isolation_doc_def isolation_canonical_def)
qed

section \<open>Properties\<close>

text \<open>
  C25. A prepared plan passes \<open>VerifyPlan\<close>: the later phases accept exactly what this authority
  produced. It is returned only for an uncancelled request, after the host preflight
  succeeded and after the sink recorded the authorization.
\<close>

theorem isolation_Prepare_verifies:
  assumes "isolation_Prepare (Some a) cancelled h actor q log = (Inr plan, log')"
  shows "isolation_VerifyPlan plan = None \<and> \<not> cancelled \<and>
    (\<exists>preflight u. ia_preflight a = Some preflight \<and> preflight h = Inr u) \<and>
    log' = log @ [(isolation_authorized_event actor plan, True)]"
proof -
  obtain preflight sink u where r: "ia_preflight a = Some preflight" "\<not> cancelled" "preflight h = Inr u"
      "isolation_request_ok q"
      "plan = (isolation_new_plan q)\<lparr>ip_PlanDigest := isolation_digestPlan (isolation_new_plan q)\<rparr>"
      "log' = log @ [(isolation_authorized_event actor plan, True)]"
    using isolation_Prepare_Inr [OF assms] by metis
  show ?thesis using r(1-3,6) isolation_sealed_verifies [OF r(4)] by (simp add: r(5) [symmetric])
qed

theorem isolation_Prepare_verifies_witness: "isolation_VerifyPlan demo_isolation_plan = None"
  using isolation_Prepare_verifies [OF demo_isolation_run] by blast

text \<open>
  C26. What any verified plan enforces: exactly the six namespaces, the four devices and the four
  mounts with their flags and options (up to order), one mapping of user and group identifier
  0 to a single unprivileged host identifier, no capability, no new privileges, a cleared
  environment, descriptors closed from 3 on, death by \<open>SIGKILL\<close> with the parent, an init that reaps under
  supervision and \<open>/\<close> as the working directory.
\<close>

theorem isolation_VerifyPlan_enforces:
  assumes "isolation_VerifyPlan plan = None"
  shows "sort (ip_NamespaceFlags plan) = requiredNS \<and> sort (ip_Devices plan) = allowedDevices \<and>
    canonicalMounts (ip_Mounts plan) = map required_mount [''/'', ''/dev'', ''/proc'', ''/tmp''] \<and>
    (\<exists>uid gid. 0 < uid \<and> 0 < gid \<and>
       ip_UIDMappings plan = [\<lparr>um_ContainerID = 0, um_HostID = uid, um_Size = 1\<rparr>] \<and>
       ip_GIDMappings plan = [\<lparr>um_ContainerID = 0, um_HostID = gid, um_Size = 1\<rparr>]) \<and>
    ip_CapabilityBoundingSet plan = [] \<and> ip_NoNewPrivileges plan \<and> ip_ClearEnvironment plan \<and>
    ip_CloseDescriptorsAt plan = 3 \<and> ip_ParentDeathSignal plan = ''SIGKILL'' \<and> ip_InitMode plan = ''supervisedReaper'' \<and>
    ip_WorkingDirectory plan = ''/'' \<and> validProfile (ip_Profile plan) \<and> digestPattern (ip_SeccompDigest plan) \<and>
    cageIDPattern (ip_CageID plan) \<and> digestPattern (ip_PlanDigest plan)"
  using assms
  by (auto simp: isolation_VerifyPlan_iff isolation_request_ok_def plan_request_def canonicalStrings_def
      mount_points_def [symmetric])

theorem isolation_VerifyPlan_enforces_witness:
  "sort (ip_NamespaceFlags demo_isolation_plan) = requiredNS \<and> ip_NoNewPrivileges demo_isolation_plan"
  using isolation_VerifyPlan_enforces [OF demo_isolation_verified] by blast

text \<open>
  Every refusal of \<open>Prepare\<close> is audited or unavailable, and a call writes at most one record.
\<close>

theorem isolation_Prepare_refusal:
  assumes "isolation_Prepare (Some a) cancelled h actor q log = (Inl err, log')"
  shows "refusal_audited PkgIsolation err log log'"
  using assms
  by (auto simp: isolation_Prepare_def isolation_deny_def Let_def
      intro: refusal_auditedI refusal_audited_authorize refusal_audited_unavailable
      split: option.splits if_splits sum.splits)

theorem isolation_Prepare_refusal_witness:
  "\<exists>err log'. isolation_Prepare (Some demo_isolation_authority) True () ''operator'' demo_isolation_request [] = (Inl err, log') \<and>
     refusal_audited PkgIsolation err [] log'"
proof -
  obtain err log' where run:
    "isolation_Prepare (Some demo_isolation_authority) True () ''operator'' demo_isolation_request [] = (Inl err, log')"
    by (simp add: isolation_Prepare_def demo_isolation_authority_def isolation_deny_def deny_with_def
        RecordEvent_def accept_all_def)
  with isolation_Prepare_refusal [OF run] show ?thesis by blast
qed

text \<open>
  C27. The plan digest binds the plan: two verified plans with the same digest have the same
  canonical content, unless the two texts are a collision of SHA-256.
\<close>

theorem isolation_digest_binds:
  assumes "isolation_VerifyPlan p = None" "isolation_VerifyPlan q = None" "ip_PlanDigest p = ip_PlanDigest q"
  shows "isolation_canonical p = isolation_canonical q \<or>
    sha256_collision (json_print (isolation_doc p)) (json_print (isolation_doc q))"
proof -
  have "isolation_doc p = isolation_doc q \<or> sha256_collision (json_print (isolation_doc p)) (json_print (isolation_doc q))"
    using assms isolation_doc_wf by (intro isolation_seal.seal_binds) (auto simp: isolation_VerifyPlan_iff)
  then show ?thesis using json_isolation_Plan_inj by (auto simp: isolation_doc_def)
qed

theorem isolation_digest_binds_witness:
  "isolation_canonical demo_isolation_plan = isolation_canonical demo_isolation_reordered \<or>
     sha256_collision (json_print (isolation_doc demo_isolation_plan)) (json_print (isolation_doc demo_isolation_reordered))"
  by (rule isolation_digest_binds [OF demo_isolation_verified demo_isolation_reordered_verified])
     (simp add: demo_isolation_reordered_def)

text \<open>
  The plan does not say which base root it is for: two requests that differ only in the digest of the base
  root, both well formed, are prepared to the same plan, with the same digest and the same audit record.
\<close>

theorem isolation_Prepare_any_base_root:
  assumes "digestPattern (iq_BaseRootDigest q)" "digestPattern d"
  shows "isolation_Prepare authority cancelled host actor (q\<lparr>iq_BaseRootDigest := d\<rparr>) log =
    isolation_Prepare authority cancelled host actor q log"
proof -
  have "isolation_validateRequest (q\<lparr>iq_BaseRootDigest := d\<rparr>) = isolation_validateRequest q"
    using assms by (simp add: isolation_validateRequest_def)
  moreover have "isolation_new_plan (q\<lparr>iq_BaseRootDigest := d\<rparr>) = isolation_new_plan q" by (simp add: isolation_new_plan_def)
  moreover have "iq_CageID (q\<lparr>iq_BaseRootDigest := d\<rparr>) = iq_CageID q" by simp
  ultimately show ?thesis unfolding isolation_Prepare_def by (simp only:)
qed

end
