(* ===== verification/Resource.thy ===== *)
theory Resource
  imports Isolation
begin

text \<open>
  Package \<open>resource\<close> (\<open>resource/authority.go\<close>): cgroup v2 limits and the declarative network
  policy. The theory holds the records, the validators, the six controller writes, the plan
  digest, \<open>Prepare\<close>, \<open>VerifyPlan\<close> and \<open>ApplyCgroup\<close>, which drives the injected file system.
\<close>

section \<open>Data\<close>

record IOThrottle =
  io_Device :: string
  io_ReadBPS :: u64
  io_WriteBPS :: u64
  io_ReadIOPS :: u64
  io_WriteIOPS :: u64

record Endpoint =
  ep_ServerName :: string
  ep_Protocol :: string
  ep_Port :: u16

record resource_NetworkPolicy =
  nw_Mode :: string
  nw_ProxySPIFFEID :: string
  nw_AllowedEndpoints :: "Endpoint list"

record Limits =
  lm_CPUQuotaMicros :: u64
  lm_CPUPeriodMicros :: u64
  lm_MemoryMaxBytes :: u64
  lm_MemoryHighBytes :: u64
  lm_MemorySwapMaxBytes :: u64
  lm_PidsMax :: u64
  lm_IO :: "IOThrottle list"
  lm_FileDescriptorMax :: u64
  lm_WallClockSeconds :: u64

record resource_Request =
  sq_Schema :: string
  sq_CageID :: string
  sq_Profile :: Profile
  sq_IsolationPlanDigest :: string
  sq_Limits :: Limits
  sq_Network :: resource_NetworkPolicy

type_synonym cgroup_write = "string \<times> string"

record CgroupPlan =
  cg_Path :: string
  cg_Writes :: "cgroup_write list"

record resource_Plan =
  sp_Schema :: string
  sp_CageID :: string
  sp_Profile :: Profile
  sp_IsolationPlanDigest :: string
  sp_Cgroup :: CgroupPlan
  sp_FileDescriptorMax :: u64
  sp_WallClockSeconds :: u64
  sp_Network :: resource_NetworkPolicy
  sp_PlanDigest :: string

definition resource_Schema :: string where "resource_Schema = ''brick.host-isolation.resource.v1''"

section \<open>Validators\<close>

definition validThrottle :: "IOThrottle \<Rightarrow> bool" where
  "validThrottle t =
     (devicePattern (io_Device t) \<and> io_ReadBPS t \<noteq> 0 \<and> io_WriteBPS t \<noteq> 0 \<and> io_ReadIOPS t \<noteq> 0 \<and> io_WriteIOPS t \<noteq> 0)"

definition validLimits :: "Limits \<Rightarrow> Limits \<Rightarrow> bool" where
  "validLimits actual maximum =
     (if lm_CPUQuotaMicros actual = 0 \<or> lm_CPUPeriodMicros actual \<noteq> 100000 \<or>
         lm_CPUQuotaMicros actual > lm_CPUPeriodMicros actual \<or> lm_MemoryMaxBytes actual = 0 \<or>
         lm_MemoryHighBytes actual = 0 \<or> lm_MemoryHighBytes actual > lm_MemoryMaxBytes actual \<or>
         lm_PidsMax actual = 0 \<or> lm_FileDescriptorMax actual = 0 \<or> lm_WallClockSeconds actual = 0 \<or> lm_IO actual = []
      then False
      else if lm_CPUQuotaMicros actual > lm_CPUQuotaMicros maximum \<or>
              lm_MemoryMaxBytes actual > lm_MemoryMaxBytes maximum \<or>
              lm_MemoryHighBytes actual > lm_MemoryHighBytes maximum \<or>
              lm_MemorySwapMaxBytes actual > lm_MemorySwapMaxBytes maximum \<or>
              lm_PidsMax actual > lm_PidsMax maximum \<or>
              lm_FileDescriptorMax actual > lm_FileDescriptorMax maximum \<or>
              lm_WallClockSeconds actual > lm_WallClockSeconds maximum
      then False
      else all_fresh validThrottle io_Device [] (lm_IO actual))"

definition validEndpoint :: "Endpoint \<Rightarrow> bool" where
  "validEndpoint e = (hostnamePattern (ep_ServerName e) \<and> ep_Protocol e = ''https'' \<and> ep_Port e = 443)"

definition endpoint_key :: "Endpoint \<Rightarrow> string" where
  "endpoint_key e = ep_ServerName e @ '':'' @ ep_Protocol e @ '':'' @ dec_nat (unat (ep_Port e))"

definition validNetwork :: "resource_NetworkPolicy \<Rightarrow> bool" where
  "validNetwork policy =
     (if nw_Mode policy = ''denyAll'' then nw_ProxySPIFFEID policy = [] \<and> nw_AllowedEndpoints policy = []
      else if nw_Mode policy \<noteq> ''proxyOnly'' \<or> \<not> spiffePattern (nw_ProxySPIFFEID policy) \<or>
              nw_AllowedEndpoints policy = []
      then False
      else all_fresh validEndpoint endpoint_key [] (nw_AllowedEndpoints policy))"

section \<open>Canonical copies, controller writes and the digest\<close>

definition canonicalIO :: "IOThrottle list \<Rightarrow> IOThrottle list" where
  "canonicalIO values = sort_key io_Device values"

definition canonicalLimits :: "Limits \<Rightarrow> Limits" where
  "canonicalLimits value = value\<lparr>lm_IO := canonicalIO (lm_IO value)\<rparr>"

definition canonicalNetwork :: "resource_NetworkPolicy \<Rightarrow> resource_NetworkPolicy" where
  "canonicalNetwork policy =
     policy\<lparr>nw_AllowedEndpoints := sort_key (\<lambda>e. (ep_ServerName e, ep_Protocol e)) (nw_AllowedEndpoints policy)\<rparr>"

definition io_line :: "IOThrottle \<Rightarrow> string" where
  "io_line e = io_Device e @ '' rbps='' @ FormatUint (io_ReadBPS e) @ '' wbps='' @ FormatUint (io_WriteBPS e) @
     '' riops='' @ FormatUint (io_ReadIOPS e) @ '' wiops='' @ FormatUint (io_WriteIOPS e)"

definition cgroupWrites :: "Limits \<Rightarrow> cgroup_write list" where
  "cgroupWrites limits =
     [(''cpu.max'', FormatUint (lm_CPUQuotaMicros limits) @ '' '' @ FormatUint (lm_CPUPeriodMicros limits)),
      (''memory.max'', FormatUint (lm_MemoryMaxBytes limits)),
      (''memory.high'', FormatUint (lm_MemoryHighBytes limits)),
      (''memory.swap.max'', FormatUint (lm_MemorySwapMaxBytes limits)),
      (''pids.max'', FormatUint (lm_PidsMax limits)),
      (''io.max'', join [CHR 0x0A] (map io_line (canonicalIO (lm_IO limits))))]"

fun contains :: "string list \<Rightarrow> string \<Rightarrow> bool" where
  "contains [] wanted = False"
| "contains (v # values) wanted = (if v = wanted then True else contains values wanted)"

lemma contains_iff [simp]: "contains vs wanted \<longleftrightarrow> wanted \<in> set vs"
  by (induction vs) auto

definition controller_files :: "string list" where
  "controller_files = [''cpu.max'', ''memory.max'', ''memory.high'', ''memory.swap.max'', ''pids.max'', ''io.max'']"

definition canonicalWrites :: "cgroup_write list \<Rightarrow> bool" where
  "canonicalWrites writes =
     (if length writes \<noteq> length controller_files then False
      else list_all (\<lambda>(file, (f, v)). f = file \<and> v \<noteq> []) (zip controller_files writes))"

definition safeCgroupRoot :: "string \<Rightarrow> bool" where
  "safeCgroupRoot value = (value = ''/sys/fs/cgroup/brick-isolation'')"

definition safeCgroupPath :: "string \<Rightarrow> string \<Rightarrow> bool" where
  "safeCgroupPath root value =
     (safeCgroupRoot root \<and> HasPrefix value (root @ ''/'') \<and> path_Clean value = value \<and> value \<noteq> root)"

definition json_u16 :: "u16 \<Rightarrow> json" where
  "json_u16 w = JInt (int (unat w))"

definition json_Endpoint :: "Endpoint \<Rightarrow> json" where
  "json_Endpoint e = JObj
     [(''serverName'', JStr (ep_ServerName e)), (''protocol'', JStr (ep_Protocol e)), (''port'', json_u16 (ep_Port e))]"

definition json_resource_NetworkPolicy :: "resource_NetworkPolicy \<Rightarrow> json" where
  "json_resource_NetworkPolicy p = JObj
     [(''mode'', JStr (nw_Mode p)), (''proxySpiffeId'', JStr (nw_ProxySPIFFEID p)),
      (''allowedEndpoints'', json_appended json_Endpoint (nw_AllowedEndpoints p))]"

definition json_cgroup_write :: "cgroup_write \<Rightarrow> json" where
  "json_cgroup_write w = JObj [(''File'', JStr (fst w)), (''Value'', JStr (snd w))]"

definition json_CgroupPlan :: "CgroupPlan \<Rightarrow> json" where
  "json_CgroupPlan c = JObj [(''path'', JStr (cg_Path c)), (''writes'', json_slice json_cgroup_write (cg_Writes c))]"

definition json_resource_Plan :: "resource_Plan \<Rightarrow> json" where
  "json_resource_Plan p = JObj
     [(''schema'', JStr (sp_Schema p)), (''cageId'', JStr (sp_CageID p)), (''profile'', JStr (sp_Profile p)),
      (''isolationPlanDigest'', JStr (sp_IsolationPlanDigest p)), (''cgroup'', json_CgroupPlan (sp_Cgroup p)),
      (''executorLimits'', JObj [(''FileDescriptorMax'', json_u64 (sp_FileDescriptorMax p)),
                                (''WallClockSeconds'', json_u64 (sp_WallClockSeconds p))]),
      (''network'', json_resource_NetworkPolicy (sp_Network p)), (''planDigest'', JStr (sp_PlanDigest p))]"

definition resource_digestPlan :: "resource_Plan \<Rightarrow> string" where
  "resource_digestPlan plan = digest_json (json_resource_Plan (plan\<lparr>sp_PlanDigest := []\<rparr>))"

section \<open>The authority\<close>

record resource_Authority =
  ra_root :: string
  ra_max :: Limits
  ra_audit :: "audit_sink option"

definition resource_NewAuthority :: "string \<Rightarrow> Limits \<Rightarrow> audit_sink option \<Rightarrow> resource_Authority go_result" where
  "resource_NewAuthority brokerCgroupRoot maximum audit =
     (if audit = None \<or> \<not> safeCgroupRoot brokerCgroupRoot \<or> \<not> validLimits maximum maximum
      then Inl (ErrUnavailable PkgResource ''invalid authority configuration'')
      else Inr \<lparr>ra_root = brokerCgroupRoot, ra_max = canonicalLimits maximum, ra_audit = audit\<rparr>)"

definition resource_validate :: "resource_Authority \<Rightarrow> resource_Request \<Rightarrow> isolation_Plan \<Rightarrow> string" where
  "resource_validate a request isolationPlan =
     (if sq_Schema request \<noteq> resource_Schema \<or> \<not> cageIDPattern (sq_CageID request) \<or>
         sq_CageID request \<noteq> ip_CageID isolationPlan \<or> sq_Profile request \<noteq> ip_Profile isolationPlan \<or>
         \<not> digestPattern (sq_IsolationPlanDigest request) \<or>
         sq_IsolationPlanDigest request \<noteq> ip_PlanDigest isolationPlan
      then ''invalid_resource_identity''
      else if \<not> contains (ip_NamespaceFlags isolationPlan) ''network'' \<or> \<not> ip_NoNewPrivileges isolationPlan \<or>
              \<not> ip_ClearEnvironment isolationPlan \<or> ip_CloseDescriptorsAt isolationPlan \<noteq> 3
      then ''incomplete_isolation_preconditions''
      else if \<not> validLimits (sq_Limits request) (ra_max a) then ''invalid_resource_limits''
      else if \<not> validNetwork (sq_Network request) then ''invalid_network_policy''
      else [])"

definition resource_deny ::
  "audit_sink \<Rightarrow> string \<Rightarrow> string \<Rightarrow> string \<Rightarrow> (string \<Rightarrow> go_error) \<Rightarrow> audit_log \<Rightarrow>
   resource_Plan go_result \<times> audit_log" where
  "resource_deny = deny_with PkgResource ''prepareResourcePlan''"

definition resource_new_plan :: "resource_Authority \<Rightarrow> resource_Request \<Rightarrow> resource_Plan" where
  "resource_new_plan a request =
     \<lparr>sp_Schema = resource_Schema, sp_CageID = sq_CageID request, sp_Profile = sq_Profile request,
      sp_IsolationPlanDigest = sq_IsolationPlanDigest request,
      sp_Cgroup = \<lparr>cg_Path = path_Join [ra_root a, sq_CageID request], cg_Writes = cgroupWrites (sq_Limits request)\<rparr>,
      sp_FileDescriptorMax = lm_FileDescriptorMax (sq_Limits request),
      sp_WallClockSeconds = lm_WallClockSeconds (sq_Limits request),
      sp_Network = canonicalNetwork (sq_Network request), sp_PlanDigest = []\<rparr>"

definition resource_authorized_event :: "string \<Rightarrow> resource_Plan \<Rightarrow> audit_event" where
  "resource_authorized_event actor plan =
     mk_event actor ''prepareResourcePlan'' ''authorized'' (sp_CageID plan)
       [(''planDigest'', MStr (sp_PlanDigest plan)), (''isolationPlanDigest'', MStr (sp_IsolationPlanDigest plan)),
        (''networkMode'', MStr (nw_Mode (sp_Network plan)))]"

definition resource_Prepare ::
  "resource_Authority option \<Rightarrow> bool \<Rightarrow> string \<Rightarrow> isolation_Plan \<Rightarrow> resource_Request \<Rightarrow> audit_log \<Rightarrow>
   resource_Plan go_result \<times> audit_log" where
  "resource_Prepare authority cancelled actor isolationPlan request log =
     (case authority of
        None \<Rightarrow> (Inl (ErrUnavailable PkgResource ''missing authority dependency''), log)
      | Some a \<Rightarrow>
          (case ra_audit a of
             None \<Rightarrow> (Inl (ErrUnavailable PkgResource ''missing authority dependency''), log)
           | Some sink \<Rightarrow>
               if cancelled
               then resource_deny sink actor (sq_CageID request) ''request_cancelled'' (ErrUnavailable PkgResource) log
               else if isolation_VerifyPlan isolationPlan \<noteq> None
               then resource_deny sink actor (sq_CageID request) ''unverified_isolation_plan'' (ErrDenied PkgResource) log
               else let reason = resource_validate a request isolationPlan in
                 if reason \<noteq> [] then resource_deny sink actor (sq_CageID request) reason (ErrDenied PkgResource) log
                 else let plan = resource_new_plan a request;
                          plan = plan\<lparr>sp_PlanDigest := resource_digestPlan plan\<rparr>
                      in authorize_plan PkgResource sink (resource_authorized_event actor plan) plan log))"

definition resource_VerifyPlan :: "resource_Authority \<Rightarrow> resource_Plan \<Rightarrow> go_error option" where
  "resource_VerifyPlan a plan =
     (if sp_Schema plan \<noteq> resource_Schema \<or> \<not> cageIDPattern (sp_CageID plan) \<or>
         \<not> digestPattern (sp_IsolationPlanDigest plan) \<or> \<not> safeCgroupPath (ra_root a) (cg_Path (sp_Cgroup plan)) \<or>
         cg_Path (sp_Cgroup plan) \<noteq> path_Join [ra_root a, sp_CageID plan] \<or>
         (sp_Profile plan \<noteq> ProfileSharedTenant \<and> sp_Profile plan \<noteq> ProfileDedicatedAdministrator) \<or>
         \<not> validNetwork (sp_Network plan) \<or> length (cg_Writes (sp_Cgroup plan)) \<noteq> 6 \<or>
         sp_FileDescriptorMax plan = 0 \<or> sp_WallClockSeconds plan = 0
      then Some (ErrDenied PkgResource ''invalid resource plan'')
      else if \<not> canonicalWrites (cg_Writes (sp_Cgroup plan))
      then Some (ErrDenied PkgResource ''noncanonical cgroup writes'')
      else if resource_digestPlan (plan\<lparr>sp_Network := canonicalNetwork (sp_Network plan)\<rparr>) \<noteq> sp_PlanDigest plan
      then Some (ErrDenied PkgResource ''plan digest mismatch'')
      else None)"

section \<open>Applying a plan\<close>

text \<open>
  The injected \<open>CgroupFS\<close> is a parameter that decides, from the operations so far, whether the
  next one succeeds; the model keeps the trace of the operations. \<open>ctx.Err()\<close> is polled once
  before the directory is made and once before every write.
\<close>

datatype cgroup_op = Mkdir string nat | WriteFile string string | Remove string

type_synonym cgroup_trace = "(cgroup_op \<times> bool) list"
type_synonym cgroup_fs = "cgroup_trace \<Rightarrow> cgroup_op \<Rightarrow> bool"

definition cgroup_do :: "cgroup_fs \<Rightarrow> cgroup_op \<Rightarrow> cgroup_trace \<Rightarrow> bool \<times> cgroup_trace" where
  "cgroup_do fs operation tr = (let ok = fs tr operation in (ok, tr @ [(operation, ok)]))"

fun apply_writes ::
  "cgroup_fs \<Rightarrow> (nat \<Rightarrow> bool) \<Rightarrow> nat \<Rightarrow> string \<Rightarrow> cgroup_write list \<Rightarrow> cgroup_trace \<Rightarrow> go_error option \<times> cgroup_trace" where
  "apply_writes fs cancelled k path [] tr = (None, tr)"
| "apply_writes fs cancelled k path ((file, v) # writes) tr =
     (if cancelled k then (Some (ErrUnavailable PkgResource ''request cancelled''), tr)
      else case cgroup_do fs (WriteFile (path_Join [path, file]) v) tr of
        (ok, tr') \<Rightarrow>
          if \<not> ok then (Some (ErrUnavailable PkgResource ''write cgroup controller''), tr')
          else apply_writes fs cancelled (k + 1) path writes tr')"

definition ApplyCgroup ::
  "resource_Authority option \<Rightarrow> (nat \<Rightarrow> bool) \<Rightarrow> resource_Plan \<Rightarrow> cgroup_fs option \<Rightarrow> cgroup_trace \<Rightarrow> audit_log \<Rightarrow>
   go_error option \<times> cgroup_trace \<times> audit_log" where
  "ApplyCgroup authority cancelled plan filesystem tr log =
     (case (authority, filesystem) of
        (Some a, Some fs) \<Rightarrow>
          if cancelled 0 then (Some (ErrUnavailable PkgResource ''request cancelled''), tr, log)
          else (case resource_VerifyPlan a plan of
             Some err \<Rightarrow> (Some err, tr, log)
           | None \<Rightarrow>
               let path = cg_Path (sp_Cgroup plan) in
               (case cgroup_do fs (Mkdir path 0x1E8) tr of
                  (False, tr1) \<Rightarrow> (Some (ErrUnavailable PkgResource ''create cgroup''), tr1, log)
                | (True, tr1) \<Rightarrow>
                    (case apply_writes fs cancelled 1 path (cg_Writes (sp_Cgroup plan)) tr1 of
                       (Some err, tr2) \<Rightarrow> (Some err, snd (cgroup_do fs (Remove path) tr2), log)
                     | (None, tr2) \<Rightarrow>
                         (case ra_audit a of
                            None \<Rightarrow> (Some (ErrOther ''nil audit sink''), snd (cgroup_do fs (Remove path) tr2), log)
                          | Some sink \<Rightarrow>
                              (case RecordEvent sink
                                 (mk_event ''broker'' ''applyCgroup'' ''authorized'' (sp_CageID plan)
                                   [(''planDigest'', MStr (sp_PlanDigest plan)), (''cgroupPath'', MStr path)]) log of
                                 (ok, log') \<Rightarrow>
                                   if ok then (None, tr2, log')
                                   else (Some (ErrUnavailable PkgResource ''audit sink rejected cgroup application''),
                                         snd (cgroup_do fs (Remove path) tr2), log'))))))
      | _ \<Rightarrow> (Some (ErrUnavailable PkgResource ''cgroup dependency unavailable''), tr, log))"

section \<open>Paths below the broker root\<close>

definition cgroup_root :: "string list" where
  "cgroup_root = [''sys'', ''fs'', ''cgroup'', ''brick-isolation'']"

lemma cgroup_root_plain: "cgroup_root \<noteq> []" "\<forall>c\<in>set cgroup_root. plain c"
  by (simp_all add: cgroup_root_def plain_def)

lemma safeCgroupRoot_iff: "safeCgroupRoot v \<longleftrightarrow> v = abs_path cgroup_root"
  by (simp add: safeCgroupRoot_def cgroup_root_def)

lemma safe_cage_path:
  assumes "safeCgroupRoot root" "cageIDPattern cage"
  shows "path_Join [root, cage] = abs_path (cgroup_root @ [cage])" and "safeCgroupPath root (path_Join [root, cage])"
proof -
  have p: "plain cage" by (rule cageIDPattern_plain(1) [OF assms(2)])
  show j: "path_Join [root, cage] = abs_path (cgroup_root @ [cage])"
    using assms(1) path_Join_abs [OF cgroup_root_plain p] by (simp add: safeCgroupRoot_iff)
  have "abs_path (cgroup_root @ [cage]) = (root @ ''/'') @ cage"
    using assms(1) by (simp add: safeCgroupRoot_iff abs_path_def)
  then show "safeCgroupPath root (path_Join [root, cage])"
    using assms(1) abs_path_Clean [of "cgroup_root @ [cage]"] cgroup_root_plain p
    unfolding safeCgroupPath_def j by (auto simp: HasPrefix_iff_prefix)
qed

lemma controller_files_plain: "f \<in> set controller_files \<Longrightarrow> plain f"
  by (auto simp: controller_files_def plain_def)

section \<open>What the validators accept\<close>

lemma all_fresh_mset:
  assumes "mset xs = mset ys"
  shows "all_fresh ok key [] xs \<longleftrightarrow> all_fresh ok key [] ys"
proof -
  have "set xs = set ys" using assms by (rule mset_eq_setD)
  moreover have "mset (map key xs) = mset (map key ys)" using assms by simp
  then have "distinct (map key xs) \<longleftrightarrow> distinct (map key ys)" by (rule mset_eq_imp_distinct_iff)
  ultimately show ?thesis by (simp add: all_fresh_iff)
qed

lemma canonicalNetwork_sel [simp]:
  "nw_Mode (canonicalNetwork n) = nw_Mode n" "nw_ProxySPIFFEID (canonicalNetwork n) = nw_ProxySPIFFEID n"
  "mset (nw_AllowedEndpoints (canonicalNetwork n)) = mset (nw_AllowedEndpoints n)"
  "nw_AllowedEndpoints (canonicalNetwork n) = [] \<longleftrightarrow> nw_AllowedEndpoints n = []"
  "canonicalNetwork (canonicalNetwork n) = canonicalNetwork n"
proof -
  show "nw_AllowedEndpoints (canonicalNetwork n) = [] \<longleftrightarrow> nw_AllowedEndpoints n = []"
    by (simp add: canonicalNetwork_def flip: set_empty)
qed (simp_all add: canonicalNetwork_def)

lemma validNetwork_canonical: "validNetwork (canonicalNetwork n) = validNetwork n"
proof -
  have "all_fresh validEndpoint endpoint_key [] (nw_AllowedEndpoints (canonicalNetwork n)) =
      all_fresh validEndpoint endpoint_key [] (nw_AllowedEndpoints n)"
    by (rule all_fresh_mset) simp
  then show ?thesis by (simp add: validNetwork_def)
qed

lemma canonicalWrites_iff: "canonicalWrites ws \<longleftrightarrow> map fst ws = controller_files \<and> (\<forall>w\<in>set ws. snd w \<noteq> [])"
proof -
  have "length ws = length fs \<Longrightarrow> list_all (\<lambda>(file, (f, v)). f = file \<and> v \<noteq> []) (zip fs ws) \<longleftrightarrow>
      map fst ws = fs \<and> (\<forall>w\<in>set ws. snd w \<noteq> [])" for fs
    by (induction fs ws rule: list_induct2') auto
  then show ?thesis by (auto simp: canonicalWrites_def dest: arg_cong [of _ _ length])
qed

lemma FormatUint_nonempty [simp]: "FormatUint w \<noteq> []"
  by (simp add: FormatUint_def)

lemma join_nonempty: "xs \<noteq> [] \<Longrightarrow> \<forall>x\<in>set xs. x \<noteq> [] \<Longrightarrow> join sep xs \<noteq> []"
  by (cases xs rule: remdups_adj.cases) auto

lemma cgroupWrites_canonical: "lm_IO l \<noteq> [] \<Longrightarrow> canonicalWrites (cgroupWrites l)"
proof -
  assume "lm_IO l \<noteq> []"
  then have "canonicalIO (lm_IO l) \<noteq> []" by (simp add: canonicalIO_def flip: set_empty)
  then have "join [CHR 0x0A] (map io_line (canonicalIO (lm_IO l))) \<noteq> []"
    by (intro join_nonempty) (auto simp: io_line_def)
  then show ?thesis by (simp add: canonicalWrites_iff cgroupWrites_def controller_files_def)
qed

text \<open>The accepted limits, as inequalities.\<close>

lemma validLimits_iff:
  "validLimits l m \<longleftrightarrow>
     0 < lm_CPUQuotaMicros l \<and> lm_CPUPeriodMicros l = 100000 \<and> lm_CPUQuotaMicros l \<le> 100000 \<and>
     0 < lm_MemoryHighBytes l \<and> lm_MemoryHighBytes l \<le> lm_MemoryMaxBytes l \<and>
     0 < lm_PidsMax l \<and> 0 < lm_FileDescriptorMax l \<and> 0 < lm_WallClockSeconds l \<and>
     lm_CPUQuotaMicros l \<le> lm_CPUQuotaMicros m \<and> lm_MemoryMaxBytes l \<le> lm_MemoryMaxBytes m \<and>
     lm_MemoryHighBytes l \<le> lm_MemoryHighBytes m \<and> lm_MemorySwapMaxBytes l \<le> lm_MemorySwapMaxBytes m \<and>
     lm_PidsMax l \<le> lm_PidsMax m \<and> lm_FileDescriptorMax l \<le> lm_FileDescriptorMax m \<and>
     lm_WallClockSeconds l \<le> lm_WallClockSeconds m \<and>
     lm_IO l \<noteq> [] \<and> list_all validThrottle (lm_IO l) \<and> distinct (map io_Device (lm_IO l))"
proof -
  have "lm_MemoryMaxBytes l \<noteq> 0" if "0 < lm_MemoryHighBytes l" "lm_MemoryHighBytes l \<le> lm_MemoryMaxBytes l"
    using that by auto
  then show ?thesis
    by (auto simp: validLimits_def all_fresh_iff list_all_iff word_neq_0_conv not_less)
qed

lemma resource_validate_iff:
  "resource_validate a q ip = [] \<longleftrightarrow>
     sq_Schema q = resource_Schema \<and> cageIDPattern (sq_CageID q) \<and> sq_CageID q = ip_CageID ip \<and>
     sq_Profile q = ip_Profile ip \<and> digestPattern (sq_IsolationPlanDigest q) \<and>
     sq_IsolationPlanDigest q = ip_PlanDigest ip \<and> ''network'' \<in> set (ip_NamespaceFlags ip) \<and>
     ip_NoNewPrivileges ip \<and> ip_ClearEnvironment ip \<and> ip_CloseDescriptorsAt ip = 3 \<and>
     validLimits (sq_Limits q) (ra_max a) \<and> validNetwork (sq_Network q)"
  unfolding resource_validate_def contains_iff by (subst reason_chain, simp)+ blast

section \<open>Sealing\<close>

definition resource_doc :: "resource_Plan \<Rightarrow> json" where
  "resource_doc p = json_resource_Plan (p\<lparr>sp_Network := canonicalNetwork (sp_Network p), sp_PlanDigest := []\<rparr>)"

interpretation resource_seal: sealed_plan resource_doc sp_PlanDigest "\<lambda>d p. p\<lparr>sp_PlanDigest := d\<rparr>"
  by unfold_locales (simp_all add: resource_doc_def)

definition resource_plan_ok :: "resource_Authority \<Rightarrow> resource_Plan \<Rightarrow> bool" where
  "resource_plan_ok a p \<longleftrightarrow>
     sp_Schema p = resource_Schema \<and> cageIDPattern (sp_CageID p) \<and> digestPattern (sp_IsolationPlanDigest p) \<and>
     safeCgroupPath (ra_root a) (cg_Path (sp_Cgroup p)) \<and>
     cg_Path (sp_Cgroup p) = path_Join [ra_root a, sp_CageID p] \<and> validProfile (sp_Profile p) \<and>
     validNetwork (sp_Network p) \<and> canonicalWrites (cg_Writes (sp_Cgroup p)) \<and>
     0 < sp_FileDescriptorMax p \<and> 0 < sp_WallClockSeconds p"

lemma resource_VerifyPlan_iff:
  "resource_VerifyPlan a p = None \<longleftrightarrow> resource_plan_ok a p \<and> sp_PlanDigest p = digest_json (resource_doc p)"
proof -
  have "canonicalWrites ws \<Longrightarrow> length ws = 6" for ws
    by (auto simp: canonicalWrites_def controller_files_def split: if_splits)
  then show ?thesis
    by (auto simp: resource_VerifyPlan_def resource_plan_ok_def resource_digestPlan_def resource_doc_def
        validProfile_def word_neq_0_conv)
qed

lemma isolation_verified_profile: "isolation_VerifyPlan ip = None \<Longrightarrow> validProfile (ip_Profile ip)"
  by (simp add: isolation_VerifyPlan_iff isolation_request_ok_def plan_request_def)

lemma resource_new_plan_verifies:
  assumes "safeCgroupRoot (ra_root a)" "isolation_VerifyPlan ip = None" "resource_validate a q ip = []"
  shows "resource_VerifyPlan a ((resource_new_plan a q)\<lparr>sp_PlanDigest := resource_digestPlan (resource_new_plan a q)\<rparr>) = None"
proof -
  note v = assms(3) [unfolded resource_validate_iff]
  let ?n = "resource_new_plan a q"
  have "resource_plan_ok a (?n\<lparr>sp_PlanDigest := d\<rparr>)" for d
    using v safe_cage_path(2) [OF assms(1), of "sq_CageID q"] isolation_verified_profile [OF assms(2)]
    by (auto simp: resource_plan_ok_def resource_new_plan_def validNetwork_canonical cgroupWrites_canonical validLimits_iff)
  moreover have d: "resource_digestPlan ?n = digest_json (resource_doc ?n)"
    by (simp add: resource_digestPlan_def resource_doc_def resource_new_plan_def)
  ultimately show ?thesis
    using resource_seal.seal_verifies [of ?n] by (simp add: resource_VerifyPlan_iff d)
qed

lemma resource_Prepare_Inr:
  assumes "resource_Prepare (Some a) cancelled actor ip q log = (Inr plan, log')"
  obtains sink where "ra_audit a = Some sink" "\<not> cancelled" "isolation_VerifyPlan ip = None" "resource_validate a q ip = []"
    "plan = (resource_new_plan a q)\<lparr>sp_PlanDigest := resource_digestPlan (resource_new_plan a q)\<rparr>"
    "log' = log @ [(resource_authorized_event actor plan, True)]"
  using assms
  by (auto simp: resource_Prepare_def resource_deny_def Let_def authorize_plan_Inr split: option.splits if_splits)

lemma resource_NewAuthority_root: "resource_NewAuthority root m audit = Inr a \<Longrightarrow> safeCgroupRoot (ra_root a)"
  by (auto simp: resource_NewAuthority_def split: if_splits)

section \<open>Applying: the trace\<close>

lemma apply_writes_trace:
  assumes "apply_writes fs cancelled k path ws tr = (res, tr')"
  shows "\<exists>ran. tr' = tr @ ran \<and> length ran \<le> length ws \<and>
    map fst ran = map (\<lambda>(f, v). WriteFile (path_Join [path, f]) v) (take (length ran) ws) \<and>
    (res = None \<longrightarrow> length ran = length ws \<and> (\<forall>x\<in>set ran. snd x)) \<and>
    (\<forall>err. res = Some err \<longrightarrow> is_ErrUnavailable PkgResource err)"
  using assms
proof (induction ws arbitrary: k tr)
  case (Cons w ws)
  obtain f v where w: "w = (f, v)" by fastforce
  let ?op = "WriteFile (path_Join [path, f]) v"
  show ?case
  proof (cases "cancelled k \<or> \<not> fs tr ?op")
    case True
    then consider "tr' = tr" "res = Some (ErrUnavailable PkgResource ''request cancelled'')"
      | "tr' = tr @ [(?op, False)]" "res = Some (ErrUnavailable PkgResource ''write cgroup controller'')"
      using Cons.prems by (auto simp: w cgroup_do_def Let_def split: if_splits)
    then show ?thesis
    proof cases
      case 1
      then show ?thesis by (intro exI [of _ "[]"]) (simp add: is_ErrUnavailable_def)
    next
      case 2
      then show ?thesis by (intro exI [of _ "[(?op, False)]"]) (simp add: w is_ErrUnavailable_def)
    qed
  next
    case False
    then have "apply_writes fs cancelled (k + 1) path ws (tr @ [(?op, True)]) = (res, tr')"
      using Cons.prems by (simp add: w cgroup_do_def Let_def)
    from Cons.IH [OF this] obtain ran where d: "tr' = (tr @ [(?op, True)]) @ ran" "length ran \<le> length ws"
      "map fst ran = map (\<lambda>(f, v). WriteFile (path_Join [path, f]) v) (take (length ran) ws)"
      "res = None \<longrightarrow> length ran = length ws \<and> (\<forall>x\<in>set ran. snd x)"
      "\<forall>err. res = Some err \<longrightarrow> is_ErrUnavailable PkgResource err" by blast
    then show ?thesis by (intro exI [of _ "(?op, True) # ran"]) (simp add: w)
  qed
qed simp

text \<open>The whole effect of \<open>ApplyCgroup\<close> on the file system.\<close>

definition write_ops :: "resource_Plan \<Rightarrow> cgroup_op list" where
  "write_ops plan = map (\<lambda>(f, v). WriteFile (path_Join [cg_Path (sp_Cgroup plan), f]) v) (cg_Writes (sp_Cgroup plan))"

lemma ApplyCgroup_trace:
  assumes "ApplyCgroup (Some a) cancelled plan (Some fs) tr log = (res, tr', log')"
  obtains (nothing) err where "res = Some err" "tr' = tr"
  | (not_made) err where "res = Some err" "tr' = tr @ [(Mkdir (cg_Path (sp_Cgroup plan)) 0x1E8, False)]"
      "resource_VerifyPlan a plan = None"
  | (undone) err ran ok where "res = Some err" "resource_VerifyPlan a plan = None"
      "tr' = tr @ (Mkdir (cg_Path (sp_Cgroup plan)) 0x1E8, True) # ran @ [(Remove (cg_Path (sp_Cgroup plan)), ok)]"
      "map fst ran = take (length ran) (write_ops plan)"
  | (applied) ran ev where "res = None" "resource_VerifyPlan a plan = None"
      "tr' = tr @ (Mkdir (cg_Path (sp_Cgroup plan)) 0x1E8, True) # ran"
      "map fst ran = write_ops plan" "\<forall>x\<in>set ran. snd x"
      "log' = log @ [(ev, True)]" "ev_outcome ev = ''authorized''"
proof (cases "cancelled 0 \<or> resource_VerifyPlan a plan \<noteq> None")
  case True
  then have "res \<noteq> None \<and> tr' = tr"
    using assms by (cases "resource_VerifyPlan a plan"; cases "cancelled 0") (auto simp: ApplyCgroup_def)
  then obtain err where "res = Some err" "tr' = tr" by blast
  then show ?thesis by (rule nothing)
next
  case False
  let ?path = "cg_Path (sp_Cgroup plan)"
  show ?thesis
  proof (cases "fs tr (Mkdir ?path 0x1E8)")
    case mk: False
    then have "res = Some (ErrUnavailable PkgResource ''create cgroup'')" "tr' = tr @ [(Mkdir ?path 0x1E8, False)]"
      using assms False by (simp_all add: ApplyCgroup_def cgroup_do_def Let_def)
    then show ?thesis using not_made False by blast
  next
    case mk: True
    let ?tr1 = "tr @ [(Mkdir ?path 0x1E8, True)]"
    obtain r tr2 where w: "apply_writes fs cancelled 1 ?path (cg_Writes (sp_Cgroup plan)) ?tr1 = (r, tr2)" by fastforce
    from apply_writes_trace [OF w] obtain ran where ran: "tr2 = ?tr1 @ ran" "length ran \<le> length (cg_Writes (sp_Cgroup plan))"
      "map fst ran = map (\<lambda>(f, v). WriteFile (path_Join [?path, f]) v) (take (length ran) (cg_Writes (sp_Cgroup plan)))"
      "r = None \<longrightarrow> length ran = length (cg_Writes (sp_Cgroup plan)) \<and> (\<forall>x\<in>set ran. snd x)" by blast
    have ops: "map fst ran = take (length ran) (write_ops plan)" using ran(3) by (simp add: write_ops_def take_map)
    show ?thesis
    proof (cases "res = None")
      case True
      have "r = None" "ra_audit a \<noteq> None" using assms False mk w True
        by (auto simp: ApplyCgroup_def cgroup_do_def Let_def split: option.splits)
      then obtain sink where "ra_audit a = Some sink" by blast
      then have "tr' = tr2" "\<exists>ev. log' = log @ [(ev, True)] \<and> ev_outcome ev = ''authorized''"
        using assms False mk w True \<open>r = None\<close>
        by (auto simp: ApplyCgroup_def cgroup_do_def RecordEvent_def Let_def split: if_splits)
      moreover have "map fst ran = write_ops plan"
        using ops ran(4) \<open>r = None\<close> by (simp add: write_ops_def)
      ultimately show ?thesis using applied True False ran(1,4) \<open>r = None\<close> by auto
    next
      case err: False
      then have "tr' = snd (cgroup_do fs (Remove ?path) tr2)"
        using assms False mk w
        by (auto simp: ApplyCgroup_def cgroup_do_def RecordEvent_def Let_def split: option.splits if_splits)
      then have "\<exists>ok. tr' = tr @ (Mkdir ?path 0x1E8, True) # ran @ [(Remove ?path, ok)]"
        by (simp add: cgroup_do_def Let_def ran(1))
      then show ?thesis using undone err False ops by auto
    qed
  qed
qed

section \<open>A concrete run\<close>

definition demo_limits :: Limits where
  "demo_limits = \<lparr>lm_CPUQuotaMicros = 50000, lm_CPUPeriodMicros = 100000, lm_MemoryMaxBytes = 1048576,
     lm_MemoryHighBytes = 524288, lm_MemorySwapMaxBytes = 0, lm_PidsMax = 64,
     lm_IO = [\<lparr>io_Device = ''8:0'', io_ReadBPS = 1000, io_WriteBPS = 1000, io_ReadIOPS = 10, io_WriteIOPS = 10\<rparr>],
     lm_FileDescriptorMax = 128, lm_WallClockSeconds = 600\<rparr>"

definition demo_network :: resource_NetworkPolicy where
  "demo_network = \<lparr>nw_Mode = ''denyAll'', nw_ProxySPIFFEID = [], nw_AllowedEndpoints = []\<rparr>"

definition demo_resource_authority :: resource_Authority where
  "demo_resource_authority = \<lparr>ra_root = ''/sys/fs/cgroup/brick-isolation'', ra_max = demo_limits, ra_audit = Some accept_all\<rparr>"

definition demo_resource_request :: resource_Request where
  "demo_resource_request = \<lparr>sq_Schema = resource_Schema, sq_CageID = ''cage-abc'', sq_Profile = ProfileSharedTenant,
     sq_IsolationPlanDigest = ip_PlanDigest demo_isolation_plan, sq_Limits = demo_limits, sq_Network = demo_network\<rparr>"

lemma demo_limits_ok: "validLimits demo_limits demo_limits"
  by code_simp

lemma demo_resource_new:
  "resource_NewAuthority ''/sys/fs/cgroup/brick-isolation'' demo_limits (Some accept_all) = Inr demo_resource_authority"
proof -
  have "canonicalLimits demo_limits = demo_limits" by (simp add: canonicalLimits_def canonicalIO_def demo_limits_def)
  then show ?thesis
    by (simp add: resource_NewAuthority_def safeCgroupRoot_def demo_limits_ok demo_resource_authority_def)
qed

lemma demo_resource_validate:
  "resource_validate demo_resource_authority demo_resource_request demo_isolation_plan = []"
proof -
  have "canonicalStrings (iq_Namespaces demo_isolation_request) = requiredNS"
    using demo_isolation_ok by (simp add: isolation_validateRequest_iff isolation_request_ok_def)
  then have "''network'' \<in> set (ip_NamespaceFlags demo_isolation_plan)"
    by (simp add: demo_isolation_plan_def isolation_new_plan_def requiredNS_def)
  moreover have "digestPattern (ip_PlanDigest demo_isolation_plan)"
    using demo_isolation_verified by (simp add: isolation_VerifyPlan_iff)
  moreover have "cageIDPattern ''cage-abc''" by code_simp
  ultimately show ?thesis
    using demo_limits_ok
    by (simp add: resource_validate_iff demo_resource_request_def demo_resource_authority_def validNetwork_def
        demo_network_def demo_isolation_plan_def isolation_new_plan_def demo_isolation_request_def)
qed

definition demo_resource_plan :: resource_Plan where
  "demo_resource_plan = (resource_new_plan demo_resource_authority demo_resource_request)
     \<lparr>sp_PlanDigest := resource_digestPlan (resource_new_plan demo_resource_authority demo_resource_request)\<rparr>"

lemma demo_resource_run:
  "resource_Prepare (Some demo_resource_authority) False ''operator'' demo_isolation_plan demo_resource_request [] =
     (Inr demo_resource_plan, [(resource_authorized_event ''operator'' demo_resource_plan, True)])"
proof -
  have "ra_audit demo_resource_authority = Some accept_all" by (simp add: demo_resource_authority_def)
  then show ?thesis
    by (simp add: resource_Prepare_def demo_isolation_verified demo_resource_validate Let_def
        authorize_plan_def RecordEvent_def accept_all_def demo_resource_plan_def)
qed

lemma demo_resource_verified: "resource_VerifyPlan demo_resource_authority demo_resource_plan = None"
  unfolding demo_resource_plan_def
  by (rule resource_new_plan_verifies [OF _ demo_isolation_verified demo_resource_validate])
     (simp add: demo_resource_authority_def safeCgroupRoot_def)

lemma demo_apply:
  obtains tr log where "ApplyCgroup (Some demo_resource_authority) (\<lambda>_. False) demo_resource_plan (Some (\<lambda>_ _. True)) [] [] = (None, tr, log)"
proof -
  have ok: "apply_writes (\<lambda>_ _. True) (\<lambda>_. False) k path ws tr = (None, tr @ map (\<lambda>(f, v). (WriteFile (path_Join [path, f]) v, True)) ws)"
    for k path ws tr
    by (induction ws arbitrary: k tr) (auto simp: cgroup_do_def)
  have "ra_audit demo_resource_authority = Some accept_all" by (simp add: demo_resource_authority_def)
  then show ?thesis
    using that demo_resource_verified
    by (simp add: ApplyCgroup_def cgroup_do_def ok RecordEvent_def accept_all_def Let_def)
qed

section \<open>Properties\<close>

text \<open>
  C28. A prepared resource plan passes \<open>VerifyPlan\<close> of the same authority and is bound to a
  verified isolation plan: same cage, same profile, and its digest. Its controller writes, its descriptor
  limit and its wall clock are those of the limits of the request. These are positive where zero would
  mean nothing or no limit, with the CPU quota at most the period of 100 ms and the high mark of the memory at
  most its maximum, and within the configured maximum in CPU, memory, high mark, swap, processes,
  descriptors and time. The throttles are at least one, one for a device, each positive in all four rates;
  the configured maximum does not bound them.
\<close>

theorem resource_Prepare_bounded:
  assumes "resource_NewAuthority root m audit = Inr a"
    and "resource_Prepare (Some a) cancelled actor ip q log = (Inr plan, log')"
    and "l = sq_Limits q"
  shows "resource_VerifyPlan a plan = None \<and> isolation_VerifyPlan ip = None \<and>
    sp_CageID plan = ip_CageID ip \<and> sp_Profile plan = ip_Profile ip \<and>
    sp_IsolationPlanDigest plan = ip_PlanDigest ip \<and>
    cg_Writes (sp_Cgroup plan) = cgroupWrites l \<and> sp_FileDescriptorMax plan = lm_FileDescriptorMax l \<and>
    sp_WallClockSeconds plan = lm_WallClockSeconds l \<and>
    0 < lm_CPUQuotaMicros l \<and> lm_CPUQuotaMicros l \<le> lm_CPUQuotaMicros m \<and> lm_CPUPeriodMicros l = 100000 \<and>
    lm_CPUQuotaMicros l \<le> 100000 \<and>
    0 < lm_MemoryMaxBytes l \<and> lm_MemoryMaxBytes l \<le> lm_MemoryMaxBytes m \<and>
    0 < lm_MemoryHighBytes l \<and> lm_MemoryHighBytes l \<le> lm_MemoryHighBytes m \<and> lm_MemoryHighBytes l \<le> lm_MemoryMaxBytes l \<and>
    lm_MemorySwapMaxBytes l \<le> lm_MemorySwapMaxBytes m \<and> 0 < lm_PidsMax l \<and> lm_PidsMax l \<le> lm_PidsMax m \<and>
    0 < lm_FileDescriptorMax l \<and> lm_FileDescriptorMax l \<le> lm_FileDescriptorMax m \<and>
    0 < lm_WallClockSeconds l \<and> lm_WallClockSeconds l \<le> lm_WallClockSeconds m \<and>
    lm_IO l \<noteq> [] \<and> distinct (map io_Device (lm_IO l)) \<and>
    (\<forall>t\<in>set (lm_IO l). devicePattern (io_Device t) \<and> 0 < io_ReadBPS t \<and> 0 < io_WriteBPS t \<and>
       0 < io_ReadIOPS t \<and> 0 < io_WriteIOPS t) \<and>
    log' = log @ [(resource_authorized_event actor plan, True)]"
proof -
  obtain sink where r: "isolation_VerifyPlan ip = None" "resource_validate a q ip = []"
      "plan = (resource_new_plan a q)\<lparr>sp_PlanDigest := resource_digestPlan (resource_new_plan a q)\<rparr>"
      "log' = log @ [(resource_authorized_event actor plan, True)]"
    using resource_Prepare_Inr [OF assms(2)] by metis
  have v: "resource_VerifyPlan a plan = None"
    unfolding r(3) by (rule resource_new_plan_verifies [OF resource_NewAuthority_root [OF assms(1)] r(1,2)])
  have max: "ra_max a = canonicalLimits m" using assms(1) by (auto simp: resource_NewAuthority_def split: if_splits)
  have lim: "validLimits l (canonicalLimits m)" using r(2) by (simp add: resource_validate_iff max assms(3))
  then have pos: "0 < lm_MemoryMaxBytes l" by (auto simp: validLimits_iff)
  have io: "\<forall>t\<in>set (lm_IO l). devicePattern (io_Device t) \<and> 0 < io_ReadBPS t \<and> 0 < io_WriteBPS t \<and>
       0 < io_ReadIOPS t \<and> 0 < io_WriteIOPS t"
    using lim by (auto simp: validLimits_iff list_all_iff validThrottle_def word_gt_0)
  have sel: "sp_CageID plan = sq_CageID q" "sp_Profile plan = sq_Profile q"
      "sp_IsolationPlanDigest plan = sq_IsolationPlanDigest q" "cg_Writes (sp_Cgroup plan) = cgroupWrites l"
      "sp_FileDescriptorMax plan = lm_FileDescriptorMax l" "sp_WallClockSeconds plan = lm_WallClockSeconds l"
    by (simp_all add: r(3) resource_new_plan_def assms(3))
  show ?thesis
    using v r(1,4) r(2) [unfolded resource_validate_iff] lim [unfolded validLimits_iff] pos io
    by (simp add: sel canonicalLimits_def)
qed

theorem resource_Prepare_bounded_witness:
  "resource_VerifyPlan demo_resource_authority demo_resource_plan = None \<and>
     sp_IsolationPlanDigest demo_resource_plan = ip_PlanDigest demo_isolation_plan \<and>
     0 < lm_MemoryHighBytes (sq_Limits demo_resource_request)"
  using resource_Prepare_bounded [OF demo_resource_new demo_resource_run refl] by blast

text \<open>
  C30. \<open>ApplyCgroup\<close> touches nothing outside the directory of the plan's cage below the broker
  root: every operation is on that directory or on one of the six controller files in it.
\<close>

theorem ApplyCgroup_confined:
  assumes "resource_NewAuthority root m audit = Inr a"
    and "ApplyCgroup (Some a) cancelled plan (Some fs) [] log = (res, tr, log')"
    and "(operation, ok) \<in> set tr"
  shows "(case operation of
      Mkdir p mode \<Rightarrow> p = abs_path [''sys'', ''fs'', ''cgroup'', ''brick-isolation'', sp_CageID plan] \<and> mode = 488
    | WriteFile p v \<Rightarrow> \<exists>f\<in>set controller_files.
        p = abs_path [''sys'', ''fs'', ''cgroup'', ''brick-isolation'', sp_CageID plan, f]
    | Remove p \<Rightarrow> p = abs_path [''sys'', ''fs'', ''cgroup'', ''brick-isolation'', sp_CageID plan]) \<and>
    plain (sp_CageID plan)"
proof -
  have root: "safeCgroupRoot (ra_root a)" by (rule resource_NewAuthority_root [OF assms(1)])
  have dir: "cg_Path (sp_Cgroup plan) = abs_path (cgroup_root @ [sp_CageID plan])" "plain (sp_CageID plan)"
      "map fst (cg_Writes (sp_Cgroup plan)) = controller_files"
    if "resource_VerifyPlan a plan = None"
    using that safe_cage_path(1) [OF root] cageIDPattern_plain(1)
    by (auto simp: resource_VerifyPlan_iff resource_plan_ok_def canonicalWrites_iff)
  have w: "\<exists>f\<in>set controller_files. \<exists>v. x = WriteFile (abs_path (cgroup_root @ [sp_CageID plan, f])) v"
    if v: "resource_VerifyPlan a plan = None" and x: "x \<in> set (write_ops plan)" for x
  proof -
    obtain f v where fv: "(f, v) \<in> set (cg_Writes (sp_Cgroup plan))" "x = WriteFile (path_Join [cg_Path (sp_Cgroup plan), f]) v"
      using x by (auto simp: write_ops_def)
    then have f: "f \<in> set controller_files" unfolding dir(3) [OF v, symmetric] by force
    moreover have "path_Join [cg_Path (sp_Cgroup plan), f] = abs_path (cgroup_root @ [sp_CageID plan, f])"
      using path_Join_abs [of "cgroup_root @ [sp_CageID plan]" f] cgroup_root_plain dir(1,2) [OF v] f
      by (auto simp: controller_files_plain)
    ultimately show ?thesis using fv(2) by auto
  qed
  from assms(2) show ?thesis
  proof (cases rule: ApplyCgroup_trace)
    case (nothing err)
    then show ?thesis using assms(3) by simp
  next
    case (not_made err)
    then show ?thesis using assms(3) dir by (auto simp: cgroup_root_def)
  next
    case (undone err ran ok')
    have "fst ` set ran \<subseteq> set (write_ops plan)"
      using undone(4) by (metis list.set_map set_take_subset)
    then show ?thesis using assms(3) undone dir [OF undone(2)] w [OF undone(2)]
      by (force simp: cgroup_root_def)
  next
    case (applied ran ev)
    have "fst ` set ran \<subseteq> set (write_ops plan)" using applied(4) by (metis list.set_map order_refl)
    then show ?thesis using assms(3) applied dir [OF applied(2)] w [OF applied(2)]
      by (force simp: cgroup_root_def)
  qed
qed

theorem ApplyCgroup_confined_witness:
  "plain (sp_CageID demo_resource_plan)"
proof -
  obtain tr log where run: "ApplyCgroup (Some demo_resource_authority) (\<lambda>_. False) demo_resource_plan
      (Some (\<lambda>_ _. True)) [] [] = (None, tr, log)" by (rule demo_apply)
  then obtain x where "x \<in> set tr"
    using demo_resource_verified
    by (cases rule: ApplyCgroup_trace) auto
  then show ?thesis using ApplyCgroup_confined [OF demo_resource_new run, of "fst x" "snd x"] by simp
qed

text \<open>
  C29. \<open>ApplyCgroup\<close> is all or nothing: it returns nil only after the directory was made, all
  six controller files were written in order with the plan's values, and the application was
  recorded; on any failure after the directory was made, its last operation removes it.
\<close>

theorem ApplyCgroup_all_or_nothing:
  assumes "ApplyCgroup (Some a) cancelled plan (Some fs) [] log = (res, tr, log')"
  shows "(res = None \<longrightarrow>
       tr = (Mkdir (cg_Path (sp_Cgroup plan)) 488, True) # map (\<lambda>x. (x, True)) (write_ops plan) \<and>
       length (write_ops plan) = 6 \<and> map snd (cg_Writes (sp_Cgroup plan)) = map (\<lambda>x. case x of WriteFile p v \<Rightarrow> v) (write_ops plan) \<and>
       (\<exists>ev. log' = log @ [(ev, True)] \<and> ev_outcome ev = ''authorized'')) \<and>
    (res \<noteq> None \<and> (Mkdir (cg_Path (sp_Cgroup plan)) 488, True) \<in> set tr \<longrightarrow>
       tr \<noteq> [] \<and> fst (last tr) = Remove (cg_Path (sp_Cgroup plan)))"
proof -
  have len: "length (write_ops plan) = 6 \<and>
      map snd (cg_Writes (sp_Cgroup plan)) = map (\<lambda>x. case x of WriteFile p v \<Rightarrow> v) (write_ops plan)"
    if "resource_VerifyPlan a plan = None"
    using that by (auto simp: resource_VerifyPlan_def write_ops_def split: if_splits)
  from assms show ?thesis
  proof (cases rule: ApplyCgroup_trace)
    case (applied ran ev)
    then have "ran = map (\<lambda>x. (x, True)) (write_ops plan)"
      by (metis (mono_tags, lifting) list.map_comp map_idI comp_apply prod.collapse)
    then show ?thesis using applied len by auto
  qed auto
qed

theorem ApplyCgroup_all_or_nothing_witness:
  "\<exists>tr log. ApplyCgroup (Some demo_resource_authority) (\<lambda>_. False) demo_resource_plan (Some (\<lambda>_ _. True)) [] [] =
     (None, tr, log) \<and> length tr = 7"
proof -
  obtain tr log where run: "ApplyCgroup (Some demo_resource_authority) (\<lambda>_. False) demo_resource_plan
      (Some (\<lambda>_ _. True)) [] [] = (None, tr, log)" by (rule demo_apply)
  then show ?thesis using ApplyCgroup_all_or_nothing [OF run] by auto
qed

text \<open>
  The limits are checked when a plan is prepared and not when it is verified: whatever
  non-empty values the six controller files of a verified plan are given, the plan still
  verifies once it carries the digest of its new content. In particular the value \<open>max\<close>,
  which cgroup v2 reads as no limit, is accepted for every controller.
\<close>

definition resealed :: "resource_Plan \<Rightarrow> (string \<Rightarrow> string) \<Rightarrow> resource_Plan" where
  "resealed plan vals =
     (let p = plan\<lparr>sp_Cgroup := (sp_Cgroup plan)\<lparr>cg_Writes := map (\<lambda>f. (f, vals f)) controller_files\<rparr>\<rparr>
      in p\<lparr>sp_PlanDigest := resource_digestPlan (p\<lparr>sp_Network := canonicalNetwork (sp_Network p)\<rparr>)\<rparr>)"

theorem resource_VerifyPlan_ignores_values:
  assumes "resource_VerifyPlan a plan = None" "\<forall>f. vals f \<noteq> []"
  shows "resource_VerifyPlan a (resealed plan vals) = None"
  using assms
  by (auto simp: resource_VerifyPlan_iff resource_plan_ok_def resealed_def Let_def canonicalWrites_iff
      resource_digestPlan_def resource_doc_def comp_def)

theorem resource_VerifyPlan_ignores_values_witness:
  "resource_VerifyPlan demo_resource_authority (resealed demo_resource_plan (\<lambda>_. ''max'')) = None \<and>
     cg_Writes (sp_Cgroup (resealed demo_resource_plan (\<lambda>_. ''max''))) = map (\<lambda>f. (f, ''max'')) controller_files"
  using resource_VerifyPlan_ignores_values [OF demo_resource_verified, of "\<lambda>_. ''max''"]
  by (simp add: resealed_def Let_def)

text \<open>
  Every refusal of \<open>Prepare\<close> is audited or unavailable, and a call writes at most one record.
\<close>

theorem resource_Prepare_refusal:
  assumes "resource_Prepare (Some a) cancelled actor ip q log = (Inl err, log')"
  shows "refusal_audited PkgResource err log log'"
  using assms
  by (auto simp: resource_Prepare_def resource_deny_def Let_def
      intro: refusal_auditedI refusal_audited_authorize refusal_audited_unavailable
      split: option.splits if_splits)

theorem resource_Prepare_refusal_witness:
  "\<exists>err log'. resource_Prepare (Some demo_resource_authority) True ''operator'' demo_isolation_plan demo_resource_request [] =
     (Inl err, log') \<and> refusal_audited PkgResource err [] log'"
proof -
  obtain err log' where run: "resource_Prepare (Some demo_resource_authority) True ''operator'' demo_isolation_plan
      demo_resource_request [] = (Inl err, log')"
    by (simp add: resource_Prepare_def demo_resource_authority_def resource_deny_def deny_with_def
        RecordEvent_def accept_all_def)
  with resource_Prepare_refusal [OF run] show ?thesis by blast
qed

end
