(* ===== verification/Integrity.thy ===== *)
theory Integrity
  imports Resource
begin

text \<open>
  Package \<open>integrity\<close> (\<open>integrity/authority.go\<close>): the signed manifest of approved executables
  and the execve plan made from it. The theory holds the records, the validators of paths,
  arguments and environment, signing and verifying the manifest, its digest and the plan's,
  \<open>Prepare\<close> and \<open>VerifyPlan\<close>. The \<open>ResourceVerifier\<close> and the \<open>Inspector\<close> of host files are
  parameters; the inspector sees the paths inspected so far in the call.
\<close>

section \<open>Data\<close>

record Environment =
  en_Name :: string
  en_Value :: string

record Dependency =
  dp_Path :: string
  dp_Digest :: string
  dp_OwnerUID :: u32
  dp_Mode :: u32

record Entry =
  et_Path :: string
  et_Digest :: string
  et_OwnerUID :: u32
  et_Mode :: u32
  et_Arguments :: "string list"
  et_Interpreter :: "Dependency option"
  et_RuntimeDependencies :: "Dependency list"
  et_Environment :: "Environment list"

record Manifest =
  mf_Schema :: string
  mf_ManifestID :: string
  mf_Profile :: Profile
  mf_Entries :: "Entry list"
  mf_SignatureAlgorithm :: string
  mf_Signature :: string

record integrity_Request =
  gq_Schema :: string
  gq_CageID :: string
  gq_Profile :: Profile
  gq_ResourcePlanDigest :: string
  gq_ExecutablePath :: string
  gq_Arguments :: "string list"
  gq_RequestedEnvironment :: "Environment list"

record FileIdentity =
  fi_Digest :: string
  fi_OwnerUID :: u32
  fi_Mode :: u32
  fi_Regular :: bool
  fi_Symlink :: bool

record ExecPlan =
  xp_Schema :: string
  xp_CageID :: string
  xp_Profile :: Profile
  xp_ResourcePlanDigest :: string
  xp_ManifestID :: string
  xp_ManifestDigest :: string
  xp_ExecutablePath :: string
  xp_InterpreterPath :: string
  xp_Arguments :: "string list"
  xp_Environment :: "Environment list"
  xp_CloseDescriptorsAt :: u32
  xp_WorkingDirectory :: string
  xp_NoPathLookup :: bool
  xp_PlanDigest :: string

definition integrity_Schema :: string where "integrity_Schema = ''brick.host-isolation.integrity.v1''"

definition allowedEnv :: "string list" where "allowedEnv = [''HOME'', ''LANG'', ''TMPDIR'', ''TZ'']"

definition forbiddenNames :: "string list" where
  "forbiddenNames = [''CDPATH'', ''ENV'', ''GODEBUG'', ''IFS'', ''PATH'', ''SHELLOPTS'', ''BASHOPTS'']"

definition forbiddenPref :: "string list" where
  "forbiddenPref = [''LD_'', ''DYLD_'', ''PYTHON'', ''PERL'', ''RUBY'', ''NODE_'', ''BASH'', ''GCONV'', ''GIO_'']"

section \<open>Validators\<close>

definition safeExecutablePath :: "string \<Rightarrow> bool" where
  "safeExecutablePath value =
     ((HasPrefix value ''/runtime/bin/'' \<or> HasPrefix value ''/runtime/interpreters/'') \<and>
      path_Clean value = value \<and> \<not> str_contains value ''//'' \<and> \<not> str_contains value ''..'')"

definition safeRuntimePath :: "string \<Rightarrow> bool" where
  "safeRuntimePath value =
     ((HasPrefix value ''/runtime/lib/'' \<or> HasPrefix value ''/runtime/interpreters/'' \<or>
       HasPrefix value ''/runtime/bin/'') \<and>
      path_Clean value = value \<and> \<not> str_contains value ''//'' \<and> \<not> str_contains value ''..'')"

definition validArgument :: "string \<Rightarrow> bool" where
  "validArgument argument =
     (argument \<noteq> [] \<and> length argument \<le> 512 \<and> \<not> list_ex (\<lambda>c. c \<in> set [CHR 0x00, CHR 0x0D, CHR 0x0A]) argument)"

definition validArguments :: "string list \<Rightarrow> bool" where
  "validArguments arguments = (if length arguments > 32 then False else list_all validArgument arguments)"

definition safeEnvironment :: "Environment \<Rightarrow> bool" where
  "safeEnvironment item =
     (if \<not> namePattern (en_Name item) \<or> \<not> valuePattern (en_Value item) then False
      else if en_Name item \<in> set forbiddenNames then False
      else if list_ex (HasPrefix (en_Name item)) forbiddenPref then False
      else if en_Name item \<notin> set allowedEnv then False
      else if en_Name item = ''HOME'' then en_Value item = ''/nonexistent''
      else if en_Name item = ''TMPDIR'' then en_Value item = ''/tmp''
      else if en_Name item = ''TZ'' then en_Value item = ''UTC''
      else if en_Name item = ''LANG'' then en_Value item = ''C'' \<or> en_Value item = ''C.UTF-8''
      else False)"

definition validEnvironment :: "Environment list \<Rightarrow> bool" where
  "validEnvironment environment =
     (if length environment > 4 then False else all_fresh safeEnvironment en_Name [] environment)"

definition validDependency :: "Dependency \<Rightarrow> bool" where
  "validDependency d =
     (safeRuntimePath (dp_Path d) \<and> digestPattern (dp_Digest d) \<and> dp_OwnerUID d = 0 \<and>
      (dp_Mode d = 0x1ED \<or> dp_Mode d = 0x1A4))"

definition validEntry :: "Entry \<Rightarrow> bool" where
  "validEntry entry =
     (if \<not> safeExecutablePath (et_Path entry) \<or> \<not> digestPattern (et_Digest entry) \<or> et_OwnerUID entry \<noteq> 0 \<or>
         et_Mode entry \<noteq> 0x1ED \<or> \<not> validArguments (et_Arguments entry) \<or> \<not> validEnvironment (et_Environment entry)
      then False
      else if (case et_Interpreter entry of None \<Rightarrow> False | Some i \<Rightarrow> \<not> validDependency i) then False
      else all_fresh validDependency dp_Path [] (et_RuntimeDependencies entry))"

definition validManifest :: "Manifest \<Rightarrow> bool" where
  "validManifest m =
     (if mf_Schema m \<noteq> integrity_Schema \<or> mf_ManifestID m = [] \<or> \<not> validProfile (mf_Profile m) \<or> mf_Entries m = []
      then False
      else all_fresh validEntry et_Path [] (mf_Entries m))"

fun findEntry :: "Entry list \<Rightarrow> string \<Rightarrow> Entry option" where
  "findEntry [] executable = None"
| "findEntry (e # entries) executable = (if et_Path e = executable then Some e else findEntry entries executable)"

fun equalStrings :: "string list \<Rightarrow> string list \<Rightarrow> bool" where
  "equalStrings [] [] = True"
| "equalStrings (l # left) (r # right) = (if l \<noteq> r then False else equalStrings left right)"
| "equalStrings _ _ = False"

definition canonicalEnvironment :: "Environment list \<Rightarrow> Environment list" where
  "canonicalEnvironment environment = sort_key en_Name environment"

definition equalEnvironment :: "Environment list \<Rightarrow> Environment list \<Rightarrow> bool" where
  "equalEnvironment left right =
     (let l = canonicalEnvironment left; r = canonicalEnvironment right
      in if length l \<noteq> length r then False else list_all (\<lambda>(x, y). x = y) (zip l r))"

definition integrity_validateRequest :: "integrity_Request \<Rightarrow> resource_Plan \<Rightarrow> Manifest \<Rightarrow> string" where
  "integrity_validateRequest request plan manifest =
     (if gq_Schema request \<noteq> integrity_Schema \<or> \<not> cageIDPattern (gq_CageID request) \<or>
         gq_CageID request \<noteq> sp_CageID plan \<or> gq_Profile request \<noteq> mf_Profile manifest \<or>
         gq_Profile request \<noteq> sp_Profile plan \<or> \<not> digestPattern (gq_ResourcePlanDigest request) \<or>
         gq_ResourcePlanDigest request \<noteq> sp_PlanDigest plan
      then ''invalid_request_binding''
      else if \<not> safeExecutablePath (gq_ExecutablePath request) \<or> \<not> validArguments (gq_Arguments request) \<or>
              gq_RequestedEnvironment request \<noteq> []
      then ''unsafe_execution_request''
      else if (case findEntry (mf_Entries manifest) (gq_ExecutablePath request) of
                 None \<Rightarrow> True | Some entry \<Rightarrow> \<not> equalStrings (et_Arguments entry) (gq_Arguments request))
      then ''unapproved_executable_or_arguments''
      else [])"

section \<open>Canonical forms, digests and signatures\<close>

definition canonical_entry :: "Entry \<Rightarrow> Entry" where
  "canonical_entry e = e\<lparr>et_Environment := canonicalEnvironment (et_Environment e),
     et_RuntimeDependencies := sort_key dp_Path (et_RuntimeDependencies e)\<rparr>"

definition canonicalManifest :: "Manifest \<Rightarrow> Manifest" where
  "canonicalManifest m = m\<lparr>mf_Signature := [], mf_Entries := map canonical_entry (sort_key et_Path (mf_Entries m))\<rparr>"

definition json_Environment :: "Environment \<Rightarrow> json" where
  "json_Environment e = JObj [(''name'', JStr (en_Name e)), (''value'', JStr (en_Value e))]"

definition json_Dependency :: "Dependency \<Rightarrow> json" where
  "json_Dependency d = JObj
     [(''path'', JStr (dp_Path d)), (''digest'', JStr (dp_Digest d)), (''ownerUid'', json_u32 (dp_OwnerUID d)),
      (''mode'', json_u32 (dp_Mode d))]"

definition json_Entry :: "Entry \<Rightarrow> json" where
  "json_Entry e = JObj
     ([(''path'', JStr (et_Path e)), (''digest'', JStr (et_Digest e)), (''ownerUid'', json_u32 (et_OwnerUID e)),
       (''mode'', json_u32 (et_Mode e)), (''arguments'', json_appended JStr (et_Arguments e))] @
      (case et_Interpreter e of None \<Rightarrow> [] | Some i \<Rightarrow> [(''interpreter'', json_Dependency i)]) @
      [(''runtimeDependencies'', json_appended json_Dependency (et_RuntimeDependencies e)),
       (''environment'', json_appended json_Environment (et_Environment e))])"

definition json_Manifest :: "Manifest \<Rightarrow> json" where
  "json_Manifest m = JObj
     [(''schema'', JStr (mf_Schema m)), (''manifestId'', JStr (mf_ManifestID m)), (''profile'', JStr (mf_Profile m)),
      (''entries'', json_appended json_Entry (mf_Entries m)),
      (''signatureAlgorithm'', JStr (mf_SignatureAlgorithm m)), (''signature'', JStr (mf_Signature m))]"

definition json_ExecPlan :: "ExecPlan \<Rightarrow> json" where
  "json_ExecPlan p = JObj
     ([(''schema'', JStr (xp_Schema p)), (''cageId'', JStr (xp_CageID p)), (''profile'', JStr (xp_Profile p)),
       (''resourcePlanDigest'', JStr (xp_ResourcePlanDigest p)), (''manifestId'', JStr (xp_ManifestID p)),
       (''manifestDigest'', JStr (xp_ManifestDigest p)), (''executablePath'', JStr (xp_ExecutablePath p))] @
      (if xp_InterpreterPath p = [] then [] else [(''interpreterPath'', JStr (xp_InterpreterPath p))]) @
      [(''arguments'', json_appended JStr (xp_Arguments p)),
       (''environment'', json_appended json_Environment (xp_Environment p)),
       (''closeDescriptorsAt'', json_u32 (xp_CloseDescriptorsAt p)),
       (''workingDirectory'', JStr (xp_WorkingDirectory p)), (''noPathLookup'', JBool (xp_NoPathLookup p)),
       (''planDigest'', JStr (xp_PlanDigest p))])"

definition canonicalManifestBytes :: "Manifest \<Rightarrow> bytes option" where
  "canonicalManifestBytes m = Some (json_print (json_Manifest (canonicalManifest m)))"

definition digestManifest :: "Manifest \<Rightarrow> string" where
  "digestManifest m = digest_json (json_Manifest (canonicalManifest m))"

definition digestExecPlan :: "ExecPlan \<Rightarrow> string" where
  "digestExecPlan p =
     digest_json (json_ExecPlan (p\<lparr>xp_PlanDigest := [], xp_Environment := canonicalEnvironment (xp_Environment p)\<rparr>))"

definition set_manifest_sig :: "string \<Rightarrow> string \<Rightarrow> Manifest \<Rightarrow> Manifest" where
  "set_manifest_sig alg s m = m\<lparr>mf_SignatureAlgorithm := alg, mf_Signature := s\<rparr>"

definition SignManifest :: "ed25519 \<Rightarrow> Manifest \<Rightarrow> bytes \<Rightarrow> Manifest go_result" where
  "SignManifest E m key = sign_record E canonicalManifestBytes set_manifest_sig key m"

definition VerifyManifest :: "ed25519 \<Rightarrow> Manifest \<Rightarrow> bytes \<Rightarrow> go_error option" where
  "VerifyManifest E m key =
     (if length key \<noteq> PublicKeySize \<or> \<not> validManifest m \<or> mf_SignatureAlgorithm m \<noteq> SignatureAlgorithm
      then Some (ErrDenied PkgIntegrity ''invalid manifest'')
      else if \<not> signature_ok E canonicalManifestBytes key (mf_Signature m) m
      then Some (ErrDenied PkgIntegrity ''invalid manifest signature'')
      else None)"

section \<open>The authority\<close>

type_synonym inspector = "string list \<Rightarrow> string \<Rightarrow> FileIdentity option"

record integrity_Authority =
  ga_manifest :: Manifest
  ga_manifestDigest :: string
  ga_resource :: "(resource_Plan \<Rightarrow> bool) option"
  ga_inspector :: "inspector option"
  ga_audit :: "audit_sink option"

definition integrity_NewAuthority ::
  "ed25519 \<Rightarrow> Manifest \<Rightarrow> bytes \<Rightarrow> (resource_Plan \<Rightarrow> bool) option \<Rightarrow> inspector option \<Rightarrow> audit_sink option \<Rightarrow>
   integrity_Authority go_result" where
  "integrity_NewAuthority E manifest signer resourceVerifier inspect audit =
     (if length signer \<noteq> PublicKeySize \<or> resourceVerifier = None \<or> inspect = None \<or> audit = None
      then Inl (ErrUnavailable PkgIntegrity ''missing authority dependency'')
      else if VerifyManifest E manifest signer \<noteq> None
      then Inl (ErrUnavailable PkgIntegrity ''manifest verification failed'')
      else Inr \<lparr>ga_manifest = canonicalManifest manifest, ga_manifestDigest = digestManifest manifest,
                ga_resource = resourceVerifier, ga_inspector = inspect, ga_audit = audit\<rparr>)"

definition identity_matches :: "FileIdentity \<Rightarrow> string \<Rightarrow> u32 \<Rightarrow> u32 \<Rightarrow> bool" where
  "identity_matches i digest uid mode =
     (fi_Regular i \<and> \<not> fi_Symlink i \<and> fi_Digest i = digest \<and> fi_OwnerUID i = uid \<and> fi_Mode i = mode)"

definition verifyEntry :: "inspector \<Rightarrow> string list \<Rightarrow> Entry \<Rightarrow> bool" where
  "verifyEntry inspect seen entry =
     (case inspect seen (et_Path entry) of
        None \<Rightarrow> False
      | Some i \<Rightarrow> identity_matches i (et_Digest entry) (et_OwnerUID entry) (et_Mode entry))"

definition verifyDependency :: "inspector \<Rightarrow> string list \<Rightarrow> Dependency \<Rightarrow> bool" where
  "verifyDependency inspect seen d =
     (case inspect seen (dp_Path d) of
        None \<Rightarrow> False
      | Some i \<Rightarrow> identity_matches i (dp_Digest d) (dp_OwnerUID d) (dp_Mode d))"

fun verify_dependencies :: "inspector \<Rightarrow> string list \<Rightarrow> Dependency list \<Rightarrow> bool" where
  "verify_dependencies inspect seen [] = True"
| "verify_dependencies inspect seen (d # ds) =
     (if \<not> verifyDependency inspect seen d then False else verify_dependencies inspect (seen @ [dp_Path d]) ds)"

text \<open>The three groups of inspections of \<open>Prepare\<close>, with the reason of the first that fails.\<close>

definition inspect_entry :: "inspector \<Rightarrow> Entry \<Rightarrow> string" where
  "inspect_entry inspect entry =
     (let seen = [et_Path entry];
          seen' = (case et_Interpreter entry of None \<Rightarrow> seen | Some i \<Rightarrow> seen @ [dp_Path i])
      in if \<not> verifyEntry inspect [] entry then ''executable_integrity_mismatch''
         else if (case et_Interpreter entry of None \<Rightarrow> False | Some i \<Rightarrow> \<not> verifyDependency inspect seen i)
         then ''interpreter_integrity_mismatch''
         else if \<not> verify_dependencies inspect seen' (et_RuntimeDependencies entry)
         then ''runtime_dependency_mismatch''
         else [])"

definition integrity_deny ::
  "audit_sink \<Rightarrow> string \<Rightarrow> string \<Rightarrow> string \<Rightarrow> (string \<Rightarrow> go_error) \<Rightarrow> audit_log \<Rightarrow> ExecPlan go_result \<times> audit_log" where
  "integrity_deny = deny_with PkgIntegrity ''prepareExecPlan''"

definition interpreter_path :: "Entry \<Rightarrow> string" where
  "interpreter_path e = (case et_Interpreter e of None \<Rightarrow> [] | Some i \<Rightarrow> dp_Path i)"

definition new_exec_plan :: "integrity_Authority \<Rightarrow> integrity_Request \<Rightarrow> Entry \<Rightarrow> ExecPlan" where
  "new_exec_plan a request entry =
     \<lparr>xp_Schema = integrity_Schema, xp_CageID = gq_CageID request, xp_Profile = gq_Profile request,
      xp_ResourcePlanDigest = gq_ResourcePlanDigest request, xp_ManifestID = mf_ManifestID (ga_manifest a),
      xp_ManifestDigest = ga_manifestDigest a, xp_ExecutablePath = et_Path entry,
      xp_InterpreterPath = interpreter_path entry, xp_Arguments = et_Arguments entry,
      xp_Environment = canonicalEnvironment (et_Environment entry), xp_CloseDescriptorsAt = 3,
      xp_WorkingDirectory = ''/'', xp_NoPathLookup = True, xp_PlanDigest = []\<rparr>"

definition exec_authorized_event :: "string \<Rightarrow> ExecPlan \<Rightarrow> audit_event" where
  "exec_authorized_event actor plan =
     mk_event (fallback actor) ''prepareExecPlan'' ''authorized'' (xp_CageID plan)
       [(''planDigest'', MStr (xp_PlanDigest plan)), (''manifestDigest'', MStr (xp_ManifestDigest plan)),
        (''resourcePlanDigest'', MStr (xp_ResourcePlanDigest plan))]"

definition integrity_Prepare ::
  "integrity_Authority option \<Rightarrow> bool \<Rightarrow> string \<Rightarrow> resource_Plan \<Rightarrow> integrity_Request \<Rightarrow> audit_log \<Rightarrow>
   ExecPlan go_result \<times> audit_log" where
  "integrity_Prepare authority cancelled actor resourcePlan request log =
     (case authority of
        None \<Rightarrow> (Inl (ErrUnavailable PkgIntegrity ''authority unavailable''), log)
      | Some a \<Rightarrow>
          (case (ga_resource a, ga_inspector a, ga_audit a) of
             (Some verifier, Some inspect, Some sink) \<Rightarrow>
               let deny = (\<lambda>reason result. integrity_deny sink actor (gq_CageID request) reason result log) in
               if cancelled then deny ''request_cancelled'' (ErrUnavailable PkgIntegrity)
               else if \<not> verifier resourcePlan then deny ''unverified_resource_plan'' (ErrDenied PkgIntegrity)
               else let reason = integrity_validateRequest request resourcePlan (ga_manifest a) in
                 if reason \<noteq> [] then deny reason (ErrDenied PkgIntegrity)
                 else (case findEntry (mf_Entries (ga_manifest a)) (gq_ExecutablePath request) of
                    None \<Rightarrow> deny ''unknown_executable'' (ErrDenied PkgIntegrity)
                  | Some entry \<Rightarrow>
                      let reason = inspect_entry inspect entry in
                      if reason \<noteq> [] then deny reason (ErrDenied PkgIntegrity)
                      else let plan = new_exec_plan a request entry;
                               plan = plan\<lparr>xp_PlanDigest := digestExecPlan plan\<rparr>
                           in authorize_plan PkgIntegrity sink (exec_authorized_event actor plan) plan log)
           | _ \<Rightarrow> (Inl (ErrUnavailable PkgIntegrity ''authority unavailable''), log)))"

definition integrity_VerifyPlan :: "integrity_Authority option \<Rightarrow> ExecPlan \<Rightarrow> go_error option" where
  "integrity_VerifyPlan authority plan =
     (case authority of
        None \<Rightarrow> Some (ErrDenied PkgIntegrity ''invalid exec plan'')
      | Some a \<Rightarrow>
          if xp_Schema plan \<noteq> integrity_Schema \<or> \<not> cageIDPattern (xp_CageID plan) \<or>
             xp_Profile plan \<noteq> mf_Profile (ga_manifest a) \<or> \<not> digestPattern (xp_ResourcePlanDigest plan) \<or>
             xp_ManifestID plan \<noteq> mf_ManifestID (ga_manifest a) \<or> xp_ManifestDigest plan \<noteq> ga_manifestDigest a \<or>
             xp_CloseDescriptorsAt plan \<noteq> 3 \<or> xp_WorkingDirectory plan \<noteq> ''/'' \<or> \<not> xp_NoPathLookup plan
          then Some (ErrDenied PkgIntegrity ''invalid exec plan'')
          else (case findEntry (mf_Entries (ga_manifest a)) (xp_ExecutablePath plan) of
             None \<Rightarrow> Some (ErrDenied PkgIntegrity ''exec plan manifest mismatch'')
           | Some entry \<Rightarrow>
               if \<not> equalStrings (et_Arguments entry) (xp_Arguments plan) \<or>
                  \<not> equalEnvironment (canonicalEnvironment (et_Environment entry)) (xp_Environment plan)
               then Some (ErrDenied PkgIntegrity ''exec plan manifest mismatch'')
               else if xp_InterpreterPath plan \<noteq> interpreter_path entry
               then Some (ErrDenied PkgIntegrity ''exec plan interpreter mismatch'')
               else if digestExecPlan (plan\<lparr>xp_Environment := canonicalEnvironment (xp_Environment plan)\<rparr>) \<noteq> xp_PlanDigest plan
               then Some (ErrDenied PkgIntegrity ''exec plan digest mismatch'')
               else None))"

interpretation manifest_sig: signed_record canonicalManifestBytes set_manifest_sig
  mf_SignatureAlgorithm mf_Signature
  by unfold_locales (simp_all add: set_manifest_sig_def canonicalManifestBytes_def canonicalManifest_def)

section \<open>What the validators accept\<close>

lemma findEntry_SomeD: "findEntry es x = Some e \<Longrightarrow> e \<in> set es \<and> et_Path e = x"
  by (induction es) (auto split: if_splits)

lemma findEntry_distinct: "distinct (map et_Path es) \<Longrightarrow> findEntry es x = Some e \<longleftrightarrow> e \<in> set es \<and> et_Path e = x"
  by (induction es) (auto simp: image_iff)

lemma equalStrings_iff [simp]: "equalStrings l r \<longleftrightarrow> l = r"
  by (induction l r rule: equalStrings.induct) auto

lemma equalEnvironment_iff: "equalEnvironment l r \<longleftrightarrow> canonicalEnvironment l = canonicalEnvironment r"
  by (auto simp: equalEnvironment_def Let_def list_all2_eq list_all2_iff list_all_iff)

lemma canonicalEnvironment_idem [simp]: "canonicalEnvironment (canonicalEnvironment e) = canonicalEnvironment e"
  by (simp add: canonicalEnvironment_def)

text \<open>The only values an environment variable can have.\<close>

definition env_values :: "(string \<times> string) list" where
  "env_values = [(''HOME'', ''/nonexistent''), (''TMPDIR'', ''/tmp''), (''TZ'', ''UTC''), (''LANG'', ''C''), (''LANG'', ''C.UTF-8'')]"

lemma env_values_safe: "list_all (\<lambda>(n, v). safeEnvironment \<lparr>en_Name = n, en_Value = v\<rparr>) env_values"
  by code_simp

lemma safeEnvironment_iff: "safeEnvironment item \<longleftrightarrow> (en_Name item, en_Value item) \<in> set env_values"
proof
  assume "safeEnvironment item"
  then show "(en_Name item, en_Value item) \<in> set env_values"
    by (auto simp: safeEnvironment_def env_values_def split: if_splits)
next
  assume "(en_Name item, en_Value item) \<in> set env_values"
  then show "safeEnvironment item"
    using env_values_safe by (cases item) (auto simp: list_all_iff)
qed

definition env_ok :: "Environment list \<Rightarrow> bool" where
  "env_ok env \<longleftrightarrow> (\<forall>e\<in>set env. (en_Name e, en_Value e) \<in> set env_values) \<and> distinct (map en_Name env)"

lemma validEnvironment_ok: "validEnvironment env \<Longrightarrow> env_ok env \<and> length env \<le> 4"
  by (auto simp: validEnvironment_def all_fresh_iff env_ok_def safeEnvironment_iff split: if_splits)

lemma env_ok_mset: "mset e = mset e' \<Longrightarrow> env_ok e \<longleftrightarrow> env_ok e'"
  by (metis env_ok_def mset_eq_setD mset_map mset_eq_imp_distinct_iff)

lemma validEntry_iff:
  "validEntry e \<longleftrightarrow> safeExecutablePath (et_Path e) \<and> digestPattern (et_Digest e) \<and> et_OwnerUID e = 0 \<and>
     et_Mode e = 0x1ED \<and> validArguments (et_Arguments e) \<and> validEnvironment (et_Environment e) \<and>
     (\<forall>i. et_Interpreter e = Some i \<longrightarrow> validDependency i) \<and>
     (\<forall>d\<in>set (et_RuntimeDependencies e). validDependency d) \<and> distinct (map dp_Path (et_RuntimeDependencies e))"
  by (cases "et_Interpreter e") (auto simp: validEntry_def all_fresh_iff)

lemma validManifest_iff:
  "validManifest m \<longleftrightarrow> mf_Schema m = integrity_Schema \<and> mf_ManifestID m \<noteq> [] \<and> validProfile (mf_Profile m) \<and>
     mf_Entries m \<noteq> [] \<and> (\<forall>e\<in>set (mf_Entries m). validEntry e) \<and> distinct (map et_Path (mf_Entries m))"
  by (auto simp: validManifest_def all_fresh_iff)

text \<open>The canonical copy that the authority keeps is as valid as the manifest it was given.\<close>

lemma distinct_map_sort_key [simp]: "distinct (map f (sort_key g xs)) = distinct (map f xs)"
  by (metis mset_eq_imp_distinct_iff mset_map mset_sort)

lemma canonical_entry_simps [simp]:
  "et_Path (canonical_entry e) = et_Path e" "et_Arguments (canonical_entry e) = et_Arguments e"
  "et_Interpreter (canonical_entry e) = et_Interpreter e" "et_Digest (canonical_entry e) = et_Digest e"
  "et_OwnerUID (canonical_entry e) = et_OwnerUID e" "et_Mode (canonical_entry e) = et_Mode e"
  "et_Environment (canonical_entry e) = canonicalEnvironment (et_Environment e)"
  "et_RuntimeDependencies (canonical_entry e) = sort_key dp_Path (et_RuntimeDependencies e)"
  by (simp_all add: canonical_entry_def)

lemma validEnvironment_canonical: "validEnvironment env \<Longrightarrow> validEnvironment (canonicalEnvironment env)"
  by (auto simp: validEnvironment_def all_fresh_iff canonicalEnvironment_def split: if_splits)

lemma validEntry_canonical: "validEntry e \<Longrightarrow> validEntry (canonical_entry e)"
  by (auto simp: validEntry_iff validEnvironment_canonical)

lemma canonicalManifest_simps [simp]:
  "mf_Schema (canonicalManifest m) = mf_Schema m" "mf_ManifestID (canonicalManifest m) = mf_ManifestID m"
  "mf_Profile (canonicalManifest m) = mf_Profile m"
  "mf_Entries (canonicalManifest m) = map canonical_entry (sort_key et_Path (mf_Entries m))"
  by (simp_all add: canonicalManifest_def)

lemma validManifest_canonical: "validManifest m \<Longrightarrow> validManifest (canonicalManifest m)"
  by (auto simp: validManifest_iff validEntry_canonical comp_def simp flip: set_empty)

lemma VerifyManifest_iff:
  "VerifyManifest E m key = None \<longleftrightarrow> length key = PublicKeySize \<and> validManifest m \<and>
     mf_SignatureAlgorithm m = SignatureAlgorithm \<and> signature_ok E canonicalManifestBytes key (mf_Signature m) m"
  by (auto simp: VerifyManifest_def)

text \<open>An authority that \<open>NewAuthority\<close> returned.\<close>

definition integrity_authority_ok :: "integrity_Authority \<Rightarrow> bool" where
  "integrity_authority_ok a \<longleftrightarrow> validManifest (ga_manifest a) \<and> digestPattern (ga_manifestDigest a) \<and>
     (\<forall>e\<in>set (mf_Entries (ga_manifest a)). canonicalEnvironment (et_Environment e) = et_Environment e)"

lemma integrity_NewAuthority_ok:
  assumes "integrity_NewAuthority E m signer verifier inspect audit = Inr a"
  shows "integrity_authority_ok a" "VerifyManifest E m signer = None" "ga_manifest a = canonicalManifest m"
    "ga_inspector a = inspect" "ga_resource a = verifier" "ga_audit a = audit"
proof -
  show v: "VerifyManifest E m signer = None" and a: "ga_manifest a = canonicalManifest m"
    "ga_inspector a = inspect" "ga_resource a = verifier" "ga_audit a = audit"
    using assms by (auto simp: integrity_NewAuthority_def split: if_splits)
  have "ga_manifestDigest a = digestManifest m" using assms by (auto simp: integrity_NewAuthority_def split: if_splits)
  then show "integrity_authority_ok a"
    using v validManifest_canonical [of m] by (auto simp: integrity_authority_ok_def a(1) VerifyManifest_iff digestManifest_def)
qed

section \<open>Requests and plans\<close>

lemma integrity_validateRequest_iff:
  "integrity_validateRequest q p m = [] \<longleftrightarrow>
     gq_Schema q = integrity_Schema \<and> cageIDPattern (gq_CageID q) \<and> gq_CageID q = sp_CageID p \<and>
     gq_Profile q = mf_Profile m \<and> gq_Profile q = sp_Profile p \<and> digestPattern (gq_ResourcePlanDigest q) \<and>
     gq_ResourcePlanDigest q = sp_PlanDigest p \<and> safeExecutablePath (gq_ExecutablePath q) \<and>
     validArguments (gq_Arguments q) \<and> gq_RequestedEnvironment q = [] \<and>
     (\<exists>e. findEntry (mf_Entries m) (gq_ExecutablePath q) = Some e \<and> et_Arguments e = gq_Arguments q)"
proof -
  have "(case findEntry es x of None \<Rightarrow> True | Some entry \<Rightarrow> \<not> equalStrings (et_Arguments entry) args) \<longleftrightarrow>
      \<not> (\<exists>e. findEntry es x = Some e \<and> et_Arguments e = args)" for es x args
    by (cases "findEntry es x") auto
  then show ?thesis
    unfolding integrity_validateRequest_def by (simp only:) ((subst reason_chain, simp)+, blast)
qed

definition exec_doc :: "ExecPlan \<Rightarrow> json" where
  "exec_doc p = json_ExecPlan (p\<lparr>xp_PlanDigest := [], xp_Environment := canonicalEnvironment (xp_Environment p)\<rparr>)"

interpretation exec_seal: sealed_plan exec_doc xp_PlanDigest "\<lambda>d p. p\<lparr>xp_PlanDigest := d\<rparr>"
  by unfold_locales (simp_all add: exec_doc_def)

definition exec_plan_ok :: "integrity_Authority \<Rightarrow> ExecPlan \<Rightarrow> Entry \<Rightarrow> bool" where
  "exec_plan_ok a p e \<longleftrightarrow> xp_Schema p = integrity_Schema \<and> cageIDPattern (xp_CageID p) \<and>
     xp_Profile p = mf_Profile (ga_manifest a) \<and> digestPattern (xp_ResourcePlanDigest p) \<and>
     xp_ManifestID p = mf_ManifestID (ga_manifest a) \<and> xp_ManifestDigest p = ga_manifestDigest a \<and>
     xp_CloseDescriptorsAt p = 3 \<and> xp_WorkingDirectory p = ''/'' \<and> xp_NoPathLookup p \<and>
     findEntry (mf_Entries (ga_manifest a)) (xp_ExecutablePath p) = Some e \<and>
     xp_Arguments p = et_Arguments e \<and>
     canonicalEnvironment (xp_Environment p) = canonicalEnvironment (et_Environment e) \<and>
     xp_InterpreterPath p = interpreter_path e"

lemma integrity_VerifyPlan_iff:
  "integrity_VerifyPlan (Some a) p = None \<longleftrightarrow> (\<exists>e. exec_plan_ok a p e) \<and> xp_PlanDigest p = digest_json (exec_doc p)"
  by (cases "findEntry (mf_Entries (ga_manifest a)) (xp_ExecutablePath p)")
     (auto simp: integrity_VerifyPlan_def exec_plan_ok_def equalEnvironment_iff digestExecPlan_def exec_doc_def)

lemma new_exec_plan_verifies:
  assumes "findEntry (mf_Entries (ga_manifest a)) (gq_ExecutablePath q) = Some e"
    and "cageIDPattern (gq_CageID q)" "gq_Profile q = mf_Profile (ga_manifest a)" "digestPattern (gq_ResourcePlanDigest q)"
  shows "integrity_VerifyPlan (Some a) ((new_exec_plan a q e)\<lparr>xp_PlanDigest := digestExecPlan (new_exec_plan a q e)\<rparr>) = None"
proof -
  let ?n = "new_exec_plan a q e"
  have "exec_plan_ok a (?n\<lparr>xp_PlanDigest := d\<rparr>) e" for d
    using assms findEntry_SomeD [OF assms(1)] by (simp add: exec_plan_ok_def new_exec_plan_def)
  moreover have d: "digestExecPlan ?n = digest_json (exec_doc ?n)" by (simp add: digestExecPlan_def exec_doc_def)
  ultimately show ?thesis
    using exec_seal.seal_verifies [of ?n] by (auto simp: integrity_VerifyPlan_iff d)
qed

text \<open>What the inspector said of every file the plan names.\<close>

definition entry_inspected :: "inspector \<Rightarrow> Entry \<Rightarrow> bool" where
  "entry_inspected inspect e \<longleftrightarrow>
     (\<exists>seen i. inspect seen (et_Path e) = Some i \<and> identity_matches i (et_Digest e) (et_OwnerUID e) (et_Mode e)) \<and>
     (\<forall>d. et_Interpreter e = Some d \<or> d \<in> set (et_RuntimeDependencies e) \<longrightarrow>
        (\<exists>seen i. inspect seen (dp_Path d) = Some i \<and> identity_matches i (dp_Digest d) (dp_OwnerUID d) (dp_Mode d)))"

lemma verifyDependency_inspected:
  "verifyDependency inspect seen d \<Longrightarrow>
     \<exists>seen i. inspect seen (dp_Path d) = Some i \<and> identity_matches i (dp_Digest d) (dp_OwnerUID d) (dp_Mode d)"
  by (auto simp: verifyDependency_def split: option.splits)

lemma verify_dependencies_inspected:
  "verify_dependencies inspect seen ds \<Longrightarrow> d \<in> set ds \<Longrightarrow> \<exists>seen. verifyDependency inspect seen d"
  by (induction ds arbitrary: seen) (auto split: if_splits)

lemma inspect_entry_ok:
  assumes "inspect_entry inspect e = []"
  shows "entry_inspected inspect e"
proof -
  obtain seen where i: "verifyEntry inspect [] e" "\<And>i. et_Interpreter e = Some i \<Longrightarrow> verifyDependency inspect [et_Path e] i"
      "verify_dependencies inspect seen (et_RuntimeDependencies e)"
    using assms by (auto simp: inspect_entry_def Let_def split: if_splits option.splits)
  have "\<exists>seen i. inspect seen (et_Path e) = Some i \<and> identity_matches i (et_Digest e) (et_OwnerUID e) (et_Mode e)"
    using i(1) by (auto simp: verifyEntry_def split: option.splits)
  moreover have "\<exists>seen. verifyDependency inspect seen d"
    if "et_Interpreter e = Some d \<or> d \<in> set (et_RuntimeDependencies e)" for d
    using that i(2) verify_dependencies_inspected [OF i(3)] by blast
  ultimately show ?thesis using verifyDependency_inspected unfolding entry_inspected_def by blast
qed

lemma integrity_Prepare_Inr:
  assumes "integrity_Prepare (Some a) cancelled actor rp q log = (Inr plan, log')"
  obtains verifier inspect sink e where
    "ga_resource a = Some verifier" "ga_inspector a = Some inspect" "ga_audit a = Some sink" "\<not> cancelled"
    "verifier rp" "integrity_validateRequest q rp (ga_manifest a) = []"
    "findEntry (mf_Entries (ga_manifest a)) (gq_ExecutablePath q) = Some e" "inspect_entry inspect e = []"
    "plan = (new_exec_plan a q e)\<lparr>xp_PlanDigest := digestExecPlan (new_exec_plan a q e)\<rparr>"
    "log' = log @ [(exec_authorized_event actor plan, True)]"
  using assms
  by (auto simp: integrity_Prepare_def integrity_deny_def Let_def authorize_plan_Inr split: option.splits if_splits)

section \<open>A concrete run\<close>

definition demo_entry :: Entry where
  "demo_entry = \<lparr>et_Path = ''/runtime/bin/app'', et_Digest = demo_digest, et_OwnerUID = 0, et_Mode = 0x1ED,
     et_Arguments = [''serve''],
     et_Interpreter = Some \<lparr>dp_Path = ''/runtime/interpreters/vm'', dp_Digest = demo_digest, dp_OwnerUID = 0, dp_Mode = 0x1ED\<rparr>,
     et_RuntimeDependencies = [\<lparr>dp_Path = ''/runtime/lib/core.so'', dp_Digest = demo_digest, dp_OwnerUID = 0, dp_Mode = 0x1A4\<rparr>],
     et_Environment = [\<lparr>en_Name = ''TZ'', en_Value = ''UTC''\<rparr>, \<lparr>en_Name = ''HOME'', en_Value = ''/nonexistent''\<rparr>]\<rparr>"

definition demo_entry2 :: Entry where
  "demo_entry2 = demo_entry\<lparr>et_Path := ''/runtime/bin/tool'', et_Interpreter := None\<rparr>"

definition demo_unsigned_manifest :: Manifest where
  "demo_unsigned_manifest = \<lparr>mf_Schema = integrity_Schema, mf_ManifestID = ''manifest-1'', mf_Profile = ProfileSharedTenant,
     mf_Entries = [demo_entry2, demo_entry], mf_SignatureAlgorithm = [], mf_Signature = []\<rparr>"

definition demo_manifest :: Manifest where
  "demo_manifest = set_manifest_sig ''ed25519''
     (base64_EncodeToString (ed_sign demo_ed25519 (demo_key (CHR ''m''))
        (json_print (json_Manifest (canonicalManifest (set_manifest_sig ''ed25519'' [] demo_unsigned_manifest)))))) demo_unsigned_manifest"

definition demo_inspect :: inspector where
  "demo_inspect seen path =
     Some \<lparr>fi_Digest = demo_digest, fi_OwnerUID = 0,
           fi_Mode = (if HasPrefix path ''/runtime/lib/'' then 0x1A4 else 0x1ED), fi_Regular = True, fi_Symlink = False\<rparr>"

lemma demo_manifest_valid: "validManifest demo_unsigned_manifest"
  by code_simp

lemma demo_SignManifest: "SignManifest demo_ed25519 demo_unsigned_manifest (demo_key (CHR ''m'')) = Inr demo_manifest"
  unfolding SignManifest_def demo_manifest_def
  by (rule manifest_sig.sign_record_total) (simp_all add: demo_key_def ed_sizes canonicalManifestBytes_def)

lemma demo_manifest_sel [simp]:
  "mf_Schema demo_manifest = integrity_Schema" "mf_ManifestID demo_manifest = ''manifest-1''"
  "mf_Profile demo_manifest = ProfileSharedTenant" "mf_Entries demo_manifest = [demo_entry2, demo_entry]"
  by (simp_all add: demo_manifest_def set_manifest_sig_def demo_unsigned_manifest_def)

lemma validManifest_set_sig: "validManifest (set_manifest_sig alg s m) = validManifest m"
  by (simp add: validManifest_iff set_manifest_sig_def)

text \<open>Signing a valid manifest gives one that verifies under the public half of the key.\<close>

lemma SignManifest_verifies:
  assumes "ed25519_correct E" "ed_key E key" "SignManifest E m key = Inr m'" "validManifest m"
  shows "VerifyManifest E m' (key_Public key) = None"
proof -
  note s = assms(3) [unfolded SignManifest_def]
  have "validManifest m'"
    using manifest_sig.sign_record_cases [OF s] assms(4) by (metis validManifest_set_sig)
  then show ?thesis
    using manifest_sig.sign_record_verifies [OF assms(1,2) s] assms(2)
    by (simp add: VerifyManifest_iff SignatureAlgorithm_def)
qed

definition demo_integrity_authority :: integrity_Authority where
  "demo_integrity_authority = \<lparr>ga_manifest = canonicalManifest demo_manifest, ga_manifestDigest = digestManifest demo_manifest,
     ga_resource = Some (\<lambda>p. resource_VerifyPlan demo_resource_authority p = None),
     ga_inspector = Some demo_inspect, ga_audit = Some accept_all\<rparr>"

lemma demo_integrity_new:
  "integrity_NewAuthority demo_ed25519 demo_manifest (key_Public (demo_key (CHR ''m'')))
     (Some (\<lambda>p. resource_VerifyPlan demo_resource_authority p = None)) (Some demo_inspect) (Some accept_all) =
   Inr demo_integrity_authority"
  using SignManifest_verifies [OF demo_ed25519_correct demo_key_ok demo_SignManifest demo_manifest_valid]
  by (simp add: integrity_NewAuthority_def demo_integrity_authority_def key_Public_length [OF demo_key_ok])

definition demo_exec_request :: integrity_Request where
  "demo_exec_request = \<lparr>gq_Schema = integrity_Schema, gq_CageID = ''cage-abc'', gq_Profile = ProfileSharedTenant,
     gq_ResourcePlanDigest = sp_PlanDigest demo_resource_plan, gq_ExecutablePath = ''/runtime/bin/app'',
     gq_Arguments = [''serve''], gq_RequestedEnvironment = []\<rparr>"

definition demo_exec_plan :: ExecPlan where
  "demo_exec_plan = (new_exec_plan demo_integrity_authority demo_exec_request (canonical_entry demo_entry))
     \<lparr>xp_PlanDigest := digestExecPlan (new_exec_plan demo_integrity_authority demo_exec_request (canonical_entry demo_entry))\<rparr>"

lemma demo_findEntry:
  "findEntry (mf_Entries (ga_manifest demo_integrity_authority)) ''/runtime/bin/app'' = Some (canonical_entry demo_entry)"
proof -
  have "integrity_authority_ok demo_integrity_authority" using integrity_NewAuthority_ok(1) [OF demo_integrity_new] .
  then have "distinct (map et_Path (mf_Entries (ga_manifest demo_integrity_authority)))"
    by (simp add: integrity_authority_ok_def validManifest_iff)
  then show ?thesis
    by (subst findEntry_distinct) (simp_all add: demo_integrity_authority_def demo_entry_def)
qed

lemma demo_exec_validate:
  "integrity_validateRequest demo_exec_request demo_resource_plan (ga_manifest demo_integrity_authority) = []"
proof -
  have "digestPattern (sp_PlanDigest demo_resource_plan)"
    using demo_resource_verified by (simp add: resource_VerifyPlan_iff)
  moreover have "cageIDPattern ''cage-abc''" "safeExecutablePath ''/runtime/bin/app''" "validArguments [''serve'']"
    by code_simp+
  moreover have "sp_CageID demo_resource_plan = ''cage-abc''" "sp_Profile demo_resource_plan = ProfileSharedTenant"
    by (simp_all add: demo_resource_plan_def resource_new_plan_def demo_resource_request_def)
  ultimately show ?thesis
    using demo_findEntry
    by (simp add: integrity_validateRequest_iff demo_exec_request_def demo_integrity_authority_def demo_entry_def)
qed

lemma demo_exec_run:
  "integrity_Prepare (Some demo_integrity_authority) False ''operator'' demo_resource_plan demo_exec_request [] =
     (Inr demo_exec_plan, [(exec_authorized_event ''operator'' demo_exec_plan, True)])"
proof -
  have sel: "ga_resource demo_integrity_authority = Some (\<lambda>p. resource_VerifyPlan demo_resource_authority p = None)"
    "ga_inspector demo_integrity_authority = Some demo_inspect" "ga_audit demo_integrity_authority = Some accept_all"
    by (simp_all add: demo_integrity_authority_def)
  have f: "findEntry (mf_Entries (ga_manifest demo_integrity_authority)) (gq_ExecutablePath demo_exec_request) =
      Some (canonical_entry demo_entry)"
    using demo_findEntry by (simp add: demo_exec_request_def)
  have i: "verifyEntry demo_inspect s (canonical_entry demo_entry)"
    "et_Interpreter (canonical_entry demo_entry) = Some i \<Longrightarrow> verifyDependency demo_inspect s i"
    "verify_dependencies demo_inspect s (sort_key dp_Path (et_RuntimeDependencies demo_entry))" for s i
    by (auto simp: verifyEntry_def verifyDependency_def demo_inspect_def demo_entry_def identity_matches_def HasPrefix_def)
  then have "inspect_entry demo_inspect (canonical_entry demo_entry) = []"
    by (auto simp: inspect_entry_def Let_def split: option.splits)
  then show ?thesis
    by (simp add: integrity_Prepare_def sel f demo_resource_verified demo_exec_validate Let_def authorize_plan_def
        RecordEvent_def accept_all_def demo_exec_plan_def)
qed

section \<open>Properties\<close>

text \<open>
  C33. A manifest that \<open>SignManifest\<close> signed verifies under the public half of the key, if it is
  valid, whatever the order of its entries is afterwards, and keeps its digest: the signature and
  the manifest digest depend only on the canonical form.
\<close>

theorem SignManifest_roundtrip:
  assumes "ed25519_correct E" "ed_key E key" "SignManifest E m key = Inr m'" "validManifest m"
    and "mset entries = mset (mf_Entries m')"
  shows "VerifyManifest E (m'\<lparr>mf_Entries := entries\<rparr>) (key_Public key) = None \<and>
    digestManifest (m'\<lparr>mf_Entries := entries\<rparr>) = digestManifest m'"
proof -
  have v: "VerifyManifest E m' (key_Public key) = None" by (rule SignManifest_verifies [OF assms(1-4)])
  then have d: "distinct (map et_Path (mf_Entries m'))" by (simp add: VerifyManifest_iff validManifest_iff)
  then have "inj_on et_Path (set entries)" using assms(5) by (metis distinct_map mset_eq_setD)
  then have "sort_key et_Path entries = sort_key et_Path (mf_Entries m')"
    using assms(5) by (intro sort_key_inj_key_eq) simp_all
  then have c: "canonicalManifest (m'\<lparr>mf_Entries := entries\<rparr>) = canonicalManifest m'"
    by (simp add: canonicalManifest_def)
  have "validManifest (m'\<lparr>mf_Entries := entries\<rparr>)"
    using v assms(5) mset_eq_imp_distinct_iff [of "map et_Path entries" "map et_Path (mf_Entries m')"]
    by (auto simp: VerifyManifest_iff validManifest_iff dest: mset_eq_setD)
  moreover have b: "canonicalManifestBytes (m'\<lparr>mf_Entries := entries\<rparr>) = canonicalManifestBytes m'"
    by (simp add: canonicalManifestBytes_def c)
  have "signature_ok E canonicalManifestBytes k s (m'\<lparr>mf_Entries := entries\<rparr>) = signature_ok E canonicalManifestBytes k s m'" for k s
    unfolding signature_ok_def b ..
  ultimately show ?thesis
    using v by (simp add: VerifyManifest_iff c digestManifest_def)
qed

theorem SignManifest_roundtrip_witness:
  "VerifyManifest demo_ed25519 (demo_manifest\<lparr>mf_Entries := [demo_entry, demo_entry2]\<rparr>) (key_Public (demo_key (CHR ''m''))) = None"
  using SignManifest_roundtrip [OF demo_ed25519_correct demo_key_ok demo_SignManifest demo_manifest_valid,
      of "[demo_entry, demo_entry2]"] by simp

text \<open>
  C31. A prepared execution plan passes \<open>VerifyPlan\<close>; the resource plan was verified and is
  bound by digest, cage and profile; the executable is an entry of the signed manifest, its
  arguments are the entry's (the request must name the same), and the executable, its
  interpreter and all its dependencies were inspected and found to be regular files with the
  digest, owner and mode of the manifest.
\<close>

theorem integrity_Prepare_verifies:
  assumes "integrity_NewAuthority E m signer (Some verifier) (Some inspect) audit = Inr a"
    and "integrity_Prepare (Some a) cancelled actor rp q log = (Inr plan, log')"
  shows "integrity_VerifyPlan (Some a) plan = None \<and> VerifyManifest E m signer = None \<and> verifier rp \<and>
    xp_ResourcePlanDigest plan = sp_PlanDigest rp \<and> xp_CageID plan = sp_CageID rp \<and> xp_Profile plan = sp_Profile rp \<and>
    xp_Profile plan = mf_Profile m \<and> gq_RequestedEnvironment q = [] \<and>
    (\<exists>e\<in>set (mf_Entries m). xp_ExecutablePath plan = et_Path e \<and> xp_Arguments plan = et_Arguments e \<and>
       gq_Arguments q = et_Arguments e \<and> xp_InterpreterPath plan = interpreter_path e \<and> entry_inspected inspect e) \<and>
    log' = log @ [(exec_authorized_event actor plan, True)]"
proof -
  note new = integrity_NewAuthority_ok [OF assms(1)]
  obtain e where r: "verifier rp" "integrity_validateRequest q rp (ga_manifest a) = []"
      "findEntry (mf_Entries (ga_manifest a)) (gq_ExecutablePath q) = Some e" "inspect_entry inspect e = []"
      "plan = (new_exec_plan a q e)\<lparr>xp_PlanDigest := digestExecPlan (new_exec_plan a q e)\<rparr>"
      "log' = log @ [(exec_authorized_event actor plan, True)]"
    using integrity_Prepare_Inr [OF assms(2)] new(4,5) by (metis option.inject)
  note q = r(2) [unfolded integrity_validateRequest_iff]
  have v: "integrity_VerifyPlan (Some a) plan = None"
    unfolding r(5) using q by (intro new_exec_plan_verifies [OF r(3)]) auto
  have sel: "xp_ResourcePlanDigest plan = gq_ResourcePlanDigest q" "xp_CageID plan = gq_CageID q"
      "xp_Profile plan = gq_Profile q" "xp_ExecutablePath plan = et_Path e" "xp_Arguments plan = et_Arguments e"
      "xp_InterpreterPath plan = interpreter_path e"
    by (simp_all add: r(5) new_exec_plan_def)
  obtain e0 where e0: "e0 \<in> set (mf_Entries m)" "e = canonical_entry e0"
    using findEntry_SomeD [OF r(3)] by (auto simp: new(3))
  have "entry_inspected inspect e0" using inspect_entry_ok [OF r(4)] by (simp add: entry_inspected_def e0(2))
  moreover have "gq_Arguments q = et_Arguments e0" using q r(3) e0(2) by auto
  ultimately have "\<exists>e\<in>set (mf_Entries m). xp_ExecutablePath plan = et_Path e \<and> xp_Arguments plan = et_Arguments e \<and>
       gq_Arguments q = et_Arguments e \<and> xp_InterpreterPath plan = interpreter_path e \<and> entry_inspected inspect e"
    using e0 by (intro bexI [of _ e0]) (simp_all add: sel interpreter_path_def)
  then show ?thesis using v new(2) r(1,6) q by (auto simp: sel new(3))
qed

theorem integrity_Prepare_verifies_witness:
  "integrity_VerifyPlan (Some demo_integrity_authority) demo_exec_plan = None \<and>
     xp_ResourcePlanDigest demo_exec_plan = sp_PlanDigest demo_resource_plan"
  using integrity_Prepare_verifies [OF demo_integrity_new demo_exec_run] by blast

text \<open>
  C32. Whatever plan \<open>VerifyPlan\<close> accepts runs an executable of the signed manifest below
  \<open>/runtime\<close> with the manifest's arguments and interpreter, in the working directory \<open>/\<close>,
  without a path lookup, with descriptors closed from 3, and in an environment whose
  variables are distinct and have one of the five fixed values: no loader or interpreter
  variable can be set.
\<close>

theorem integrity_VerifyPlan_enforces:
  assumes "integrity_NewAuthority E m signer verifier inspect audit = Inr a"
    and "integrity_VerifyPlan (Some a) plan = None"
  shows "env_ok (xp_Environment plan) \<and> length (xp_Environment plan) \<le> 4 \<and>
    xp_CloseDescriptorsAt plan = 3 \<and> xp_WorkingDirectory plan = ''/'' \<and> xp_NoPathLookup plan \<and>
    safeExecutablePath (xp_ExecutablePath plan) \<and>
    (xp_InterpreterPath plan = [] \<or> safeRuntimePath (xp_InterpreterPath plan)) \<and>
    (\<exists>e\<in>set (mf_Entries m). et_Path e = xp_ExecutablePath plan \<and> et_Arguments e = xp_Arguments plan \<and>
       interpreter_path e = xp_InterpreterPath plan \<and> mset (et_Environment e) = mset (xp_Environment plan))"
proof -
  note new = integrity_NewAuthority_ok [OF assms(1)]
  obtain e where p: "exec_plan_ok a plan e" using assms(2) by (auto simp: integrity_VerifyPlan_iff)
  obtain e0 where e0: "e0 \<in> set (mf_Entries m)" "e = canonical_entry e0" "et_Path e = xp_ExecutablePath plan"
    using p findEntry_SomeD [of "mf_Entries (ga_manifest a)"] unfolding exec_plan_ok_def new(3) by force
  have valid: "validEntry e0" using new(2) e0(1) by (auto simp: VerifyManifest_iff validManifest_iff)
  have m: "mset (et_Environment e0) = mset (xp_Environment plan)"
    using p e0(2) unfolding exec_plan_ok_def by (metis canonicalEnvironment_def canonical_entry_simps(7) mset_sort)
  have env: "env_ok (et_Environment e0)" "length (et_Environment e0) \<le> 4"
    using valid validEnvironment_ok by (auto simp: validEntry_iff)
  have "interpreter_path e0 = xp_InterpreterPath plan" "et_Arguments e0 = xp_Arguments plan" "et_Path e0 = xp_ExecutablePath plan"
    using p e0(2,3) by (simp_all add: exec_plan_ok_def interpreter_path_def)
  moreover have "interpreter_path e0 = [] \<or> safeRuntimePath (interpreter_path e0)"
    using valid by (auto simp: validEntry_iff interpreter_path_def validDependency_def split: option.splits)
  ultimately show ?thesis
    using p e0(1) valid env env_ok_mset [OF m] mset_eq_length [OF m] m
    by (auto simp: exec_plan_ok_def validEntry_iff)
qed

theorem integrity_VerifyPlan_enforces_witness:
  "env_ok (xp_Environment demo_exec_plan) \<and> safeExecutablePath (xp_ExecutablePath demo_exec_plan)"
proof -
  have "integrity_VerifyPlan (Some demo_integrity_authority) demo_exec_plan = None"
    unfolding demo_exec_plan_def
    using demo_exec_validate demo_findEntry
    by (intro new_exec_plan_verifies) (auto simp: integrity_validateRequest_iff demo_exec_request_def)
  from integrity_VerifyPlan_enforces [OF demo_integrity_new this] show ?thesis by blast
qed

text \<open>
  Every refusal of \<open>Prepare\<close> is audited or unavailable, and a call writes at most one record.
\<close>

theorem integrity_Prepare_refusal:
  assumes "integrity_Prepare (Some a) cancelled actor rp q log = (Inl err, log')"
  shows "refusal_audited PkgIntegrity err log log'"
  using assms
  by (auto simp: integrity_Prepare_def integrity_deny_def Let_def
      intro: refusal_auditedI refusal_audited_authorize refusal_audited_unavailable
      split: option.splits if_splits)

theorem integrity_Prepare_refusal_witness:
  "\<exists>err log'. integrity_Prepare (Some demo_integrity_authority) True ''operator'' demo_resource_plan demo_exec_request [] =
     (Inl err, log') \<and> refusal_audited PkgIntegrity err [] log'"
proof -
  obtain err log' where run: "integrity_Prepare (Some demo_integrity_authority) True ''operator'' demo_resource_plan
      demo_exec_request [] = (Inl err, log')"
    by (simp add: integrity_Prepare_def demo_integrity_authority_def integrity_deny_def deny_with_def
        RecordEvent_def accept_all_def Let_def)
  with integrity_Prepare_refusal [OF run] show ?thesis by blast
qed

end
