(* ===== verification/Edition.thy ===== *)
theory Edition
  imports Integrity
begin

text \<open>
  Package \<open>edition\<close> (\<open>edition/authority.go\<close>, \<open>edition/release_evidence_binding.go\<close>): the
  compiler from the Shared and Dedicated product profiles to the requests of the isolation,
  resource and integrity authorities, the release evidence binding, and the staging authority
  that runs the fifteen scenarios and signs what it observed. The resource plan verifier, the
  scenario runner, the clock and the JSON decoder of a binding are parameters.
\<close>

section \<open>Release evidence bindings\<close>

record ReleaseEvidenceBinding =
  rb_SchemaVersion :: string
  rb_CandidateReleaseID :: string
  rb_CandidateCommitSHA :: string
  rb_ArtifactManifestDigest :: string
  rb_SBOMDigest :: string

definition ReleaseEvidenceBindingSchema :: string where
  "ReleaseEvidenceBindingSchema = ''brick.release-evidence-binding.v1''"

definition ErrInvalidReleaseEvidenceBinding :: go_error where
  "ErrInvalidReleaseEvidenceBinding = ErrOther ''invalid release evidence binding''"

definition ValidateReleaseEvidenceBinding :: "ReleaseEvidenceBinding \<Rightarrow> go_error option" where
  "ValidateReleaseEvidenceBinding b =
     (if rb_SchemaVersion b \<noteq> ReleaseEvidenceBindingSchema \<or> \<not> releasePattern (rb_CandidateReleaseID b) \<or>
         \<not> edition_commitPattern (rb_CandidateCommitSHA b) \<or> \<not> digestPattern (rb_ArtifactManifestDigest b) \<or>
         \<not> digestPattern (rb_SBOMDigest b)
      then Some ErrInvalidReleaseEvidenceBinding else None)"

definition json_ReleaseEvidenceBinding :: "ReleaseEvidenceBinding \<Rightarrow> json" where
  "json_ReleaseEvidenceBinding b = JObj
     [(''schemaVersion'', JStr (rb_SchemaVersion b)), (''candidateReleaseId'', JStr (rb_CandidateReleaseID b)),
      (''candidateCommitSha'', JStr (rb_CandidateCommitSHA b)),
      (''artifactManifestDigest'', JStr (rb_ArtifactManifestDigest b)), (''sbomDigest'', JStr (rb_SBOMDigest b))]"

definition CanonicalReleaseEvidenceBinding :: "ReleaseEvidenceBinding \<Rightarrow> bytes go_result" where
  "CanonicalReleaseEvidenceBinding b =
     (case ValidateReleaseEvidenceBinding b of
        Some err \<Rightarrow> Inl err | None \<Rightarrow> Inr (json_print (json_ReleaseEvidenceBinding b)))"

definition ReleaseEvidenceBindingDigest :: "ReleaseEvidenceBinding \<Rightarrow> string go_result" where
  "ReleaseEvidenceBindingDigest b =
     (case CanonicalReleaseEvidenceBinding b of Inl err \<Rightarrow> Inl err | Inr payload \<Rightarrow> Inr (sha256_hex payload))"

definition mustReleaseEvidenceBindingDigest :: "ReleaseEvidenceBinding \<Rightarrow> string" where
  "mustReleaseEvidenceBindingDigest b =
     (case ReleaseEvidenceBindingDigest b of Inl _ \<Rightarrow> ''unavailable'' | Inr digest \<Rightarrow> digest)"

text \<open>
  A strict decoder reads one value of the type from the front of a text, or fails; a second
  call must find nothing but white space (\<open>io.EOF\<close>).
\<close>

type_synonym binding_decoder = "bytes \<Rightarrow> (ReleaseEvidenceBinding \<times> bytes) go_result"

definition json_blank :: "bytes \<Rightarrow> bool" where
  "json_blank rest = list_all (\<lambda>c. ccode c \<in> {32, 9, 10, 13}) rest"

definition LoadReleaseEvidenceBinding :: "binding_decoder \<Rightarrow> bytes \<Rightarrow> ReleaseEvidenceBinding go_result" where
  "LoadReleaseEvidenceBinding decode raw =
     (if length raw = 0 \<or> length raw > 16 * 1024 then Inl ErrInvalidReleaseEvidenceBinding
      else case decode raw of
        Inl err \<Rightarrow> Inl err
      | Inr (binding, rest) \<Rightarrow>
          if \<not> json_blank rest then Inl ErrInvalidReleaseEvidenceBinding
          else (case ValidateReleaseEvidenceBinding binding of Some err \<Rightarrow> Inl err | None \<Rightarrow> Inr binding))"

section \<open>Editions, templates and compilations\<close>

type_synonym Edition = string

definition Shared :: Edition where "Shared = ''shared''"
definition Dedicated :: Edition where "Dedicated = ''dedicated''"

record Template =
  tp_Profile :: Profile
  tp_Limits :: Limits
  tp_Network :: resource_NetworkPolicy
  tp_ExecutablePath :: string
  tp_Arguments :: "string list"

record Intent =
  in_Schema :: string
  in_Edition :: Edition
  in_CageID :: string
  in_BaseRootDigest :: string
  in_SeccompDigest :: string

record Compilation =
  co_Schema :: string
  co_Edition :: Edition
  co_Profile :: Profile
  co_CageID :: string
  co_IsolationRequest :: isolation_Request
  co_ResourceTemplate :: Limits
  co_NetworkTemplate :: resource_NetworkPolicy
  co_ExecutionTemplate :: integrity_Request
  co_BindingDigest :: string

definition edition_Schema :: string where "edition_Schema = ''brick.host-isolation.edition.v1''"

text \<open>The map of templates is kept as an association list with distinct keys.\<close>

record Compiler =
  cp_templates :: "(Edition \<times> Template) list"
  cp_resourceVerifier :: "(resource_Plan \<Rightarrow> bool) option"
  cp_audit :: "audit_sink option"

definition validEditionProfile :: "Edition \<Rightarrow> Profile \<Rightarrow> bool" where
  "validEditionProfile edition profile =
     (edition = Shared \<and> profile = ProfileSharedTenant \<or> edition = Dedicated \<and> profile = ProfileDedicatedAdministrator)"

definition validTemplate :: "Template \<Rightarrow> bool" where
  "validTemplate t =
     (tp_ExecutablePath t \<noteq> [] \<and> length (tp_Arguments t) > 0 \<and> nw_Mode (tp_Network t) = ''denyAll'' \<and>
      lm_CPUQuotaMicros (tp_Limits t) > 0 \<and> lm_CPUPeriodMicros (tp_Limits t) > 0 \<and>
      lm_MemoryMaxBytes (tp_Limits t) > 0 \<and> lm_PidsMax (tp_Limits t) > 0 \<and>
      lm_FileDescriptorMax (tp_Limits t) > 0 \<and> lm_WallClockSeconds (tp_Limits t) > 0)"

definition NewCompiler ::
  "(Edition \<times> Template) list \<Rightarrow> (resource_Plan \<Rightarrow> bool) option \<Rightarrow> audit_sink option \<Rightarrow> Compiler go_result" where
  "NewCompiler templates resourceVerifier audit =
     (if resourceVerifier = None \<or> audit = None \<or> length templates \<noteq> 2
      then Inl (ErrUnavailable PkgEdition ''missing compiler dependency'')
      else if \<not> list_all (\<lambda>(edition, t). validEditionProfile edition (tp_Profile t) \<and> validTemplate t) templates
      then Inl (ErrUnavailable PkgEdition ''invalid edition template'')
      else Inr \<lparr>cp_templates = templates, cp_resourceVerifier = resourceVerifier, cp_audit = audit\<rparr>)"

definition strictIsolationRequest :: "Intent \<Rightarrow> Profile \<Rightarrow> isolation_Request" where
  "strictIsolationRequest intent profile =
     \<lparr>iq_Schema = isolation_Schema, iq_CageID = in_CageID intent, iq_Profile = profile,
      iq_BaseRootDigest = in_BaseRootDigest intent, iq_SeccompDigest = in_SeccompDigest intent,
      iq_Namespaces = [''user'', ''pid'', ''mount'', ''ipc'', ''uts'', ''network''],
      iq_UIDMappings = [\<lparr>um_ContainerID = 0, um_HostID = 100001, um_Size = 1\<rparr>],
      iq_GIDMappings = [\<lparr>um_ContainerID = 0, um_HostID = 100001, um_Size = 1\<rparr>],
      iq_Mounts =
        [\<lparr>ms_SourceKind = ''baseRoot'', ms_Destination = ''/'', ms_ReadOnly = True,
           ms_Flags = [''nodev'', ''nosuid'', ''noexec'', ''readonly''], ms_Options = [''privatePropagation'']\<rparr>,
         \<lparr>ms_SourceKind = ''proc'', ms_Destination = ''/proc'', ms_ReadOnly = True,
           ms_Flags = [''nodev'', ''nosuid'', ''noexec''], ms_Options = [''hidepid=2'', ''subset=pid'']\<rparr>,
         \<lparr>ms_SourceKind = ''minimalDev'', ms_Destination = ''/dev'', ms_ReadOnly = False,
           ms_Flags = [''nodev'', ''nosuid'', ''noexec''], ms_Options = [''mode=0755'', ''size=16m'']\<rparr>,
         \<lparr>ms_SourceKind = ''tmpfs'', ms_Destination = ''/tmp'', ms_ReadOnly = False,
           ms_Flags = [''nodev'', ''nosuid'', ''noexec''], ms_Options = [''mode=1777'', ''size=64m'']\<rparr>],
      iq_Devices = [''null'', ''zero'', ''random'', ''urandom''], iq_NoNewPrivileges = True,
      iq_ClearEnvironment = True, iq_CloseDescriptorsAt = 3, iq_ParentDeathSignal = ''SIGKILL'',
      iq_InitMode = ''supervisedReaper'', iq_WorkingDirectory = ''/'', iq_Capabilities = []\<rparr>"

section \<open>The binding digest\<close>

text \<open>
  An empty slice of a compilation is nil and prints as \<open>null\<close>, except \<open>Capabilities\<close>, which
  \<open>strictIsolationRequest\<close> makes an empty slice.
\<close>

definition json_isolation_Request :: "isolation_Request \<Rightarrow> json" where
  "json_isolation_Request q = JObj
     [(''schema'', JStr (iq_Schema q)), (''cageId'', JStr (iq_CageID q)), (''profile'', JStr (iq_Profile q)),
      (''baseRootDigest'', JStr (iq_BaseRootDigest q)), (''seccompDigest'', JStr (iq_SeccompDigest q)),
      (''namespaces'', json_appended JStr (iq_Namespaces q)),
      (''uidMappings'', json_appended json_UIDMap (iq_UIDMappings q)),
      (''gidMappings'', json_appended json_UIDMap (iq_GIDMappings q)),
      (''mounts'', json_appended json_MountSpec (iq_Mounts q)), (''devices'', json_appended JStr (iq_Devices q)),
      (''noNewPrivileges'', JBool (iq_NoNewPrivileges q)), (''clearEnvironment'', JBool (iq_ClearEnvironment q)),
      (''closeDescriptorsAt'', json_u32 (iq_CloseDescriptorsAt q)),
      (''parentDeathSignal'', JStr (iq_ParentDeathSignal q)), (''initMode'', JStr (iq_InitMode q)),
      (''workingDirectory'', JStr (iq_WorkingDirectory q)), (''capabilities'', json_slice JStr (iq_Capabilities q))]"

definition json_IOThrottle :: "IOThrottle \<Rightarrow> json" where
  "json_IOThrottle t = JObj
     [(''device'', JStr (io_Device t)), (''readBps'', json_u64 (io_ReadBPS t)), (''writeBps'', json_u64 (io_WriteBPS t)),
      (''readIops'', json_u64 (io_ReadIOPS t)), (''writeIops'', json_u64 (io_WriteIOPS t))]"

definition json_Limits :: "Limits \<Rightarrow> json" where
  "json_Limits l = JObj
     [(''cpuQuotaMicros'', json_u64 (lm_CPUQuotaMicros l)), (''cpuPeriodMicros'', json_u64 (lm_CPUPeriodMicros l)),
      (''memoryMaxBytes'', json_u64 (lm_MemoryMaxBytes l)), (''memoryHighBytes'', json_u64 (lm_MemoryHighBytes l)),
      (''memorySwapMaxBytes'', json_u64 (lm_MemorySwapMaxBytes l)), (''pidsMax'', json_u64 (lm_PidsMax l)),
      (''io'', json_appended json_IOThrottle (lm_IO l)), (''fileDescriptorMax'', json_u64 (lm_FileDescriptorMax l)),
      (''wallClockSeconds'', json_u64 (lm_WallClockSeconds l))]"

definition json_integrity_Request :: "integrity_Request \<Rightarrow> json" where
  "json_integrity_Request q = JObj
     [(''schema'', JStr (gq_Schema q)), (''cageId'', JStr (gq_CageID q)), (''profile'', JStr (gq_Profile q)),
      (''resourcePlanDigest'', JStr (gq_ResourcePlanDigest q)), (''executablePath'', JStr (gq_ExecutablePath q)),
      (''arguments'', json_appended JStr (gq_Arguments q)),
      (''requestedEnvironment'', json_appended json_Environment (gq_RequestedEnvironment q))]"

definition json_Compilation :: "Compilation \<Rightarrow> json" where
  "json_Compilation c = JObj
     [(''schema'', JStr (co_Schema c)), (''edition'', JStr (co_Edition c)), (''profile'', JStr (co_Profile c)),
      (''cageId'', JStr (co_CageID c)), (''isolationRequest'', json_isolation_Request (co_IsolationRequest c)),
      (''resourceTemplate'', json_Limits (co_ResourceTemplate c)),
      (''networkTemplate'', json_resource_NetworkPolicy (co_NetworkTemplate c)),
      (''executionTemplate'', json_integrity_Request (co_ExecutionTemplate c)),
      (''bindingDigest'', JStr (co_BindingDigest c))]"

definition digestCompilation :: "Compilation \<Rightarrow> string" where
  "digestCompilation c = digest_json (json_Compilation (c\<lparr>co_BindingDigest := []\<rparr>))"

definition verifyCompilation :: "Compilation \<Rightarrow> go_error option" where
  "verifyCompilation c =
     (if co_Schema c \<noteq> edition_Schema \<or> \<not> validEditionProfile (co_Edition c) (co_Profile c) \<or> co_BindingDigest c = []
      then Some (ErrDenied PkgEdition [])
      else if digestCompilation c \<noteq> co_BindingDigest c then Some (ErrDenied PkgEdition [])
      else None)"

section \<open>The compiler\<close>

definition edition_deny ::
  "audit_sink \<Rightarrow> string \<Rightarrow> string \<Rightarrow> string \<Rightarrow> (string \<Rightarrow> go_error) \<Rightarrow> audit_log \<Rightarrow> Compilation go_result \<times> audit_log" where
  "edition_deny = deny_with PkgEdition ''compileEditionProfile''"

definition denyResource ::
  "audit_sink \<Rightarrow> string \<Rightarrow> string \<Rightarrow> string \<Rightarrow> audit_log \<Rightarrow> resource_Request go_result \<times> audit_log" where
  "denyResource sink actor cageID reason log =
     deny_with PkgEdition ''bindEditionResource'' sink actor cageID reason (ErrDenied PkgEdition) log"

definition denyExecution ::
  "audit_sink \<Rightarrow> string \<Rightarrow> string \<Rightarrow> string \<Rightarrow> audit_log \<Rightarrow> integrity_Request go_result \<times> audit_log" where
  "denyExecution sink actor cageID reason log =
     deny_with PkgEdition ''bindEditionExecution'' sink actor cageID reason (ErrDenied PkgEdition) log"

definition new_compilation :: "Intent \<Rightarrow> Template \<Rightarrow> Compilation" where
  "new_compilation intent t =
     \<lparr>co_Schema = edition_Schema, co_Edition = in_Edition intent, co_Profile = tp_Profile t, co_CageID = in_CageID intent,
      co_IsolationRequest = strictIsolationRequest intent (tp_Profile t), co_ResourceTemplate = tp_Limits t,
      co_NetworkTemplate = tp_Network t,
      co_ExecutionTemplate =
        \<lparr>gq_Schema = integrity_Schema, gq_CageID = in_CageID intent, gq_Profile = tp_Profile t,
         gq_ResourcePlanDigest = [], gq_ExecutablePath = tp_ExecutablePath t, gq_Arguments = tp_Arguments t,
         gq_RequestedEnvironment = []\<rparr>,
      co_BindingDigest = []\<rparr>"

definition compiled_event :: "string \<Rightarrow> Compilation \<Rightarrow> audit_event" where
  "compiled_event actor c =
     mk_event actor ''compileEditionProfile'' ''authorized'' (co_CageID c)
       [(''edition'', MStr (co_Edition c)), (''profile'', MStr (co_Profile c)), (''bindingDigest'', MStr (co_BindingDigest c))]"

definition Compile ::
  "Compiler option \<Rightarrow> bool \<Rightarrow> string \<Rightarrow> Intent \<Rightarrow> audit_log \<Rightarrow> Compilation go_result \<times> audit_log" where
  "Compile compiler cancelled actor intent log =
     (case compiler of
        None \<Rightarrow> (Inl (ErrUnavailable PkgEdition ''compiler dependency unavailable''), log)
      | Some c \<Rightarrow>
          (case (cp_resourceVerifier c, cp_audit c) of
             (Some _, Some sink) \<Rightarrow>
               if cancelled
               then edition_deny sink actor (in_CageID intent) ''request_cancelled'' (ErrUnavailable PkgEdition) log
               else (case map_of (cp_templates c) (in_Edition intent) of
                  None \<Rightarrow> edition_deny sink actor (in_CageID intent) ''invalid_edition_intent'' (ErrDenied PkgEdition) log
                | Some t \<Rightarrow>
                    if in_Schema intent \<noteq> edition_Schema \<or> \<not> digestPattern (in_BaseRootDigest intent) \<or>
                       \<not> digestPattern (in_SeccompDigest intent)
                    then edition_deny sink actor (in_CageID intent) ''invalid_edition_intent'' (ErrDenied PkgEdition) log
                    else let compilation = new_compilation intent t;
                             compilation = compilation\<lparr>co_BindingDigest := digestCompilation compilation\<rparr>
                         in authorize_plan PkgEdition sink (compiled_event actor compilation) compilation log)
           | _ \<Rightarrow> (Inl (ErrUnavailable PkgEdition ''compiler dependency unavailable''), log)))"

definition resource_bound_request :: "Compilation \<Rightarrow> isolation_Plan \<Rightarrow> resource_Request" where
  "resource_bound_request c plan =
     \<lparr>sq_Schema = resource_Schema, sq_CageID = co_CageID c, sq_Profile = co_Profile c,
      sq_IsolationPlanDigest = ip_PlanDigest plan, sq_Limits = co_ResourceTemplate c, sq_Network = co_NetworkTemplate c\<rparr>"

definition BindResource ::
  "Compiler option \<Rightarrow> bool \<Rightarrow> string \<Rightarrow> Compilation \<Rightarrow> isolation_Plan \<Rightarrow> audit_log \<Rightarrow> resource_Request go_result \<times> audit_log" where
  "BindResource compiler cancelled actor compilation plan log =
     (case compiler of
        None \<Rightarrow> (Inl (ErrUnavailable PkgEdition ''compiler dependency unavailable''), log)
      | Some c \<Rightarrow>
          (case cp_audit c of
             None \<Rightarrow> (Inl (ErrUnavailable PkgEdition ''compiler dependency unavailable''), log)
           | Some sink \<Rightarrow>
               if cancelled then (Inl (ErrOther ''context canceled''), log)
               else if verifyCompilation compilation \<noteq> None \<or> isolation_VerifyPlan plan \<noteq> None \<or>
                       ip_CageID plan \<noteq> co_CageID compilation \<or> ip_Profile plan \<noteq> co_Profile compilation
               then denyResource sink actor (co_CageID compilation) ''invalid_isolation_plan_binding'' log
               else authorize_plan PkgEdition sink
                 (mk_event actor ''bindEditionResource'' ''authorized'' (co_CageID compilation)
                    [(''edition'', MStr (co_Edition compilation)), (''isolationPlanDigest'', MStr (ip_PlanDigest plan))])
                 (resource_bound_request compilation plan) log))"

definition BindExecution ::
  "Compiler option \<Rightarrow> bool \<Rightarrow> string \<Rightarrow> Compilation \<Rightarrow> resource_Plan \<Rightarrow> audit_log \<Rightarrow> integrity_Request go_result \<times> audit_log" where
  "BindExecution compiler cancelled actor compilation plan log =
     (case compiler of
        None \<Rightarrow> (Inl (ErrUnavailable PkgEdition ''compiler dependency unavailable''), log)
      | Some c \<Rightarrow>
          (case (cp_resourceVerifier c, cp_audit c) of
             (Some verifier, Some sink) \<Rightarrow>
               if cancelled then (Inl (ErrOther ''context canceled''), log)
               else if verifyCompilation compilation \<noteq> None \<or> \<not> verifier plan \<or>
                       sp_CageID plan \<noteq> co_CageID compilation \<or> sp_Profile plan \<noteq> co_Profile compilation
               then denyExecution sink actor (co_CageID compilation) ''invalid_resource_plan_binding'' log
               else authorize_plan PkgEdition sink
                 (mk_event actor ''bindEditionExecution'' ''authorized'' (co_CageID compilation)
                    [(''edition'', MStr (co_Edition compilation)), (''resourcePlanDigest'', MStr (sp_PlanDigest plan))])
                 ((co_ExecutionTemplate compilation)\<lparr>gq_ResourcePlanDigest := sp_PlanDigest plan\<rparr>) log
           | _ \<Rightarrow> (Inl (ErrUnavailable PkgEdition ''compiler dependency unavailable''), log)))"

section \<open>Staging evidence\<close>

type_synonym Scenario = string

definition requiredScenarios :: "Scenario list" where
  "requiredScenarios = [''pathTraversal'', ''mountEscape'', ''symlinkEscape'', ''bindMountEscape'', ''namespaceEscape'',
     ''processEscape'', ''socketExposure'', ''environmentInjection'', ''executableInjection'', ''egressBypass'',
     ''resourceExhaustion'', ''replayAttempt'', ''auditFailure'', ''freezeRecovery'', ''crossTenantIsolation'']"

record Observation =
  ob_Scenario :: Scenario
  ob_Passed :: bool
  ob_EvidenceDigest :: string

record Evidence =
  ed_Schema :: string
  ed_EvidenceID :: string
  ed_Edition :: Edition
  ed_Profile :: Profile
  ed_CageID :: string
  ed_BindingDigest :: string
  ed_ReleaseBinding :: ReleaseEvidenceBinding
  ed_IssuedAt :: gotime
  ed_Observations :: "Observation list"
  ed_SignatureAlgorithm :: string
  ed_Signature :: string

definition json_Observation :: "Observation \<Rightarrow> json" where
  "json_Observation v = JObj
     [(''scenario'', JStr (ob_Scenario v)), (''passed'', JBool (ob_Passed v)), (''evidenceDigest'', JStr (ob_EvidenceDigest v))]"

definition json_Evidence :: "Evidence \<Rightarrow> json" where
  "json_Evidence v = JObj
     [(''schema'', JStr (ed_Schema v)), (''evidenceId'', JStr (ed_EvidenceID v)), (''edition'', JStr (ed_Edition v)),
      (''profile'', JStr (ed_Profile v)), (''cageId'', JStr (ed_CageID v)), (''bindingDigest'', JStr (ed_BindingDigest v)),
      (''releaseBinding'', json_ReleaseEvidenceBinding (ed_ReleaseBinding v)), (''issuedAt'', json_time (ed_IssuedAt v)),
      (''observations'', json_appended json_Observation (ed_Observations v)),
      (''signatureAlgorithm'', JStr (ed_SignatureAlgorithm v)), (''signature'', JStr (ed_Signature v))]"

definition canonicalEvidence :: "Evidence \<Rightarrow> bytes option" where
  "canonicalEvidence v =
     (if time_encodable (ed_IssuedAt v)
      then Some (json_print (json_Evidence
             (v\<lparr>ed_Signature := [], ed_Observations := sort_key ob_Scenario (ed_Observations v)\<rparr>)))
      else None)"

definition set_evidence_sig :: "string \<Rightarrow> string \<Rightarrow> Evidence \<Rightarrow> Evidence" where
  "set_evidence_sig alg s v = v\<lparr>ed_SignatureAlgorithm := alg, ed_Signature := s\<rparr>"

definition SignEvidence :: "ed25519 \<Rightarrow> Evidence \<Rightarrow> bytes \<Rightarrow> Evidence go_result" where
  "SignEvidence E v key = sign_record E canonicalEvidence set_evidence_sig key v"

definition observation_ok :: "Scenario \<Rightarrow> Observation \<Rightarrow> bool" where
  "observation_ok scenario v = (ob_Scenario v = scenario \<and> ob_Passed v \<and> digestPattern (ob_EvidenceDigest v))"

definition validObservations :: "Observation list \<Rightarrow> bool" where
  "validObservations observations =
     (if length observations \<noteq> length requiredScenarios then False
      else list_all (\<lambda>(scenario, v). observation_ok scenario v) (zip requiredScenarios observations))"

definition VerifyEvidence :: "ed25519 \<Rightarrow> Evidence \<Rightarrow> bytes \<Rightarrow> go_error option" where
  "VerifyEvidence E v key =
     (if length key \<noteq> PublicKeySize \<or> ed_Schema v \<noteq> edition_Schema \<or> \<not> requestIDPattern (ed_EvidenceID v) \<or>
         \<not> validEditionProfile (ed_Edition v) (ed_Profile v) \<or> \<not> digestPattern (ed_BindingDigest v) \<or>
         ValidateReleaseEvidenceBinding (ed_ReleaseBinding v) \<noteq> None \<or> ed_SignatureAlgorithm v \<noteq> SignatureAlgorithm \<or>
         \<not> validObservations (ed_Observations v)
      then Some (ErrDenied PkgEdition [])
      else if \<not> signature_ok E canonicalEvidence key (ed_Signature v) v then Some (ErrDenied PkgEdition [])
      else None)"

interpretation evidence_sig: signed_record canonicalEvidence set_evidence_sig ed_SignatureAlgorithm ed_Signature
  by unfold_locales (simp_all add: set_evidence_sig_def canonicalEvidence_def)

type_synonym scenario_runner = "Observation list \<Rightarrow> Scenario \<Rightarrow> Compilation \<Rightarrow> Observation option"

record StagingAuthority =
  sa_key :: bytes
  sa_runner :: "scenario_runner option"
  sa_audit :: "audit_sink option"
  sa_now :: "gotime option"

definition NewStagingAuthority ::
  "bytes \<Rightarrow> scenario_runner option \<Rightarrow> audit_sink option \<Rightarrow> gotime option \<Rightarrow> StagingAuthority go_result" where
  "NewStagingAuthority key runner audit now =
     (if length key \<noteq> PrivateKeySize \<or> runner = None \<or> audit = None \<or> now = None
      then Inl (ErrUnavailable PkgEdition ''missing staging dependency'')
      else Inr \<lparr>sa_key = key, sa_runner = runner, sa_audit = audit, sa_now = now\<rparr>)"

definition staging_deny :: "audit_sink \<Rightarrow> string \<Rightarrow> string \<Rightarrow> string \<Rightarrow> audit_log \<Rightarrow> Evidence go_result \<times> audit_log" where
  "staging_deny sink actor cageID reason log =
     deny_with PkgEdition ''runStagingMatrix'' sink actor cageID reason (ErrDenied PkgEdition) log"

text \<open>The loop over the scenarios: the observations in order, or the reason of the refusal.\<close>

fun run_scenarios ::
  "scenario_runner \<Rightarrow> (nat \<Rightarrow> bool) \<Rightarrow> nat \<Rightarrow> Compilation \<Rightarrow> Observation list \<Rightarrow> Scenario list \<Rightarrow> string + Observation list" where
  "run_scenarios runner cancelled k c obs [] = Inr obs"
| "run_scenarios runner cancelled k c obs (s # ss) =
     (if cancelled k then Inl ''request_cancelled''
      else case runner obs s c of
        None \<Rightarrow> Inl ''staging_scenario_failed''
      | Some v \<Rightarrow>
          if \<not> observation_ok s v then Inl ''staging_scenario_failed''
          else run_scenarios runner cancelled (k + 1) c (obs @ [v]) ss)"

definition new_evidence ::
  "string \<Rightarrow> Compilation \<Rightarrow> ReleaseEvidenceBinding \<Rightarrow> gotime \<Rightarrow> Observation list \<Rightarrow> Evidence" where
  "new_evidence evidenceID c binding now obs =
     \<lparr>ed_Schema = edition_Schema, ed_EvidenceID = evidenceID, ed_Edition = co_Edition c, ed_Profile = co_Profile c,
      ed_CageID = co_CageID c, ed_BindingDigest = co_BindingDigest c, ed_ReleaseBinding = binding,
      ed_IssuedAt = time_UTC now, ed_Observations = obs, ed_SignatureAlgorithm = SignatureAlgorithm, ed_Signature = []\<rparr>"

definition staging_event :: "string \<Rightarrow> Evidence \<Rightarrow> audit_event" where
  "staging_event actor v =
     mk_event actor ''runStagingMatrix'' ''authorized'' (ed_CageID v)
       [(''edition'', MStr (ed_Edition v)), (''evidenceId'', MStr (ed_EvidenceID v)), (''bindingDigest'', MStr (ed_BindingDigest v)),
        (''releaseEvidenceBindingDigest'', MStr (mustReleaseEvidenceBindingDigest (ed_ReleaseBinding v))),
        (''candidateReleaseId'', MStr (rb_CandidateReleaseID (ed_ReleaseBinding v)))]"

definition staging_Run ::
  "ed25519 \<Rightarrow> StagingAuthority option \<Rightarrow> (nat \<Rightarrow> bool) \<Rightarrow> string \<Rightarrow> string \<Rightarrow> Compilation \<Rightarrow> ReleaseEvidenceBinding \<Rightarrow>
   audit_log \<Rightarrow> Evidence go_result \<times> audit_log" where
  "staging_Run E authority cancelled actor evidenceID c binding log =
     (case authority of
        None \<Rightarrow> (Inl (ErrUnavailable PkgEdition ''staging dependency unavailable''), log)
      | Some a \<Rightarrow>
          (case (sa_runner a, sa_audit a, sa_now a) of
             (Some runner, Some sink, Some now) \<Rightarrow>
               if \<not> requestIDPattern evidenceID \<or> verifyCompilation c \<noteq> None \<or> ValidateReleaseEvidenceBinding binding \<noteq> None
               then staging_deny sink actor (co_CageID c) ''invalid_staging_request'' log
               else (case run_scenarios runner cancelled 0 c [] requiredScenarios of
                  Inl reason \<Rightarrow> staging_deny sink actor (co_CageID c) reason log
                | Inr obs \<Rightarrow>
                    (case SignEvidence E (new_evidence evidenceID c binding now obs) (sa_key a) of
                       Inl _ \<Rightarrow> (Inl (ErrUnavailable PkgEdition ''evidence signing failed''), log)
                     | Inr evidence \<Rightarrow> authorize_plan PkgEdition sink (staging_event actor evidence) evidence log))
           | _ \<Rightarrow> (Inl (ErrUnavailable PkgEdition ''staging dependency unavailable''), log)))"

section \<open>The compiler: what it accepts and what it makes\<close>

definition compilation_doc :: "Compilation \<Rightarrow> json" where
  "compilation_doc c = json_Compilation (c\<lparr>co_BindingDigest := []\<rparr>)"

interpretation compilation_seal: sealed_plan compilation_doc co_BindingDigest "\<lambda>d c. c\<lparr>co_BindingDigest := d\<rparr>"
  by unfold_locales (simp_all add: compilation_doc_def)

lemma verifyCompilation_iff:
  "verifyCompilation c = None \<longleftrightarrow> co_Schema c = edition_Schema \<and> validEditionProfile (co_Edition c) (co_Profile c) \<and>
     co_BindingDigest c = digest_json (compilation_doc c)"
  by (auto simp: verifyCompilation_def digestCompilation_def compilation_doc_def)

lemma validEditionProfile_profile: "validEditionProfile e p \<Longrightarrow> validProfile p"
  by (auto simp: validEditionProfile_def validProfile_def)

lemma strict_mounts: "canonicalMounts (iq_Mounts (strictIsolationRequest intent profile)) = map required_mount mount_points"
proof -
  have "iq_Mounts (strictIsolationRequest intent profile) =
      iq_Mounts (strictIsolationRequest \<lparr>in_Schema = [], in_Edition = [], in_CageID = [], in_BaseRootDigest = [], in_SeccompDigest = []\<rparr> [])"
    by (simp add: strictIsolationRequest_def)
  also have "canonicalMounts \<dots> = map required_mount mount_points" by code_simp
  finally show ?thesis .
qed

text \<open>The isolation authority accepts a strict request exactly if the cage identifier is well formed.\<close>

lemma strict_request_ok:
  assumes "validProfile profile" "digestPattern (in_BaseRootDigest intent)" "digestPattern (in_SeccompDigest intent)"
  shows "isolation_request_ok (strictIsolationRequest intent profile) \<longleftrightarrow> cageIDPattern (in_CageID intent)"
proof -
  have "canonicalStrings [''user'', ''pid'', ''mount'', ''ipc'', ''uts'', ''network''] = requiredNS"
    "canonicalStrings [''null'', ''zero'', ''random'', ''urandom''] = allowedDevices" by code_simp+
  then show ?thesis
    using assms strict_mounts [of intent profile] by (simp add: isolation_request_ok_def strictIsolationRequest_def)
qed

lemma Compile_Inr:
  assumes "Compile (Some k) cancelled actor intent log = (Inr c, log')"
  obtains verifier sink t where "cp_resourceVerifier k = Some verifier" "cp_audit k = Some sink" "\<not> cancelled"
    "map_of (cp_templates k) (in_Edition intent) = Some t" "in_Schema intent = edition_Schema"
    "digestPattern (in_BaseRootDigest intent)" "digestPattern (in_SeccompDigest intent)"
    "c = (new_compilation intent t)\<lparr>co_BindingDigest := digestCompilation (new_compilation intent t)\<rparr>"
    "log' = log @ [(compiled_event actor c, True)]"
  using assms
  by (auto simp: Compile_def edition_deny_def Let_def authorize_plan_Inr split: option.splits if_splits)

lemma NewCompiler_template:
  assumes "NewCompiler templates verifier audit = Inr k" "map_of (cp_templates k) edition = Some t"
  shows "validEditionProfile edition (tp_Profile t)" "validTemplate t"
proof -
  have "(edition, t) \<in> set templates"
    using assms by (auto simp: NewCompiler_def split: if_splits dest: map_of_SomeD)
  then show "validEditionProfile edition (tp_Profile t)" "validTemplate t"
    using assms(1) by (auto simp: NewCompiler_def list_all_iff split: if_splits)
qed

lemma new_compilation_verifies:
  assumes "validEditionProfile (in_Edition intent) (tp_Profile t)"
  shows "verifyCompilation ((new_compilation intent t)\<lparr>co_BindingDigest := digestCompilation (new_compilation intent t)\<rparr>) = None"
proof -
  have "digestCompilation (new_compilation intent t) = digest_json (compilation_doc (new_compilation intent t))"
    by (simp add: digestCompilation_def compilation_doc_def)
  then show ?thesis
    using assms compilation_seal.seal_verifies [of "new_compilation intent t"]
    by (simp add: verifyCompilation_iff new_compilation_def)
qed

lemma BindResource_Inr:
  assumes "BindResource (Some k) cancelled actor c plan log = (Inr q, log')"
  shows "\<not> cancelled \<and> verifyCompilation c = None \<and> isolation_VerifyPlan plan = None \<and> ip_CageID plan = co_CageID c \<and>
    ip_Profile plan = co_Profile c \<and> q = resource_bound_request c plan"
  using assms
  by (auto simp: BindResource_def denyResource_def authorize_plan_Inr split: option.splits if_splits)

lemma BindExecution_Inr:
  assumes "BindExecution (Some k) cancelled actor c plan log = (Inr q, log')"
  shows "\<exists>verifier. cp_resourceVerifier k = Some verifier \<and> verifier plan \<and> \<not> cancelled \<and> verifyCompilation c = None \<and>
    sp_CageID plan = co_CageID c \<and> sp_Profile plan = co_Profile c \<and>
    q = (co_ExecutionTemplate c)\<lparr>gq_ResourcePlanDigest := sp_PlanDigest plan\<rparr>"
  using assms
  by (auto simp: BindExecution_def denyExecution_def authorize_plan_Inr split: option.splits if_splits)

section \<open>Staging\<close>

lemma run_scenarios_Inr:
  "run_scenarios runner cancelled k c obs ss = Inr obs' \<Longrightarrow> \<exists>new. obs' = obs @ new \<and> list_all2 observation_ok ss new"
proof (induction ss arbitrary: k obs)
  case (Cons s ss)
  from Cons.prems obtain v where v: "runner obs s c = Some v" "observation_ok s v"
      "run_scenarios runner cancelled (k + 1) c (obs @ [v]) ss = Inr obs'"
    by (auto split: if_splits option.splits)
  from Cons.IH [OF v(3)] obtain new where "obs' = (obs @ [v]) @ new" "list_all2 observation_ok ss new" by blast
  then show ?case using v(2) by (intro exI [of _ "v # new"]) simp
qed simp

lemma validObservations_iff: "validObservations obs \<longleftrightarrow> list_all2 observation_ok requiredScenarios obs"
  by (auto simp: validObservations_def list_all2_iff list_all_iff)

lemma staging_Run_Inr:
  assumes "staging_Run E (Some a) cancelled actor evidenceID c binding log = (Inr v, log')"
  obtains runner sink now obs where "sa_runner a = Some runner" "sa_audit a = Some sink" "sa_now a = Some now"
    "requestIDPattern evidenceID" "verifyCompilation c = None" "ValidateReleaseEvidenceBinding binding = None"
    "run_scenarios runner cancelled 0 c [] requiredScenarios = Inr obs"
    "SignEvidence E (new_evidence evidenceID c binding now obs) (sa_key a) = Inr v"
    "log' = log @ [(staging_event actor v, True)]"
  using assms
  by (auto simp: staging_Run_def staging_deny_def authorize_plan_Inr split: option.splits if_splits sum.splits)

lemma SignEvidence_fields:
  assumes "SignEvidence E v key = Inr v'"
  shows "\<exists>s. v' = v\<lparr>ed_SignatureAlgorithm := ''ed25519'', ed_Signature := s\<rparr>"
  using evidence_sig.sign_record_cases [OF assms [unfolded SignEvidence_def]] by (metis set_evidence_sig_def)

section \<open>A concrete run\<close>

definition demo_template :: Template where
  "demo_template = \<lparr>tp_Profile = ProfileSharedTenant, tp_Limits = demo_limits, tp_Network = demo_network,
     tp_ExecutablePath = ''/runtime/bin/app'', tp_Arguments = [''serve'']\<rparr>"

definition demo_compiler :: Compiler where
  "demo_compiler = \<lparr>cp_templates = [(Shared, demo_template), (Dedicated, demo_template\<lparr>tp_Profile := ProfileDedicatedAdministrator\<rparr>)],
     cp_resourceVerifier = Some (\<lambda>p. resource_VerifyPlan demo_resource_authority p = None), cp_audit = Some accept_all\<rparr>"

definition demo_intent :: Intent where
  "demo_intent = \<lparr>in_Schema = edition_Schema, in_Edition = Shared, in_CageID = ''cage-abc'',
     in_BaseRootDigest = demo_digest, in_SeccompDigest = demo_digest\<rparr>"

definition demo_compilation :: Compilation where
  "demo_compilation = (new_compilation demo_intent demo_template)
     \<lparr>co_BindingDigest := digestCompilation (new_compilation demo_intent demo_template)\<rparr>"

lemma demo_compiler_new:
  "NewCompiler [(Shared, demo_template), (Dedicated, demo_template\<lparr>tp_Profile := ProfileDedicatedAdministrator\<rparr>)]
     (Some (\<lambda>p. resource_VerifyPlan demo_resource_authority p = None)) (Some accept_all) = Inr demo_compiler"
proof -
  have "validTemplate demo_template" "validTemplate (demo_template\<lparr>tp_Profile := ProfileDedicatedAdministrator\<rparr>)" by code_simp+
  then show ?thesis
    by (simp add: NewCompiler_def demo_compiler_def validEditionProfile_def demo_template_def)
qed

lemma demo_compile:
  "Compile (Some demo_compiler) False ''operator'' demo_intent [] =
     (Inr demo_compilation, [(compiled_event ''operator'' demo_compilation, True)])"
proof -
  have "digestPattern demo_digest" by code_simp
  moreover have "map_of (cp_templates demo_compiler) (in_Edition demo_intent) = Some demo_template"
    by (simp add: demo_compiler_def demo_intent_def)
  moreover have "in_Schema demo_intent = edition_Schema" "in_BaseRootDigest demo_intent = demo_digest"
    "in_SeccompDigest demo_intent = demo_digest" by (simp_all add: demo_intent_def)
  moreover have "cp_resourceVerifier demo_compiler \<noteq> None" "cp_audit demo_compiler = Some accept_all"
    by (simp_all add: demo_compiler_def)
  ultimately show ?thesis
    by (auto simp: Compile_def Let_def authorize_plan_def RecordEvent_def accept_all_def demo_compilation_def)
qed

lemma demo_compilation_verified: "verifyCompilation demo_compilation = None"
  unfolding demo_compilation_def
  by (rule new_compilation_verifies) (simp add: validEditionProfile_def demo_intent_def demo_template_def)

definition demo_binding :: ReleaseEvidenceBinding where
  "demo_binding = \<lparr>rb_SchemaVersion = ReleaseEvidenceBindingSchema, rb_CandidateReleaseID = ''v1.2.3'',
     rb_CandidateCommitSHA = replicate 40 (CHR ''a''), rb_ArtifactManifestDigest = demo_digest, rb_SBOMDigest = demo_digest\<rparr>"

lemma demo_binding_ok: "ValidateReleaseEvidenceBinding demo_binding = None"
  by code_simp

definition demo_runner :: scenario_runner where
  "demo_runner obs s c = Some \<lparr>ob_Scenario = s, ob_Passed = True, ob_EvidenceDigest = demo_digest\<rparr>"

definition demo_staging :: StagingAuthority where
  "demo_staging = \<lparr>sa_key = demo_key (CHR ''s''), sa_runner = Some demo_runner, sa_audit = Some accept_all, sa_now = Some demo_now\<rparr>"

definition demo_observations :: "Observation list" where
  "demo_observations = map (\<lambda>s. \<lparr>ob_Scenario = s, ob_Passed = True, ob_EvidenceDigest = demo_digest\<rparr>) requiredScenarios"

definition demo_evidence_id :: string where "demo_evidence_id = ''01234567-89ab-4cde-8f01-23456789abcd''"

lemma demo_run_scenarios: "run_scenarios demo_runner (\<lambda>_. False) 0 c [] requiredScenarios = Inr demo_observations"
proof -
  have "digestPattern demo_digest" by code_simp
  then have "run_scenarios demo_runner (\<lambda>_. False) k c obs ss =
      Inr (obs @ map (\<lambda>s. \<lparr>ob_Scenario = s, ob_Passed = True, ob_EvidenceDigest = demo_digest\<rparr>) ss)" for k obs ss
    by (induction ss arbitrary: k obs) (auto simp: demo_runner_def observation_ok_def)
  then show ?thesis by (simp add: demo_observations_def)
qed

lemma demo_staging_run:
  obtains v log' where "staging_Run demo_ed25519 (Some demo_staging) (\<lambda>_. False) ''operator'' demo_evidence_id demo_compilation demo_binding [] =
    (Inr v, log')"
proof -
  let ?v = "new_evidence demo_evidence_id demo_compilation demo_binding demo_now demo_observations"
  have "time_encodable (time_UTC demo_now)" by code_simp
  then have "canonicalEvidence (set_evidence_sig ''ed25519'' [] ?v) = Some (json_print (json_Evidence
      ((set_evidence_sig ''ed25519'' [] ?v)\<lparr>ed_Signature := [], ed_Observations := sort_key ob_Scenario (ed_Observations (set_evidence_sig ''ed25519'' [] ?v))\<rparr>)))"
    by (simp add: canonicalEvidence_def set_evidence_sig_def new_evidence_def)
  then have "SignEvidence demo_ed25519 ?v (demo_key (CHR ''s'')) = Inr (set_evidence_sig ''ed25519'' (base64_EncodeToString (ed_sign demo_ed25519 (demo_key (CHR ''s''))
      (json_print (json_Evidence ((set_evidence_sig ''ed25519'' [] ?v)\<lparr>ed_Signature := [], ed_Observations := sort_key ob_Scenario (ed_Observations (set_evidence_sig ''ed25519'' [] ?v))\<rparr>))))) ?v)"
    unfolding SignEvidence_def by (intro evidence_sig.sign_record_total) (simp_all add: demo_key_def ed_sizes)
  moreover have "requestIDPattern demo_evidence_id" by code_simp
  ultimately show ?thesis
    using that demo_compilation_verified demo_binding_ok demo_run_scenarios
    by (simp add: staging_Run_def demo_staging_def authorize_plan_def RecordEvent_def accept_all_def)
qed

lemma staging_evidence:
  assumes "ed25519_correct E" "ed_key E (sa_key a)"
    and "staging_Run E (Some a) cancelled actor evidenceID c binding log = (Inr v, log')"
  shows "VerifyEvidence E v (key_Public (sa_key a)) = None \<and> verifyCompilation c = None \<and>
    ed_ReleaseBinding v = binding \<and> ValidateReleaseEvidenceBinding binding = None \<and>
    ed_BindingDigest v = co_BindingDigest c \<and> ed_CageID v = co_CageID c \<and>
    map ob_Scenario (ed_Observations v) = requiredScenarios \<and>
    (\<forall>x\<in>set (ed_Observations v). ob_Passed x \<and> digestPattern (ob_EvidenceDigest x)) \<and>
    log' = log @ [(staging_event actor v, True)]"
proof -
  obtain runner now obs where r: "requestIDPattern evidenceID" "verifyCompilation c = None" "ValidateReleaseEvidenceBinding binding = None"
    "run_scenarios runner cancelled 0 c [] requiredScenarios = Inr obs"
    "SignEvidence E (new_evidence evidenceID c binding now obs) (sa_key a) = Inr v"
    "log' = log @ [(staging_event actor v, True)]"
    using staging_Run_Inr [OF assms(3)] by metis
  have obs: "list_all2 observation_ok requiredScenarios obs" using run_scenarios_Inr [OF r(4)] by auto
  then have o: "map ob_Scenario obs = requiredScenarios" "\<forall>x\<in>set obs. ob_Passed x \<and> digestPattern (ob_EvidenceDigest x)"
    by (induction rule: list_all2_induct) (auto simp: observation_ok_def)
  obtain s where v: "v = (new_evidence evidenceID c binding now obs)\<lparr>ed_SignatureAlgorithm := ''ed25519'', ed_Signature := s\<rparr>"
    using SignEvidence_fields [OF r(5)] by blast
  have c: "validEditionProfile (co_Edition c) (co_Profile c)" "digestPattern (co_BindingDigest c)"
    using r(2) by (auto simp: verifyCompilation_iff)
  have "VerifyEvidence E v (key_Public (sa_key a)) = None"
    using evidence_sig.sign_record_verifies(1) [OF assms(1,2) r(5) [unfolded SignEvidence_def]] assms(2) r(1,3) obs c
    by (simp add: VerifyEvidence_def validObservations_iff v new_evidence_def SignatureAlgorithm_def)
  then show ?thesis using r(2,3,6) o by (simp add: v new_evidence_def)
qed

section \<open>Properties\<close>

text \<open>
  C36. A compilation is made only from the template configured for the edition: it verifies,
  its profile is the edition's, its limits, network policy, executable and arguments are the
  template's, egress is denied, and nothing of the intent but the cage and the two digests
  reaches the isolation request. The isolation authority accepts that request exactly if the
  cage identifier is well formed, which the compiler itself does not check.
\<close>

theorem Compile_strict:
  assumes "NewCompiler templates verifier audit = Inr k"
    and "Compile (Some k) cancelled actor intent log = (Inr c, log')"
  shows "verifyCompilation c = None \<and> validEditionProfile (in_Edition intent) (co_Profile c) \<and>
    co_CageID c = in_CageID intent \<and> nw_Mode (co_NetworkTemplate c) = ''denyAll'' \<and>
    co_IsolationRequest c = strictIsolationRequest intent (co_Profile c) \<and>
    (\<exists>t. map_of templates (in_Edition intent) = Some t \<and> co_ResourceTemplate c = tp_Limits t \<and>
       gq_ExecutablePath (co_ExecutionTemplate c) = tp_ExecutablePath t \<and>
       gq_Arguments (co_ExecutionTemplate c) = tp_Arguments t \<and> gq_RequestedEnvironment (co_ExecutionTemplate c) = []) \<and>
    (isolation_validateRequest (co_IsolationRequest c) = [] \<longleftrightarrow> cageIDPattern (in_CageID intent)) \<and>
    log' = log @ [(compiled_event actor c, True)]"
proof -
  obtain t where r: "map_of (cp_templates k) (in_Edition intent) = Some t"
    "digestPattern (in_BaseRootDigest intent)" "digestPattern (in_SeccompDigest intent)"
    "c = (new_compilation intent t)\<lparr>co_BindingDigest := digestCompilation (new_compilation intent t)\<rparr>"
    "log' = log @ [(compiled_event actor c, True)]"
    using Compile_Inr [OF assms(2)] by metis
  note t = NewCompiler_template [OF assms(1) r(1)]
  have "cp_templates k = templates" using assms(1) by (auto simp: NewCompiler_def split: if_splits)
  moreover have "verifyCompilation c = None" unfolding r(4) by (rule new_compilation_verifies [OF t(1)])
  moreover have "co_Profile c = tp_Profile t" "co_CageID c = in_CageID intent" "co_NetworkTemplate c = tp_Network t"
    "co_IsolationRequest c = strictIsolationRequest intent (tp_Profile t)" "co_ResourceTemplate c = tp_Limits t"
    "gq_ExecutablePath (co_ExecutionTemplate c) = tp_ExecutablePath t" "gq_Arguments (co_ExecutionTemplate c) = tp_Arguments t"
    "gq_RequestedEnvironment (co_ExecutionTemplate c) = []"
    by (simp_all add: r(4) new_compilation_def)
  moreover have "nw_Mode (tp_Network t) = ''denyAll''" using t(2) by (simp add: validTemplate_def)
  ultimately show ?thesis
    using r(1,5) t(1) strict_request_ok [OF validEditionProfile_profile [OF t(1)] r(2,3)]
    by (simp add: isolation_validateRequest_iff)
qed

theorem Compile_strict_witness:
  "verifyCompilation demo_compilation = None \<and> isolation_validateRequest (co_IsolationRequest demo_compilation) = []"
proof -
  have "cageIDPattern (in_CageID demo_intent)" by code_simp
  with Compile_strict [OF demo_compiler_new demo_compile] show ?thesis by blast
qed

text \<open>
  The compiler accepts templates that the resource authority can never accept: it does not
  look at \<open>memory.high\<close>, at the I/O limits or at the value of the CPU period. Whatever maximum
  is configured, a resource request bound from such a compilation is refused.
\<close>

theorem Compile_template_gap:
  assumes "lm_MemoryHighBytes (tp_Limits t) = 0 \<or> lm_IO (tp_Limits t) = [] \<or> lm_CPUPeriodMicros (tp_Limits t) \<noteq> 100000"
    and "co_ResourceTemplate c = tp_Limits t"
  shows "resource_validate a (resource_bound_request c plan) plan \<noteq> []"
proof -
  have "\<not> validLimits (tp_Limits t) m" for m using assms(1) by (auto simp: validLimits_iff)
  then show ?thesis using assms(2) by (auto simp: resource_validate_iff resource_bound_request_def)
qed

theorem Compile_template_gap_witness:
  "validTemplate (demo_template\<lparr>tp_Limits := demo_limits\<lparr>lm_IO := []\<rparr>\<rparr>) \<and>
     resource_validate demo_resource_authority
       (resource_bound_request (new_compilation demo_intent (demo_template\<lparr>tp_Limits := demo_limits\<lparr>lm_IO := []\<rparr>\<rparr>)) demo_isolation_plan)
       demo_isolation_plan \<noteq> []"
proof -
  have "validTemplate (demo_template\<lparr>tp_Limits := demo_limits\<lparr>lm_IO := []\<rparr>\<rparr>)" by code_simp
  then show ?thesis
    using Compile_template_gap [of "demo_template\<lparr>tp_Limits := demo_limits\<lparr>lm_IO := []\<rparr>\<rparr>"
        "new_compilation demo_intent (demo_template\<lparr>tp_Limits := demo_limits\<lparr>lm_IO := []\<rparr>\<rparr>)"]
    by (simp add: new_compilation_def)
qed

text \<open>
  C37. Staging evidence is complete and verifies: \<open>Run\<close> signs only if the compilation and the
  release binding are valid and all fifteen scenarios were run in order, each reported itself,
  passed and gave a SHA-256 digest; the evidence it returns passes \<open>VerifyEvidence\<close> under the
  public half of its key and its release binding and binding digest are those it was given.
\<close>

theorem staging_Run_evidence:
  assumes "ed25519_correct E" "ed_key E (sa_key a)"
    and "staging_Run E (Some a) cancelled actor evidenceID c binding log = (Inr v, log')"
  shows "VerifyEvidence E v (key_Public (sa_key a)) = None \<and> verifyCompilation c = None \<and>
    ed_ReleaseBinding v = binding \<and> ValidateReleaseEvidenceBinding binding = None \<and>
    ed_BindingDigest v = co_BindingDigest c \<and> ed_CageID v = co_CageID c \<and>
    map ob_Scenario (ed_Observations v) = requiredScenarios \<and>
    (\<forall>x\<in>set (ed_Observations v). ob_Passed x \<and> digestPattern (ob_EvidenceDigest x)) \<and>
    log' = log @ [(staging_event actor v, True)]"
  using assms by (rule staging_evidence)

theorem staging_Run_evidence_witness:
  "\<exists>v log'. staging_Run demo_ed25519 (Some demo_staging) (\<lambda>_. False) ''operator'' demo_evidence_id demo_compilation demo_binding [] =
     (Inr v, log') \<and> VerifyEvidence demo_ed25519 v (key_Public (demo_key (CHR ''s''))) = None"
proof -
  obtain v log' where run: "staging_Run demo_ed25519 (Some demo_staging) (\<lambda>_. False) ''operator'' demo_evidence_id demo_compilation
      demo_binding [] = (Inr v, log')" by (rule demo_staging_run)
  have "sa_key demo_staging = demo_key (CHR ''s'')" by (simp add: demo_staging_def)
  with staging_Run_evidence [OF demo_ed25519_correct _ run] run show ?thesis by auto
qed

text \<open>
  Every refusal of the compiler and of the staging authority is audited or unavailable, except that a
  cancelled binding returns the error of the context and records nothing.
\<close>

lemma edition_refusal:
  "Compile (Some k) cancelled actor intent log = (Inl err, log') \<Longrightarrow> refusal_audited PkgEdition err log log'"
  "BindResource (Some k) False actor c ip log = (Inl err, log') \<Longrightarrow> refusal_audited PkgEdition err log log'"
  "BindExecution (Some k) False actor c sp log = (Inl err, log') \<Longrightarrow> refusal_audited PkgEdition err log log'"
  "staging_Run E (Some a) polls actor evidenceID c binding log = (Inl err, log') \<Longrightarrow> refusal_audited PkgEdition err log log'"
proof -
  note refused = refusal_auditedI refusal_audited_authorize refusal_audited_unavailable
  show "Compile (Some k) cancelled actor intent log = (Inl err, log') \<Longrightarrow> refusal_audited PkgEdition err log log'"
    by (auto simp: Compile_def edition_deny_def Let_def intro: refused split: option.splits if_splits)
  show "BindResource (Some k) False actor c ip log = (Inl err, log') \<Longrightarrow> refusal_audited PkgEdition err log log'"
    by (auto simp: BindResource_def denyResource_def intro: refused split: option.splits if_splits)
  show "BindExecution (Some k) False actor c sp log = (Inl err, log') \<Longrightarrow> refusal_audited PkgEdition err log log'"
    by (auto simp: BindExecution_def denyExecution_def intro: refused split: option.splits if_splits)
  show "staging_Run E (Some a) polls actor evidenceID c binding log = (Inl err, log') \<Longrightarrow> refusal_audited PkgEdition err log log'"
    by (auto simp: staging_Run_def staging_deny_def intro: refused split: option.splits if_splits sum.splits)
qed

lemma Bind_cancelled:
  "cp_audit k = Some sink \<Longrightarrow> BindResource (Some k) True actor c ip log = (Inl (ErrOther ''context canceled''), log)"
  by (simp add: BindResource_def)

end
