(* ===== verification/Certification.thy ===== *)
theory Certification
  imports Edition "HOL-Library.AList"
begin

text \<open>
  Package \<open>certification\<close> (\<open>certification/authority.go\<close>): the guarded release. A certificate is
  issued only for an artifact manifest, benchmark evidence, a security review, the staging
  evidence of both editions and the six Core gates, all signed, fresh and bound to one release
  and commit. The rate limiter, the audit sink and the clock are parameters. A Go map is an
  association list with distinct keys; \<open>int64\<close> fields, which are only compared and printed,
  are integers.
\<close>

section \<open>Data\<close>

type_synonym Gate = string

definition GateAdmission :: Gate where "GateAdmission = ''admission''"
definition GateCertification :: Gate where "GateCertification = ''certification''"
definition GateGA :: Gate where "GateGA = ''ga''"

definition requiredGates :: "Gate list" where "requiredGates = [GateAdmission, GateCertification, GateGA]"

definition certification_Schema :: string where "certification_Schema = ''brick.host-isolation.certification.v1''"
definition ManifestSchema :: string where "ManifestSchema = ''brick.host-isolation.artifact-manifest.v1''"
definition BenchmarkSchema :: string where "BenchmarkSchema = ''brick.host-isolation.benchmark-evidence.v1''"
definition ReviewSchema :: string where "ReviewSchema = ''brick.host-isolation.security-review.v1''"
definition CoreGateSchema :: string where "CoreGateSchema = ''brick.core.host-isolation-admission.v1''"

record Artifact =
  af_Path :: string
  af_Digest :: string
  af_SizeBytes :: int

record ArtifactManifest =
  am_Schema :: string
  am_ReleaseID :: string
  am_SourceCommit :: string
  am_CreatedAt :: gotime
  am_SBOMDigest :: string
  am_Artifacts :: "Artifact list"
  am_SignatureAlgorithm :: string
  am_Signature :: string

record BenchmarkResult =
  br_Name :: string
  br_Iterations :: int
  br_NanosecondsPerOp :: int
  br_AllocationsPerOp :: int
  br_BytesPerOp :: int

record BenchmarkEvidence =
  be_Schema :: string
  be_ReleaseID :: string
  be_SourceCommit :: string
  be_MeasuredAt :: gotime
  be_EnvironmentDigest :: string
  be_Results :: "BenchmarkResult list"
  be_SignatureAlgorithm :: string
  be_Signature :: string

record SecurityReview =
  sr_Schema :: string
  sr_ReleaseID :: string
  sr_SourceCommit :: string
  sr_ReviewID :: string
  sr_ReviewerID :: string
  sr_ReviewedAt :: gotime
  sr_ExpiresAt :: gotime
  sr_Outcome :: string
  sr_FindingsDigest :: string
  sr_Scope :: "string list"
  sr_SignatureAlgorithm :: string
  sr_Signature :: string

record CoreGateEvidence =
  ge_Schema :: string
  ge_Edition :: Edition
  ge_Gate :: Gate
  ge_ReleaseID :: string
  ge_SourceCommit :: string
  ge_PolicyDigest :: string
  ge_IssuedAt :: gotime
  ge_ExpiresAt :: gotime
  ge_Outcome :: string
  ge_SignatureAlgorithm :: string
  ge_Signature :: string

record certification_Request =
  cq_Schema :: string
  cq_ReleaseID :: string
  cq_SourceCommit :: string
  cq_ArtifactManifest :: ArtifactManifest
  cq_BenchmarkEvidence :: BenchmarkEvidence
  cq_SecurityReview :: SecurityReview
  cq_StagingEvidence :: "(Edition \<times> Evidence) list"
  cq_CoreGates :: "CoreGateEvidence list"

record Certificate =
  ct_Schema :: string
  ct_CertificateID :: string
  ct_ReleaseID :: string
  ct_SourceCommit :: string
  ct_ArtifactManifestDigest :: string
  ct_SBOMDigest :: string
  ct_BenchmarkDigest :: string
  ct_SecurityReviewDigest :: string
  ct_StagingEvidenceDigests :: "(string \<times> string) list"
  ct_CoreGateDigests :: "(string \<times> string) list"
  ct_IssuedAt :: gotime
  ct_ExpiresAt :: gotime
  ct_SignatureAlgorithm :: string
  ct_Signature :: string

record TrustBundle =
  tb_ManifestKey :: bytes
  tb_BenchmarkKey :: bytes
  tb_SecurityReviewKey :: bytes
  tb_StagingKey :: bytes
  tb_CoreGateKey :: bytes
  tb_CertificateKey :: bytes
  tb_CertificateTTL :: int
  tb_MaxEvidenceAge :: int

section \<open>JSON and canonical payloads\<close>

definition json_Artifact :: "Artifact \<Rightarrow> json" where
  "json_Artifact a = JObj
     [(''path'', JStr (af_Path a)), (''digest'', JStr (af_Digest a)), (''sizeBytes'', JInt (af_SizeBytes a))]"

definition json_ArtifactManifest :: "ArtifactManifest \<Rightarrow> json" where
  "json_ArtifactManifest m = JObj
     [(''schema'', JStr (am_Schema m)), (''releaseId'', JStr (am_ReleaseID m)), (''sourceCommit'', JStr (am_SourceCommit m)),
      (''createdAt'', json_time (am_CreatedAt m)), (''sbomDigest'', JStr (am_SBOMDigest m)),
      (''artifacts'', json_appended json_Artifact (am_Artifacts m)),
      (''signatureAlgorithm'', JStr (am_SignatureAlgorithm m)), (''signature'', JStr (am_Signature m))]"

definition json_BenchmarkResult :: "BenchmarkResult \<Rightarrow> json" where
  "json_BenchmarkResult r = JObj
     [(''name'', JStr (br_Name r)), (''iterations'', JInt (br_Iterations r)),
      (''nanosecondsPerOp'', JInt (br_NanosecondsPerOp r)), (''allocationsPerOp'', JInt (br_AllocationsPerOp r)),
      (''bytesPerOp'', JInt (br_BytesPerOp r))]"

definition json_BenchmarkEvidence :: "BenchmarkEvidence \<Rightarrow> json" where
  "json_BenchmarkEvidence b = JObj
     [(''schema'', JStr (be_Schema b)), (''releaseId'', JStr (be_ReleaseID b)), (''sourceCommit'', JStr (be_SourceCommit b)),
      (''measuredAt'', json_time (be_MeasuredAt b)), (''environmentDigest'', JStr (be_EnvironmentDigest b)),
      (''results'', json_appended json_BenchmarkResult (be_Results b)),
      (''signatureAlgorithm'', JStr (be_SignatureAlgorithm b)), (''signature'', JStr (be_Signature b))]"

definition json_SecurityReview :: "SecurityReview \<Rightarrow> json" where
  "json_SecurityReview r = JObj
     [(''schema'', JStr (sr_Schema r)), (''releaseId'', JStr (sr_ReleaseID r)), (''sourceCommit'', JStr (sr_SourceCommit r)),
      (''reviewId'', JStr (sr_ReviewID r)), (''reviewerId'', JStr (sr_ReviewerID r)),
      (''reviewedAt'', json_time (sr_ReviewedAt r)), (''expiresAt'', json_time (sr_ExpiresAt r)),
      (''outcome'', JStr (sr_Outcome r)), (''findingsDigest'', JStr (sr_FindingsDigest r)),
      (''scope'', json_appended JStr (sr_Scope r)),
      (''signatureAlgorithm'', JStr (sr_SignatureAlgorithm r)), (''signature'', JStr (sr_Signature r))]"

definition json_CoreGateEvidence :: "CoreGateEvidence \<Rightarrow> json" where
  "json_CoreGateEvidence g = JObj
     [(''schema'', JStr (ge_Schema g)), (''edition'', JStr (ge_Edition g)), (''gate'', JStr (ge_Gate g)),
      (''releaseId'', JStr (ge_ReleaseID g)), (''sourceCommit'', JStr (ge_SourceCommit g)),
      (''policyDigest'', JStr (ge_PolicyDigest g)), (''issuedAt'', json_time (ge_IssuedAt g)),
      (''expiresAt'', json_time (ge_ExpiresAt g)), (''outcome'', JStr (ge_Outcome g)),
      (''signatureAlgorithm'', JStr (ge_SignatureAlgorithm g)), (''signature'', JStr (ge_Signature g))]"

text \<open>\<open>json.Marshal\<close> prints a map with its keys in order.\<close>

definition json_string_map :: "(string \<times> string) list \<Rightarrow> json" where
  "json_string_map m = JObj (map (\<lambda>(k, v). (k, JStr v)) (sort_key fst m))"

definition json_Certificate :: "Certificate \<Rightarrow> json" where
  "json_Certificate c = JObj
     [(''schema'', JStr (ct_Schema c)), (''certificateId'', JStr (ct_CertificateID c)), (''releaseId'', JStr (ct_ReleaseID c)),
      (''sourceCommit'', JStr (ct_SourceCommit c)), (''artifactManifestDigest'', JStr (ct_ArtifactManifestDigest c)),
      (''sbomDigest'', JStr (ct_SBOMDigest c)), (''benchmarkDigest'', JStr (ct_BenchmarkDigest c)),
      (''securityReviewDigest'', JStr (ct_SecurityReviewDigest c)),
      (''stagingEvidenceDigests'', json_string_map (ct_StagingEvidenceDigests c)),
      (''coreGateDigests'', json_string_map (ct_CoreGateDigests c)), (''issuedAt'', json_time (ct_IssuedAt c)),
      (''expiresAt'', json_time (ct_ExpiresAt c)), (''signatureAlgorithm'', JStr (ct_SignatureAlgorithm c)),
      (''signature'', JStr (ct_Signature c))]"

definition marshal_if :: "bool \<Rightarrow> json \<Rightarrow> bytes option" where
  "marshal_if encodable j = (if encodable then Some (json_print j) else None)"

definition canonicalArtifactManifest :: "ArtifactManifest \<Rightarrow> bytes option" where
  "canonicalArtifactManifest m = marshal_if (time_encodable (am_CreatedAt m)) (json_ArtifactManifest (m\<lparr>am_Signature := []\<rparr>))"

definition canonicalBenchmarkEvidence :: "BenchmarkEvidence \<Rightarrow> bytes option" where
  "canonicalBenchmarkEvidence b = marshal_if (time_encodable (be_MeasuredAt b)) (json_BenchmarkEvidence (b\<lparr>be_Signature := []\<rparr>))"

definition canonicalSecurityReview :: "SecurityReview \<Rightarrow> bytes option" where
  "canonicalSecurityReview r =
     marshal_if (time_encodable (sr_ReviewedAt r) \<and> time_encodable (sr_ExpiresAt r)) (json_SecurityReview (r\<lparr>sr_Signature := []\<rparr>))"

definition canonicalCoreGateEvidence :: "CoreGateEvidence \<Rightarrow> bytes option" where
  "canonicalCoreGateEvidence g =
     marshal_if (time_encodable (ge_IssuedAt g) \<and> time_encodable (ge_ExpiresAt g)) (json_CoreGateEvidence (g\<lparr>ge_Signature := []\<rparr>))"

definition canonicalCertificate :: "Certificate \<Rightarrow> bytes option" where
  "canonicalCertificate c =
     marshal_if (time_encodable (ct_IssuedAt c) \<and> time_encodable (ct_ExpiresAt c)) (json_Certificate (c\<lparr>ct_Signature := []\<rparr>))"

text \<open>\<open>digestValue\<close> hashes the value as it is, signature included.\<close>

definition digest_marshalled :: "bytes option \<Rightarrow> string option" where
  "digest_marshalled m = (case m of None \<Rightarrow> None | Some encoded \<Rightarrow> Some (sha256_hex encoded))"

definition digestArtifactManifest :: "ArtifactManifest \<Rightarrow> string option" where
  "digestArtifactManifest m = digest_marshalled (marshal_if (time_encodable (am_CreatedAt m)) (json_ArtifactManifest m))"

definition digestBenchmarkEvidence :: "BenchmarkEvidence \<Rightarrow> string option" where
  "digestBenchmarkEvidence b = digest_marshalled (marshal_if (time_encodable (be_MeasuredAt b)) (json_BenchmarkEvidence b))"

definition digestSecurityReview :: "SecurityReview \<Rightarrow> string option" where
  "digestSecurityReview r =
     digest_marshalled (marshal_if (time_encodable (sr_ReviewedAt r) \<and> time_encodable (sr_ExpiresAt r)) (json_SecurityReview r))"

definition digestCoreGateEvidence :: "CoreGateEvidence \<Rightarrow> string option" where
  "digestCoreGateEvidence g =
     digest_marshalled (marshal_if (time_encodable (ge_IssuedAt g) \<and> time_encodable (ge_ExpiresAt g)) (json_CoreGateEvidence g))"

definition digestEvidence :: "Evidence \<Rightarrow> string option" where
  "digestEvidence v = digest_marshalled (marshal_if (time_encodable (ed_IssuedAt v)) (json_Evidence v))"

section \<open>Signing and verifying\<close>

definition set_am_sig :: "string \<Rightarrow> string \<Rightarrow> ArtifactManifest \<Rightarrow> ArtifactManifest" where
  "set_am_sig alg s m = m\<lparr>am_SignatureAlgorithm := alg, am_Signature := s\<rparr>"

definition set_be_sig :: "string \<Rightarrow> string \<Rightarrow> BenchmarkEvidence \<Rightarrow> BenchmarkEvidence" where
  "set_be_sig alg s b = b\<lparr>be_SignatureAlgorithm := alg, be_Signature := s\<rparr>"

definition set_sr_sig :: "string \<Rightarrow> string \<Rightarrow> SecurityReview \<Rightarrow> SecurityReview" where
  "set_sr_sig alg s r = r\<lparr>sr_SignatureAlgorithm := alg, sr_Signature := s\<rparr>"

definition set_ge_sig :: "string \<Rightarrow> string \<Rightarrow> CoreGateEvidence \<Rightarrow> CoreGateEvidence" where
  "set_ge_sig alg s g = g\<lparr>ge_SignatureAlgorithm := alg, ge_Signature := s\<rparr>"

definition set_ct_sig :: "string \<Rightarrow> string \<Rightarrow> Certificate \<Rightarrow> Certificate" where
  "set_ct_sig alg s c = c\<lparr>ct_SignatureAlgorithm := alg, ct_Signature := s\<rparr>"

interpretation am_sig: signed_record canonicalArtifactManifest set_am_sig am_SignatureAlgorithm am_Signature
  by unfold_locales (simp_all add: set_am_sig_def canonicalArtifactManifest_def)

interpretation be_sig: signed_record canonicalBenchmarkEvidence set_be_sig be_SignatureAlgorithm be_Signature
  by unfold_locales (simp_all add: set_be_sig_def canonicalBenchmarkEvidence_def)

interpretation sr_sig: signed_record canonicalSecurityReview set_sr_sig sr_SignatureAlgorithm sr_Signature
  by unfold_locales (simp_all add: set_sr_sig_def canonicalSecurityReview_def)

interpretation ge_sig: signed_record canonicalCoreGateEvidence set_ge_sig ge_SignatureAlgorithm ge_Signature
  by unfold_locales (simp_all add: set_ge_sig_def canonicalCoreGateEvidence_def)

interpretation ct_sig: signed_record canonicalCertificate set_ct_sig ct_SignatureAlgorithm ct_Signature
  by unfold_locales (simp_all add: set_ct_sig_def canonicalCertificate_def)

definition SignArtifactManifest :: "ed25519 \<Rightarrow> ArtifactManifest \<Rightarrow> bytes \<Rightarrow> ArtifactManifest go_result" where
  "SignArtifactManifest E m key = sign_record E canonicalArtifactManifest set_am_sig key m"

definition SignBenchmarkEvidence :: "ed25519 \<Rightarrow> BenchmarkEvidence \<Rightarrow> bytes \<Rightarrow> BenchmarkEvidence go_result" where
  "SignBenchmarkEvidence E b key = sign_record E canonicalBenchmarkEvidence set_be_sig key b"

definition SignSecurityReview :: "ed25519 \<Rightarrow> SecurityReview \<Rightarrow> bytes \<Rightarrow> SecurityReview go_result" where
  "SignSecurityReview E r key = sign_record E canonicalSecurityReview set_sr_sig key r"

definition SignCoreGateEvidence :: "ed25519 \<Rightarrow> CoreGateEvidence \<Rightarrow> bytes \<Rightarrow> CoreGateEvidence go_result" where
  "SignCoreGateEvidence E g key = sign_record E canonicalCoreGateEvidence set_ge_sig key g"

definition SignCertificate :: "ed25519 \<Rightarrow> Certificate \<Rightarrow> bytes \<Rightarrow> Certificate go_result" where
  "SignCertificate E c key = sign_record E canonicalCertificate set_ct_sig key c"

definition verifySignature ::
  "ed25519 \<Rightarrow> ('r \<Rightarrow> bytes option) \<Rightarrow> 'r \<Rightarrow> bytes \<Rightarrow> string \<Rightarrow> string \<Rightarrow> bool" where
  "verifySignature E canonical r key algorithm signature =
     (if algorithm \<noteq> SignatureAlgorithm then False else signature_ok E canonical key signature r)"

section \<open>Validators\<close>

definition validPublicKey :: "bytes \<Rightarrow> bool" where
  "validPublicKey key = (length key = PublicKeySize)"

definition validEdition :: "Edition \<Rightarrow> bool" where
  "validEdition v = (v = Shared \<or> v = Dedicated)"

definition validGate :: "Gate \<Rightarrow> bool" where
  "validGate v = (v = GateAdmission \<or> v = GateCertification \<or> v = GateGA)"

definition fresh :: "gotime \<Rightarrow> gotime \<Rightarrow> int \<Rightarrow> bool" where
  "fresh at now maxAge = (\<not> time_IsZero at \<and> \<not> time_After at now \<and> time_Sub now at \<le> maxAge)"

text \<open>\<open>regexp.MustCompile(`/+`).Split(path, -1)\<close>: the parts between runs of slashes.\<close>

fun slash_split :: "string \<Rightarrow> string list" where
  "slash_split [] = [[]]"
| "slash_split (c # s) =
     (if c = CHR ''/''
      then (case s of d # _ \<Rightarrow> if d = CHR ''/'' then slash_split s else [] # slash_split s | [] \<Rightarrow> [] # slash_split s)
      else (case slash_split s of p # ps \<Rightarrow> (c # p) # ps | [] \<Rightarrow> [[c]]))"

definition cleanRelativePath :: "string \<Rightarrow> string" where
  "cleanRelativePath path =
     (if path = [] \<or> hd path = CHR ''/'' then []
      else if list_ex (\<lambda>part. part = [] \<or> part = ''.'' \<or> part = ''..'') (slash_split path) then []
      else path)"

fun validArtifacts_loop :: "string \<Rightarrow> Artifact list \<Rightarrow> bool" where
  "validArtifacts_loop prev [] = True"
| "validArtifacts_loop prev (a # rest) =
     (if af_Path a = [] \<or> af_Path a \<noteq> cleanRelativePath (af_Path a) \<or> af_Path a \<le> prev \<or>
         \<not> digestPattern (af_Digest a) \<or> af_SizeBytes a \<le> 0
      then False else validArtifacts_loop (af_Path a) rest)"

definition validArtifacts :: "Artifact list \<Rightarrow> bool" where
  "validArtifacts artifacts = (if artifacts = [] then False else validArtifacts_loop [] artifacts)"

fun validBenchmarkResults_loop :: "string \<Rightarrow> BenchmarkResult list \<Rightarrow> bool" where
  "validBenchmarkResults_loop prev [] = True"
| "validBenchmarkResults_loop prev (r # rs) =
     (if br_Name r = [] \<or> br_Name r \<le> prev \<or> br_Iterations r \<le> 0 \<or> br_NanosecondsPerOp r \<le> 0 \<or>
         br_AllocationsPerOp r < 0 \<or> br_BytesPerOp r < 0
      then False else validBenchmarkResults_loop (br_Name r) rs)"

definition validBenchmarkResults :: "BenchmarkResult list \<Rightarrow> bool" where
  "validBenchmarkResults results = (if results = [] then False else validBenchmarkResults_loop [] results)"

definition validReviewScope :: "string list \<Rightarrow> bool" where
  "validReviewScope scope =
     (let required = [''artifact-manifest'', ''engine'', ''staging-evidence'']
      in if length scope \<noteq> length required then False else list_all (\<lambda>(s, v). s = v) (zip scope required))"

definition gate_identity :: "Edition \<Rightarrow> Gate \<Rightarrow> string" where
  "gate_identity edition gate = edition @ '':'' @ gate"

definition map_value :: "(string \<times> string) list \<Rightarrow> string \<Rightarrow> string" where
  "map_value m k = (case map_of m k of None \<Rightarrow> [] | Some v \<Rightarrow> v)"

definition validCertificateDigests :: "(string \<times> string) list \<Rightarrow> (string \<times> string) list \<Rightarrow> bool" where
  "validCertificateDigests staging core =
     (if length staging \<noteq> 2 \<or> length core \<noteq> 6 then False
      else list_all (\<lambda>current. digestPattern (map_value staging current) \<and>
             list_all (\<lambda>gate. digestPattern (map_value core (gate_identity current gate))) requiredGates) [Shared, Dedicated])"

definition VerifyArtifactManifest :: "ed25519 \<Rightarrow> ArtifactManifest \<Rightarrow> bytes \<Rightarrow> gotime \<Rightarrow> int \<Rightarrow> go_error option" where
  "VerifyArtifactManifest E m key now maxAge =
     (if \<not> validPublicKey key \<or> am_Schema m \<noteq> ManifestSchema \<or> \<not> releasePattern (am_ReleaseID m) \<or>
         \<not> certification_commitPattern (am_SourceCommit m) \<or> \<not> digestPattern (am_SBOMDigest m) \<or>
         \<not> fresh (am_CreatedAt m) now maxAge \<or> \<not> validArtifacts (am_Artifacts m) \<or>
         \<not> verifySignature E canonicalArtifactManifest m key (am_SignatureAlgorithm m) (am_Signature m)
      then Some (ErrDenied PkgCertification []) else None)"

definition VerifyBenchmarkEvidence :: "ed25519 \<Rightarrow> BenchmarkEvidence \<Rightarrow> bytes \<Rightarrow> gotime \<Rightarrow> int \<Rightarrow> go_error option" where
  "VerifyBenchmarkEvidence E b key now maxAge =
     (if \<not> validPublicKey key \<or> be_Schema b \<noteq> BenchmarkSchema \<or> \<not> releasePattern (be_ReleaseID b) \<or>
         \<not> certification_commitPattern (be_SourceCommit b) \<or> \<not> digestPattern (be_EnvironmentDigest b) \<or>
         \<not> fresh (be_MeasuredAt b) now maxAge \<or> \<not> validBenchmarkResults (be_Results b) \<or>
         \<not> verifySignature E canonicalBenchmarkEvidence b key (be_SignatureAlgorithm b) (be_Signature b)
      then Some (ErrDenied PkgCertification []) else None)"

definition VerifySecurityReview :: "ed25519 \<Rightarrow> SecurityReview \<Rightarrow> bytes \<Rightarrow> gotime \<Rightarrow> go_error option" where
  "VerifySecurityReview E r key now =
     (if \<not> validPublicKey key \<or> sr_Schema r \<noteq> ReviewSchema \<or> \<not> releasePattern (sr_ReleaseID r) \<or>
         \<not> certification_commitPattern (sr_SourceCommit r) \<or> \<not> requestIDPattern (sr_ReviewID r) \<or>
         \<not> actorPattern (sr_ReviewerID r) \<or> sr_Outcome r \<noteq> ''approved'' \<or> \<not> digestPattern (sr_FindingsDigest r) \<or>
         \<not> validReviewScope (sr_Scope r) \<or> time_After (sr_ReviewedAt r) now \<or> \<not> time_After (sr_ExpiresAt r) now \<or>
         \<not> time_After (sr_ExpiresAt r) (sr_ReviewedAt r) \<or>
         \<not> verifySignature E canonicalSecurityReview r key (sr_SignatureAlgorithm r) (sr_Signature r)
      then Some (ErrDenied PkgCertification []) else None)"

definition VerifyCertificate :: "ed25519 \<Rightarrow> Certificate \<Rightarrow> bytes \<Rightarrow> gotime \<Rightarrow> go_error option" where
  "VerifyCertificate E c key now =
     (if \<not> validPublicKey key \<or> ct_Schema c \<noteq> certification_Schema \<or> \<not> requestIDPattern (ct_CertificateID c) \<or>
         \<not> releasePattern (ct_ReleaseID c) \<or> \<not> certification_commitPattern (ct_SourceCommit c) \<or>
         \<not> digestPattern (ct_ArtifactManifestDigest c) \<or> \<not> digestPattern (ct_SBOMDigest c) \<or>
         \<not> digestPattern (ct_BenchmarkDigest c) \<or> \<not> digestPattern (ct_SecurityReviewDigest c) \<or>
         \<not> validCertificateDigests (ct_StagingEvidenceDigests c) (ct_CoreGateDigests c) \<or>
         time_After (ct_IssuedAt c) now \<or> \<not> time_After (ct_ExpiresAt c) now \<or>
         \<not> time_After (ct_ExpiresAt c) (ct_IssuedAt c) \<or>
         \<not> verifySignature E canonicalCertificate c key (ct_SignatureAlgorithm c) (ct_Signature c)
      then Some (ErrDenied PkgCertification []) else None)"

definition staging_ok :: "ed25519 \<Rightarrow> (Edition \<times> Evidence) list \<Rightarrow> bytes \<Rightarrow> gotime \<Rightarrow> int \<Rightarrow> ReleaseEvidenceBinding \<Rightarrow> Edition \<Rightarrow> bool" where
  "staging_ok E evidenceByEdition key now maxAge expected current =
     (case map_of evidenceByEdition current of
        None \<Rightarrow> False
      | Some v \<Rightarrow> ed_Edition v = current \<and> ed_ReleaseBinding v = expected \<and> fresh (ed_IssuedAt v) now maxAge \<and>
          VerifyEvidence E v key = None)"

definition verifyStagingEvidence ::
  "ed25519 \<Rightarrow> (Edition \<times> Evidence) list \<Rightarrow> bytes \<Rightarrow> gotime \<Rightarrow> int \<Rightarrow> ReleaseEvidenceBinding \<Rightarrow> go_error option" where
  "verifyStagingEvidence E evidenceByEdition key now maxAge expected =
     (if ValidateReleaseEvidenceBinding expected \<noteq> None then Some (ErrDenied PkgCertification [])
      else if length evidenceByEdition \<noteq> 2 then Some (ErrDenied PkgCertification [])
      else if \<not> list_all (staging_ok E evidenceByEdition key now maxAge expected) [Shared, Dedicated]
      then Some (ErrDenied PkgCertification [])
      else None)"

definition gate_ok :: "ed25519 \<Rightarrow> bytes \<Rightarrow> string \<Rightarrow> string \<Rightarrow> gotime \<Rightarrow> CoreGateEvidence \<Rightarrow> bool" where
  "gate_ok E key releaseID sourceCommit now g =
     (ge_Schema g = CoreGateSchema \<and> validEdition (ge_Edition g) \<and> validGate (ge_Gate g) \<and> ge_ReleaseID g = releaseID \<and>
      ge_SourceCommit g = sourceCommit \<and> digestPattern (ge_PolicyDigest g) \<and> ge_Outcome g = ''approved'' \<and>
      \<not> time_After (ge_IssuedAt g) now \<and> time_After (ge_ExpiresAt g) now \<and> time_After (ge_ExpiresAt g) (ge_IssuedAt g) \<and>
      verifySignature E canonicalCoreGateEvidence g key (ge_SignatureAlgorithm g) (ge_Signature g))"

definition verifyCoreGates ::
  "ed25519 \<Rightarrow> CoreGateEvidence list \<Rightarrow> bytes \<Rightarrow> string \<Rightarrow> string \<Rightarrow> gotime \<Rightarrow> go_error option" where
  "verifyCoreGates E gates key releaseID sourceCommit now =
     (if length gates \<noteq> 6 then Some (ErrDenied PkgCertification [])
      else if \<not> all_fresh (gate_ok E key releaseID sourceCommit now) (\<lambda>g. gate_identity (ge_Edition g) (ge_Gate g)) [] gates
      then Some (ErrDenied PkgCertification [])
      else if \<not> list_all (\<lambda>current. list_all (\<lambda>gate.
                   gate_identity current gate \<in> set (map (\<lambda>g. gate_identity (ge_Edition g) (ge_Gate g)) gates)) requiredGates)
                 [Shared, Dedicated]
      then Some (ErrDenied PkgCertification [])
      else None)"

section \<open>The authority\<close>

type_synonym rate_limiter = "audit_log \<Rightarrow> string \<Rightarrow> bool"

record certification_Authority =
  ca_trust :: TrustBundle
  ca_audit :: "audit_sink option"
  ca_limit :: "rate_limiter option"
  ca_now :: "(nat \<Rightarrow> gotime) option"

definition certification_NewAuthority ::
  "TrustBundle \<Rightarrow> audit_sink option \<Rightarrow> rate_limiter option \<Rightarrow> (nat \<Rightarrow> gotime) option \<Rightarrow> certification_Authority go_result" where
  "certification_NewAuthority trust audit limit now =
     (if audit = None \<or> limit = None \<or> now = None \<or> tb_CertificateTTL trust \<le> 0 \<or> tb_CertificateTTL trust > 24 * Hour \<or>
         tb_MaxEvidenceAge trust \<le> 0 \<or> tb_MaxEvidenceAge trust > 30 * 24 * Hour \<or> \<not> validPublicKey (tb_ManifestKey trust) \<or>
         \<not> validPublicKey (tb_BenchmarkKey trust) \<or> \<not> validPublicKey (tb_SecurityReviewKey trust) \<or>
         \<not> validPublicKey (tb_StagingKey trust) \<or> \<not> validPublicKey (tb_CoreGateKey trust) \<or>
         length (tb_CertificateKey trust) \<noteq> PrivateKeySize
      then Inl (ErrUnavailable PkgCertification ''invalid dependency or trust configuration'')
      else Inr \<lparr>ca_trust = trust, ca_audit = audit, ca_limit = limit, ca_now = now\<rparr>)"

definition expected_binding :: "certification_Request \<Rightarrow> string \<Rightarrow> ReleaseEvidenceBinding" where
  "expected_binding q manifestDigest =
     \<lparr>rb_SchemaVersion = ReleaseEvidenceBindingSchema, rb_CandidateReleaseID = cq_ReleaseID q,
      rb_CandidateCommitSHA = cq_SourceCommit q, rb_ArtifactManifestDigest = manifestDigest,
      rb_SBOMDigest = am_SBOMDigest (cq_ArtifactManifest q)\<rparr>"

definition verifyRequest :: "ed25519 \<Rightarrow> TrustBundle \<Rightarrow> certification_Request \<Rightarrow> gotime \<Rightarrow> go_error option" where
  "verifyRequest E t q now =
     (if cq_Schema q \<noteq> certification_Schema \<or> \<not> releasePattern (cq_ReleaseID q) \<or>
         \<not> certification_commitPattern (cq_SourceCommit q)
      then Some (ErrDenied PkgCertification [])
      else if VerifyArtifactManifest E (cq_ArtifactManifest q) (tb_ManifestKey t) now (tb_MaxEvidenceAge t) \<noteq> None \<or>
              am_ReleaseID (cq_ArtifactManifest q) \<noteq> cq_ReleaseID q \<or> am_SourceCommit (cq_ArtifactManifest q) \<noteq> cq_SourceCommit q
      then Some (ErrDenied PkgCertification [])
      else if VerifyBenchmarkEvidence E (cq_BenchmarkEvidence q) (tb_BenchmarkKey t) now (tb_MaxEvidenceAge t) \<noteq> None \<or>
              be_ReleaseID (cq_BenchmarkEvidence q) \<noteq> cq_ReleaseID q \<or> be_SourceCommit (cq_BenchmarkEvidence q) \<noteq> cq_SourceCommit q
      then Some (ErrDenied PkgCertification [])
      else if VerifySecurityReview E (cq_SecurityReview q) (tb_SecurityReviewKey t) now \<noteq> None \<or>
              sr_ReleaseID (cq_SecurityReview q) \<noteq> cq_ReleaseID q \<or> sr_SourceCommit (cq_SecurityReview q) \<noteq> cq_SourceCommit q
      then Some (ErrDenied PkgCertification [])
      else case digestArtifactManifest (cq_ArtifactManifest q) of
        None \<Rightarrow> Some (ErrDenied PkgCertification [])
      | Some manifestDigest \<Rightarrow>
          if verifyStagingEvidence E (cq_StagingEvidence q) (tb_StagingKey t) now (tb_MaxEvidenceAge t)
               (expected_binding q manifestDigest) \<noteq> None
          then Some (ErrDenied PkgCertification [])
          else verifyCoreGates E (cq_CoreGates q) (tb_CoreGateKey t) (cq_ReleaseID q) (cq_SourceCommit q) now)"

text \<open>Indexing a Go map with an absent key gives the zero value, here the zero evidence.\<close>

definition zero_evidence :: Evidence where
  "zero_evidence = \<lparr>ed_Schema = [], ed_EvidenceID = [], ed_Edition = [], ed_Profile = [], ed_CageID = [], ed_BindingDigest = [],
     ed_ReleaseBinding = \<lparr>rb_SchemaVersion = [], rb_CandidateReleaseID = [], rb_CandidateCommitSHA = [],
       rb_ArtifactManifestDigest = [], rb_SBOMDigest = []\<rparr>,
     ed_IssuedAt = zero_time, ed_Observations = [], ed_SignatureAlgorithm = [], ed_Signature = []\<rparr>"

fun collect_digests :: "('x \<Rightarrow> string) \<Rightarrow> ('x \<Rightarrow> string option) \<Rightarrow> (string \<times> string) list \<Rightarrow> 'x list \<Rightarrow> (string \<times> string) list option" where
  "collect_digests key digest m [] = Some m"
| "collect_digests key digest m (x # xs) =
     (case digest x of None \<Rightarrow> None | Some d \<Rightarrow> collect_digests key digest (AList.update (key x) d m) xs)"

definition makeCertificate :: "TrustBundle \<Rightarrow> string \<Rightarrow> certification_Request \<Rightarrow> gotime \<Rightarrow> Certificate option" where
  "makeCertificate t certificateID q now =
     (case (digestArtifactManifest (cq_ArtifactManifest q), digestBenchmarkEvidence (cq_BenchmarkEvidence q),
            digestSecurityReview (cq_SecurityReview q),
            collect_digests id (\<lambda>e. digestEvidence (case map_of (cq_StagingEvidence q) e of None \<Rightarrow> zero_evidence | Some v \<Rightarrow> v))
              [] [Shared, Dedicated],
            collect_digests (\<lambda>g. gate_identity (ge_Edition g) (ge_Gate g)) digestCoreGateEvidence [] (cq_CoreGates q)) of
        (Some manifestDigest, Some benchmarkDigest, Some reviewDigest, Some staging, Some coreGates) \<Rightarrow>
          Some \<lparr>ct_Schema = certification_Schema, ct_CertificateID = certificateID, ct_ReleaseID = cq_ReleaseID q,
            ct_SourceCommit = cq_SourceCommit q, ct_ArtifactManifestDigest = manifestDigest,
            ct_SBOMDigest = am_SBOMDigest (cq_ArtifactManifest q), ct_BenchmarkDigest = benchmarkDigest,
            ct_SecurityReviewDigest = reviewDigest, ct_StagingEvidenceDigests = staging, ct_CoreGateDigests = coreGates,
            ct_IssuedAt = now, ct_ExpiresAt = time_Add now (tb_CertificateTTL t), ct_SignatureAlgorithm = SignatureAlgorithm,
            ct_Signature = []\<rparr>
      | _ \<Rightarrow> None)"

definition certification_deny ::
  "audit_sink \<Rightarrow> string \<Rightarrow> string \<Rightarrow> string \<Rightarrow> (string \<Rightarrow> go_error) \<Rightarrow> audit_log \<Rightarrow> Certificate go_result \<times> audit_log" where
  "certification_deny = deny_with PkgCertification ''certifyGuardedRelease''"

definition certified_event :: "string \<Rightarrow> string \<Rightarrow> Certificate \<Rightarrow> audit_event" where
  "certified_event actor releaseID c =
     mk_event actor ''certifyGuardedRelease'' ''authorized'' releaseID
       [(''certificateId'', MStr (ct_CertificateID c)), (''sourceCommit'', MStr (ct_SourceCommit c)),
        (''artifactManifestDigest'', MStr (ct_ArtifactManifestDigest c)),
        (''sharedEvidenceDigest'', MStr (map_value (ct_StagingEvidenceDigests c) Shared)),
        (''dedicatedEvidenceDigest'', MStr (map_value (ct_StagingEvidenceDigests c) Dedicated))]"

definition Certify ::
  "ed25519 \<Rightarrow> certification_Authority option \<Rightarrow> bool \<Rightarrow> string \<Rightarrow> string \<Rightarrow> certification_Request \<Rightarrow> audit_log \<Rightarrow>
   Certificate go_result \<times> audit_log" where
  "Certify E authority cancelled actor certificateID q log =
     (case authority of
        None \<Rightarrow> (Inl (ErrUnavailable PkgCertification ''authority dependency unavailable''), log)
      | Some a \<Rightarrow>
          (case (ca_audit a, ca_limit a, ca_now a) of
             (Some sink, Some limit, Some now) \<Rightarrow>
               if cancelled
               then certification_deny sink actor (cq_ReleaseID q) ''request_cancelled'' (ErrUnavailable PkgCertification) log
               else if \<not> actorPattern actor \<or> \<not> requestIDPattern certificateID
               then certification_deny sink actor (cq_ReleaseID q) ''invalid_caller_or_certificate_id'' (ErrDenied PkgCertification) log
               else if \<not> limit log actor
               then certification_deny sink actor (cq_ReleaseID q) ''rate_limited'' (ErrDenied PkgCertification) log
               else if verifyRequest E (ca_trust a) q (time_UTC (now 0)) \<noteq> None
               then certification_deny sink actor (cq_ReleaseID q) ''mandatory_evidence_rejected'' (ErrDenied PkgCertification) log
               else (case makeCertificate (ca_trust a) certificateID q (time_UTC (now 1)) of
                  None \<Rightarrow> (Inl (ErrUnavailable PkgCertification ''certificate construction failed''), log)
                | Some c \<Rightarrow>
                    (case SignCertificate E c (tb_CertificateKey (ca_trust a)) of
                       Inl _ \<Rightarrow> (Inl (ErrUnavailable PkgCertification ''certificate signing failed''), log)
                     | Inr certificate \<Rightarrow>
                         authorize_plan PkgCertification sink (certified_event actor (cq_ReleaseID q) certificate) certificate log))
           | _ \<Rightarrow> (Inl (ErrUnavailable PkgCertification ''authority dependency unavailable''), log)))"

section \<open>Verified records can be digested\<close>

lemma digest_marshalled_Some [simp]: "digest_marshalled (marshal_if True j) = Some (sha256_hex (json_print j))"
  by (simp add: digest_marshalled_def marshal_if_def)

lemma signature_ok_canonical: "signature_ok E canonical key s r \<Longrightarrow> canonical r \<noteq> None"
  by (auto simp: signature_ok_def split: option.splits)

lemma marshal_if_None [simp]: "marshal_if b j = None \<longleftrightarrow> \<not> b"
  by (simp add: marshal_if_def)

lemma digest_marshalled_pattern: "digest_marshalled m = Some d \<Longrightarrow> digestPattern d"
  by (auto simp: digest_marshalled_def split: option.splits)

lemmas digest_defs = digestArtifactManifest_def digestBenchmarkEvidence_def digestSecurityReview_def
  digestCoreGateEvidence_def digestEvidence_def

lemmas canonical_defs = canonicalArtifactManifest_def canonicalBenchmarkEvidence_def canonicalSecurityReview_def
  canonicalCoreGateEvidence_def canonicalCertificate_def

lemma digest_pattern:
  "digestArtifactManifest m = Some d \<Longrightarrow> digestPattern d" "digestBenchmarkEvidence b = Some d \<Longrightarrow> digestPattern d"
  "digestSecurityReview r = Some d \<Longrightarrow> digestPattern d" "digestCoreGateEvidence g = Some d \<Longrightarrow> digestPattern d"
  "digestEvidence v = Some d \<Longrightarrow> digestPattern d"
  unfolding digest_defs by (rule digest_marshalled_pattern, assumption)+

lemma digest_marshalled_total: "c \<Longrightarrow> \<exists>d. digest_marshalled (marshal_if c j) = Some d"
  by simp

lemma marshalled_digest: "marshal_if c j = Some y \<Longrightarrow> \<exists>d. digest_marshalled (marshal_if c k) = Some d"
  by (cases c) (simp_all add: marshal_if_def digest_marshalled_def)

lemma verifySignature_canonical: "verifySignature E canonical r key alg s \<Longrightarrow> \<exists>y. canonical r = Some y"
  by (auto simp: verifySignature_def dest!: signature_ok_canonical split: if_splits)

lemma verified_digest:
  "verifySignature E canonicalBenchmarkEvidence b key alg s \<Longrightarrow> \<exists>d. digestBenchmarkEvidence b = Some d"
  "verifySignature E canonicalSecurityReview r key alg s \<Longrightarrow> \<exists>d. digestSecurityReview r = Some d"
  "verifySignature E canonicalCoreGateEvidence g key alg s \<Longrightarrow> \<exists>d. digestCoreGateEvidence g = Some d"
  unfolding digest_defs canonical_defs
  by (drule verifySignature_canonical, elim exE, erule marshalled_digest)+

lemma verified_evidence_digest: "VerifyEvidence E v key = None \<Longrightarrow> \<exists>d. digestEvidence v = Some d"
  unfolding digest_defs
  by (rule digest_marshalled_total) (auto simp: VerifyEvidence_def canonicalEvidence_def dest!: signature_ok_canonical split: if_splits)

section \<open>The six Core gates\<close>

definition required_pairs :: "(Edition \<times> Gate) list" where
  "required_pairs = List.product [Shared, Dedicated] requiredGates"

lemma required_pairs_facts:
  "distinct required_pairs" "length required_pairs = 6" "inj_on (\<lambda>(e, g). gate_identity e g) (set required_pairs)"
  "set required_pairs = {(e, g). validEdition e \<and> validGate g}"
proof -
  show d: "distinct required_pairs" "length required_pairs = 6" by code_simp+
  have "distinct (map (\<lambda>(e, g). gate_identity e g) required_pairs)" by code_simp
  then show "inj_on (\<lambda>(e, g). gate_identity e g) (set required_pairs)" by (simp add: distinct_map)
  show "set required_pairs = {(e, g). validEdition e \<and> validGate g}"
    by (auto simp: required_pairs_def requiredGates_def validEdition_def validGate_def)
qed

definition gate_pair :: "CoreGateEvidence \<Rightarrow> Edition \<times> Gate" where
  "gate_pair g = (ge_Edition g, ge_Gate g)"

lemma verifyCoreGates_core:
  "verifyCoreGates E gates key releaseID sourceCommit now = None \<longleftrightarrow>
     (\<forall>g\<in>set gates. gate_ok E key releaseID sourceCommit now g) \<and> mset (map gate_pair gates) = mset required_pairs"
  (is "?L \<longleftrightarrow> ?ok \<and> ?m")
proof -
  let ?id = "\<lambda>(e, g). gate_identity e g"
  have ids: "map (\<lambda>g. gate_identity (ge_Edition g) (ge_Gate g)) gates = map ?id (map gate_pair gates)"
    by (simp add: gate_pair_def)
  have sub: "set (map gate_pair gates) \<subseteq> set required_pairs" if ?ok
    using that by (auto simp: required_pairs_facts(4) gate_pair_def gate_ok_def)
  have dist: "distinct (map ?id (map gate_pair gates)) \<longleftrightarrow> distinct (map gate_pair gates)" if ?ok
    using inj_on_subset [OF required_pairs_facts(3) sub [OF that]] by (simp only: distinct_map) blast
  have eq: "?m \<longleftrightarrow> length gates = 6 \<and> distinct (map gate_pair gates)" if ?ok
  proof
    assume ?m
    then show "length gates = 6 \<and> distinct (map gate_pair gates)"
      using required_pairs_facts(1,2) by (metis length_map mset_eq_imp_distinct_iff mset_eq_length)
  next
    assume l: "length gates = 6 \<and> distinct (map gate_pair gates)"
    then have "card (set (map gate_pair gates)) = card (set required_pairs)"
      using required_pairs_facts(1,2) by (metis distinct_card length_map)
    then have "set (map gate_pair gates) = set required_pairs"
      using sub [OF that] by (intro card_subset_eq) auto
    then show ?m using l required_pairs_facts(1) by (simp add: set_eq_iff_mset_eq_distinct del: set_map)
  qed
  have cover: "gate_identity e g \<in> set (map ?id (map gate_pair gates))"
    if ?m "e \<in> set [Shared, Dedicated]" "g \<in> set requiredGates" for e g
  proof -
    have "(e, g) \<in> set required_pairs" using that by (auto simp: required_pairs_def)
    then have "(e, g) \<in> set (map gate_pair gates)" using that(1) by (metis mset_eq_setD)
    then show ?thesis unfolding set_map [where f = ?id] by (rule image_eqI [rotated]) simp
  qed
  show ?thesis
    using dist eq cover unfolding verifyCoreGates_def ids
    by (auto simp: all_fresh_iff ids list_all_iff simp del: set_map)
qed

section \<open>Digest maps\<close>

lemma update_absent: "k \<notin> fst ` set m \<Longrightarrow> AList.update k v m = m @ [(k, v)]"
  by (induction m) auto

lemma collect_digests_distinct:
  assumes "distinct (map key xs)" "fst ` set m \<inter> key ` set xs = {}" "\<forall>x\<in>set xs. \<exists>d. digest x = Some d"
  shows "collect_digests key digest m xs = Some (m @ map (\<lambda>x. (key x, the (digest x))) xs)"
  using assms
proof (induction xs arbitrary: m)
  case (Cons x xs)
  obtain d where d: "digest x = Some d" using Cons.prems(3) by auto
  have "AList.update (key x) d m = m @ [(key x, d)]" using Cons.prems(2) by (intro update_absent) auto
  moreover have "collect_digests key digest (m @ [(key x, d)]) xs =
      Some ((m @ [(key x, d)]) @ map (\<lambda>x. (key x, the (digest x))) xs)"
    using Cons.prems by (intro Cons.IH) auto
  ultimately show ?case by (simp add: d)
qed simp

lemma map_value_mapped:
  assumes "distinct (map key xs)" "x \<in> set xs"
  shows "map_value (map (\<lambda>x. (key x, f x)) xs) (key x) = f x"
proof -
  have "map_of (map (\<lambda>x. (key x, f x)) xs) (key x) = Some (f x)"
    using assms by (intro map_of_is_SomeI) (auto simp: comp_def)
  then show ?thesis by (simp add: map_value_def)
qed

lemma certificate_digests_ok:
  assumes "\<forall>e\<in>set [Shared, Dedicated]. \<exists>d. sd e = Some d \<and> digestPattern d"
    and "\<forall>g\<in>set gates. \<exists>d. gd g = Some d \<and> digestPattern d" "mset (map gate_pair gates) = mset required_pairs"
  obtains core where
    "collect_digests id sd [] [Shared, Dedicated] = Some [(Shared, the (sd Shared)), (Dedicated, the (sd Dedicated))]"
    "collect_digests (\<lambda>g. gate_identity (ge_Edition g) (ge_Gate g)) gd [] gates = Some core"
    "validCertificateDigests [(Shared, the (sd Shared)), (Dedicated, the (sd Dedicated))] core"
    "\<forall>g\<in>set gates. gd g = Some (map_value core (gate_identity (ge_Edition g) (ge_Gate g)))"
proof -
  let ?key = "\<lambda>g. gate_identity (ge_Edition g) (ge_Gate g)"
  have ne: "Shared \<noteq> Dedicated" by (simp add: Shared_def Dedicated_def)
  have s: "collect_digests id sd [] [Shared, Dedicated] = Some [(Shared, the (sd Shared)), (Dedicated, the (sd Dedicated))]"
    using assms(1) ne by (subst collect_digests_distinct) auto
  have sub: "set (map gate_pair gates) = set required_pairs" using assms(3) by (rule mset_eq_setD)
  have "distinct (map gate_pair gates)" using assms(3) required_pairs_facts(1) by (metis mset_eq_imp_distinct_iff)
  then have "distinct (map (\<lambda>(e, g). gate_identity e g) (map gate_pair gates))"
    using required_pairs_facts(3) sub by (simp only: distinct_map)
  then have dist: "distinct (map ?key gates)" by (simp add: gate_pair_def comp_def)
  let ?core = "map (\<lambda>g. (?key g, the (gd g))) gates"
  have c: "collect_digests ?key gd [] gates = Some ?core"
    using assms(2) dist by (subst collect_digests_distinct) auto
  have len: "length ?core = 6" using assms(3) required_pairs_facts(2) by (metis length_map mset_eq_length)
  have "digestPattern (map_value ?core (gate_identity e g))" if "e \<in> set [Shared, Dedicated]" "g \<in> set requiredGates" for e g
  proof -
    have "(e, g) \<in> set (map gate_pair gates)" using that unfolding sub by (auto simp: required_pairs_def)
    then obtain x where "x \<in> set gates" "ge_Edition x = e" "ge_Gate x = g" by (auto simp: gate_pair_def)
    then show ?thesis using map_value_mapped [OF dist, of x "\<lambda>g. the (gd g)"] assms(2) by fastforce
  qed
  moreover have "digestPattern (map_value [(Shared, the (sd Shared)), (Dedicated, the (sd Dedicated))] e)" if "e \<in> set [Shared, Dedicated]" for e
    using that assms(1) ne by (auto simp: map_value_def)
  ultimately have "validCertificateDigests [(Shared, the (sd Shared)), (Dedicated, the (sd Dedicated))] ?core"
    using len by (simp add: validCertificateDigests_def list_all_iff)
  moreover have "\<forall>g\<in>set gates. gd g = Some (map_value ?core (?key g))"
    using map_value_mapped [OF dist, of _ "\<lambda>g. the (gd g)"] assms(2) by fastforce
  ultimately show ?thesis using that s c by blast
qed

section \<open>Accepted requests\<close>

definition evidence_ok :: "ed25519 \<Rightarrow> TrustBundle \<Rightarrow> certification_Request \<Rightarrow> gotime \<Rightarrow> string \<Rightarrow> bool" where
  "evidence_ok E t q now manifestDigest \<longleftrightarrow>
     cq_Schema q = certification_Schema \<and> releasePattern (cq_ReleaseID q) \<and> certification_commitPattern (cq_SourceCommit q) \<and>
     VerifyArtifactManifest E (cq_ArtifactManifest q) (tb_ManifestKey t) now (tb_MaxEvidenceAge t) = None \<and>
     am_ReleaseID (cq_ArtifactManifest q) = cq_ReleaseID q \<and> am_SourceCommit (cq_ArtifactManifest q) = cq_SourceCommit q \<and>
     VerifyBenchmarkEvidence E (cq_BenchmarkEvidence q) (tb_BenchmarkKey t) now (tb_MaxEvidenceAge t) = None \<and>
     be_ReleaseID (cq_BenchmarkEvidence q) = cq_ReleaseID q \<and> be_SourceCommit (cq_BenchmarkEvidence q) = cq_SourceCommit q \<and>
     VerifySecurityReview E (cq_SecurityReview q) (tb_SecurityReviewKey t) now = None \<and>
     sr_ReleaseID (cq_SecurityReview q) = cq_ReleaseID q \<and> sr_SourceCommit (cq_SecurityReview q) = cq_SourceCommit q \<and>
     digestArtifactManifest (cq_ArtifactManifest q) = Some manifestDigest \<and>
     ValidateReleaseEvidenceBinding (expected_binding q manifestDigest) = None \<and> length (cq_StagingEvidence q) = 2 \<and>
     (\<forall>e\<in>set [Shared, Dedicated]. \<exists>v. map_of (cq_StagingEvidence q) e = Some v \<and> ed_Edition v = e \<and>
        ed_ReleaseBinding v = expected_binding q manifestDigest \<and> fresh (ed_IssuedAt v) now (tb_MaxEvidenceAge t) \<and>
        VerifyEvidence E v (tb_StagingKey t) = None) \<and>
     (\<forall>g\<in>set (cq_CoreGates q). gate_ok E (tb_CoreGateKey t) (cq_ReleaseID q) (cq_SourceCommit q) now g) \<and>
     mset (map gate_pair (cq_CoreGates q)) = mset required_pairs"

lemma staging_ok_iff:
  "staging_ok E evidence key now maxAge expected e \<longleftrightarrow> (\<exists>v. map_of evidence e = Some v \<and> ed_Edition v = e \<and>
     ed_ReleaseBinding v = expected \<and> fresh (ed_IssuedAt v) now maxAge \<and> VerifyEvidence E v key = None)"
  by (auto simp: staging_ok_def split: option.splits)

lemma verifyStagingEvidence_iff:
  "verifyStagingEvidence E evidence key now maxAge expected = None \<longleftrightarrow>
     ValidateReleaseEvidenceBinding expected = None \<and> length evidence = 2 \<and>
     (\<forall>e\<in>set [Shared, Dedicated]. staging_ok E evidence key now maxAge expected e)"
  by (auto simp: verifyStagingEvidence_def list_all_iff)

lemma evidence_ok_checks:
  "evidence_ok E t q now d \<longleftrightarrow> digestArtifactManifest (cq_ArtifactManifest q) = Some d \<and>
     (cq_Schema q = certification_Schema \<and> releasePattern (cq_ReleaseID q) \<and> certification_commitPattern (cq_SourceCommit q)) \<and>
     (VerifyArtifactManifest E (cq_ArtifactManifest q) (tb_ManifestKey t) now (tb_MaxEvidenceAge t) = None \<and>
     am_ReleaseID (cq_ArtifactManifest q) = cq_ReleaseID q \<and> am_SourceCommit (cq_ArtifactManifest q) = cq_SourceCommit q) \<and>
     (VerifyBenchmarkEvidence E (cq_BenchmarkEvidence q) (tb_BenchmarkKey t) now (tb_MaxEvidenceAge t) = None \<and>
     be_ReleaseID (cq_BenchmarkEvidence q) = cq_ReleaseID q \<and> be_SourceCommit (cq_BenchmarkEvidence q) = cq_SourceCommit q) \<and>
     (VerifySecurityReview E (cq_SecurityReview q) (tb_SecurityReviewKey t) now = None \<and>
     sr_ReleaseID (cq_SecurityReview q) = cq_ReleaseID q \<and> sr_SourceCommit (cq_SecurityReview q) = cq_SourceCommit q) \<and>
     verifyStagingEvidence E (cq_StagingEvidence q) (tb_StagingKey t) now (tb_MaxEvidenceAge t) (expected_binding q d) = None \<and>
     verifyCoreGates E (cq_CoreGates q) (tb_CoreGateKey t) (cq_ReleaseID q) (cq_SourceCommit q) now = None"
  unfolding evidence_ok_def verifyStagingEvidence_iff staging_ok_iff verifyCoreGates_core
  by (rule iffI; elim conjE; intro conjI; assumption)

lemma guard_None: "(if c then Some e else k) = None \<longleftrightarrow> \<not> c \<and> k = None"
  by simp

lemma verifyRequest_iff: "verifyRequest E t q now = None \<longleftrightarrow> (\<exists>d. evidence_ok E t q now d)"
proof (cases "digestArtifactManifest (cq_ArtifactManifest q)")
  case None
  then show ?thesis by (simp add: verifyRequest_def evidence_ok_checks)
next
  case (Some d)
  then show ?thesis
    unfolding verifyRequest_def evidence_ok_checks guard_None Some option.case
    by (simp only: de_Morgan_disj not_not option.inject ex_simps simp_thms conj_assoc)
qed

section \<open>What is certified\<close>

text \<open>
  The certificate made from a request: each digest in it is the digest of the record it stands for, for the
  staging evidence by edition and for the gate records by edition and gate.
\<close>

definition certified_from :: "TrustBundle \<Rightarrow> string \<Rightarrow> certification_Request \<Rightarrow> string \<Rightarrow> gotime \<Rightarrow> Certificate \<Rightarrow> bool" where
  "certified_from t certificateID q manifestDigest issued c \<longleftrightarrow>
     ct_Schema c = certification_Schema \<and> ct_CertificateID c = certificateID \<and> ct_ReleaseID c = cq_ReleaseID q \<and>
     ct_SourceCommit c = cq_SourceCommit q \<and> ct_ArtifactManifestDigest c = manifestDigest \<and>
     ct_SBOMDigest c = am_SBOMDigest (cq_ArtifactManifest q) \<and>
     digestBenchmarkEvidence (cq_BenchmarkEvidence q) = Some (ct_BenchmarkDigest c) \<and>
     digestSecurityReview (cq_SecurityReview q) = Some (ct_SecurityReviewDigest c) \<and>
     validCertificateDigests (ct_StagingEvidenceDigests c) (ct_CoreGateDigests c) \<and>
     (\<forall>e\<in>set [Shared, Dedicated]. \<exists>v. map_of (cq_StagingEvidence q) e = Some v \<and>
        digestEvidence v = Some (map_value (ct_StagingEvidenceDigests c) e)) \<and>
     (\<forall>g\<in>set (cq_CoreGates q).
        digestCoreGateEvidence g = Some (map_value (ct_CoreGateDigests c) (gate_identity (ge_Edition g) (ge_Gate g)))) \<and>
     ct_IssuedAt c = issued \<and> ct_ExpiresAt c = time_Add issued (tb_CertificateTTL t) \<and>
     ct_SignatureAlgorithm c = SignatureAlgorithm"

lemma makeCertificate_ok:
  assumes ok: "evidence_ok E t q now d"
  shows "\<exists>c. makeCertificate t certificateID q issued = Some c \<and> certified_from t certificateID q d issued c"
proof -
  let ?sd = "\<lambda>e. digestEvidence (case map_of (cq_StagingEvidence q) e of None \<Rightarrow> zero_evidence | Some v \<Rightarrow> v)"
  have staging: "\<exists>v. map_of (cq_StagingEvidence q) e = Some v \<and> VerifyEvidence E v (tb_StagingKey t) = None"
    if "e \<in> set [Shared, Dedicated]" for e
    using ok that unfolding evidence_ok_def by blast
  have s: "\<forall>e\<in>set [Shared, Dedicated]. \<exists>x. ?sd e = Some x \<and> digestPattern x"
  proof
    fix e assume "e \<in> set [Shared, Dedicated]"
    then obtain v where v: "map_of (cq_StagingEvidence q) e = Some v" "VerifyEvidence E v (tb_StagingKey t) = None"
      using staging by blast
    then obtain x where "digestEvidence v = Some x" using verified_evidence_digest by blast
    then show "\<exists>x. ?sd e = Some x \<and> digestPattern x" using v(1) digest_pattern(5) by auto
  qed
  have gates: "\<forall>g\<in>set (cq_CoreGates q). gate_ok E (tb_CoreGateKey t) (cq_ReleaseID q) (cq_SourceCommit q) now g"
    and pairs: "mset (map gate_pair (cq_CoreGates q)) = mset required_pairs"
    using ok unfolding evidence_ok_def by blast+
  have g: "\<forall>g\<in>set (cq_CoreGates q). \<exists>x. digestCoreGateEvidence g = Some x \<and> digestPattern x"
    using gates verified_digest(3) digest_pattern(4) unfolding gate_ok_def by meson
  obtain core where core:
    "collect_digests id ?sd [] [Shared, Dedicated] = Some [(Shared, the (?sd Shared)), (Dedicated, the (?sd Dedicated))]"
    "collect_digests (\<lambda>g. gate_identity (ge_Edition g) (ge_Gate g)) digestCoreGateEvidence [] (cq_CoreGates q) = Some core"
    "validCertificateDigests [(Shared, the (?sd Shared)), (Dedicated, the (?sd Dedicated))] core"
    "\<forall>g\<in>set (cq_CoreGates q). digestCoreGateEvidence g = Some (map_value core (gate_identity (ge_Edition g) (ge_Gate g)))"
    by (rule certificate_digests_ok [OF s g pairs]) blast
  have m: "digestArtifactManifest (cq_ArtifactManifest q) = Some d" using ok unfolding evidence_ok_def by blast
  obtain b where b: "digestBenchmarkEvidence (cq_BenchmarkEvidence q) = Some b"
    using ok verified_digest(1) unfolding evidence_ok_def VerifyBenchmarkEvidence_def by (metis option.distinct(1))
  obtain r where r: "digestSecurityReview (cq_SecurityReview q) = Some r"
    using ok verified_digest(2) unfolding evidence_ok_def VerifySecurityReview_def by (metis option.distinct(1))
  have ne: "Shared \<noteq> Dedicated" by (simp add: Shared_def Dedicated_def)
  have map: "\<exists>v. map_of (cq_StagingEvidence q) e = Some v \<and>
      digestEvidence v = Some (map_value [(Shared, the (?sd Shared)), (Dedicated, the (?sd Dedicated))] e)"
    if e: "e \<in> set [Shared, Dedicated]" for e
  proof -
    obtain v where v: "map_of (cq_StagingEvidence q) e = Some v" using staging [OF e] by blast
    have "map_value [(Shared, the (?sd Shared)), (Dedicated, the (?sd Dedicated))] e = the (?sd e)"
      using e ne by (auto simp: map_value_def)
    moreover obtain x where "?sd e = Some x" using s e by blast
    ultimately show ?thesis using v by simp
  qed
  show ?thesis
    unfolding makeCertificate_def m b r core(1,2)
    using core(3,4) map by (simp add: certified_from_def b r)
qed

lemma certified_set_sig: "certified_from t certificateID q d issued c \<Longrightarrow>
    certified_from t certificateID q d issued (set_ct_sig SignatureAlgorithm s c)"
  by (simp add: certified_from_def set_ct_sig_def)

lemma Certify_Inr:
  assumes "Certify E (Some a) cancelled actor certificateID q log = (Inr c, log')"
  obtains sink limit now d c0 where
    "ca_audit a = Some sink" "ca_limit a = Some limit" "ca_now a = Some now" "\<not> cancelled"
    "actorPattern actor" "requestIDPattern certificateID" "limit log actor"
    "evidence_ok E (ca_trust a) q (time_UTC (now 0)) d"
    "makeCertificate (ca_trust a) certificateID q (time_UTC (now 1)) = Some c0"
    "SignCertificate E c0 (tb_CertificateKey (ca_trust a)) = Inr c"
    "log' = log @ [(certified_event actor (cq_ReleaseID q) c, True)]"
proof -
  obtain sink limit now where deps: "ca_audit a = Some sink" "ca_limit a = Some limit" "ca_now a = Some now"
    using assms by (auto simp: Certify_def split: option.splits)
  show ?thesis
    using assms deps that verifyRequest_iff [of E "ca_trust a" q "time_UTC (now 0)"]
    by (auto simp: Certify_def certification_deny_def authorize_plan_Inr split: option.splits if_splits sum.splits)
qed

lemma Certify_certified:
  assumes "Certify E (Some a) cancelled actor certificateID q log = (Inr c, log')"
  obtains sink limit now d where
    "ca_audit a = Some sink" "ca_limit a = Some limit" "ca_now a = Some now" "\<not> cancelled"
    "actorPattern actor" "requestIDPattern certificateID" "limit log actor"
    "evidence_ok E (ca_trust a) q (time_UTC (now 0)) d"
    "certified_from (ca_trust a) certificateID q d (time_UTC (now 1)) c"
    "canonicalCertificate c \<noteq> None"
    "log' = log @ [(certified_event actor (cq_ReleaseID q) c, True)]"
proof -
  obtain sink limit now d c0 where f:
    "ca_audit a = Some sink" "ca_limit a = Some limit" "ca_now a = Some now" "\<not> cancelled"
    "actorPattern actor" "requestIDPattern certificateID" "limit log actor"
    "evidence_ok E (ca_trust a) q (time_UTC (now 0)) d"
    "makeCertificate (ca_trust a) certificateID q (time_UTC (now 1)) = Some c0"
    "SignCertificate E c0 (tb_CertificateKey (ca_trust a)) = Inr c"
    "log' = log @ [(certified_event actor (cq_ReleaseID q) c, True)]"
    by (rule Certify_Inr [OF assms])
  obtain s where s: "c = set_ct_sig ''ed25519'' s c0" "canonicalCertificate c \<noteq> None"
    using ct_sig.sign_record_cases [OF f(10) [unfolded SignCertificate_def]] by (metis option.distinct(1))
  have "certified_from (ca_trust a) certificateID q d (time_UTC (now 1)) c0"
    using makeCertificate_ok [OF f(8), of certificateID "time_UTC (now 1)"] f(9) by simp
  then have "certified_from (ca_trust a) certificateID q d (time_UTC (now 1)) c"
    unfolding s(1) using certified_set_sig by (simp add: SignatureAlgorithm_def)
  with f(1-8,11) s(2) show ?thesis by (intro that)
qed

lemma certification_NewAuthority_Inr:
  "certification_NewAuthority trust (Some sink) (Some limit) (Some now) = Inr a \<longleftrightarrow>
     0 < tb_CertificateTTL trust \<and> tb_CertificateTTL trust \<le> 24 * Hour \<and> 0 < tb_MaxEvidenceAge trust \<and>
     tb_MaxEvidenceAge trust \<le> 30 * 24 * Hour \<and> validPublicKey (tb_ManifestKey trust) \<and> validPublicKey (tb_BenchmarkKey trust) \<and>
     validPublicKey (tb_SecurityReviewKey trust) \<and> validPublicKey (tb_StagingKey trust) \<and> validPublicKey (tb_CoreGateKey trust) \<and>
     length (tb_CertificateKey trust) = PrivateKeySize \<and>
     a = \<lparr>ca_trust = trust, ca_audit = Some sink, ca_limit = Some limit, ca_now = Some now\<rparr>"
  by (auto simp: certification_NewAuthority_def)

lemma certificate_verifies:
  assumes "ed25519_correct E" "ed_key E (tb_CertificateKey trust)"
    and "certification_NewAuthority trust (Some sink) (Some limit) (Some now) = Inr a"
    and "Certify E (Some a) cancelled actor certificateID q log = (Inr c, log')"
  shows "VerifyCertificate E c (key_Public (tb_CertificateKey trust)) later = None \<longleftrightarrow>
    t_ns (now 1) \<le> t_ns later \<and> t_ns later < t_ns (now 1) + tb_CertificateTTL trust"
proof -
  have a: "a = \<lparr>ca_trust = trust, ca_audit = Some sink, ca_limit = Some limit, ca_now = Some now\<rparr>"
    and ttl: "0 < tb_CertificateTTL trust"
    using assms(3) by (simp_all add: certification_NewAuthority_Inr)
  from assms(4) show ?thesis
  proof (cases rule: Certify_Inr)
    case (1 sink' limit' now' d c0)
    with a have f: "now' = now" "ca_trust a = trust" by simp_all
    note v = ct_sig.sign_record_verifies [OF assms(1,2) 1(10) [unfolded f SignCertificate_def]]
    have "certified_from trust certificateID q d (time_UTC (now 1)) c0"
      using makeCertificate_ok [OF 1(8), of certificateID "time_UTC (now' 1)"] 1(9) f by simp
    moreover obtain s where "c = set_ct_sig ''ed25519'' s c0"
      using ct_sig.sign_record_cases [OF 1(10) [unfolded SignCertificate_def]] by metis
    ultimately have c: "certified_from trust certificateID q d (time_UTC (now 1)) c"
      using certified_set_sig by (simp add: SignatureAlgorithm_def)
    have sig: "verifySignature E canonicalCertificate c (key_Public (tb_CertificateKey trust)) (ct_SignatureAlgorithm c) (ct_Signature c)"
      using v by (simp add: verifySignature_def SignatureAlgorithm_def)
    have key: "validPublicKey (key_Public (tb_CertificateKey trust))"
      using assms(2) by (simp add: validPublicKey_def)
    have e: "evidence_ok E trust q (time_UTC (now 0)) d" using 1(8) f by simp
    then have pats: "releasePattern (ct_ReleaseID c)" "certification_commitPattern (ct_SourceCommit c)"
        "digestPattern (ct_ArtifactManifestDigest c)" "digestPattern (ct_SBOMDigest c)"
      using c digest_pattern(1) unfolding evidence_ok_def certified_from_def VerifyArtifactManifest_def
      by (auto split: if_splits)
    have digests: "digestPattern (ct_BenchmarkDigest c)" "digestPattern (ct_SecurityReviewDigest c)"
      using c digest_pattern(2,3) unfolding certified_from_def by blast+
    have times: "ct_IssuedAt c = time_UTC (now 1)" "ct_ExpiresAt c = time_Add (time_UTC (now 1)) (tb_CertificateTTL trust)"
        and rest: "ct_Schema c = certification_Schema" "ct_CertificateID c = certificateID"
        "validCertificateDigests (ct_StagingEvidenceDigests c) (ct_CoreGateDigests c)"
      using c unfolding certified_from_def by blast+
    show ?thesis
      using sig key pats digests rest 1(6) ttl unfolding VerifyCertificate_def times
      by (auto simp: time_After_def)
  qed
qed

section \<open>A concrete release\<close>

text \<open>A record signed with the model's signer, and what a verifier finds on it.\<close>

definition demo_sign :: "('r \<Rightarrow> bytes option) \<Rightarrow> (string \<Rightarrow> string \<Rightarrow> 'r \<Rightarrow> 'r) \<Rightarrow> char \<Rightarrow> 'r \<Rightarrow> 'r" where
  "demo_sign canonical set_sig k r = (case sign_record demo_ed25519 canonical set_sig (demo_key k) r of Inl _ \<Rightarrow> r | Inr r' \<Rightarrow> r')"

context signed_record
begin

lemma demo_signed:
  assumes "canonical (set_sig ''ed25519'' [] r) = Some payload"
  shows "\<exists>s. demo_sign canonical set_sig k r = set_sig ''ed25519'' s r"
    and "verifySignature demo_ed25519 canonical (demo_sign canonical set_sig k r) (key_Public (demo_key k))
      (get_alg (demo_sign canonical set_sig k r)) (get_sig (demo_sign canonical set_sig k r))"
    and "signature_ok demo_ed25519 canonical (key_Public (demo_key k)) (get_sig (demo_sign canonical set_sig k r))
      (demo_sign canonical set_sig k r)"
proof -
  have len: "length (demo_key k) = PrivateKeySize" by (simp add: demo_key_def ed_sizes)
  obtain r' where r': "sign_record demo_ed25519 canonical set_sig (demo_key k) r = Inr r'"
    using sign_record_total [OF len assms] by blast
  then have d: "demo_sign canonical set_sig k r = r'" by (simp add: demo_sign_def)
  show "\<exists>s. demo_sign canonical set_sig k r = set_sig ''ed25519'' s r"
    unfolding d using sign_record_cases [OF r'] by metis
  note v = sign_record_verifies [OF demo_ed25519_correct demo_key_ok r']
  show "verifySignature demo_ed25519 canonical (demo_sign canonical set_sig k r) (key_Public (demo_key k))
      (get_alg (demo_sign canonical set_sig k r)) (get_sig (demo_sign canonical set_sig k r))"
    and "signature_ok demo_ed25519 canonical (key_Public (demo_key k)) (get_sig (demo_sign canonical set_sig k r))
      (demo_sign canonical set_sig k r)"
    unfolding d using v by (simp_all add: verifySignature_def SignatureAlgorithm_def)
qed

end

definition demo_release :: string where "demo_release = ''v1.2.3''"
definition demo_commit :: string where "demo_commit = replicate 40 (CHR ''a'')"

definition demo_artifacts :: ArtifactManifest where
  "demo_artifacts = demo_sign canonicalArtifactManifest set_am_sig (CHR ''m'')
     \<lparr>am_Schema = ManifestSchema, am_ReleaseID = demo_release, am_SourceCommit = demo_commit, am_CreatedAt = demo_now,
      am_SBOMDigest = demo_digest,
      am_Artifacts = [\<lparr>af_Path = ''bin/engine'', af_Digest = demo_digest, af_SizeBytes = 4096\<rparr>,
        \<lparr>af_Path = ''sbom.json'', af_Digest = demo_digest, af_SizeBytes = 512\<rparr>],
      am_SignatureAlgorithm = [], am_Signature = []\<rparr>"

definition demo_benchmark :: BenchmarkEvidence where
  "demo_benchmark = demo_sign canonicalBenchmarkEvidence set_be_sig (CHR ''b'')
     \<lparr>be_Schema = BenchmarkSchema, be_ReleaseID = demo_release, be_SourceCommit = demo_commit, be_MeasuredAt = demo_now,
      be_EnvironmentDigest = demo_digest,
      be_Results = [\<lparr>br_Name = ''prepare'', br_Iterations = 1000, br_NanosecondsPerOp = 900, br_AllocationsPerOp = 0, br_BytesPerOp = 0\<rparr>],
      be_SignatureAlgorithm = [], be_Signature = []\<rparr>"

definition demo_review :: SecurityReview where
  "demo_review = demo_sign canonicalSecurityReview set_sr_sig (CHR ''r'')
     \<lparr>sr_Schema = ReviewSchema, sr_ReleaseID = demo_release, sr_SourceCommit = demo_commit, sr_ReviewID = demo_evidence_id,
      sr_ReviewerID = ''spiffe://brick/reviewer'', sr_ReviewedAt = demo_now, sr_ExpiresAt = time_Add demo_now Hour,
      sr_Outcome = ''approved'', sr_FindingsDigest = demo_digest,
      sr_Scope = [''artifact-manifest'', ''engine'', ''staging-evidence''], sr_SignatureAlgorithm = [], sr_Signature = []\<rparr>"

definition demo_gate :: "Edition \<times> Gate \<Rightarrow> CoreGateEvidence" where
  "demo_gate eg = demo_sign canonicalCoreGateEvidence set_ge_sig (CHR ''g'')
     \<lparr>ge_Schema = CoreGateSchema, ge_Edition = fst eg, ge_Gate = snd eg, ge_ReleaseID = demo_release,
      ge_SourceCommit = demo_commit, ge_PolicyDigest = demo_digest, ge_IssuedAt = demo_now,
      ge_ExpiresAt = time_Add demo_now Hour, ge_Outcome = ''approved'', ge_SignatureAlgorithm = [], ge_Signature = []\<rparr>"

definition demo_release_binding :: ReleaseEvidenceBinding where
  "demo_release_binding = \<lparr>rb_SchemaVersion = ReleaseEvidenceBindingSchema, rb_CandidateReleaseID = demo_release,
     rb_CandidateCommitSHA = demo_commit, rb_ArtifactManifestDigest = the (digestArtifactManifest demo_artifacts),
     rb_SBOMDigest = demo_digest\<rparr>"

definition demo_staged :: "Edition \<Rightarrow> Profile \<Rightarrow> Evidence" where
  "demo_staged e p = demo_sign canonicalEvidence set_evidence_sig (CHR ''s'')
     \<lparr>ed_Schema = edition_Schema, ed_EvidenceID = demo_evidence_id, ed_Edition = e, ed_Profile = p, ed_CageID = ''cage-abc'',
      ed_BindingDigest = demo_digest, ed_ReleaseBinding = demo_release_binding, ed_IssuedAt = demo_now,
      ed_Observations = demo_observations, ed_SignatureAlgorithm = [], ed_Signature = []\<rparr>"

definition demo_certification_request :: certification_Request where
  "demo_certification_request = \<lparr>cq_Schema = certification_Schema, cq_ReleaseID = demo_release, cq_SourceCommit = demo_commit,
     cq_ArtifactManifest = demo_artifacts, cq_BenchmarkEvidence = demo_benchmark, cq_SecurityReview = demo_review,
     cq_StagingEvidence = [(Shared, demo_staged Shared ProfileSharedTenant),
       (Dedicated, demo_staged Dedicated ProfileDedicatedAdministrator)],
     cq_CoreGates = map demo_gate required_pairs\<rparr>"

definition demo_trust :: TrustBundle where
  "demo_trust = \<lparr>tb_ManifestKey = key_Public (demo_key (CHR ''m'')), tb_BenchmarkKey = key_Public (demo_key (CHR ''b'')),
     tb_SecurityReviewKey = key_Public (demo_key (CHR ''r'')), tb_StagingKey = key_Public (demo_key (CHR ''s'')),
     tb_CoreGateKey = key_Public (demo_key (CHR ''g'')), tb_CertificateKey = demo_key (CHR ''c''), tb_CertificateTTL = Hour,
     tb_MaxEvidenceAge = 24 * Hour\<rparr>"

definition demo_clock :: "nat \<Rightarrow> gotime" where "demo_clock k = time_Add demo_now (int k)"

definition demo_certification_authority :: certification_Authority where
  "demo_certification_authority = \<lparr>ca_trust = demo_trust, ca_audit = Some accept_all, ca_limit = Some (\<lambda>_ _. True), ca_now = Some demo_clock\<rparr>"

lemma demo_key_lengths [simp]:
  "length (key_Public (demo_key k)) = PublicKeySize" "length (demo_key k) = PrivateKeySize"
  using key_Public_length [OF demo_key_ok] by (simp_all add: demo_key_def ed_sizes)

lemma demo_certification_new:
  "certification_NewAuthority demo_trust (Some accept_all) (Some (\<lambda>_ _. True)) (Some demo_clock) = Inr demo_certification_authority"
  by (simp add: certification_NewAuthority_Inr demo_certification_authority_def demo_trust_def validPublicKey_def duration_defs)

lemmas demo_text = demo_release_def demo_commit_def demo_digest_def demo_evidence_id_def

lemma demo_patterns:
  "releasePattern demo_release" "certification_commitPattern demo_commit" "edition_commitPattern demo_commit"
  "digestPattern demo_digest" "requestIDPattern demo_evidence_id" "actorPattern ''spiffe://brick/reviewer''"
  by code_simp+

lemma demo_times:
  "time_encodable demo_now" "time_encodable (time_Add demo_now Hour)" "time_encodable (time_UTC (demo_clock 1))"
  "time_encodable (time_Add (time_UTC (demo_clock 1)) Hour)" "fresh demo_now (time_UTC (demo_clock 0)) (24 * Hour)"
  "\<not> time_After demo_now (demo_clock 0)" "time_After (time_Add demo_now Hour) (demo_clock 0)"
  "time_After (time_Add demo_now Hour) demo_now"
  by code_simp+

lemma demo_artifacts_verified:
  "VerifyArtifactManifest demo_ed25519 demo_artifacts (key_Public (demo_key (CHR ''m''))) (time_UTC (demo_clock 0)) (24 * Hour) = None"
  "am_ReleaseID demo_artifacts = demo_release" "am_SourceCommit demo_artifacts = demo_commit"
  "am_SBOMDigest demo_artifacts = demo_digest" "\<exists>d. digestArtifactManifest demo_artifacts = Some d"
proof -
  let ?m = "\<lparr>am_Schema = ManifestSchema, am_ReleaseID = demo_release, am_SourceCommit = demo_commit, am_CreatedAt = demo_now,
      am_SBOMDigest = demo_digest,
      am_Artifacts = [\<lparr>af_Path = ''bin/engine'', af_Digest = demo_digest, af_SizeBytes = 4096\<rparr>,
        \<lparr>af_Path = ''sbom.json'', af_Digest = demo_digest, af_SizeBytes = 512\<rparr>],
      am_SignatureAlgorithm = [], am_Signature = []\<rparr>"
  have "canonicalArtifactManifest (set_am_sig ''ed25519'' [] ?m) = Some (json_print (json_ArtifactManifest ((set_am_sig ''ed25519'' [] ?m)\<lparr>am_Signature := []\<rparr>)))"
    by (simp add: canonicalArtifactManifest_def set_am_sig_def marshal_if_def demo_times)
  note v = am_sig.demo_signed [OF this, where k = "CHR ''m''", folded demo_artifacts_def]
  obtain s where s: "demo_artifacts = set_am_sig ''ed25519'' s ?m" using v(1) by blast
  have arts: "validArtifacts (am_Artifacts ?m)" by code_simp
  show "am_ReleaseID demo_artifacts = demo_release" "am_SourceCommit demo_artifacts = demo_commit"
    "am_SBOMDigest demo_artifacts = demo_digest" "\<exists>d. digestArtifactManifest demo_artifacts = Some d"
    unfolding s by (simp_all add: set_am_sig_def digestArtifactManifest_def demo_times)
  show "VerifyArtifactManifest demo_ed25519 demo_artifacts (key_Public (demo_key (CHR ''m''))) (time_UTC (demo_clock 0)) (24 * Hour) = None"
    using v(2) arts unfolding VerifyArtifactManifest_def s by (simp add: set_am_sig_def validPublicKey_def demo_patterns demo_times)
qed

lemma demo_benchmark_verified:
  "VerifyBenchmarkEvidence demo_ed25519 demo_benchmark (key_Public (demo_key (CHR ''b''))) (time_UTC (demo_clock 0)) (24 * Hour) = None"
  "be_ReleaseID demo_benchmark = demo_release" "be_SourceCommit demo_benchmark = demo_commit"
proof -
  let ?b = "\<lparr>be_Schema = BenchmarkSchema, be_ReleaseID = demo_release, be_SourceCommit = demo_commit, be_MeasuredAt = demo_now,
      be_EnvironmentDigest = demo_digest,
      be_Results = [\<lparr>br_Name = ''prepare'', br_Iterations = 1000, br_NanosecondsPerOp = 900, br_AllocationsPerOp = 0, br_BytesPerOp = 0\<rparr>],
      be_SignatureAlgorithm = [], be_Signature = []\<rparr>"
  have "canonicalBenchmarkEvidence (set_be_sig ''ed25519'' [] ?b) = Some (json_print (json_BenchmarkEvidence ((set_be_sig ''ed25519'' [] ?b)\<lparr>be_Signature := []\<rparr>)))"
    by (simp add: canonicalBenchmarkEvidence_def set_be_sig_def marshal_if_def demo_times)
  note v = be_sig.demo_signed [OF this, where k = "CHR ''b''", folded demo_benchmark_def]
  obtain s where s: "demo_benchmark = set_be_sig ''ed25519'' s ?b" using v(1) by blast
  have results: "validBenchmarkResults (be_Results ?b)" by code_simp
  show "be_ReleaseID demo_benchmark = demo_release" "be_SourceCommit demo_benchmark = demo_commit"
    unfolding s by (simp_all add: set_be_sig_def)
  show "VerifyBenchmarkEvidence demo_ed25519 demo_benchmark (key_Public (demo_key (CHR ''b''))) (time_UTC (demo_clock 0)) (24 * Hour) = None"
    using v(2) results unfolding VerifyBenchmarkEvidence_def s by (simp add: set_be_sig_def validPublicKey_def demo_patterns demo_times)
qed

lemma demo_review_verified:
  "VerifySecurityReview demo_ed25519 demo_review (key_Public (demo_key (CHR ''r''))) (time_UTC (demo_clock 0)) = None"
  "sr_ReleaseID demo_review = demo_release" "sr_SourceCommit demo_review = demo_commit"
proof -
  let ?r = "\<lparr>sr_Schema = ReviewSchema, sr_ReleaseID = demo_release, sr_SourceCommit = demo_commit, sr_ReviewID = demo_evidence_id,
      sr_ReviewerID = ''spiffe://brick/reviewer'', sr_ReviewedAt = demo_now, sr_ExpiresAt = time_Add demo_now Hour,
      sr_Outcome = ''approved'', sr_FindingsDigest = demo_digest,
      sr_Scope = [''artifact-manifest'', ''engine'', ''staging-evidence''], sr_SignatureAlgorithm = [], sr_Signature = []\<rparr>"
  have "canonicalSecurityReview (set_sr_sig ''ed25519'' [] ?r) = Some (json_print (json_SecurityReview ((set_sr_sig ''ed25519'' [] ?r)\<lparr>sr_Signature := []\<rparr>)))"
    by (simp add: canonicalSecurityReview_def set_sr_sig_def marshal_if_def demo_times)
  note v = sr_sig.demo_signed [OF this, where k = "CHR ''r''", folded demo_review_def]
  obtain s where s: "demo_review = set_sr_sig ''ed25519'' s ?r" using v(1) by blast
  have scope: "validReviewScope (sr_Scope ?r)" by code_simp
  show "sr_ReleaseID demo_review = demo_release" "sr_SourceCommit demo_review = demo_commit"
    unfolding s by (simp_all add: set_sr_sig_def)
  show "VerifySecurityReview demo_ed25519 demo_review (key_Public (demo_key (CHR ''r''))) (time_UTC (demo_clock 0)) = None"
    using v(2) scope unfolding VerifySecurityReview_def s by (simp add: set_sr_sig_def validPublicKey_def demo_patterns demo_times)
qed

lemma demo_gate_verified:
  assumes "validEdition (fst eg)" "validGate (snd eg)"
  shows "gate_ok demo_ed25519 (key_Public (demo_key (CHR ''g''))) demo_release demo_commit (time_UTC (demo_clock 0)) (demo_gate eg)"
    and "gate_pair (demo_gate eg) = eg"
proof -
  let ?g = "\<lparr>ge_Schema = CoreGateSchema, ge_Edition = fst eg, ge_Gate = snd eg, ge_ReleaseID = demo_release,
      ge_SourceCommit = demo_commit, ge_PolicyDigest = demo_digest, ge_IssuedAt = demo_now,
      ge_ExpiresAt = time_Add demo_now Hour, ge_Outcome = ''approved'', ge_SignatureAlgorithm = [], ge_Signature = []\<rparr>"
  have "canonicalCoreGateEvidence (set_ge_sig ''ed25519'' [] ?g) = Some (json_print (json_CoreGateEvidence ((set_ge_sig ''ed25519'' [] ?g)\<lparr>ge_Signature := []\<rparr>)))"
    by (simp add: canonicalCoreGateEvidence_def set_ge_sig_def marshal_if_def demo_times)
  note v = ge_sig.demo_signed [OF this, where k = "CHR ''g''", folded demo_gate_def]
  obtain s where s: "demo_gate eg = set_ge_sig ''ed25519'' s ?g" using v(1) by blast
  show "gate_pair (demo_gate eg) = eg" unfolding s by (simp add: gate_pair_def set_ge_sig_def)
  show "gate_ok demo_ed25519 (key_Public (demo_key (CHR ''g''))) demo_release demo_commit (time_UTC (demo_clock 0)) (demo_gate eg)"
    using v(2) assms unfolding gate_ok_def s by (simp add: set_ge_sig_def demo_patterns demo_times)
qed

lemma demo_staged_verified:
  assumes "validEditionProfile e p"
  shows "VerifyEvidence demo_ed25519 (demo_staged e p) (key_Public (demo_key (CHR ''s''))) = None"
    and "ed_Edition (demo_staged e p) = e" "ed_ReleaseBinding (demo_staged e p) = demo_release_binding"
    and "ed_IssuedAt (demo_staged e p) = demo_now"
proof -
  let ?v = "\<lparr>ed_Schema = edition_Schema, ed_EvidenceID = demo_evidence_id, ed_Edition = e, ed_Profile = p, ed_CageID = ''cage-abc'',
      ed_BindingDigest = demo_digest, ed_ReleaseBinding = demo_release_binding, ed_IssuedAt = demo_now,
      ed_Observations = demo_observations, ed_SignatureAlgorithm = [], ed_Signature = []\<rparr>"
  have "\<exists>payload. canonicalEvidence (set_evidence_sig ''ed25519'' [] ?v) = Some payload"
    by (simp add: canonicalEvidence_def set_evidence_sig_def demo_times)
  then obtain payload where "canonicalEvidence (set_evidence_sig ''ed25519'' [] ?v) = Some payload" ..
  note v = evidence_sig.demo_signed [OF this, where k = "CHR ''s''", folded demo_staged_def]
  obtain s where s: "demo_staged e p = set_evidence_sig ''ed25519'' s ?v" using v(1) by blast
  show "ed_Edition (demo_staged e p) = e" "ed_ReleaseBinding (demo_staged e p) = demo_release_binding"
    "ed_IssuedAt (demo_staged e p) = demo_now"
    unfolding s by (simp_all add: set_evidence_sig_def)
  obtain d where "digestArtifactManifest demo_artifacts = Some d" "digestPattern d"
    using demo_artifacts_verified(5) digest_pattern(1) by blast
  then have binding: "ValidateReleaseEvidenceBinding demo_release_binding = None"
    by (simp add: ValidateReleaseEvidenceBinding_def demo_release_binding_def demo_patterns)
  have obs: "validObservations demo_observations" by code_simp
  show "VerifyEvidence demo_ed25519 (demo_staged e p) (key_Public (demo_key (CHR ''s''))) = None"
    using v(3) binding obs assms unfolding VerifyEvidence_def s
    by (simp add: set_evidence_sig_def demo_patterns SignatureAlgorithm_def)
qed

lemma demo_evidence_ok:
  "evidence_ok demo_ed25519 demo_trust demo_certification_request (time_UTC (demo_clock 0)) (the (digestArtifactManifest demo_artifacts))"
proof -
  let ?d = "the (digestArtifactManifest demo_artifacts)"
  have d: "digestArtifactManifest demo_artifacts = Some ?d" using demo_artifacts_verified(5) by auto
  have binding: "expected_binding demo_certification_request ?d = demo_release_binding"
    by (simp add: expected_binding_def demo_certification_request_def demo_release_binding_def demo_artifacts_verified)
  have profiles: "validEditionProfile Shared ProfileSharedTenant" "validEditionProfile Dedicated ProfileDedicatedAdministrator" by code_simp+
  have ne: "Dedicated \<noteq> Shared" by (simp add: Shared_def Dedicated_def)
  have vb: "ValidateReleaseEvidenceBinding demo_release_binding = None"
    using demo_staged_verified(1,3) [OF profiles(1)] unfolding VerifyEvidence_def by (metis option.distinct(1))
  have gates: "gate_ok demo_ed25519 (key_Public (demo_key (CHR ''g''))) demo_release demo_commit (time_UTC (demo_clock 0)) g"
    if "g \<in> set (map demo_gate required_pairs)" for g
    using that demo_gate_verified(1) required_pairs_facts(4) by fastforce
  have "map (gate_pair \<circ> demo_gate) required_pairs = map id required_pairs"
    using demo_gate_verified(2) required_pairs_facts(4) by (intro map_cong) auto
  then have pairs: "map gate_pair (map demo_gate required_pairs) = required_pairs" by simp
  show ?thesis
    unfolding evidence_ok_def binding
    using d vb gates pairs ne demo_artifacts_verified demo_benchmark_verified demo_review_verified
      demo_staged_verified [OF profiles(1)] demo_staged_verified [OF profiles(2)]
    by (simp add: demo_certification_request_def demo_trust_def demo_patterns demo_times)
qed

lemma demo_certify:
  obtains c where "Certify demo_ed25519 (Some demo_certification_authority) False ''spiffe://brick/reviewer'' demo_evidence_id
      demo_certification_request [] = (Inr c, [(certified_event ''spiffe://brick/reviewer'' demo_release c, True)])"
proof -
  have "verifyRequest demo_ed25519 demo_trust demo_certification_request (time_UTC (demo_clock 0)) = None"
    using demo_evidence_ok verifyRequest_iff by blast
  moreover obtain c0 where c0: "makeCertificate demo_trust demo_evidence_id demo_certification_request (time_UTC (demo_clock 1)) = Some c0"
      "certified_from demo_trust demo_evidence_id demo_certification_request (the (digestArtifactManifest demo_artifacts)) (time_UTC (demo_clock 1)) c0"
    using makeCertificate_ok [OF demo_evidence_ok] by blast
  moreover obtain c where "SignCertificate demo_ed25519 c0 (tb_CertificateKey demo_trust) = Inr c"
  proof -
    have "canonicalCertificate (set_ct_sig ''ed25519'' [] c0) = Some (json_print (json_Certificate ((set_ct_sig ''ed25519'' [] c0)\<lparr>ct_Signature := []\<rparr>)))"
      using c0(2) by (simp add: canonicalCertificate_def set_ct_sig_def marshal_if_def certified_from_def demo_times [unfolded One_nat_def] demo_trust_def)
    then show ?thesis
      using that unfolding SignCertificate_def by (simp add: ct_sig.sign_record_total demo_trust_def)
  qed
  ultimately show ?thesis
    using that demo_patterns
    by (simp add: Certify_def demo_certification_authority_def authorize_plan_def RecordEvent_def accept_all_def
        demo_certification_request_def)
qed

section \<open>Properties\<close>

text \<open>
  C4. A certificate is issued only by an authority with valid trust keys and bounded lifetimes, to
  a caller the limiter admits, for a request whose artifact manifest, benchmark evidence, security
  review, staging evidence of both editions and Core gates all verify at the clock's reading and are
  bound to one release, one commit and the digest of that very manifest. The certificate carries
  the digests of exactly this evidence, of every gate record too, and expires within a day of its issue. Its authorization is
  the last event of the audit log, accepted.
\<close>

theorem Certify_sound:
  assumes "certification_NewAuthority trust (Some sink) (Some limit) (Some now) = Inr a"
    and "Certify E (Some a) cancelled actor certificateID q log = (Inr c, log')"
  shows "\<not> cancelled \<and> actorPattern actor \<and> requestIDPattern certificateID \<and> limit log actor \<and>
    (\<exists>d. evidence_ok E trust q (time_UTC (now 0)) d \<and> certified_from trust certificateID q d (time_UTC (now 1)) c) \<and>
    (\<forall>g\<in>set (cq_CoreGates q). ge_ReleaseID g = cq_ReleaseID q \<and> ge_SourceCommit g = cq_SourceCommit q \<and>
       ge_Outcome g = ''approved'' \<and> t_ns (now 0) < t_ns (ge_ExpiresAt g)) \<and>
    0 < t_ns (ct_ExpiresAt c) - t_ns (ct_IssuedAt c) \<and> t_ns (ct_ExpiresAt c) - t_ns (ct_IssuedAt c) \<le> 24 * Hour \<and>
    log' = log @ [(certified_event actor (cq_ReleaseID q) c, True)]"
proof -
  have a: "a = \<lparr>ca_trust = trust, ca_audit = Some sink, ca_limit = Some limit, ca_now = Some now\<rparr>"
    and ttl: "0 < tb_CertificateTTL trust" "tb_CertificateTTL trust \<le> 24 * Hour"
    using assms(1) by (simp_all add: certification_NewAuthority_Inr)
  from assms(2) show ?thesis
  proof (cases rule: Certify_certified)
    case (1 sink' limit' now' d)
    with a have f: "limit' = limit" "now' = now" "ca_trust a = trust" by simp_all
    with 1 ttl have "0 < t_ns (ct_ExpiresAt c) - t_ns (ct_IssuedAt c)" "t_ns (ct_ExpiresAt c) - t_ns (ct_IssuedAt c) \<le> 24 * Hour"
      by (simp_all add: certified_from_def)
    moreover have "\<forall>g\<in>set (cq_CoreGates q). gate_ok E (tb_CoreGateKey trust) (cq_ReleaseID q) (cq_SourceCommit q) (time_UTC (now 0)) g"
      using 1(8) f unfolding evidence_ok_def by blast
    then have "\<forall>g\<in>set (cq_CoreGates q). ge_ReleaseID g = cq_ReleaseID q \<and> ge_SourceCommit g = cq_SourceCommit q \<and>
        ge_Outcome g = ''approved'' \<and> t_ns (now 0) < t_ns (ge_ExpiresAt g)"
      by (simp add: gate_ok_def time_After_def)
    ultimately show ?thesis using 1 f by blast
  qed
qed

lemma Certify_sound_witness:
  "\<exists>c d. evidence_ok demo_ed25519 demo_trust demo_certification_request (time_UTC (demo_clock 0)) d \<and>
     certified_from demo_trust demo_evidence_id demo_certification_request d (time_UTC (demo_clock 1)) c"
proof -
  obtain c where run: "Certify demo_ed25519 (Some demo_certification_authority) False ''spiffe://brick/reviewer'' demo_evidence_id
      demo_certification_request [] = (Inr c, [(certified_event ''spiffe://brick/reviewer'' demo_release c, True)])"
    by (rule demo_certify)
  show ?thesis using Certify_sound [OF demo_certification_new run] by blast
qed

text \<open>
  C5. A certificate that \<open>Certify\<close> returns verifies under the public half of the configured
  certificate key exactly from its time of issue until, exclusively, that time plus the
  configured lifetime.
\<close>

theorem Certify_certificate_verifies:
  assumes "ed25519_correct E" "ed_key E (tb_CertificateKey trust)"
    and "certification_NewAuthority trust (Some sink) (Some limit) (Some now) = Inr a"
    and "Certify E (Some a) cancelled actor certificateID q log = (Inr c, log')"
  shows "VerifyCertificate E c (key_Public (tb_CertificateKey trust)) later = None \<longleftrightarrow>
    t_ns (now 1) \<le> t_ns later \<and> t_ns later < t_ns (now 1) + tb_CertificateTTL trust"
  by (rule certificate_verifies [OF assms])

lemma Certify_certificate_verifies_witness:
  "\<exists>c. VerifyCertificate demo_ed25519 c (key_Public (tb_CertificateKey demo_trust)) (demo_clock 1) = None \<and>
     VerifyCertificate demo_ed25519 c (key_Public (tb_CertificateKey demo_trust)) (time_Add (demo_clock 1) Hour) \<noteq> None"
proof -
  obtain c where run: "Certify demo_ed25519 (Some demo_certification_authority) False ''spiffe://brick/reviewer'' demo_evidence_id
      demo_certification_request [] = (Inr c, [(certified_event ''spiffe://brick/reviewer'' demo_release c, True)])"
    by (rule demo_certify)
  have "ed_key demo_ed25519 (tb_CertificateKey demo_trust)" by (simp add: demo_trust_def)
  note v = Certify_certificate_verifies [OF demo_ed25519_correct this demo_certification_new run]
  have "0 < tb_CertificateTTL demo_trust" "tb_CertificateTTL demo_trust = Hour" by (simp_all add: demo_trust_def duration_defs)
  then show ?thesis using v [of "demo_clock 1"] v [of "time_Add (demo_clock 1) Hour"] by auto
qed

text \<open>
  C38. The Core gates of a request are accepted exactly when each record verifies on its own (schema,
  known edition and gate, same release and commit, approved, current, signed) and the records are
  one for each pair of an edition and a gate, in any order: none missing, none twice, none besides.
\<close>

theorem verifyCoreGates_exact:
  "verifyCoreGates E gates key releaseID sourceCommit now = None \<longleftrightarrow>
     list_all (gate_ok E key releaseID sourceCommit now) gates \<and>
     mset (map (\<lambda>g. (ge_Edition g, ge_Gate g)) gates) =
       {#(Shared, GateAdmission), (Shared, GateCertification), (Shared, GateGA),
         (Dedicated, GateAdmission), (Dedicated, GateCertification), (Dedicated, GateGA)#}"
proof -
  have "mset required_pairs = {#(Shared, GateAdmission), (Shared, GateCertification), (Shared, GateGA),
         (Dedicated, GateAdmission), (Dedicated, GateCertification), (Dedicated, GateGA)#}"
    by (simp add: required_pairs_def requiredGates_def)
  then show ?thesis
    unfolding verifyCoreGates_core list_all_iff gate_pair_def [abs_def] by simp
qed

text \<open>
  Every refusal of the certification authority leaves a denial in the audit log, or reports that
  the authority or its audit sink was unavailable; nothing is certified and not recorded.
\<close>

theorem Certify_refusal:
  assumes "Certify E (Some a) cancelled actor certificateID q log = (Inl err, log')"
  shows "refusal_audited PkgCertification err log log'"
proof (cases "\<exists>sink limit now. ca_audit a = Some sink \<and> ca_limit a = Some limit \<and> ca_now a = Some now")
  case False
  then have "\<exists>m. err = ErrUnavailable PkgCertification m \<and> log' = log"
    using assms by (auto simp: Certify_def split: option.splits)
  then show ?thesis using refusal_audited_unavailable by auto
next
  case True
  then obtain sink limit now where "ca_audit a = Some sink" "ca_limit a = Some limit" "ca_now a = Some now" by blast
  then show ?thesis
    using assms
    by (auto simp: Certify_def certification_deny_def refusal_audited_unavailable intro: refusal_auditedI refusal_audited_authorize
        split: if_splits option.splits sum.splits)
qed

lemma Certify_refusal_witness:
  "refusal_audited PkgCertification (ErrDenied PkgCertification ''invalid_caller_or_certificate_id'') []
     [(mk_event ''root'' ''certifyGuardedRelease'' ''denied'' demo_release [(''reasonCode'', MStr ''invalid_caller_or_certificate_id'')], True)]"
proof -
  have "\<not> actorPattern ''root''" by code_simp
  moreover have "cq_ReleaseID demo_certification_request = demo_release" by (simp add: demo_certification_request_def)
  moreover have "fallback ''root'' = ''root''" "fallback demo_release = demo_release" by (simp_all add: fallback_def demo_release_def)
  ultimately show ?thesis
    by (intro Certify_refusal [of demo_ed25519 demo_certification_authority False "''root''" demo_evidence_id demo_certification_request])
      (simp add: Certify_def demo_certification_authority_def certification_deny_def deny_with_def RecordEvent_def accept_all_def)
qed

text \<open>
  The authority keeps no record of the certificate IDs it has used: a request that was certified
  is certified again under the same ID, by the same code path and with the same evidence, as soon
  as the limiter and the audit sink accept it.
\<close>

theorem Certify_repeatable:
  assumes "Certify E (Some a) cancelled actor certificateID q log = (Inr c, log1)"
    and "ca_limit a = Some limit" "limit log1 actor"
    and "ca_audit a = Some sink" "sink log1 (certified_event actor (cq_ReleaseID q) c)"
  shows "Certify E (Some a) cancelled actor certificateID q log1 =
    (Inr c, log1 @ [(certified_event actor (cq_ReleaseID q) c, True)])"
  using assms(1)
proof (cases rule: Certify_Inr)
  case (1 sink' limit' now d c0)
  have "verifyRequest E (ca_trust a) q (time_UTC (now 0)) = None" using 1(8) verifyRequest_iff by blast
  with 1 assms(2-5) show ?thesis by (simp add: Certify_def authorize_plan_def RecordEvent_def)
qed

lemma Certify_repeatable_witness:
  "\<exists>c log1. Certify demo_ed25519 (Some demo_certification_authority) False ''spiffe://brick/reviewer'' demo_evidence_id
     demo_certification_request log1 = (Inr c, log1 @ [(certified_event ''spiffe://brick/reviewer'' demo_release c, True)])"
proof -
  obtain c where run: "Certify demo_ed25519 (Some demo_certification_authority) False ''spiffe://brick/reviewer'' demo_evidence_id
      demo_certification_request [] = (Inr c, [(certified_event ''spiffe://brick/reviewer'' demo_release c, True)])"
    by (rule demo_certify)
  have rel: "cq_ReleaseID demo_certification_request = demo_release" by (simp add: demo_certification_request_def)
  have "ca_limit demo_certification_authority = Some (\<lambda>_ _. True)" "ca_audit demo_certification_authority = Some accept_all"
    by (simp_all add: demo_certification_authority_def)
  note r = Certify_repeatable [OF run this(1) TrueI this(2), unfolded rel]
  show ?thesis by (intro exI, rule r) (simp add: accept_all_def)
qed

end
