(* ===== verification/Recovery.thy ===== *)
theory Recovery
  imports Lifecycle Go_Effects
begin

text \<open>
  Package \<open>recovery\<close> (\<open>recovery/authority.go\<close>): the kill-first recovery of a cage, with a
  signed event in the journal for every step and a signed attestation at the end. The
  journal, the audit sink, the evidence store, the cage controller, the rebuild hand-off and
  the clock are the interfaces of the Go code; they are parameters that decide from what has
  happened so far. The model keeps the trace of all side effects on the cage.
\<close>

section \<open>Data\<close>

record recovery_Request =
  vq_Schema :: string
  vq_RecoveryID :: string
  vq_CageID :: string
  vq_CallerSPIFFEID :: string
  vq_HostIdentity :: string
  vq_PolicyDigest :: string
  vq_ReasonCode :: string

record Event =
  ve_Schema :: string
  ve_EventID :: string
  ve_RecoveryID :: string
  ve_CageID :: string
  ve_CallerSPIFFEID :: string
  ve_HostIdentity :: string
  ve_PolicyDigest :: string
  ve_Sequence :: u64
  ve_Action :: string
  ve_Outcome :: string
  ve_ReasonCode :: string
  ve_ObservedAt :: gotime
  ve_EvidenceDigest :: string
  ve_SignatureAlgorithm :: string
  ve_Signature :: string

record recovery_Attestation =
  va_Schema :: string
  va_RecoveryID :: string
  va_CageID :: string
  va_PolicyDigest :: string
  va_EvidenceDigest :: string
  va_FinalSequence :: u64
  va_Outcome :: string
  va_IssuedAt :: gotime
  va_SignatureAlgorithm :: string
  va_Signature :: string

definition recovery_Schema :: string where "recovery_Schema = ''brick.host-isolation.recovery.v1''"

definition reasonCodes :: "string list" where
  "reasonCodes = [''anomaly'', ''integrityViolation'', ''policyViolation'', ''operatorEmergency'']"

section \<open>Validation, canonical text and signatures\<close>

definition recovery_validateRequest :: "recovery_Request \<Rightarrow> string" where
  "recovery_validateRequest v =
     (if vq_Schema v \<noteq> recovery_Schema \<or> \<not> requestIDPattern (vq_RecoveryID v) \<or> \<not> cageIDPattern (vq_CageID v) \<or>
         \<not> spiffePattern (vq_CallerSPIFFEID v) \<or> \<not> hostIDPattern (vq_HostIdentity v) \<or>
         \<not> digestPattern (vq_PolicyDigest v)
      then ''invalid_request_identity''
      else if vq_ReasonCode v \<notin> set reasonCodes then ''invalid_reason_code''
      else [])"

definition validateEvent :: "Event \<Rightarrow> string" where
  "validateEvent v =
     (if ve_Schema v \<noteq> recovery_Schema \<or> ve_SignatureAlgorithm v \<noteq> SignatureAlgorithm \<or>
         \<not> requestIDPattern (ve_EventID v) \<or> ve_EventID v \<noteq> ve_RecoveryID v \<or> \<not> cageIDPattern (ve_CageID v) \<or>
         \<not> spiffePattern (ve_CallerSPIFFEID v) \<or> \<not> hostIDPattern (ve_HostIdentity v) \<or>
         \<not> digestPattern (ve_PolicyDigest v) \<or> ve_Sequence v = 0 \<or> ve_Action v = [] \<or> ve_Outcome v = [] \<or>
         ve_ReasonCode v = [] \<or> time_IsZero (ve_ObservedAt v)
      then ''invalid_event''
      else if ve_EvidenceDigest v \<noteq> [] \<and> \<not> digestPattern (ve_EvidenceDigest v) then ''invalid_evidence''
      else [])"

definition json_Event :: "Event \<Rightarrow> json" where
  "json_Event v = JObj
     [(''schema'', JStr (ve_Schema v)), (''eventId'', JStr (ve_EventID v)), (''recoveryId'', JStr (ve_RecoveryID v)),
      (''cageId'', JStr (ve_CageID v)), (''callerSpiffeId'', JStr (ve_CallerSPIFFEID v)),
      (''hostIdentity'', JStr (ve_HostIdentity v)), (''policyDigest'', JStr (ve_PolicyDigest v)),
      (''sequence'', json_u64 (ve_Sequence v)), (''action'', JStr (ve_Action v)), (''outcome'', JStr (ve_Outcome v)),
      (''reasonCode'', JStr (ve_ReasonCode v)), (''observedAt'', json_time (ve_ObservedAt v)),
      (''evidenceDigest'', JStr (ve_EvidenceDigest v)), (''signatureAlgorithm'', JStr (ve_SignatureAlgorithm v)),
      (''signature'', JStr (ve_Signature v))]"

definition json_recovery_Attestation :: "recovery_Attestation \<Rightarrow> json" where
  "json_recovery_Attestation v = JObj
     [(''schema'', JStr (va_Schema v)), (''recoveryId'', JStr (va_RecoveryID v)), (''cageId'', JStr (va_CageID v)),
      (''policyDigest'', JStr (va_PolicyDigest v)), (''evidenceDigest'', JStr (va_EvidenceDigest v)),
      (''finalSequence'', json_u64 (va_FinalSequence v)), (''outcome'', JStr (va_Outcome v)),
      (''issuedAt'', json_time (va_IssuedAt v)), (''signatureAlgorithm'', JStr (va_SignatureAlgorithm v)),
      (''signature'', JStr (va_Signature v))]"

definition canonicalEvent :: "Event \<Rightarrow> bytes option" where
  "canonicalEvent v =
     (if time_encodable (ve_ObservedAt v) then Some (json_print (json_Event (v\<lparr>ve_Signature := []\<rparr>))) else None)"

definition canonicalCompletion :: "recovery_Attestation \<Rightarrow> bytes option" where
  "canonicalCompletion v =
     (if time_encodable (va_IssuedAt v) then Some (json_print (json_recovery_Attestation (v\<lparr>va_Signature := []\<rparr>)))
      else None)"

definition set_event_sig :: "string \<Rightarrow> string \<Rightarrow> Event \<Rightarrow> Event" where
  "set_event_sig alg s v = v\<lparr>ve_SignatureAlgorithm := alg, ve_Signature := s\<rparr>"

definition set_completion_sig :: "string \<Rightarrow> string \<Rightarrow> recovery_Attestation \<Rightarrow> recovery_Attestation" where
  "set_completion_sig alg s v = v\<lparr>va_SignatureAlgorithm := alg, va_Signature := s\<rparr>"

definition SignEvent :: "ed25519 \<Rightarrow> Event \<Rightarrow> bytes \<Rightarrow> Event go_result" where
  "SignEvent E v key = sign_record E canonicalEvent set_event_sig key v"

definition VerifyEvent :: "ed25519 \<Rightarrow> Event \<Rightarrow> bytes \<Rightarrow> go_error option" where
  "VerifyEvent E v key =
     (if length key \<noteq> PublicKeySize \<or> validateEvent v \<noteq> [] then Some (DecisionError PkgRecovery ''invalid_event'')
      else if \<not> signature_ok E canonicalEvent key (ve_Signature v) v
      then Some (DecisionError PkgRecovery ''invalid_event_signature'')
      else None)"

definition recovery_SignAttestation :: "ed25519 \<Rightarrow> recovery_Attestation \<Rightarrow> bytes \<Rightarrow> recovery_Attestation go_result" where
  "recovery_SignAttestation E v key = sign_record E canonicalCompletion set_completion_sig key v"

definition recovery_VerifyAttestation :: "ed25519 \<Rightarrow> recovery_Attestation \<Rightarrow> bytes \<Rightarrow> go_error option" where
  "recovery_VerifyAttestation E v key =
     (if length key \<noteq> PublicKeySize \<or> va_Schema v \<noteq> recovery_Schema \<or> \<not> requestIDPattern (va_RecoveryID v) \<or>
         \<not> cageIDPattern (va_CageID v) \<or> \<not> digestPattern (va_PolicyDigest v) \<or> \<not> digestPattern (va_EvidenceDigest v) \<or>
         va_Outcome v \<noteq> ''recoveryCompleted'' \<or> va_FinalSequence v = 0 \<or> va_SignatureAlgorithm v \<noteq> SignatureAlgorithm
      then Some (DecisionError PkgRecovery ''invalid_attestation'')
      else if \<not> signature_ok E canonicalCompletion key (va_Signature v) v
      then Some (DecisionError PkgRecovery ''invalid_attestation_signature'')
      else None)"

interpretation event_sig: signed_record canonicalEvent set_event_sig ve_SignatureAlgorithm ve_Signature
  by unfold_locales (simp_all add: set_event_sig_def canonicalEvent_def)

interpretation completion_sig: signed_record canonicalCompletion set_completion_sig va_SignatureAlgorithm va_Signature
  by unfold_locales (simp_all add: set_completion_sig_def canonicalCompletion_def)

section \<open>The steps and their order\<close>

datatype recovery_step = Kill | Freeze | WithdrawNetwork | CaptureEvidence | Destroy | Handoff

definition all_steps :: "recovery_step list" where
  "all_steps = [Kill, Freeze, WithdrawNetwork, CaptureEvidence, Destroy, Handoff]"

fun step_rank :: "recovery_step \<Rightarrow> nat" where
  "step_rank Kill = 0"
| "step_rank Freeze = 1"
| "step_rank WithdrawNetwork = 2"
| "step_rank CaptureEvidence = 3"
| "step_rank Destroy = 4"
| "step_rank Handoff = 5"

lemma step_rank_inj: "step_rank s = step_rank t \<longleftrightarrow> s = t"
  by (cases s; cases t) auto

instantiation recovery_step :: linorder
begin

definition less_eq_recovery_step :: "recovery_step \<Rightarrow> recovery_step \<Rightarrow> bool" where
  "s \<le> t \<longleftrightarrow> step_rank s \<le> step_rank t"

definition less_recovery_step :: "recovery_step \<Rightarrow> recovery_step \<Rightarrow> bool" where
  "s < t \<longleftrightarrow> step_rank s < step_rank t"

instance
  by standard (auto simp: less_eq_recovery_step_def less_recovery_step_def step_rank_inj)

end

fun step_action :: "recovery_step \<Rightarrow> string" where
  "step_action Kill = ''kill''"
| "step_action Freeze = ''freeze''"
| "step_action WithdrawNetwork = ''withdrawNetwork''"
| "step_action CaptureEvidence = ''captureEvidence''"
| "step_action Destroy = ''destroy''"
| "step_action Handoff = ''cleanRebuildHandoff''"

text \<open>
  One call of an interface: the step, its arguments (the cage and, for the capture, the reason
  code, or for the hand-off, the evidence digest) and what it returned; \<^const>\<open>None\<close> is an
  error, and only the capture returns a text.
\<close>

type_synonym effect = "recovery_step \<times> string list \<times> string option"

section \<open>The authority\<close>

text \<open>
  An authority that \<open>NewAuthority\<close> returned has all its dependencies; \<^const>\<open>None\<close> stands for a
  nil authority or one with a nil field. The \<open>atomic.Uint64\<close> sequence and the number of clock
  readings are part of the state.
\<close>

record recovery_Authority =
  rd_key :: bytes
  rd_journal :: "(Event \<times> bool) list \<Rightarrow> Event \<Rightarrow> bool"
  rd_audit :: audit_sink
  rd_evidence :: "effect list \<Rightarrow> string \<Rightarrow> string \<Rightarrow> string option"
  rd_controller :: "effect list \<Rightarrow> recovery_step \<Rightarrow> string \<Rightarrow> bool"
  rd_handoff :: "effect list \<Rightarrow> string \<Rightarrow> string \<Rightarrow> bool"
  rd_clock :: "nat \<Rightarrow> gotime"

record recovery_state =
  rs_sequence :: u64
  rs_journal :: "(Event \<times> bool) list"
  rs_audit :: audit_log
  rs_effects :: "effect list"
  rs_ticks :: nat

definition recovery_NewAuthority ::
  "bytes \<Rightarrow> ((Event \<times> bool) list \<Rightarrow> Event \<Rightarrow> bool) option \<Rightarrow> audit_sink option \<Rightarrow>
   (effect list \<Rightarrow> string \<Rightarrow> string \<Rightarrow> string option) option \<Rightarrow>
   (effect list \<Rightarrow> recovery_step \<Rightarrow> string \<Rightarrow> bool) option \<Rightarrow>
   (effect list \<Rightarrow> string \<Rightarrow> string \<Rightarrow> bool) option \<Rightarrow> (nat \<Rightarrow> gotime) option \<Rightarrow> recovery_Authority go_result" where
  "recovery_NewAuthority key journal audit evidence controller handoff clock =
     (if length key \<noteq> PrivateKeySize then Inl (ErrUnavailable PkgRecovery ''missing recovery authority dependency'')
      else case (journal, audit, evidence, controller, handoff, clock) of
        (Some j, Some s, Some e, Some c, Some h, Some t) \<Rightarrow>
          Inr \<lparr>rd_key = key, rd_journal = j, rd_audit = s, rd_evidence = e, rd_controller = c, rd_handoff = h, rd_clock = t\<rparr>
      | _ \<Rightarrow> Inl (ErrUnavailable PkgRecovery ''missing recovery authority dependency''))"

definition new_event ::
  "recovery_Request \<Rightarrow> string \<Rightarrow> string \<Rightarrow> string \<Rightarrow> string \<Rightarrow> u64 \<Rightarrow> gotime \<Rightarrow> Event" where
  "new_event request action outcome evidence code seq now =
     \<lparr>ve_Schema = recovery_Schema, ve_EventID = vq_RecoveryID request, ve_RecoveryID = vq_RecoveryID request,
      ve_CageID = vq_CageID request, ve_CallerSPIFFEID = vq_CallerSPIFFEID request,
      ve_HostIdentity = vq_HostIdentity request, ve_PolicyDigest = vq_PolicyDigest request, ve_Sequence = seq,
      ve_Action = action, ve_Outcome = outcome, ve_ReasonCode = code, ve_ObservedAt = time_UTC now,
      ve_EvidenceDigest = evidence, ve_SignatureAlgorithm = SignatureAlgorithm, ve_Signature = []\<rparr>"

definition recovery_audit_event :: "recovery_Request \<Rightarrow> string \<Rightarrow> string \<Rightarrow> string \<Rightarrow> Event \<Rightarrow> audit_event" where
  "recovery_audit_event request action outcome code event =
     mk_event (vq_CallerSPIFFEID request) action outcome (vq_CageID request)
       [(''recoveryId'', MStr (vq_RecoveryID request)), (''policyDigest'', MStr (vq_PolicyDigest request)),
        (''reasonCode'', MStr code), (''sequence'', MUInt (ve_Sequence event))]"

definition emit ::
  "ed25519 \<Rightarrow> recovery_Authority \<Rightarrow> recovery_Request \<Rightarrow> string \<Rightarrow> string \<Rightarrow> string \<Rightarrow> string \<Rightarrow>
   (recovery_state, Event) prog" where
  "emit E a request action outcome evidence code st =
     (let seq = rs_sequence st + 1;
          event = new_event request action outcome evidence code seq (rd_clock a (rs_ticks st));
          st1 = st\<lparr>rs_sequence := seq, rs_ticks := rs_ticks st + 1\<rparr>
      in case SignEvent E event (rd_key a) of
           Inl _ \<Rightarrow> (Inl (ErrUnavailable PkgRecovery ''event signing failed''), st1)
         | Inr event' \<Rightarrow>
             let appended = rd_journal a (rs_journal st1) event';
                 st2 = st1\<lparr>rs_journal := rs_journal st1 @ [(event', appended)]\<rparr>
             in if \<not> appended then (Inl (ErrUnavailable PkgRecovery ''event journal unavailable''), st2)
                else (case RecordEvent (rd_audit a) (recovery_audit_event request action outcome code event') (rs_audit st2) of
                  (ok, log) \<Rightarrow>
                    let st3 = st2\<lparr>rs_audit := log\<rparr> in
                    if ok then (Inr event', st3)
                    else (Inl (ErrUnavailable PkgRecovery ''audit sink unavailable''), st3)))"

definition recovery_denied ::
  "ed25519 \<Rightarrow> recovery_Authority \<Rightarrow> recovery_Request \<Rightarrow> string \<Rightarrow> (recovery_state, 'x) prog" where
  "recovery_denied E a request code =
     thenE (emit E a request ''recordRequest'' ''denied'' [] code) (failE (DecisionError PkgRecovery code))"

definition recovery_failed ::
  "ed25519 \<Rightarrow> recovery_Authority \<Rightarrow> recovery_Request \<Rightarrow> string \<Rightarrow> string \<Rightarrow> string \<Rightarrow> (recovery_state, 'x) prog" where
  "recovery_failed E a request action code evidence =
     thenE (emit E a request action ''failed'' evidence code) (failE (ErrUnavailable PkgRecovery ''recovery step failed''))"

fun step_args :: "recovery_Request \<Rightarrow> string \<Rightarrow> recovery_step \<Rightarrow> string list" where
  "step_args request digest CaptureEvidence = [vq_CageID request, vq_ReasonCode request]"
| "step_args request digest Handoff = [vq_CageID request, digest]"
| "step_args request digest _ = [vq_CageID request]"

fun call_step :: "recovery_Authority \<Rightarrow> recovery_Request \<Rightarrow> string \<Rightarrow> recovery_step \<Rightarrow> effect list \<Rightarrow> string option" where
  "call_step a request digest CaptureEvidence tr = rd_evidence a tr (vq_CageID request) (vq_ReasonCode request)"
| "call_step a request digest Handoff tr = (if rd_handoff a tr (vq_CageID request) digest then Some [] else None)"
| "call_step a request digest s tr = (if rd_controller a tr s (vq_CageID request) then Some [] else None)"

definition perform ::
  "recovery_Authority \<Rightarrow> recovery_Request \<Rightarrow> string \<Rightarrow> recovery_step \<Rightarrow> recovery_state \<Rightarrow> string option \<times> recovery_state" where
  "perform a request digest s st =
     (let r = call_step a request digest s (rs_effects st)
      in (r, st\<lparr>rs_effects := rs_effects st @ [(s, step_args request digest s, r)]\<rparr>))"

text \<open>A step of the controller or the hand-off, and the event that it completed.\<close>

definition run_step ::
  "ed25519 \<Rightarrow> recovery_Authority \<Rightarrow> recovery_Request \<Rightarrow> string \<Rightarrow> recovery_step \<Rightarrow> (recovery_state, Event) prog" where
  "run_step E a request digest s st =
     (case perform a request digest s st of
        (None, st1) \<Rightarrow> recovery_failed E a request (step_action s) ''stepFailed'' digest st1
      | (Some _, st1) \<Rightarrow> emit E a request (step_action s) ''completed'' digest ''completed'' st1)"

fun suspend_steps ::
  "ed25519 \<Rightarrow> recovery_Authority \<Rightarrow> recovery_Request \<Rightarrow> (nat \<Rightarrow> bool) \<Rightarrow> nat \<Rightarrow> recovery_step list \<Rightarrow>
   (recovery_state, unit) prog" where
  "suspend_steps E a request cancelled k [] = returnE ()"
| "suspend_steps E a request cancelled k (s # steps) =
     (if cancelled k then recovery_failed E a request (step_action s) ''contextCancelled'' []
      else thenE (run_step E a request [] s) (suspend_steps E a request cancelled (k + 1) steps))"

definition capture_evidence ::
  "ed25519 \<Rightarrow> recovery_Authority \<Rightarrow> recovery_Request \<Rightarrow> (recovery_state, string) prog" where
  "capture_evidence E a request st =
     (case perform a request [] CaptureEvidence st of
        (None, st1) \<Rightarrow> recovery_failed E a request ''captureEvidence'' ''evidenceUnavailable'' [] st1
      | (Some digest, st1) \<Rightarrow>
          if \<not> digestPattern digest
          then recovery_failed E a request ''captureEvidence'' ''evidenceUnavailable'' [] st1
          else thenE (emit E a request ''captureEvidence'' ''completed'' digest ''completed'') (returnE digest) st1)"

definition new_completion :: "recovery_Request \<Rightarrow> string \<Rightarrow> u64 \<Rightarrow> gotime \<Rightarrow> recovery_Attestation" where
  "new_completion request digest seq now =
     \<lparr>va_Schema = recovery_Schema, va_RecoveryID = vq_RecoveryID request, va_CageID = vq_CageID request,
      va_PolicyDigest = vq_PolicyDigest request, va_EvidenceDigest = digest, va_FinalSequence = seq,
      va_Outcome = ''recoveryCompleted'', va_IssuedAt = time_UTC now, va_SignatureAlgorithm = SignatureAlgorithm,
      va_Signature = []\<rparr>"

definition issue_completion ::
  "ed25519 \<Rightarrow> recovery_Authority \<Rightarrow> recovery_Request \<Rightarrow> string \<Rightarrow> u64 \<Rightarrow> (recovery_state, recovery_Attestation) prog" where
  "issue_completion E a request digest seq st =
     (let st1 = st\<lparr>rs_ticks := rs_ticks st + 1\<rparr> in
      case recovery_SignAttestation E (new_completion request digest seq (rd_clock a (rs_ticks st))) (rd_key a) of
        Inl _ \<Rightarrow> (Inl (ErrUnavailable PkgRecovery ''attestation signing failed''), st1)
      | Inr att \<Rightarrow> (Inr att, st1))"

definition recover ::
  "ed25519 \<Rightarrow> recovery_Authority \<Rightarrow> (nat \<Rightarrow> bool) \<Rightarrow> recovery_Request \<Rightarrow> (recovery_state, recovery_Attestation) prog" where
  "recover E a cancelled request =
     thenE (emit E a request ''recordRequest'' ''accepted'' [] ''accepted'')
       (thenE (suspend_steps E a request cancelled 1 [Kill, Freeze, WithdrawNetwork])
         (bindE (capture_evidence E a request) (\<lambda>digest.
           thenE (run_step E a request digest Destroy)
             (bindE (run_step E a request digest Handoff) (\<lambda>final.
               issue_completion E a request digest (ve_Sequence final))))))"

definition SuspendAndRecover ::
  "ed25519 \<Rightarrow> recovery_Authority option \<Rightarrow> (nat \<Rightarrow> bool) \<Rightarrow> recovery_Request \<Rightarrow>
   (recovery_state, recovery_Attestation) prog" where
  "SuspendAndRecover E authority cancelled request st =
     (case authority of
        None \<Rightarrow> (Inl (ErrUnavailable PkgRecovery ''dependency unavailable''), st)
      | Some a \<Rightarrow>
          if cancelled 0 then (Inl (ErrUnavailable PkgRecovery ''context cancelled''), st)
          else let code = recovery_validateRequest request in
            if code \<noteq> [] then recovery_denied E a request code st
            else recover E a cancelled request st)"

section \<open>The abstract order of a recovery\<close>

text \<open>
  The abstract machine: the steps that remain and the calls made so far. A step is called
  only when all before it succeeded, on the cage of the request; the capture must return a
  SHA-256 digest, and the hand-off is given that digest.
\<close>

fun step_ok :: "recovery_step \<Rightarrow> string option \<Rightarrow> bool" where
  "step_ok s None = False"
| "step_ok s (Some d) = (s = CaptureEvidence \<longrightarrow> digestPattern d)"

inductive kill_first :: "recovery_Request \<Rightarrow> recovery_step list \<Rightarrow> string \<Rightarrow> effect list \<Rightarrow> bool" for request where
  begun: "kill_first request all_steps [] []"
| stepped: "kill_first request (s # rest) digest tr \<Longrightarrow> step_ok s r \<Longrightarrow>
     digest' = (if s = CaptureEvidence then the r else digest) \<Longrightarrow>
     kill_first request rest digest' (tr @ [(s, step_args request digest s, r)])"

definition kill_first_halted :: "recovery_Request \<Rightarrow> effect list \<Rightarrow> bool" where
  "kill_first_halted request tr \<longleftrightarrow>
     (\<exists>s rest digest tr' r. kill_first request (s # rest) digest tr' \<and> \<not> step_ok s r \<and>
        tr = tr' @ [(s, step_args request digest s, r)])"

lemma kill_first_steps: "kill_first request rest digest tr \<Longrightarrow> map fst tr @ rest = all_steps"
  by (induction rule: kill_first.induct) (auto simp: all_steps_def)

lemma all_steps_sorted: "sorted all_steps" "distinct all_steps"
  by (simp_all add: all_steps_def less_eq_recovery_step_def)

lemma step_args_cage: "step_args request digest s \<noteq> [] \<and> hd (step_args request digest s) = vq_CageID request"
  by (cases s) auto

lemma kill_first_ok:
  "kill_first request rest digest tr \<Longrightarrow> (s, args, r) \<in> set tr \<Longrightarrow> step_ok s r \<and> args \<noteq> [] \<and> hd args = vq_CageID request"
  by (induction rule: kill_first.induct) (auto simp: step_args_cage)

lemma kill_first_digest:
  "kill_first request rest digest tr \<Longrightarrow>
     (\<forall>args r. (CaptureEvidence, args, r) \<in> set tr \<longrightarrow> r = Some digest \<and> digestPattern digest) \<and>
     (CaptureEvidence \<notin> set rest \<longrightarrow> CaptureEvidence \<in> fst ` set tr)"
proof (induction rule: kill_first.induct)
  case (stepped s rest digest tr r digest')
  have d: "distinct (map fst tr @ s # rest)" using kill_first_steps [OF stepped(1)] all_steps_sorted(2) by simp
  show ?case
  proof (cases "s = CaptureEvidence")
    case True
    then have "CaptureEvidence \<notin> fst ` set tr" using d by auto
    then show ?thesis using True stepped by (cases r) (auto simp: image_iff)
  next
    case False
    then show ?thesis using stepped by auto
  qed
qed (simp add: all_steps_def)

section \<open>Refinement of the abstract order\<close>

definition at_steps :: "recovery_Request \<Rightarrow> effect list \<Rightarrow> recovery_step list \<Rightarrow> string \<Rightarrow> recovery_state \<Rightarrow> bool" where
  "at_steps request tr0 rest digest st \<longleftrightarrow> (\<exists>tr. rs_effects st = tr0 @ tr \<and> kill_first request rest digest tr)"

definition stopped :: "recovery_Request \<Rightarrow> effect list \<Rightarrow> recovery_state \<Rightarrow> bool" where
  "stopped request tr0 st \<longleftrightarrow>
     (\<exists>tr. rs_effects st = tr0 @ tr \<and> ((\<exists>rest digest. kill_first request rest digest tr) \<or> kill_first_halted request tr))"

lemma at_steps_stopped: "at_steps request tr0 rest digest st \<Longrightarrow> stopped request tr0 st"
  by (auto simp: at_steps_def stopped_def)

lemma emit_effects: "emit E a request action outcome evidence code st = (res, st') \<Longrightarrow> rs_effects st' = rs_effects st"
  by (auto simp: emit_def Let_def RecordEvent_def split: sum.splits if_splits)

lemma emit_triple:
  assumes "\<And>st st'. rs_effects st' = rs_effects st \<Longrightarrow> P st \<Longrightarrow> Q st'" "\<And>st. Q st \<Longrightarrow> R st"
  shows "triple P (emit E a request action outcome evidence code) (\<lambda>_. Q) (\<lambda>_. R)"
  using assms by (intro tripleI) (metis emit_effects)+

lemma at_steps_cong: "rs_effects st' = rs_effects st \<Longrightarrow> at_steps request tr0 rest digest st \<Longrightarrow> at_steps request tr0 rest digest st'"
  by (simp add: at_steps_def)

lemma stopped_cong: "rs_effects st' = rs_effects st \<Longrightarrow> stopped request tr0 st \<Longrightarrow> stopped request tr0 st'"
  by (simp add: stopped_def)

lemma failed_triple: "triple (stopped request tr0) (recovery_failed E a request action code evidence) Q (\<lambda>_. stopped request tr0)"
  unfolding recovery_failed_def
  by (rule triple_then [OF emit_triple [of _ "stopped request tr0"] triple_fail]) (auto intro: stopped_cong)

lemma failed_never [simp]: "recovery_failed E a request action code evidence st \<noteq> (Inr x, st')"
  by (auto simp: recovery_failed_def thenE_def bindE_def failE_def split: prod.splits sum.splits)

lemma failed_stopped:
  "stopped request tr0 st \<Longrightarrow> recovery_failed E a request action code evidence st = (Inl err, st') \<Longrightarrow> stopped request tr0 st'"
  using tripleD(2) [OF failed_triple] by metis

lemma perform_step:
  assumes "at_steps request tr0 (s # rest) digest st" "perform a request digest s st = (r, st')"
  shows "if step_ok s r then at_steps request tr0 rest (if s = CaptureEvidence then the r else digest) st'
    else stopped request tr0 st'"
proof -
  obtain tr where tr: "rs_effects st = tr0 @ tr" "kill_first request (s # rest) digest tr"
    using assms(1) by (auto simp: at_steps_def)
  have e: "rs_effects st' = tr0 @ tr @ [(s, step_args request digest s, r)]"
    using assms(2) tr(1) by (auto simp: perform_def Let_def)
  show ?thesis
  proof (cases "step_ok s r")
    case True
    then show ?thesis using e kill_first.stepped [OF tr(2) True refl] by (simp add: at_steps_def)
  next
    case False
    then have "kill_first_halted request (tr @ [(s, step_args request digest s, r)])"
      using tr(2) by (auto simp: kill_first_halted_def)
    then show ?thesis using e False by (simp add: stopped_def)
  qed
qed

lemma run_step_triple:
  assumes "s \<noteq> CaptureEvidence"
  shows "triple (at_steps request tr0 (s # rest) digest) (run_step E a request digest s)
    (\<lambda>_. at_steps request tr0 rest digest) (\<lambda>_. stopped request tr0)"
proof (rule tripleI)
  fix st ev st'
  assume at: "at_steps request tr0 (s # rest) digest st" and run: "run_step E a request digest s st = (Inr ev, st')"
  obtain r st1 where p: "perform a request digest s st = (r, st1)" by fastforce
  have "step_ok s r" "emit E a request (step_action s) ''completed'' digest ''completed'' st1 = (Inr ev, st')"
    using run p assms by (cases r; simp add: run_step_def)+
  then show "at_steps request tr0 rest digest st'"
    using perform_step [OF at p] assms emit_effects at_steps_cong by fastforce
next
  fix st err st'
  assume at: "at_steps request tr0 (s # rest) digest st" and run: "run_step E a request digest s st = (Inl err, st')"
  obtain r st1 where p: "perform a request digest s st = (r, st1)" by fastforce
  have st1: "stopped request tr0 st1" using perform_step [OF at p] at_steps_stopped by (auto split: if_splits)
  show "stopped request tr0 st'"
  proof (cases r)
    case None
    then show ?thesis using run p failed_stopped [OF st1] by (simp add: run_step_def)
  next
    case (Some d)
    then show ?thesis using run p st1 emit_effects stopped_cong by (auto simp: run_step_def)
  qed
qed

lemma suspend_triple:
  "CaptureEvidence \<notin> set steps \<Longrightarrow>
   triple (at_steps request tr0 (steps @ rest) []) (suspend_steps E a request cancelled k steps)
     (\<lambda>_. at_steps request tr0 rest []) (\<lambda>_. stopped request tr0)"
proof (induction steps arbitrary: k)
  case (Cons s steps)
  then have "triple (at_steps request tr0 (s # steps @ rest) []) (run_step E a request [] s)
      (\<lambda>_. at_steps request tr0 (steps @ rest) []) (\<lambda>_. stopped request tr0)"
    by (intro run_step_triple) auto
  with Cons show ?case
    by (auto intro!: triple_then intro: triple_conseq [OF failed_triple] at_steps_stopped)
qed (auto intro: triple_return)

lemma capture_triple:
  "triple (at_steps request tr0 (CaptureEvidence # rest) []) (capture_evidence E a request)
     (\<lambda>digest. at_steps request tr0 rest digest) (\<lambda>_. stopped request tr0)"
proof -
  have run: "case res of Inr d \<Rightarrow> at_steps request tr0 rest d st' | Inl err \<Rightarrow> stopped request tr0 st'"
    if at: "at_steps request tr0 (CaptureEvidence # rest) [] st" and run: "capture_evidence E a request st = (res, st')" for st res st'
  proof -
    obtain r st1 where p: "perform a request [] CaptureEvidence st = (r, st1)" by fastforce
    have st1: "stopped request tr0 st1" using perform_step [OF at p] at_steps_stopped by (auto split: if_splits)
    show ?thesis
    proof (cases "step_ok CaptureEvidence r")
      case False
      then have "recovery_failed E a request ''captureEvidence'' ''evidenceUnavailable'' [] st1 = (res, st')"
        using run p by (cases r) (auto simp: capture_evidence_def)
      then show ?thesis using failed_stopped [OF st1] by (cases res) auto
    next
      case True
      then obtain d where d: "r = Some d" "digestPattern d" by (cases r) auto
      then have "thenE (emit E a request ''captureEvidence'' ''completed'' d ''completed'') (returnE d) st1 = (res, st')"
        using run p by (simp add: capture_evidence_def)
      moreover have "at_steps request tr0 rest d st1" using perform_step [OF at p] True d by simp
      ultimately show ?thesis
        using emit_effects at_steps_cong stopped_cong st1
        by (fastforce simp: thenE_def bindE_def returnE_def split: prod.splits sum.splits)
    qed
  qed
  then show ?thesis by (auto simp: triple_def)
qed

lemma completion_triple:
  "triple (at_steps request tr0 [] digest) (issue_completion E a request digest seq)
     (\<lambda>att st. at_steps request tr0 [] digest st \<and> va_EvidenceDigest att = digest) (\<lambda>_. stopped request tr0)"
proof (rule tripleI)
  fix st att st'
  assume "at_steps request tr0 [] digest st" "issue_completion E a request digest seq st = (Inr att, st')"
  then show "at_steps request tr0 [] digest st' \<and> va_EvidenceDigest att = digest"
    using completion_sig.sign_record_cases
    by (fastforce simp: issue_completion_def Let_def recovery_SignAttestation_def at_steps_def set_completion_sig_def
        new_completion_def split: sum.splits)
next
  fix st err st'
  assume "at_steps request tr0 [] digest st" "issue_completion E a request digest seq st = (Inl err, st')"
  then have "rs_effects st' = rs_effects st" "stopped request tr0 st"
    by (auto simp: issue_completion_def Let_def at_steps_stopped split: sum.splits)
  then show "stopped request tr0 st'" by (rule stopped_cong)
qed

lemma recover_triple:
  "triple (\<lambda>st. rs_effects st = tr0) (recover E a cancelled request)
     (\<lambda>att st. at_steps request tr0 [] (va_EvidenceDigest att) st) (\<lambda>_. stopped request tr0)"
proof -
  have e: "triple (\<lambda>st. rs_effects st = tr0) (emit E a request ''recordRequest'' ''accepted'' [] ''accepted'')
      (\<lambda>_. at_steps request tr0 all_steps []) (\<lambda>_. stopped request tr0)"
    by (rule emit_triple) (auto simp: at_steps_def kill_first.begun intro: at_steps_stopped)
  have s: "triple (at_steps request tr0 all_steps []) (suspend_steps E a request cancelled 1 [Kill, Freeze, WithdrawNetwork])
      (\<lambda>_. at_steps request tr0 [CaptureEvidence, Destroy, Handoff] []) (\<lambda>_. stopped request tr0)"
    using suspend_triple [of "[Kill, Freeze, WithdrawNetwork]" request tr0 "[CaptureEvidence, Destroy, Handoff]"]
    by (simp only: all_steps_def append.simps) (simp del: suspend_steps.simps)
  have c: "triple (at_steps request tr0 [] digest) (issue_completion E a request digest seq)
      (\<lambda>att st. at_steps request tr0 [] (va_EvidenceDigest att) st) (\<lambda>_. stopped request tr0)" for digest seq
    by (rule triple_conseq [OF completion_triple]) auto
  show ?thesis
    unfolding recover_def
    by (rule triple_then [OF e], rule triple_then [OF s], rule triple_bind [OF capture_triple],
        rule triple_then [OF run_step_triple], simp, rule triple_bind [OF run_step_triple], simp, rule c)
qed

section \<open>The journal\<close>

text \<open>What the events of one call look like: they verify, and their numbers continue the sequence.\<close>

definition journalled :: "ed25519 \<Rightarrow> bytes \<Rightarrow> recovery_state \<Rightarrow> (string \<times> string) list \<Rightarrow> recovery_state \<Rightarrow> bool" where
  "journalled E pub st0 acts st \<longleftrightarrow>
     (\<exists>new. rs_journal st = rs_journal st0 @ new \<and> map (\<lambda>(e, _). (ve_Action e, ve_Outcome e)) new = acts \<and>
        rs_sequence st = rs_sequence st0 + of_nat (length new) \<and>
        (\<forall>i<length new. ve_Sequence (fst (new ! i)) = rs_sequence st0 + of_nat (Suc i)) \<and>
        (\<forall>x\<in>set new. VerifyEvent E (fst x) pub = None))"

definition signs :: "ed25519 \<Rightarrow> recovery_Authority \<Rightarrow> bool" where
  "signs E a \<longleftrightarrow> ed25519_correct E \<and> ed_key E (rd_key a) \<and>
     (\<forall>n. time_encodable (time_UTC (rd_clock a n)) \<and> \<not> time_IsZero (rd_clock a n))"

lemma recovery_validateRequest_iff:
  "recovery_validateRequest v = [] \<longleftrightarrow> vq_Schema v = recovery_Schema \<and> requestIDPattern (vq_RecoveryID v) \<and>
     cageIDPattern (vq_CageID v) \<and> spiffePattern (vq_CallerSPIFFEID v) \<and> hostIDPattern (vq_HostIdentity v) \<and>
     digestPattern (vq_PolicyDigest v) \<and> vq_ReasonCode v \<in> set reasonCodes"
  unfolding recovery_validateRequest_def by (subst reason_chain, simp)+ blast

lemma SignEvent_total:
  assumes "signs E a" "time_encodable (ve_ObservedAt v)"
  shows "\<exists>s. SignEvent E v (rd_key a) = Inr (set_event_sig ''ed25519'' s v)"
proof -
  have "canonicalEvent (set_event_sig ''ed25519'' [] v) = Some (json_print (json_Event ((set_event_sig ''ed25519'' [] v)\<lparr>ve_Signature := []\<rparr>)))"
    using assms(2) by (simp add: canonicalEvent_def set_event_sig_def)
  moreover have "length (rd_key a) = PrivateKeySize" using assms(1) by (simp add: signs_def ed_key_def)
  ultimately show ?thesis unfolding SignEvent_def using event_sig.sign_record_total by blast
qed

lemma emit_journal:
  assumes "signs E a" "recovery_validateRequest request = []" "action \<noteq> []" "outcome \<noteq> []" "code \<noteq> []"
    and "evidence = [] \<or> digestPattern evidence" "rs_sequence st + 1 \<noteq> 0"
    and "emit E a request action outcome evidence code st = (res, st')"
  obtains ev ok where "rs_journal st' = rs_journal st @ [(ev, ok)]" "rs_sequence st' = rs_sequence st + 1"
    "VerifyEvent E ev (key_Public (rd_key a)) = None" "ve_Sequence ev = rs_sequence st + 1"
    "ve_Action ev = action" "ve_Outcome ev = outcome" "\<And>x. res = Inr x \<Longrightarrow> x = ev \<and> ok"
proof -
  let ?e = "new_event request action outcome evidence code (rs_sequence st + 1) (rd_clock a (rs_ticks st))"
  have "time_encodable (ve_ObservedAt ?e)" using assms(1) by (simp add: signs_def new_event_def)
  then obtain s where s: "SignEvent E ?e (rd_key a) = Inr (set_event_sig ''ed25519'' s ?e)"
    using SignEvent_total [OF assms(1)] by blast
  let ?ev = "set_event_sig ''ed25519'' s ?e"
  have key: "ed25519_correct E" "ed_key E (rd_key a)" using assms(1) by (simp_all add: signs_def)
  have "validateEvent ?ev = []"
    using assms(1-7) by (auto simp: validateEvent_def set_event_sig_def new_event_def recovery_validateRequest_iff
        signs_def SignatureAlgorithm_def)
  then have v: "VerifyEvent E ?ev (key_Public (rd_key a)) = None"
    using event_sig.sign_record_verifies(1) [OF key s [unfolded SignEvent_def]] key(2) by (simp add: VerifyEvent_def)
  have sel: "ve_Sequence ?ev = rs_sequence st + 1" "ve_Action ?ev = action" "ve_Outcome ?ev = outcome"
    by (simp_all add: set_event_sig_def new_event_def)
  have "\<exists>ok. rs_journal st' = rs_journal st @ [(?ev, ok)] \<and> rs_sequence st' = rs_sequence st + 1 \<and> (\<forall>x. res = Inr x \<longrightarrow> x = ?ev \<and> ok)"
    using assms(8) s by (auto simp: emit_def Let_def RecordEvent_def split: if_splits)
  then show ?thesis using that v sel by blast
qed

lemma seq_nonzero: "unat (s :: u64) + n < 2 ^ 64 \<Longrightarrow> 0 < n \<Longrightarrow> s + of_nat n \<noteq> 0"
proof -
  assume a: "unat s + n < 2 ^ 64" "0 < n"
  have "s + of_nat n = of_nat (unat s + n)" by simp
  moreover have "\<not> 2 ^ 64 dvd unat s + n" using a by (auto dest: dvd_imp_le)
  ultimately show ?thesis by (simp add: word_of_nat_eq_0_iff del: of_nat_add)
qed

lemma emit_journalled:
  assumes "signs E a" "recovery_validateRequest request = []" "action \<noteq> []" "outcome \<noteq> []" "code \<noteq> []"
    and "evidence = [] \<or> digestPattern evidence" "unat (rs_sequence st0) + 7 < 2 ^ 64" "length acts < 7"
    and "emit E a request action outcome evidence code st = (res, st')"
    and "journalled E (key_Public (rd_key a)) st0 acts st"
  shows "journalled E (key_Public (rd_key a)) st0 (acts @ [(action, outcome)]) st'"
    and "res = Inr ev \<Longrightarrow> ve_Sequence ev = rs_sequence st0 + of_nat (Suc (length acts)) \<and> rs_sequence st' = ve_Sequence ev"
proof -
  obtain new where n: "rs_journal st = rs_journal st0 @ new" "map (\<lambda>(e, _). (ve_Action e, ve_Outcome e)) new = acts"
      "rs_sequence st = rs_sequence st0 + of_nat (length new)"
      "\<forall>i<length new. ve_Sequence (fst (new ! i)) = rs_sequence st0 + of_nat (Suc i)"
      "\<forall>x\<in>set new. VerifyEvent E (fst x) (key_Public (rd_key a)) = None"
    using assms(10) by (auto simp: journalled_def)
  have len: "length new = length acts" using n(2) by auto
  have seq: "rs_sequence st + 1 = rs_sequence st0 + of_nat (Suc (length acts))" by (simp add: n(3) len)
  have nz: "rs_sequence st + 1 \<noteq> 0"
    unfolding seq using assms(7,8) by (intro seq_nonzero) auto
  obtain e ok where e: "rs_journal st' = rs_journal st @ [(e, ok)]" "rs_sequence st' = rs_sequence st + 1"
    "VerifyEvent E e (key_Public (rd_key a)) = None" "ve_Sequence e = rs_sequence st + 1"
    "ve_Action e = action" "ve_Outcome e = outcome" "\<And>x. res = Inr x \<Longrightarrow> x = e \<and> ok"
    using emit_journal [OF assms(1-6) nz assms(9)] by metis
  have "\<forall>i<length (new @ [(e, ok)]). ve_Sequence (fst ((new @ [(e, ok)]) ! i)) = rs_sequence st0 + of_nat (Suc i)"
    using n(4) e(4) seq len by (auto simp: nth_append less_Suc_eq)
  then show "journalled E (key_Public (rd_key a)) st0 (acts @ [(action, outcome)]) st'"
    unfolding journalled_def using n e seq len by (intro exI [of _ "new @ [(e, ok)]"]) auto
  show "res = Inr ev \<Longrightarrow> ve_Sequence ev = rs_sequence st0 + of_nat (Suc (length acts)) \<and> rs_sequence st' = ve_Sequence ev"
    using e(2,4,7) seq by auto
qed

text \<open>The same as triples; an early return leaves at most seven events.\<close>

definition left_journal :: "ed25519 \<Rightarrow> bytes \<Rightarrow> recovery_state \<Rightarrow> recovery_state \<Rightarrow> bool" where
  "left_journal E pub st0 st \<longleftrightarrow> (\<exists>acts. length acts \<le> 7 \<and> journalled E pub st0 acts st)"

lemma journalled_cong:
  "rs_journal st' = rs_journal st \<Longrightarrow> rs_sequence st' = rs_sequence st \<Longrightarrow> journalled E pub st0 acts st \<Longrightarrow> journalled E pub st0 acts st'"
  by (simp add: journalled_def)

lemma perform_journal: "perform a request digest s st = (r, st') \<Longrightarrow> rs_journal st' = rs_journal st \<and> rs_sequence st' = rs_sequence st"
  by (auto simp: perform_def Let_def)

definition recovery_ready :: "ed25519 \<Rightarrow> recovery_Authority \<Rightarrow> recovery_Request \<Rightarrow> recovery_state \<Rightarrow> bool" where
  "recovery_ready E a request st0 \<longleftrightarrow>
     signs E a \<and> recovery_validateRequest request = [] \<and> unat (rs_sequence st0) + 7 < 2 ^ 64"

lemma emit_journal_triple:
  assumes "recovery_ready E a request st0" "action \<noteq> []" "outcome \<noteq> []" "code \<noteq> []"
    and "evidence = [] \<or> digestPattern evidence" "length acts < 7"
  shows "triple (journalled E (key_Public (rd_key a)) st0 acts) (emit E a request action outcome evidence code)
    (\<lambda>ev st. journalled E (key_Public (rd_key a)) st0 (acts @ [(action, outcome)]) st \<and>
       ve_Sequence ev = rs_sequence st0 + of_nat (Suc (length acts)))
    (\<lambda>_. left_journal E (key_Public (rd_key a)) st0)"
proof (rule tripleI)
  note r = assms(1) [unfolded recovery_ready_def]
  fix st ev st'
  assume "journalled E (key_Public (rd_key a)) st0 acts st" "emit E a request action outcome evidence code st = (Inr ev, st')"
  then show "journalled E (key_Public (rd_key a)) st0 (acts @ [(action, outcome)]) st' \<and>
      ve_Sequence ev = rs_sequence st0 + of_nat (Suc (length acts))"
    using emit_journalled [of E a request action outcome code evidence st0 acts st "Inr ev" st'] r assms(2-6) by blast
next
  note r = assms(1) [unfolded recovery_ready_def]
  fix st err st'
  assume "journalled E (key_Public (rd_key a)) st0 acts st" "emit E a request action outcome evidence code st = (Inl err, st')"
  then have "journalled E (key_Public (rd_key a)) st0 (acts @ [(action, outcome)]) st'"
    using emit_journalled(1) [of E a request action outcome code evidence st0 acts st "Inl err" st'] r assms(2-6) by blast
  then show "left_journal E (key_Public (rd_key a)) st0 st'"
    using assms(6) unfolding left_journal_def by (intro exI [of _ "acts @ [(action, outcome)]"]) auto
qed

lemma failed_journal_triple:
  assumes "recovery_ready E a request st0" "action \<noteq> []" "code \<noteq> []" "evidence = [] \<or> digestPattern evidence" "length acts < 7"
  shows "triple (journalled E (key_Public (rd_key a)) st0 acts) (recovery_failed E a request action code evidence)
    Q (\<lambda>_. left_journal E (key_Public (rd_key a)) st0)"
  unfolding recovery_failed_def
proof (rule triple_then)
  show "triple (journalled E (key_Public (rd_key a)) st0 acts) (emit E a request action ''failed'' evidence code)
      (\<lambda>_. left_journal E (key_Public (rd_key a)) st0) (\<lambda>_. left_journal E (key_Public (rd_key a)) st0)"
    using assms by (intro triple_conseq [OF emit_journal_triple]) (auto simp: left_journal_def intro!: exI [of _ "acts @ [(action, ''failed'')]"])
qed (rule triple_fail)

lemma step_action_nonempty [simp]: "step_action s \<noteq> []"
  by (cases s) auto

lemma run_step_journal:
  assumes "recovery_ready E a request st0" "digest = [] \<or> digestPattern digest" "length acts < 7"
  shows "triple (journalled E (key_Public (rd_key a)) st0 acts) (run_step E a request digest s)
    (\<lambda>ev st. journalled E (key_Public (rd_key a)) st0 (acts @ [(step_action s, ''completed'')]) st \<and>
       ve_Sequence ev = rs_sequence st0 + of_nat (Suc (length acts)))
    (\<lambda>_. left_journal E (key_Public (rd_key a)) st0)"
proof -
  have f: "triple (journalled E (key_Public (rd_key a)) st0 acts) (recovery_failed E a request (step_action s) ''stepFailed'' digest)
      (\<lambda>ev st. journalled E (key_Public (rd_key a)) st0 (acts @ [(step_action s, ''completed'')]) st \<and>
       ve_Sequence ev = rs_sequence st0 + of_nat (Suc (length acts))) (\<lambda>_. left_journal E (key_Public (rd_key a)) st0)"
    using assms by (intro failed_journal_triple) auto
  have e: "triple (journalled E (key_Public (rd_key a)) st0 acts) (emit E a request (step_action s) ''completed'' digest ''completed'')
      (\<lambda>ev st. journalled E (key_Public (rd_key a)) st0 (acts @ [(step_action s, ''completed'')]) st \<and>
       ve_Sequence ev = rs_sequence st0 + of_nat (Suc (length acts))) (\<lambda>_. left_journal E (key_Public (rd_key a)) st0)"
    using assms by (intro emit_journal_triple) auto
  show ?thesis
    unfolding triple_def
  proof (intro allI impI)
    fix st res st'
    assume j: "journalled E (key_Public (rd_key a)) st0 acts st" and run: "run_step E a request digest s st = (res, st')"
    obtain r st1 where p: "perform a request digest s st = (r, st1)" by fastforce
    have "journalled E (key_Public (rd_key a)) st0 acts st1" using perform_journal [OF p] journalled_cong j by blast
    then show "case res of Inl err \<Rightarrow> left_journal E (key_Public (rd_key a)) st0 st'
      | Inr ev \<Rightarrow> journalled E (key_Public (rd_key a)) st0 (acts @ [(step_action s, ''completed'')]) st' \<and>
          ve_Sequence ev = rs_sequence st0 + of_nat (Suc (length acts))"
      using run p f e unfolding triple_def by (cases r) (auto simp: run_step_def simp del: of_nat_Suc)
  qed
qed

lemma suspend_journal:
  assumes "recovery_ready E a request st0" "length acts + length steps \<le> 4"
  shows "triple (journalled E (key_Public (rd_key a)) st0 acts) (suspend_steps E a request cancelled k steps)
    (\<lambda>_. journalled E (key_Public (rd_key a)) st0 (acts @ map (\<lambda>s. (step_action s, ''completed'')) steps))
    (\<lambda>_. left_journal E (key_Public (rd_key a)) st0)"
  using assms(2)
proof (induction steps arbitrary: acts k)
  case (Cons s steps)
  have "triple (journalled E (key_Public (rd_key a)) st0 acts) (run_step E a request [] s)
      (\<lambda>_. journalled E (key_Public (rd_key a)) st0 (acts @ [(step_action s, ''completed'')]))
      (\<lambda>_. left_journal E (key_Public (rd_key a)) st0)"
    using Cons.prems by (intro triple_conseq [OF run_step_journal [OF assms(1)]]) auto
  moreover have "triple (journalled E (key_Public (rd_key a)) st0 (acts @ [(step_action s, ''completed'')]))
      (suspend_steps E a request cancelled (k + 1) steps)
      (\<lambda>_. journalled E (key_Public (rd_key a)) st0 (acts @ map (\<lambda>s. (step_action s, ''completed'')) (s # steps)))
      (\<lambda>_. left_journal E (key_Public (rd_key a)) st0)"
    using Cons.IH [of "acts @ [(step_action s, ''completed'')]" "k + 1"] Cons.prems by simp
  ultimately show ?case
    using Cons.prems by (auto intro: triple_then failed_journal_triple [OF assms(1)])
qed (auto intro: triple_return)

lemma capture_journal:
  assumes "recovery_ready E a request st0" "length acts < 7"
  shows "triple (journalled E (key_Public (rd_key a)) st0 acts) (capture_evidence E a request)
    (\<lambda>digest st. journalled E (key_Public (rd_key a)) st0 (acts @ [(''captureEvidence'', ''completed'')]) st \<and> digestPattern digest)
    (\<lambda>_. left_journal E (key_Public (rd_key a)) st0)"
proof -
  let ?Q = "\<lambda>digest st. journalled E (key_Public (rd_key a)) st0 (acts @ [(''captureEvidence'', ''completed'')]) st \<and> digestPattern digest"
  let ?R = "\<lambda>_. left_journal E (key_Public (rd_key a)) st0"
  have f: "triple (journalled E (key_Public (rd_key a)) st0 acts)
      (recovery_failed E a request ''captureEvidence'' ''evidenceUnavailable'' []) ?Q ?R"
    using assms by (intro failed_journal_triple) auto
  have e: "triple (journalled E (key_Public (rd_key a)) st0 acts)
      (thenE (emit E a request ''captureEvidence'' ''completed'' d ''completed'') (returnE d)) ?Q ?R" if "digestPattern d" for d
    using assms that
    by (intro triple_then [where M = "journalled E (key_Public (rd_key a)) st0 (acts @ [(''captureEvidence'', ''completed'')])"]
        triple_return triple_conseq [OF emit_journal_triple]) auto
  show ?thesis
    unfolding triple_def
  proof (intro allI impI)
    fix st res st'
    assume j: "journalled E (key_Public (rd_key a)) st0 acts st" and run: "capture_evidence E a request st = (res, st')"
    obtain r st1 where p: "perform a request [] CaptureEvidence st = (r, st1)" by fastforce
    have "journalled E (key_Public (rd_key a)) st0 acts st1" using perform_journal [OF p] journalled_cong j by blast
    then show "case res of Inl err \<Rightarrow> ?R err st' | Inr x \<Rightarrow> ?Q x st'"
      using run p f e unfolding triple_def by (cases r) (auto simp: capture_evidence_def split: if_splits)
  qed
qed

definition completed_acts :: "(string \<times> string) list" where
  "completed_acts = (''recordRequest'', ''accepted'') # map (\<lambda>s. (step_action s, ''completed'')) all_steps"

lemma recovery_SignAttestation_verifies:
  assumes "signs E a" "recovery_validateRequest request = []" "digestPattern digest" "seq \<noteq> 0"
    and "issue_completion E a request digest seq st = (Inr att, st')"
  shows "recovery_VerifyAttestation E att (key_Public (rd_key a)) = None \<and> va_FinalSequence att = seq \<and>
    va_RecoveryID att = vq_RecoveryID request \<and> va_CageID att = vq_CageID request"
proof -
  have key: "ed25519_correct E" "ed_key E (rd_key a)" using assms(1) by (simp_all add: signs_def)
  let ?c = "new_completion request digest seq (rd_clock a (rs_ticks st))"
  have s: "sign_record E canonicalCompletion set_completion_sig (rd_key a) ?c = Inr att"
    using assms(5) by (auto simp: issue_completion_def Let_def recovery_SignAttestation_def split: sum.splits)
  obtain sig where "att = set_completion_sig ''ed25519'' sig ?c"
    using completion_sig.sign_record_cases [OF s] by metis
  then show ?thesis
    using completion_sig.sign_record_verifies [OF key s] assms(2-4) key(2)
    by (auto simp: recovery_VerifyAttestation_def recovery_validateRequest_iff set_completion_sig_def new_completion_def
        SignatureAlgorithm_def)
qed

lemma completion_journal:
  assumes "recovery_ready E a request st0" "digestPattern digest"
  shows "triple (journalled E (key_Public (rd_key a)) st0 completed_acts)
    (issue_completion E a request digest (rs_sequence st0 + 7))
    (\<lambda>att st. journalled E (key_Public (rd_key a)) st0 completed_acts st \<and>
       recovery_VerifyAttestation E att (key_Public (rd_key a)) = None \<and> va_FinalSequence att = rs_sequence st0 + 7 \<and>
       va_RecoveryID att = vq_RecoveryID request \<and> va_CageID att = vq_CageID request)
    (\<lambda>_. left_journal E (key_Public (rd_key a)) st0)"
proof (rule tripleI)
  have "rs_sequence st0 + 7 \<noteq> 0" using seq_nonzero [of "rs_sequence st0" 7] assms(1) by (simp add: recovery_ready_def)
  note v = recovery_SignAttestation_verifies [OF _ _ assms(2) this, of E a request]
  fix st att st'
  assume j: "journalled E (key_Public (rd_key a)) st0 completed_acts st"
    and i: "issue_completion E a request digest (rs_sequence st0 + 7) st = (Inr att, st')"
  have "rs_journal st' = rs_journal st" "rs_sequence st' = rs_sequence st"
    using i by (auto simp: issue_completion_def Let_def split: sum.splits)
  then show "journalled E (key_Public (rd_key a)) st0 completed_acts st' \<and>
       recovery_VerifyAttestation E att (key_Public (rd_key a)) = None \<and> va_FinalSequence att = rs_sequence st0 + 7 \<and>
       va_RecoveryID att = vq_RecoveryID request \<and> va_CageID att = vq_CageID request"
    using j v [OF _ _ i] assms(1) journalled_cong unfolding recovery_ready_def by blast
next
  fix st err st'
  assume j: "journalled E (key_Public (rd_key a)) st0 completed_acts st"
    and i: "issue_completion E a request digest (rs_sequence st0 + 7) st = (Inl err, st')"
  have "rs_journal st' = rs_journal st" "rs_sequence st' = rs_sequence st"
    using i by (auto simp: issue_completion_def Let_def split: sum.splits)
  then have "journalled E (key_Public (rd_key a)) st0 completed_acts st'" using j journalled_cong by blast
  then show "left_journal E (key_Public (rd_key a)) st0 st'"
    unfolding left_journal_def by (intro exI [of _ completed_acts]) (simp add: completed_acts_def all_steps_def)
qed

lemma recover_journal:
  assumes "recovery_ready E a request st0"
  shows "triple (\<lambda>st. st = st0) (recover E a cancelled request)
    (\<lambda>att st. journalled E (key_Public (rd_key a)) st0 completed_acts st \<and>
       recovery_VerifyAttestation E att (key_Public (rd_key a)) = None \<and> va_FinalSequence att = rs_sequence st0 + 7 \<and>
       va_RecoveryID att = vq_RecoveryID request \<and> va_CageID att = vq_CageID request)
    (\<lambda>_. left_journal E (key_Public (rd_key a)) st0)"
proof -
  let ?J = "journalled E (key_Public (rd_key a)) st0" and ?L = "\<lambda>_ :: go_error. left_journal E (key_Public (rd_key a)) st0"
  let ?a1 = "[(''recordRequest'', ''accepted'')]"
  let ?a4 = "?a1 @ map (\<lambda>s. (step_action s, ''completed'')) [Kill, Freeze, WithdrawNetwork]"
  let ?a5 = "?a4 @ [(''captureEvidence'', ''completed'')]"
  let ?a6 = "?a5 @ [(step_action Destroy, ''completed'')]"
  have a7: "?a6 @ [(step_action Handoff, ''completed'')] = completed_acts"
    by (simp add: completed_acts_def all_steps_def)
  have e: "triple (\<lambda>st. st = st0) (emit E a request ''recordRequest'' ''accepted'' [] ''accepted'') (\<lambda>_. ?J ?a1) ?L"
    by (rule triple_conseq [OF emit_journal_triple [OF assms, where acts = "[]"]]) (auto simp: journalled_def)
  have s: "triple (?J ?a1) (suspend_steps E a request cancelled 1 [Kill, Freeze, WithdrawNetwork]) (\<lambda>_. ?J ?a4) ?L"
    using suspend_journal [OF assms, of ?a1 "[Kill, Freeze, WithdrawNetwork]"] by simp
  have c: "triple (?J ?a4) (capture_evidence E a request) (\<lambda>digest st. ?J ?a5 st \<and> digestPattern digest) ?L"
    by (rule capture_journal [OF assms]) simp
  have d: "triple (\<lambda>st. ?J ?a5 st \<and> digestPattern digest) (run_step E a request digest Destroy)
      (\<lambda>_ st. ?J ?a6 st \<and> digestPattern digest) ?L" for digest
  proof (cases "digestPattern digest")
    case True
    then show ?thesis
      using run_step_journal [OF assms, of digest ?a5 Destroy] by (auto elim: triple_conseq)
  qed (simp add: triple_def)
  have h: "triple (\<lambda>st. ?J ?a6 st \<and> digestPattern digest) (run_step E a request digest Handoff)
      (\<lambda>ev st. ?J completed_acts st \<and> ve_Sequence ev = rs_sequence st0 + 7 \<and> digestPattern digest) ?L" for digest
  proof (cases "digestPattern digest")
    case True
    then show ?thesis
      using run_step_journal [OF assms, of digest ?a6 Handoff] by (simp only: a7) (auto elim: triple_conseq)
  qed (simp add: triple_def)
  have i: "triple (\<lambda>st. ?J completed_acts st \<and> seq = rs_sequence st0 + 7 \<and> digestPattern digest)
      (issue_completion E a request digest seq)
      (\<lambda>att st. ?J completed_acts st \<and>
       recovery_VerifyAttestation E att (key_Public (rd_key a)) = None \<and> va_FinalSequence att = rs_sequence st0 + 7 \<and>
       va_RecoveryID att = vq_RecoveryID request \<and> va_CageID att = vq_CageID request) ?L" for seq digest
  proof (cases "seq = rs_sequence st0 + 7 \<and> digestPattern digest")
    case True
    then show ?thesis using completion_journal [OF assms, of digest] by (auto elim: triple_conseq)
  qed (auto simp: triple_def)
  show ?thesis
    unfolding recover_def
    by (rule triple_then [OF e], rule triple_then [OF s], rule triple_bind [OF c], rule triple_then [OF d],
        rule triple_bind [OF h], rule i)
qed

section \<open>What is recorded is kept\<close>

definition extends :: "recovery_state \<Rightarrow> recovery_state \<Rightarrow> bool" where
  "extends st st' \<longleftrightarrow> prefix (rs_journal st) (rs_journal st') \<and> prefix (rs_audit st) (rs_audit st')"

lemma emit_extends: "triple (extends st0) (emit E a request action outcome evidence code) (\<lambda>_. extends st0) (\<lambda>_. extends st0)"
  by (rule tripleI) (auto simp: emit_def extends_def Let_def RecordEvent_def prefix_def split: sum.splits if_splits)

lemma failed_extends: "triple (extends st0) (recovery_failed E a request action code evidence) Q (\<lambda>_. extends st0)"
  unfolding recovery_failed_def by (rule triple_then [OF emit_extends triple_fail])

lemma perform_extends: "extends st0 st \<Longrightarrow> perform a request digest s st = (r, st') \<Longrightarrow> extends st0 st'"
  by (auto simp: perform_def Let_def extends_def)

lemma run_step_extends: "triple (extends st0) (run_step E a request digest s) (\<lambda>_. extends st0) (\<lambda>_. extends st0)"
  unfolding triple_def
proof (intro allI impI)
  fix st res st'
  assume x: "extends st0 st" and run: "run_step E a request digest s st = (res, st')"
  obtain r st1 where p: "perform a request digest s st = (r, st1)" by fastforce
  note x1 = perform_extends [OF x p]
  show "case res of Inl err \<Rightarrow> extends st0 st' | Inr _ \<Rightarrow> extends st0 st'"
  proof (cases r)
    case None
    then have "recovery_failed E a request (step_action s) ''stepFailed'' digest st1 = (res, st')"
      using run p by (simp add: run_step_def)
    then show ?thesis by (rule triple_result [OF failed_extends x1])
  next
    case (Some d)
    then have "emit E a request (step_action s) ''completed'' digest ''completed'' st1 = (res, st')"
      using run p by (simp add: run_step_def)
    then show ?thesis by (rule triple_result [OF emit_extends x1])
  qed
qed

lemma suspend_extends: "triple (extends st0) (suspend_steps E a request cancelled k steps) (\<lambda>_. extends st0) (\<lambda>_. extends st0)"
  by (induction steps arbitrary: k) (auto intro: triple_return triple_then run_step_extends failed_extends)

lemma capture_extends: "triple (extends st0) (capture_evidence E a request) (\<lambda>_. extends st0) (\<lambda>_. extends st0)"
  unfolding triple_def
proof (intro allI impI)
  fix st res st'
  assume x: "extends st0 st" and run: "capture_evidence E a request st = (res, st')"
  obtain r st1 where p: "perform a request [] CaptureEvidence st = (r, st1)" by fastforce
  have e: "triple (extends st0) (thenE (emit E a request ''captureEvidence'' ''completed'' d ''completed'') (returnE d))
      (\<lambda>_. extends st0) (\<lambda>_. extends st0)" for d
    by (rule triple_then [OF emit_extends triple_return])
  note x1 = perform_extends [OF x p]
  show "case res of Inl err \<Rightarrow> extends st0 st' | Inr _ \<Rightarrow> extends st0 st'"
  proof (cases "step_ok CaptureEvidence r")
    case False
    then have "recovery_failed E a request ''captureEvidence'' ''evidenceUnavailable'' [] st1 = (res, st')"
      using run p by (cases r) (auto simp: capture_evidence_def)
    then show ?thesis by (rule triple_result [OF failed_extends x1])
  next
    case True
    then obtain d where "r = Some d" "digestPattern d" by (cases r) auto
    then have "thenE (emit E a request ''captureEvidence'' ''completed'' d ''completed'') (returnE d) st1 = (res, st')"
      using run p by (simp add: capture_evidence_def)
    then show ?thesis by (rule triple_result [OF e x1])
  qed
qed

lemma completion_extends: "triple (extends st0) (issue_completion E a request digest seq) (\<lambda>_. extends st0) (\<lambda>_. extends st0)"
  by (rule tripleI) (auto simp: issue_completion_def extends_def Let_def split: sum.splits)

lemma recover_recorded:
  assumes "recover E a cancelled request st = (res, st')" "rs_effects st' \<noteq> rs_effects st"
  shows "\<exists>ev later. rs_journal st' = rs_journal st @ (ev, True) # later \<and> ve_Action ev = ''recordRequest'' \<and>
    ve_Outcome ev = ''accepted'' \<and>
    (\<exists>more. rs_audit st' = rs_audit st @ (recovery_audit_event request ''recordRequest'' ''accepted'' ''accepted'' ev, True) # more)"
proof -
  obtain r1 st1 where e: "emit E a request ''recordRequest'' ''accepted'' [] ''accepted'' st = (r1, st1)" by fastforce
  have same: "rs_effects st1 = rs_effects st" using emit_effects [OF e] .
  then obtain ev where r1: "r1 = Inr ev" using assms e by (cases r1) (auto simp: recover_def)
  then have st1: "rs_journal st1 = rs_journal st @ [(ev, True)]"
    "rs_audit st1 = rs_audit st @ [(recovery_audit_event request ''recordRequest'' ''accepted'' ''accepted'' ev, True)]"
    using e by (auto simp: emit_def Let_def RecordEvent_def split: sum.splits if_splits)
  have ev: "ve_Action ev = ''recordRequest''" "ve_Outcome ev = ''accepted''"
  proof -
    obtain e0 where "SignEvent E e0 (rd_key a) = Inr ev" "ve_Action e0 = ''recordRequest''" "ve_Outcome e0 = ''accepted''"
      using e r1 by (auto simp: emit_def Let_def new_event_def RecordEvent_def split: sum.splits if_splits)
    then show "ve_Action ev = ''recordRequest''" "ve_Outcome ev = ''accepted''"
      unfolding SignEvent_def by (auto elim!: event_sig.sign_record_cases simp: set_event_sig_def)
  qed
  let ?rest = "thenE (suspend_steps E a request cancelled 1 [Kill, Freeze, WithdrawNetwork])
         (bindE (capture_evidence E a request) (\<lambda>digest.
           thenE (run_step E a request digest Destroy)
             (bindE (run_step E a request digest Handoff) (\<lambda>final.
               issue_completion E a request digest (ve_Sequence final)))))"
  have "triple (extends st1) ?rest (\<lambda>_. extends st1) (\<lambda>_. extends st1)"
    by (intro triple_then triple_bind) (rule suspend_extends capture_extends run_step_extends completion_extends)+
  moreover have "?rest st1 = (res, st')" using assms(1) e r1 by (simp add: recover_def)
  moreover have "extends st1 st1" by (simp add: extends_def)
  ultimately have "extends st1 st'" unfolding triple_def by (fastforce split: sum.splits)
  then show ?thesis using st1 ev by (auto simp: extends_def prefix_def)
qed

section \<open>A run in which every dependency works\<close>

definition willing :: "recovery_Authority \<Rightarrow> bool" where
  "willing a \<longleftrightarrow> (\<forall>j e. rd_journal a j e) \<and> (\<forall>l e. rd_audit a l e) \<and> (\<forall>tr s c. rd_controller a tr s c) \<and>
     (\<forall>tr c d. rd_handoff a tr c d) \<and> (\<forall>tr c r. \<exists>d. rd_evidence a tr c r = Some d \<and> digestPattern d)"

lemma emit_willing:
  assumes "signs E a" "willing a"
  shows "\<exists>ev st'. emit E a request action outcome evidence code st = (Inr ev, st')"
proof -
  have "time_encodable (ve_ObservedAt (new_event request action outcome evidence code (rs_sequence st + 1) (rd_clock a (rs_ticks st))))"
    using assms(1) by (simp add: signs_def new_event_def)
  then obtain s where "SignEvent E (new_event request action outcome evidence code (rs_sequence st + 1) (rd_clock a (rs_ticks st))) (rd_key a) =
      Inr (set_event_sig ''ed25519'' s (new_event request action outcome evidence code (rs_sequence st + 1) (rd_clock a (rs_ticks st))))"
    using SignEvent_total [OF assms(1)] by blast
  then show ?thesis using assms(2) by (simp add: emit_def Let_def RecordEvent_def willing_def)
qed

lemma run_step_willing:
  assumes "signs E a" "willing a" "s \<noteq> CaptureEvidence"
  shows "\<exists>ev st'. run_step E a request digest s st = (Inr ev, st')"
proof -
  have "call_step a request digest s tr = Some []" for tr
    using assms(2,3) by (cases s) (auto simp: willing_def)
  then show ?thesis using emit_willing [OF assms(1,2)] by (simp add: run_step_def perform_def Let_def)
qed

lemma suspend_willing:
  assumes "signs E a" "willing a"
  shows "CaptureEvidence \<notin> set steps \<Longrightarrow> \<forall>i<length steps. \<not> cancelled (k + i) \<Longrightarrow>
    \<exists>st'. suspend_steps E a request cancelled k steps st = (Inr (), st')"
proof (induction steps arbitrary: k st)
  case (Cons s steps)
  obtain ev st1 where "run_step E a request [] s st = (Inr ev, st1)"
    using run_step_willing [OF assms, of s] Cons.prems(1) by fastforce
  moreover have "\<not> cancelled k" using Cons.prems(2) by force
  moreover have "\<exists>st'. suspend_steps E a request cancelled (k + 1) steps st1 = (Inr (), st')"
  proof (rule Cons.IH)
    show "\<forall>i<length steps. \<not> cancelled (k + 1 + i)"
      using Cons.prems(2) by (metis Suc_less_eq add.assoc length_Cons plus_1_eq_Suc)
  qed (use Cons.prems(1) in auto)
  ultimately show ?case by simp
qed (simp add: returnE_def)

lemma capture_willing:
  assumes "signs E a" "willing a"
  shows "\<exists>d st'. capture_evidence E a request st = (Inr d, st')"
proof -
  obtain d where "rd_evidence a (rs_effects st) (vq_CageID request) (vq_ReasonCode request) = Some d" "digestPattern d"
    using assms(2) unfolding willing_def by blast
  moreover obtain ev st' where "emit E a request ''captureEvidence'' ''completed'' d ''completed''
      (st\<lparr>rs_effects := rs_effects st @ [(CaptureEvidence, [vq_CageID request, vq_ReasonCode request], Some d)]\<rparr>) = (Inr ev, st')"
    using emit_willing [OF assms] by blast
  ultimately show ?thesis by (simp add: capture_evidence_def perform_def Let_def returnE_def)
qed

lemma completion_willing:
  assumes "signs E a"
  shows "\<exists>att st'. issue_completion E a request digest seq st = (Inr att, st')"
proof -
  let ?c = "new_completion request digest seq (rd_clock a (rs_ticks st))"
  have "canonicalCompletion (set_completion_sig ''ed25519'' [] ?c) =
      Some (json_print (json_recovery_Attestation ((set_completion_sig ''ed25519'' [] ?c)\<lparr>va_Signature := []\<rparr>)))"
    using assms by (simp add: canonicalCompletion_def set_completion_sig_def new_completion_def signs_def)
  moreover have "length (rd_key a) = PrivateKeySize" using assms by (simp add: signs_def ed_key_def)
  ultimately have "\<exists>s. recovery_SignAttestation E ?c (rd_key a) = Inr (set_completion_sig ''ed25519'' s ?c)"
    unfolding recovery_SignAttestation_def using completion_sig.sign_record_total by blast
  then show ?thesis by (auto simp: issue_completion_def Let_def)
qed

lemma recover_willing:
  assumes "signs E a" "willing a" "\<not> cancelled 1" "\<not> cancelled 2" "\<not> cancelled 3"
  shows "\<exists>att st'. recover E a cancelled request st = (Inr att, st')"
proof -
  obtain e1 st1 where 1: "emit E a request ''recordRequest'' ''accepted'' [] ''accepted'' st = (Inr e1, st1)"
    using emit_willing [OF assms(1,2)] by blast
  have "\<forall>i<length [Kill, Freeze, WithdrawNetwork]. \<not> cancelled (1 + i)"
    using assms(3-5) by (auto simp: less_Suc_eq numeral_eq_Suc)
  then have "\<exists>st'. suspend_steps E a request cancelled 1 [Kill, Freeze, WithdrawNetwork] st1 = (Inr (), st')"
    by (intro suspend_willing [OF assms(1,2)]) simp_all
  then obtain st2 where 2: "suspend_steps E a request cancelled 1 [Kill, Freeze, WithdrawNetwork] st1 = (Inr (), st2)" ..
  obtain d st3 where 3: "capture_evidence E a request st2 = (Inr d, st3)" using capture_willing [OF assms(1,2)] by blast
  obtain e4 st4 where 4: "run_step E a request d Destroy st3 = (Inr e4, st4)" using run_step_willing [OF assms(1,2)] by blast
  obtain e5 st5 where 5: "run_step E a request d Handoff st4 = (Inr e5, st5)" using run_step_willing [OF assms(1,2)] by blast
  obtain att st6 where 6: "issue_completion E a request d (ve_Sequence e5) st5 = (Inr att, st6)"
    using completion_willing [OF assms(1)] by blast
  have "recover E a cancelled request st = (Inr att, st6)"
    unfolding recover_def
    by (rule thenE_run, rule 1, rule thenE_run, rule 2, rule bindE_run, rule 3, rule thenE_run, rule 4,
        rule bindE_run, rule 5, rule 6)
  then show ?thesis by blast
qed

definition demo_recovery :: recovery_Authority where
  "demo_recovery = \<lparr>rd_key = demo_key (CHR ''r''), rd_journal = \<lambda>_ _. True, rd_audit = accept_all,
     rd_evidence = \<lambda>_ _ _. Some demo_digest, rd_controller = \<lambda>_ _ _. True, rd_handoff = \<lambda>_ _ _. True, rd_clock = \<lambda>_. demo_now\<rparr>"

definition demo_recovery_request :: recovery_Request where
  "demo_recovery_request = \<lparr>vq_Schema = recovery_Schema, vq_RecoveryID = ''01234567-89ab-4cde-8f01-23456789abcd'',
     vq_CageID = ''cage-abc'', vq_CallerSPIFFEID = ''spiffe://brick/broker'', vq_HostIdentity = ''host-abc'',
     vq_PolicyDigest = demo_digest, vq_ReasonCode = ''anomaly''\<rparr>"

definition recovery_init :: recovery_state where
  "recovery_init = \<lparr>rs_sequence = 0, rs_journal = [], rs_audit = [], rs_effects = [], rs_ticks = 0\<rparr>"

lemma demo_recovery_new:
  "recovery_NewAuthority (demo_key (CHR ''r'')) (Some (\<lambda>_ _. True)) (Some accept_all) (Some (\<lambda>_ _ _. Some demo_digest))
     (Some (\<lambda>_ _ _. True)) (Some (\<lambda>_ _ _. True)) (Some (\<lambda>_. demo_now)) = Inr demo_recovery"
  by (simp add: recovery_NewAuthority_def demo_recovery_def demo_key_def PrivateKeySize_def)

lemma demo_recovery_signs: "signs demo_ed25519 demo_recovery"
proof -
  have "time_encodable demo_now" "\<not> time_IsZero demo_now" by code_simp+
  then show ?thesis by (simp add: signs_def demo_recovery_def demo_ed25519_correct demo_now_UTC)
qed

lemma demo_recovery_willing: "willing demo_recovery"
proof -
  have "digestPattern demo_digest" by code_simp
  then show ?thesis by (simp add: willing_def demo_recovery_def accept_all_def)
qed

lemma demo_recovery_valid: "recovery_validateRequest demo_recovery_request = []"
  by code_simp

lemma demo_recovery_run:
  obtains att st' where "SuspendAndRecover demo_ed25519 (Some demo_recovery) (\<lambda>_. False) demo_recovery_request recovery_init = (Inr att, st')"
  using recover_willing [OF demo_recovery_signs demo_recovery_willing, of "\<lambda>_. False" demo_recovery_request recovery_init]
  by (auto simp: SuspendAndRecover_def demo_recovery_valid)

lemma SuspendAndRecover_cases:
  assumes "SuspendAndRecover E (Some a) cancelled request st = (res, st')"
  obtains (cancelled) "cancelled 0" "st' = st" "res = Inl (ErrUnavailable PkgRecovery ''context cancelled'')"
  | (invalid) "recovery_validateRequest request \<noteq> []"
      "recovery_denied E a request (recovery_validateRequest request) st = (res, st')"
  | (valid) "recovery_validateRequest request = []" "\<not> cancelled 0" "recover E a cancelled request st = (res, st')"
  using assms by (auto simp: SuspendAndRecover_def Let_def split: if_splits)

lemma denied_effects: "recovery_denied E a request code st = (res, st') \<Longrightarrow> rs_effects st' = rs_effects st \<and> (\<exists>err. res = Inl err)"
  by (auto simp: recovery_denied_def thenE_def bindE_def failE_def split: prod.splits sum.splits dest: emit_effects)

text \<open>Every run of the abstract machine, finished or halted, is in order.\<close>

definition orderly :: "recovery_Request \<Rightarrow> effect list \<Rightarrow> bool" where
  "orderly request tr \<longleftrightarrow> prefix (map fst tr) all_steps \<and> sorted (map fst tr) \<and>
     (\<forall>(s, args, r)\<in>set (butlast tr). step_ok s r) \<and> (\<forall>(s, args, r)\<in>set tr. hd args = vq_CageID request)"

lemma prefix_sorted: "prefix (map fst tr) all_steps \<Longrightarrow> sorted (map fst tr)"
  using all_steps_sorted(1) by (metis prefixE sorted_append)

lemma kill_first_orderly:
  assumes "kill_first request rest digest tr"
  shows "orderly request tr"
proof -
  have "prefix (map fst tr) all_steps" using kill_first_steps [OF assms] by (metis prefixI)
  moreover have "\<forall>(s, args, r)\<in>set tr. step_ok s r \<and> hd args = vq_CageID request" using kill_first_ok [OF assms] by auto
  ultimately show ?thesis using prefix_sorted by (fastforce simp: orderly_def dest: in_set_butlastD)
qed

lemma halted_orderly:
  assumes "kill_first_halted request tr"
  shows "orderly request tr"
proof -
  obtain s rest digest tr' r where h: "kill_first request (s # rest) digest tr'" "tr = tr' @ [(s, step_args request digest s, r)]"
    using assms unfolding kill_first_halted_def by blast
  have p: "prefix (map fst tr) all_steps" using kill_first_steps [OF h(1)] h(2) by (auto intro!: prefixI [of _ _ rest])
  have "\<forall>(s, args, r)\<in>set tr'. step_ok s r \<and> hd args = vq_CageID request" using kill_first_ok [OF h(1)] by auto
  then have "\<forall>(s, args, r)\<in>set (butlast tr). step_ok s r" "\<forall>(s, args, r)\<in>set tr. hd args = vq_CageID request"
    by (auto simp: h(2) step_args_cage)
  then show ?thesis using p prefix_sorted [OF p] by (simp add: orderly_def)
qed

lemma kill_first_finished:
  assumes "kill_first request [] digest tr"
  shows "map fst tr = all_steps" "\<forall>(s, args, r)\<in>set tr. r \<noteq> None" "digestPattern digest"
    "\<exists>args. (CaptureEvidence, args, Some digest) \<in> set tr"
proof -
  show "map fst tr = all_steps" using kill_first_steps [OF assms] by simp
  have "step_ok s r \<Longrightarrow> r \<noteq> None" for s r by (cases r) auto
  then show "\<forall>(s, args, r)\<in>set tr. r \<noteq> None" using kill_first_ok [OF assms] by blast
  obtain args r where "(CaptureEvidence, args, r) \<in> set tr" using kill_first_digest [OF assms] by auto
  then show "digestPattern digest" "\<exists>args. (CaptureEvidence, args, Some digest) \<in> set tr"
    using kill_first_digest [OF assms] by blast+
qed

lemma SuspendAndRecover_trace:
  assumes "SuspendAndRecover E (Some a) cancelled request st = (res, st')"
  obtains tr where "rs_effects st' = rs_effects st @ tr" "orderly request tr"
    "\<And>att. res = Inr att \<Longrightarrow> kill_first request [] (va_EvidenceDigest att) tr"
  using assms
proof (cases rule: SuspendAndRecover_cases)
  case cancelled
  then show ?thesis using that [of "[]"] kill_first_orderly [OF kill_first.begun] by simp
next
  case invalid
  then show ?thesis using that [of "[]"] kill_first_orderly [OF kill_first.begun] denied_effects [OF invalid(2)] by auto
next
  case valid
  note r = triple_result [OF recover_triple refl valid(3)]
  show ?thesis
  proof (cases res)
    case (Inl err)
    then obtain tr where "rs_effects st' = rs_effects st @ tr"
        "(\<exists>rest digest. kill_first request rest digest tr) \<or> kill_first_halted request tr"
      using r by (auto simp: stopped_def)
    then show ?thesis using that [of tr] Inl kill_first_orderly halted_orderly by blast
  next
    case (Inr att)
    then obtain tr where "rs_effects st' = rs_effects st @ tr" "kill_first request [] (va_EvidenceDigest att) tr"
      using r by (auto simp: at_steps_def)
    then show ?thesis using that [of tr] Inr kill_first_orderly by simp
  qed
qed

lemma SuspendAndRecover_events:
  assumes "recovery_ready E a request st"
    and "SuspendAndRecover E (Some a) cancelled request st = (res, st')"
  shows "\<exists>new. rs_journal st' = rs_journal st @ new \<and> length new \<le> 7 \<and>
    rs_sequence st' = rs_sequence st + of_nat (length new) \<and>
    (\<forall>i<length new. VerifyEvent E (fst (new ! i)) (key_Public (rd_key a)) = None \<and>
       ve_Sequence (fst (new ! i)) = rs_sequence st + of_nat (Suc i)) \<and>
    (\<forall>att. res = Inr att \<longrightarrow>
       map (\<lambda>(e, _). (ve_Action e, ve_Outcome e)) new = completed_acts \<and>
       recovery_VerifyAttestation E att (key_Public (rd_key a)) = None \<and>
       va_FinalSequence att = rs_sequence st + 7 \<and> va_CageID att = vq_CageID request)"
proof -
  have collect: "\<exists>new. rs_journal st' = rs_journal st @ new \<and> length new = length acts \<and>
      rs_sequence st' = rs_sequence st + of_nat (length new) \<and>
      (\<forall>i<length new. VerifyEvent E (fst (new ! i)) (key_Public (rd_key a)) = None \<and>
       ve_Sequence (fst (new ! i)) = rs_sequence st + of_nat (Suc i)) \<and>
      map (\<lambda>(e, _). (ve_Action e, ve_Outcome e)) new = acts"
    if "journalled E (key_Public (rd_key a)) st acts st'" for acts
    using that unfolding journalled_def by (auto simp del: of_nat_Suc)
  have "length completed_acts = 7" by (simp add: completed_acts_def all_steps_def)
  with assms(2) show ?thesis
  proof (cases rule: SuspendAndRecover_cases)
    case cancelled
    then show ?thesis by (intro exI [of _ "[]"]) auto
  next
    case invalid
    then show ?thesis using assms(1) by (simp add: recovery_ready_def)
  next
    case valid
    note r = triple_result [OF recover_journal [OF assms(1)] refl valid(3)]
    show ?thesis
    proof (cases res)
      case (Inl err)
      then obtain acts where l: "length acts \<le> 7" and j: "journalled E (key_Public (rd_key a)) st acts st'"
        using r by (auto simp: left_journal_def)
      from collect [OF j] obtain new where "rs_journal st' = rs_journal st @ new" "length new = length acts"
        "rs_sequence st' = rs_sequence st + of_nat (length new)"
        "\<forall>i<length new. VerifyEvent E (fst (new ! i)) (key_Public (rd_key a)) = None \<and>
           ve_Sequence (fst (new ! i)) = rs_sequence st + of_nat (Suc i)" by blast
      then show ?thesis using l unfolding Inl by (intro exI [of _ new]) (simp del: of_nat_Suc)
    next
      case (Inr att)
      then have j: "journalled E (key_Public (rd_key a)) st completed_acts st'"
        and v: "recovery_VerifyAttestation E att (key_Public (rd_key a)) = None" "va_FinalSequence att = rs_sequence st + 7"
          "va_CageID att = vq_CageID request"
        using r by simp_all
      from collect [OF j] obtain new where "rs_journal st' = rs_journal st @ new" "length new = length completed_acts"
        "rs_sequence st' = rs_sequence st + of_nat (length new)"
        "\<forall>i<length new. VerifyEvent E (fst (new ! i)) (key_Public (rd_key a)) = None \<and>
           ve_Sequence (fst (new ! i)) = rs_sequence st + of_nat (Suc i)"
        "map (\<lambda>(e, _). (ve_Action e, ve_Outcome e)) new = completed_acts" by blast
      then show ?thesis
        using v \<open>length completed_acts = 7\<close> unfolding Inr by (intro exI [of _ new]) (simp del: of_nat_Suc)
    qed
  qed
qed

section \<open>Properties\<close>

text \<open>
  C34. The recovery refines the abstract order: the calls a run makes are a run of the machine
  \<open>kill_first\<close>, and a run that returns an attestation has finished it.
\<close>

theorem SuspendAndRecover_refines:
  assumes "SuspendAndRecover E (Some a) cancelled request st = (res, st')"
  shows "\<exists>tr. rs_effects st' = rs_effects st @ tr \<and>
    (case res of
       Inr att \<Rightarrow> kill_first request [] (va_EvidenceDigest att) tr
     | Inl _ \<Rightarrow> (\<exists>rest digest. kill_first request rest digest tr) \<or> kill_first_halted request tr)"
  using assms
proof (cases rule: SuspendAndRecover_cases)
  case cancelled
  then show ?thesis using kill_first.begun [of request] by auto
next
  case invalid
  obtain err where "res = Inl err" "rs_effects st' = rs_effects st" using denied_effects [OF invalid(2)] by blast
  then show ?thesis using kill_first.begun [of request] by (intro exI [of _ "[]"]) (simp, blast)
next
  case valid
  from triple_result [OF recover_triple refl valid(3)] show ?thesis
    by (cases res) (auto simp: at_steps_def stopped_def)
qed

theorem SuspendAndRecover_refines_witness:
  "\<exists>att st'. SuspendAndRecover demo_ed25519 (Some demo_recovery) (\<lambda>_. False) demo_recovery_request recovery_init = (Inr att, st') \<and>
     kill_first demo_recovery_request [] (va_EvidenceDigest att) (rs_effects st')"
proof -
  obtain att st' where run: "SuspendAndRecover demo_ed25519 (Some demo_recovery) (\<lambda>_. False) demo_recovery_request recovery_init = (Inr att, st')"
    by (rule demo_recovery_run)
  with SuspendAndRecover_refines [OF run] show ?thesis by (auto simp: recovery_init_def)
qed

text \<open>
  C7. Kill first, and nothing after a failure: the steps a run calls are in the order kill,
  freeze, withdraw network, capture evidence, destroy, hand off, without a gap; every call but
  the last succeeded; all are on the cage of the request. If an attestation is returned, all
  six succeeded and it names the SHA-256 digest that the capture returned.
\<close>

theorem SuspendAndRecover_kill_first:
  assumes "SuspendAndRecover E (Some a) cancelled request st = (res, st')"
  shows "\<exists>tr. rs_effects st' = rs_effects st @ tr \<and> prefix (map fst tr) all_steps \<and> sorted (map fst tr) \<and>
    (\<forall>(s, args, r)\<in>set (butlast tr). step_ok s r) \<and> (\<forall>(s, args, r)\<in>set tr. hd args = vq_CageID request) \<and>
    (\<forall>att. res = Inr att \<longrightarrow> map fst tr = all_steps \<and> (\<forall>(s, args, r)\<in>set tr. r \<noteq> None) \<and>
       digestPattern (va_EvidenceDigest att) \<and>
       (\<exists>args. (CaptureEvidence, args, Some (va_EvidenceDigest att)) \<in> set tr))"
proof -
  obtain tr where tr: "rs_effects st' = rs_effects st @ tr" "orderly request tr"
    "\<And>att. res = Inr att \<Longrightarrow> kill_first request [] (va_EvidenceDigest att) tr"
    using SuspendAndRecover_trace [OF assms] by metis
  show ?thesis
    using tr(1,2) kill_first_finished [OF tr(3)] unfolding orderly_def by (intro exI [of _ tr]) simp
qed

theorem SuspendAndRecover_kill_first_witness:
  "\<exists>att st'. SuspendAndRecover demo_ed25519 (Some demo_recovery) (\<lambda>_. False) demo_recovery_request recovery_init = (Inr att, st') \<and>
     map fst (rs_effects st') = all_steps"
proof -
  obtain att st' where run: "SuspendAndRecover demo_ed25519 (Some demo_recovery) (\<lambda>_. False) demo_recovery_request recovery_init = (Inr att, st')"
    by (rule demo_recovery_run)
  with SuspendAndRecover_kill_first [OF run] show ?thesis by (auto simp: recovery_init_def)
qed

text \<open>
  The cage is touched only after the request was recorded: if a run made any call, the
  first thing it journaled is the accepted request, and the journal and the audit sink both
  took it. Nothing that was recorded is ever removed.
\<close>

theorem SuspendAndRecover_records_first:
  assumes "SuspendAndRecover E (Some a) cancelled request st = (res, st')" "rs_effects st' \<noteq> rs_effects st"
  shows "recovery_validateRequest request = [] \<and>
    (\<exists>ev later more. rs_journal st' = rs_journal st @ (ev, True) # later \<and>
       ve_Action ev = ''recordRequest'' \<and> ve_Outcome ev = ''accepted'' \<and>
       rs_audit st' = rs_audit st @ (recovery_audit_event request ''recordRequest'' ''accepted'' ''accepted'' ev, True) # more)"
  using assms(1)
proof (cases rule: SuspendAndRecover_cases)
  case invalid
  then show ?thesis using denied_effects [OF invalid(2)] assms(2) by simp
next
  case valid
  then show ?thesis using recover_recorded [OF valid(3) assms(2)] by blast
qed (use assms(2) in simp)

theorem SuspendAndRecover_records_first_witness:
  "\<exists>att st' ev later. SuspendAndRecover demo_ed25519 (Some demo_recovery) (\<lambda>_. False) demo_recovery_request recovery_init = (Inr att, st') \<and>
     rs_journal st' = (ev, True) # later \<and> ve_Outcome ev = ''accepted''"
proof -
  obtain att st' where run: "SuspendAndRecover demo_ed25519 (Some demo_recovery) (\<lambda>_. False) demo_recovery_request recovery_init = (Inr att, st')"
    by (rule demo_recovery_run)
  then have "recover demo_ed25519 demo_recovery (\<lambda>_. False) demo_recovery_request recovery_init = (Inr att, st')"
    by (simp add: SuspendAndRecover_def demo_recovery_valid)
  then have "\<exists>tr. rs_effects st' = tr \<and> map fst tr = all_steps"
    using triple_result [OF recover_triple refl] kill_first_steps by (fastforce simp: at_steps_def recovery_init_def)
  then have "rs_effects st' \<noteq> rs_effects recovery_init" by (auto simp: recovery_init_def all_steps_def)
  from SuspendAndRecover_records_first [OF run this] run show ?thesis by (auto simp: recovery_init_def)
qed

text \<open>
  C8. Every event of a valid request that reaches the journal, whether the journal took it or
  not and whether it tells of a success or a failure, passes \<open>VerifyEvent\<close> under the
  authority's public key, and the events of one call are numbered without gaps after the
  sequence it started from. A call that returns an attestation journaled exactly the seven
  events of a completed recovery, and the attestation verifies and carries the last number.
\<close>

theorem SuspendAndRecover_journal:
  assumes "recovery_ready E a request st"
    and "SuspendAndRecover E (Some a) cancelled request st = (res, st')"
  shows "\<exists>new. rs_journal st' = rs_journal st @ new \<and> length new \<le> 7 \<and>
    rs_sequence st' = rs_sequence st + of_nat (length new) \<and>
    (\<forall>i<length new. VerifyEvent E (fst (new ! i)) (key_Public (rd_key a)) = None \<and>
       ve_Sequence (fst (new ! i)) = rs_sequence st + of_nat (Suc i)) \<and>
    (\<forall>att. res = Inr att \<longrightarrow>
       map (\<lambda>(e, _). (ve_Action e, ve_Outcome e)) new = completed_acts \<and>
       recovery_VerifyAttestation E att (key_Public (rd_key a)) = None \<and>
       va_FinalSequence att = rs_sequence st + 7 \<and> va_CageID att = vq_CageID request)"
  using assms by (rule SuspendAndRecover_events)

theorem SuspendAndRecover_journal_witness:
  "\<exists>att st'. SuspendAndRecover demo_ed25519 (Some demo_recovery) (\<lambda>_. False) demo_recovery_request recovery_init = (Inr att, st') \<and>
     recovery_VerifyAttestation demo_ed25519 att (key_Public (demo_key (CHR ''r''))) = None \<and> va_FinalSequence att = 7"
proof -
  obtain att st' where run: "SuspendAndRecover demo_ed25519 (Some demo_recovery) (\<lambda>_. False) demo_recovery_request recovery_init = (Inr att, st')"
    by (rule demo_recovery_run)
  have "recovery_ready demo_ed25519 demo_recovery demo_recovery_request recovery_init"
    by (simp add: recovery_ready_def demo_recovery_signs demo_recovery_valid recovery_init_def)
  from SuspendAndRecover_journal [OF this run] run show ?thesis by (auto simp: recovery_init_def demo_recovery_def)
qed

text \<open>
  C35. A valid recovery that is never cancelled completes whenever its dependencies work: if the
  journal, the audit sink, the controller and the hand-off succeed and the capture returns a digest, an
  attestation is returned.
\<close>

theorem SuspendAndRecover_completes:
  assumes "signs E a" "willing a" "recovery_validateRequest request = []" "\<forall>k. \<not> cancelled k"
  shows "\<exists>att st'. SuspendAndRecover E (Some a) cancelled request st = (Inr att, st')"
  using recover_willing [OF assms(1,2)] assms(3,4) by (simp add: SuspendAndRecover_def)

theorem SuspendAndRecover_completes_witness:
  "\<exists>att st'. SuspendAndRecover demo_ed25519 (Some demo_recovery) (\<lambda>_. False) demo_recovery_request recovery_init = (Inr att, st')"
  by (rule SuspendAndRecover_completes [OF demo_recovery_signs demo_recovery_willing demo_recovery_valid]) simp

text \<open>
  After the network is withdrawn the context is never consulted again: two contexts that
  agree on the first four polls give the same run, so a cancellation during or after the
  withdrawal does not prevent the capture, the destruction or the hand-off.
\<close>

theorem SuspendAndRecover_late_cancellation:
  assumes "\<forall>k\<le>3. cancelled k = cancelled' k"
  shows "SuspendAndRecover E authority cancelled request st = SuspendAndRecover E authority cancelled' request st"
proof -
  have s: "suspend_steps E a request cancelled 1 [Kill, Freeze, WithdrawNetwork] =
      suspend_steps E a request cancelled' 1 [Kill, Freeze, WithdrawNetwork]" for a
    using assms by (simp add: numeral_eq_Suc)
  have "recover E a cancelled request = recover E a cancelled' request" for a
    unfolding recover_def s ..
  then show ?thesis using assms by (cases authority) (auto simp: SuspendAndRecover_def Let_def)
qed

theorem SuspendAndRecover_late_cancellation_witness:
  "SuspendAndRecover demo_ed25519 (Some demo_recovery) (\<lambda>k. k > 3) demo_recovery_request recovery_init =
     SuspendAndRecover demo_ed25519 (Some demo_recovery) (\<lambda>_. False) demo_recovery_request recovery_init"
  by (rule SuspendAndRecover_late_cancellation) simp

text \<open>
  A request whose identity is malformed leaves the cage alone and is refused, but the
  denied event it leaves in the journal carries the malformed fields and can never pass
  \<open>VerifyEvent\<close>.
\<close>

theorem SuspendAndRecover_denied_event:
  assumes "\<not> requestIDPattern (vq_RecoveryID request) \<or> \<not> cageIDPattern (vq_CageID request) \<or>
      \<not> spiffePattern (vq_CallerSPIFFEID request) \<or> \<not> hostIDPattern (vq_HostIdentity request) \<or>
      \<not> digestPattern (vq_PolicyDigest request)"
    and "SuspendAndRecover E (Some a) cancelled request st = (res, st')"
  shows "rs_effects st' = rs_effects st \<and> (\<exists>err. res = Inl err) \<and>
    (rs_journal st' = rs_journal st \<or>
     (\<exists>ev ok. rs_journal st' = rs_journal st @ [(ev, ok)] \<and> ve_Outcome ev = ''denied'' \<and> ve_CageID ev = vq_CageID request \<and>
        VerifyEvent E ev pub \<noteq> None))"
  using assms(2)
proof (cases rule: SuspendAndRecover_cases)
  case invalid
  have "rs_journal st' = rs_journal st \<or> (\<exists>ev ok e0. rs_journal st' = rs_journal st @ [(ev, ok)] \<and>
      SignEvent E e0 (rd_key a) = Inr ev \<and> e0 = new_event request ''recordRequest'' ''denied'' []
        (recovery_validateRequest request) (rs_sequence st + 1) (rd_clock a (rs_ticks st)))"
    using invalid(2)
    by (auto simp: recovery_denied_def thenE_def bindE_def failE_def emit_def Let_def RecordEvent_def
        split: prod.splits sum.splits if_splits)
  moreover have "ve_Outcome ev = ''denied'' \<and> ve_CageID ev = vq_CageID request \<and> VerifyEvent E ev pub \<noteq> None"
    if sign: "SignEvent E (new_event request ''recordRequest'' ''denied'' [] code seq now) (rd_key a) = Inr ev" for ev code seq now
  proof -
    obtain s where "ev = set_event_sig ''ed25519'' s (new_event request ''recordRequest'' ''denied'' [] code seq now)"
      using event_sig.sign_record_cases [OF sign [unfolded SignEvent_def]] by metis
    then show ?thesis
      using assms(1) by (auto simp: set_event_sig_def new_event_def VerifyEvent_def validateEvent_def)
  qed
  ultimately show ?thesis using denied_effects [OF invalid(2)] by blast
next
  case valid
  then show ?thesis using assms(1) by (auto simp: recovery_validateRequest_iff)
qed simp

theorem SuspendAndRecover_denied_event_witness:
  "\<exists>res st' ev. SuspendAndRecover demo_ed25519 (Some demo_recovery) (\<lambda>_. False) (demo_recovery_request\<lparr>vq_CageID := ''../etc''\<rparr>)
      recovery_init = (res, st') \<and> rs_journal st' = [(ev, True)] \<and> ve_CageID ev = ''../etc'' \<and>
      VerifyEvent demo_ed25519 ev (key_Public (demo_key (CHR ''r''))) \<noteq> None"
proof -
  let ?q = "demo_recovery_request\<lparr>vq_CageID := ''../etc''\<rparr>"
  have bad: "\<not> cageIDPattern (vq_CageID ?q)" "recovery_validateRequest ?q = ''invalid_request_identity''" by code_simp+
  obtain ev st1 where e: "emit demo_ed25519 demo_recovery ?q ''recordRequest'' ''denied'' [] ''invalid_request_identity'' recovery_init = (Inr ev, st1)"
    using emit_willing [OF demo_recovery_signs demo_recovery_willing] by blast
  have j: "rs_journal st1 = [(ev, True)]"
    using e by (auto simp: emit_def Let_def RecordEvent_def recovery_init_def split: sum.splits if_splits)
  have run: "SuspendAndRecover demo_ed25519 (Some demo_recovery) (\<lambda>_. False) ?q recovery_init =
      (Inl (DecisionError PkgRecovery ''invalid_request_identity''), st1)"
    using e by (simp add: SuspendAndRecover_def bad(2) recovery_denied_def failE_def)
  from SuspendAndRecover_denied_event [OF _ run, of "key_Public (demo_key (CHR ''r''))"] bad(1) run j show ?thesis
    by (auto simp: recovery_init_def)
qed

end
