(* ===== verification/Verifiers.thy ===== *)
theory Verifiers
  imports Edition Certification Recovery
begin

text \<open>
  The acceptance programs \<open>cmd/lifecycle-verify\<close>, \<open>cmd/isolation-verify\<close>, \<open>cmd/resource-verify\<close>,
  \<open>cmd/integrity-verify\<close>, \<open>cmd/recovery-verify\<close> and \<open>cmd/edition-verify\<close>. Each builds an authority with
  dependencies that always work, sends it one request, verifies the result and exits with an error if
  any step fails. Here each is its function \<open>verify\<close>; \<open>main\<close> prints the result. Ed25519, the key from a
  seed, the files and the JSON decoder of the contracts are in an environment.
\<close>

section \<open>The environment\<close>

record verify_env =
  vf_E :: ed25519
  vf_NewKeyFromSeed :: "bytes \<Rightarrow> bytes"
  vf_ReadFile :: "string \<Rightarrow> bytes option"
  vf_schema :: "bytes \<Rightarrow> string option"
  vf_Getenv :: "string \<Rightarrow> string"
  vf_binding :: binding_decoder
  vf_GenerateKey :: "nat \<Rightarrow> (bytes \<times> bytes) option"

definition SeedSize :: nat where "SeedSize = 32"

text \<open>\<open>bytes.Repeat\<close> of one byte to the size of a seed, and the key.\<close>

definition seed_key :: "verify_env \<Rightarrow> nat \<Rightarrow> bytes" where
  "seed_key env n = vf_NewKeyFromSeed env (replicate SeedSize (char_of n))"

definition check_contract :: "verify_env \<Rightarrow> string \<Rightarrow> string \<Rightarrow> string \<Rightarrow> go_error option" where
  "check_contract env path schema invalid =
     (case vf_ReadFile env path of
        None \<Rightarrow> Some (ErrOther ''read contract'')
      | Some data \<Rightarrow> if vf_schema env data = Some schema then None else Some (ErrOther invalid))"

definition verify_now :: gotime where "verify_now = \<lparr>t_ns = 1787227200 * Second, t_zone = 0\<rparr>"

lemma verify_now_date: "format_time verify_now = ''2026-08-20T12:00:00Z''"
  by code_simp

definition verify_sink :: audit_sink where "verify_sink _ _ = True"

section \<open>lifecycle-verify\<close>

text \<open>The replay ledger of the program grants once.\<close>

definition replay_Claim :: "bool claim" where
  "replay_Claim requestID expiresAt used = (if used then (Inr False, used) else (Inr True, True))"

definition lifecycle_verify_request :: lifecycle_Request where
  "lifecycle_verify_request =
     \<lparr>rq_Schema = lifecycle_Schema, rq_RequestID = ''11111111-1111-4111-8111-111111111111'', rq_Action = ''create'',
      rq_IssuedAt = time_Add verify_now (- Minute), rq_ExpiresAt = time_Add verify_now (5 * Minute),
      rq_CallerSPIFFEID = ''spiffe://brick/shared-adapter'', rq_PolicyID = ''policy-shared-tenant'',
      rq_PolicyDigest = replicate 64 (CHR ''b''), rq_Profile = ProfileSharedTenant, rq_CageID = ''cage-tenant-a'',
      rq_HostIdentity = ''host-staging-a'',
      rq_ResourcePolicy = \<lparr>rp_CPUQuotaMilli = 500, rp_MemoryMaxBytes = 2 ^ 30, rp_PidsMax = 64, rp_IOWeight = 100\<rparr>,
      rq_MountPolicy = \<lparr>mp_BaseRoot = ''/srv/brick-cages/tenant-a'',
        mp_Mounts = [\<lparr>mt_Source = ''/usr/bin'', mt_Destination = ''/runtime/bin'', mt_ReadOnly = True\<rparr>],
        mp_MandatoryLayers = [''auditBeforeResponse'', ''callerAuthentication'', ''capabilityDrop'', ''cgroupV2'',
          ''defaultDenyEgress'', ''environmentSanitization'', ''executableManifest'', ''immutableBaseRoot'', ''ipcNamespace'',
          ''mountNamespace'', ''networkNamespace'', ''noNewPrivileges'', ''pidNamespace'', ''protectedPathExclusion'',
          ''replayProtection'', ''seccomp'', ''userNamespace'', ''utsNamespace'']\<rparr>,
      rq_NetworkPolicy = \<lparr>np_Mode = ''defaultDeny'', np_AllowedEndpoints = [''https://api.example.test'']\<rparr>,
      rq_ExecutableManifestDigest = replicate 64 (CHR ''c''), rq_AuditTarget = ''audit://host-isolation-ledger'',
      rq_SignatureAlgorithm = [], rq_Signature = []\<rparr>"

definition lifecycle_verify :: "verify_env \<Rightarrow> go_error option" where
  "lifecycle_verify env =
     (case check_contract env ''contracts/brick-host-isolation.v1.json'' lifecycle_Schema ''invalid contract schema'' of
        Some err \<Rightarrow> Some err
      | None \<Rightarrow>
          let callerKey = seed_key env 1; engineKey = seed_key env 2 in
          (case lifecycle_NewAuthority engineKey (replicate 64 (CHR ''a''))
                  [(''spiffe://brick/shared-adapter'', key_Public callerKey)]
                  (Some verify_sink) (Some replay_Claim) (Some (\<lambda>_. verify_now)) of
             Inl err \<Rightarrow> Some err
           | Inr authority \<Rightarrow>
               (case SignRequest (vf_E env) lifecycle_verify_request callerKey of
                  Inl err \<Rightarrow> Some err
                | Inr req \<Rightarrow>
                    (case Authorize (vf_E env) (Some authority) req \<lparr>ls_sequence = 0, ls_ledger = False, ls_log = [], ls_ticks = 0\<rparr> of
                       (Inl err, _) \<Rightarrow> Some err
                     | (Inr attestation, _) \<Rightarrow> VerifyAttestation (vf_E env) attestation (key_Public engineKey) verify_now))))"

section \<open>isolation-verify\<close>

definition isolation_verify_request :: isolation_Request where
  "isolation_verify_request =
     \<lparr>iq_Schema = isolation_Schema, iq_CageID = ''cage-verify-a'', iq_Profile = ProfileSharedTenant,
      iq_BaseRootDigest = replicate 64 (CHR ''a''), iq_SeccompDigest = replicate 64 (CHR ''b''),
      iq_Namespaces = [''user'', ''pid'', ''mount'', ''ipc'', ''uts'', ''network''],
      iq_UIDMappings = [\<lparr>um_ContainerID = 0, um_HostID = 100001, um_Size = 1\<rparr>],
      iq_GIDMappings = [\<lparr>um_ContainerID = 0, um_HostID = 100001, um_Size = 1\<rparr>],
      iq_Mounts =
        [\<lparr>ms_SourceKind = ''baseRoot'', ms_Destination = ''/'', ms_ReadOnly = True,
           ms_Flags = [''nodev'', ''nosuid'', ''noexec'', ''readonly''], ms_Options = [''privatePropagation'']\<rparr>,
         \<lparr>ms_SourceKind = ''proc'', ms_Destination = ''/proc'', ms_ReadOnly = True,
           ms_Flags = [''nodev'', ''nosuid'', ''noexec''], ms_Options = [''hidepid=2'', ''subset=pid'']\<rparr>,
         \<lparr>ms_SourceKind = ''minimalDev'', ms_Destination = ''/dev'', ms_ReadOnly = False,
           ms_Flags = [''nodev'', ''nosuid'', ''noexec''], ms_Options = [''mode=0755'', ''size=16m'']\<rparr>,
         \<lparr>ms_SourceKind = ''tmpfs'', ms_Destination = ''/tmp'', ms_ReadOnly = False,
           ms_Flags = [''nodev'', ''nosuid'', ''noexec''], ms_Options = [''mode=1777'', ''size=64m'']\<rparr>],
      iq_Devices = [''null'', ''zero'', ''random'', ''urandom''], iq_NoNewPrivileges = True, iq_ClearEnvironment = True,
      iq_CloseDescriptorsAt = 3, iq_ParentDeathSignal = ''SIGKILL'', iq_InitMode = ''supervisedReaper'',
      iq_WorkingDirectory = ''/'', iq_Capabilities = []\<rparr>"

definition verify_actor :: string where "verify_actor = ''spiffe://brick/verify''"

text \<open>An isolation authority whose preflight always succeeds, and the plan it prepares.\<close>

definition verify_isolation_plan :: "isolation_Plan go_result" where
  "verify_isolation_plan =
     (case isolation_NewAuthority (Some (\<lambda>_ :: unit. Inr ())) (Some verify_sink) of
        Inl err \<Rightarrow> Inl err
      | Inr authority \<Rightarrow> fst (isolation_Prepare (Some authority) False () verify_actor isolation_verify_request []))"

definition isolation_verify :: "verify_env \<Rightarrow> go_error option" where
  "isolation_verify env =
     (case check_contract env ''contracts/brick-host-isolation-isolation.v1.json'' isolation_Schema ''invalid isolation contract'' of
        Some err \<Rightarrow> Some err
      | None \<Rightarrow> (case verify_isolation_plan of Inl err \<Rightarrow> Some err | Inr plan \<Rightarrow> isolation_VerifyPlan plan))"

section \<open>resource-verify\<close>

definition verify_maximum :: Limits where
  "verify_maximum = \<lparr>lm_CPUQuotaMicros = 100000, lm_CPUPeriodMicros = 100000, lm_MemoryMaxBytes = 2 * 2 ^ 30,
     lm_MemoryHighBytes = 1536 * 2 ^ 20, lm_MemorySwapMaxBytes = 2 * 2 ^ 30, lm_PidsMax = 128,
     lm_IO = [\<lparr>io_Device = ''8:0'', io_ReadBPS = 10 * 2 ^ 20, io_WriteBPS = 10 * 2 ^ 20, io_ReadIOPS = 1000, io_WriteIOPS = 1000\<rparr>],
     lm_FileDescriptorMax = 1024, lm_WallClockSeconds = 3600\<rparr>"

definition resource_verify_request :: "isolation_Plan \<Rightarrow> resource_Request" where
  "resource_verify_request plan =
     \<lparr>sq_Schema = resource_Schema, sq_CageID = ip_CageID plan, sq_Profile = ip_Profile plan,
      sq_IsolationPlanDigest = ip_PlanDigest plan,
      sq_Limits = \<lparr>lm_CPUQuotaMicros = 50000, lm_CPUPeriodMicros = 100000, lm_MemoryMaxBytes = 2 ^ 30,
        lm_MemoryHighBytes = 900 * 2 ^ 20, lm_MemorySwapMaxBytes = 0, lm_PidsMax = 64,
        lm_IO = [\<lparr>io_Device = ''8:0'', io_ReadBPS = 5 * 2 ^ 20, io_WriteBPS = 5 * 2 ^ 20, io_ReadIOPS = 500, io_WriteIOPS = 500\<rparr>],
        lm_FileDescriptorMax = 512, lm_WallClockSeconds = 600\<rparr>,
      sq_Network = \<lparr>nw_Mode = ''denyAll'', nw_ProxySPIFFEID = [], nw_AllowedEndpoints = []\<rparr>\<rparr>"

definition is_write :: "cgroup_op \<Rightarrow> bool" where
  "is_write x = (case x of WriteFile _ _ \<Rightarrow> True | _ \<Rightarrow> False)"

definition resource_verify :: "verify_env \<Rightarrow> go_error option" where
  "resource_verify env =
     (case check_contract env ''contracts/brick-host-isolation-resource.v1.json'' resource_Schema ''invalid resource contract'' of
        Some err \<Rightarrow> Some err
      | None \<Rightarrow>
          (case verify_isolation_plan of
             Inl err \<Rightarrow> Some err
           | Inr isolationPlan \<Rightarrow>
               (case resource_NewAuthority ''/sys/fs/cgroup/brick-isolation'' verify_maximum (Some verify_sink) of
                  Inl err \<Rightarrow> Some err
                | Inr authority \<Rightarrow>
                    (case resource_Prepare (Some authority) False verify_actor isolationPlan (resource_verify_request isolationPlan) [] of
                       (Inl err, _) \<Rightarrow> Some err
                     | (Inr plan, _) \<Rightarrow>
                         (case resource_VerifyPlan authority plan of
                            Some err \<Rightarrow> Some err
                          | None \<Rightarrow>
                              (case ApplyCgroup (Some authority) (\<lambda>_. False) plan (Some (\<lambda>_ _. True)) [] [] of
                                 (Some err, _) \<Rightarrow> Some err
                               | (None, trace, _) \<Rightarrow>
                                   if length (filter (\<lambda>(x, _). is_write x) trace) \<noteq> 6
                                   then Some (ErrOther ''incomplete cgroup write sequence'') else None))))))"

section \<open>integrity-verify\<close>

definition verify_manifest :: Manifest where
  "verify_manifest =
     \<lparr>mf_Schema = integrity_Schema, mf_ManifestID = ''manifest-verify-v1'', mf_Profile = ProfileSharedTenant,
      mf_Entries =
        [\<lparr>et_Path = ''/runtime/bin/httpd'', et_Digest = replicate 64 (CHR ''a''), et_OwnerUID = 0, et_Mode = 0x1ED,
          et_Arguments = [''--foreground'', ''--port=8080''],
          et_Interpreter = Some \<lparr>dp_Path = ''/runtime/interpreters/loader'', dp_Digest = replicate 64 (CHR ''b''),
            dp_OwnerUID = 0, dp_Mode = 0x1ED\<rparr>,
          et_RuntimeDependencies = [\<lparr>dp_Path = ''/runtime/lib/libbrick.so'', dp_Digest = replicate 64 (CHR ''c''),
            dp_OwnerUID = 0, dp_Mode = 0x1A4\<rparr>],
          et_Environment = [\<lparr>en_Name = ''HOME'', en_Value = ''/nonexistent''\<rparr>, \<lparr>en_Name = ''LANG'', en_Value = ''C.UTF-8''\<rparr>,
            \<lparr>en_Name = ''TMPDIR'', en_Value = ''/tmp''\<rparr>, \<lparr>en_Name = ''TZ'', en_Value = ''UTC''\<rparr>]\<rparr>],
      mf_SignatureAlgorithm = [], mf_Signature = []\<rparr>"

definition verify_files :: inspector where
  "verify_files _ path =
     map_of [(''/runtime/bin/httpd'', \<lparr>fi_Digest = replicate 64 (CHR ''a''), fi_OwnerUID = 0, fi_Mode = 0x1ED, fi_Regular = True, fi_Symlink = False\<rparr>),
       (''/runtime/interpreters/loader'', \<lparr>fi_Digest = replicate 64 (CHR ''b''), fi_OwnerUID = 0, fi_Mode = 0x1ED, fi_Regular = True, fi_Symlink = False\<rparr>),
       (''/runtime/lib/libbrick.so'', \<lparr>fi_Digest = replicate 64 (CHR ''c''), fi_OwnerUID = 0, fi_Mode = 0x1A4, fi_Regular = True, fi_Symlink = False\<rparr>)] path"

definition verify_resource_plan :: resource_Plan where
  "verify_resource_plan =
     \<lparr>sp_Schema = resource_Schema, sp_CageID = ''cage-verify-a'', sp_Profile = ProfileSharedTenant, sp_IsolationPlanDigest = [],
      sp_Cgroup = \<lparr>cg_Path = [], cg_Writes = []\<rparr>, sp_FileDescriptorMax = 0, sp_WallClockSeconds = 0,
      sp_Network = \<lparr>nw_Mode = [], nw_ProxySPIFFEID = [], nw_AllowedEndpoints = []\<rparr>, sp_PlanDigest = replicate 64 (CHR ''d'')\<rparr>"

definition integrity_verify_request :: integrity_Request where
  "integrity_verify_request =
     \<lparr>gq_Schema = integrity_Schema, gq_CageID = ''cage-verify-a'', gq_Profile = ProfileSharedTenant,
      gq_ResourcePlanDigest = sp_PlanDigest verify_resource_plan, gq_ExecutablePath = ''/runtime/bin/httpd'',
      gq_Arguments = [''--foreground'', ''--port=8080''], gq_RequestedEnvironment = []\<rparr>"

definition integrity_verify :: "verify_env \<Rightarrow> go_error option" where
  "integrity_verify env =
     (case check_contract env ''contracts/brick-host-isolation-integrity.v1.json'' integrity_Schema ''invalid integrity contract'' of
        Some err \<Rightarrow> Some err
      | None \<Rightarrow>
          let key = seed_key env 7 in
          (case SignManifest (vf_E env) verify_manifest key of
             Inl err \<Rightarrow> Some err
           | Inr manifest \<Rightarrow>
               (case integrity_NewAuthority (vf_E env) manifest (key_Public key) (Some (\<lambda>_. True)) (Some verify_files) (Some verify_sink) of
                  Inl err \<Rightarrow> Some err
                | Inr authority \<Rightarrow>
                    (case integrity_Prepare (Some authority) False verify_actor verify_resource_plan integrity_verify_request [] of
                       (Inl err, _) \<Rightarrow> Some err
                     | (Inr plan, _) \<Rightarrow> integrity_VerifyPlan (Some authority) plan))))"

section \<open>edition-verify\<close>

text \<open>The first readable path decides; the program reads the path that the environment names, or the fixture.\<close>

fun first_binding :: "verify_env \<Rightarrow> string list \<Rightarrow> ReleaseEvidenceBinding go_result" where
  "first_binding env [] = Inl (ErrOther ''file does not exist'')"
| "first_binding env (path # paths) =
     (case vf_ReadFile env path of
        None \<Rightarrow> first_binding env paths
      | Some raw \<Rightarrow> LoadReleaseEvidenceBinding (vf_binding env) raw)"

definition loadReleaseBinding :: "verify_env \<Rightarrow> ReleaseEvidenceBinding go_result" where
  "loadReleaseBinding env =
     (let path = vf_Getenv env ''BRICK_RELEASE_EVIDENCE_BINDING_FIXTURE'' in
      first_binding env ((if path \<noteq> [] then [path] else []) @
        [''contracts/fixtures/release-evidence-binding.v1.valid.json'',
         ''../contracts/fixtures/release-evidence-binding.v1.valid.json'']))"

definition verify_template :: "Profile \<Rightarrow> string \<Rightarrow> Template" where
  "verify_template profile executable =
     \<lparr>tp_Profile = profile,
      tp_Limits = \<lparr>lm_CPUQuotaMicros = 50000, lm_CPUPeriodMicros = 100000, lm_MemoryMaxBytes = 2 ^ 30, lm_MemoryHighBytes = 0,
        lm_MemorySwapMaxBytes = 0, lm_PidsMax = 64, lm_IO = [], lm_FileDescriptorMax = 512, lm_WallClockSeconds = 600\<rparr>,
      tp_Network = \<lparr>nw_Mode = ''denyAll'', nw_ProxySPIFFEID = [], nw_AllowedEndpoints = []\<rparr>,
      tp_ExecutablePath = executable, tp_Arguments = [''--foreground'']\<rparr>"

definition verify_templates :: "(Edition \<times> Template) list" where
  "verify_templates =
     [(Shared, verify_template ProfileSharedTenant ''/runtime/bin/shared-entry''),
      (Dedicated, verify_template ProfileDedicatedAdministrator ''/runtime/bin/dedicated-entry'')]"

definition verify_intent :: Intent where
  "verify_intent = \<lparr>in_Schema = edition_Schema, in_Edition = Shared, in_CageID = ''cage-verify-a'',
     in_BaseRootDigest = replicate 64 (CHR ''b''), in_SeccompDigest = replicate 64 (CHR ''c'')\<rparr>"

definition verify_runner :: scenario_runner where
  "verify_runner obs s c = Some \<lparr>ob_Scenario = s, ob_Passed = True, ob_EvidenceDigest = replicate 64 (CHR ''a'')\<rparr>"

definition edition_verify :: "verify_env \<Rightarrow> go_error option" where
  "edition_verify env =
     (case check_contract env ''contracts/brick-host-isolation-edition.v1.json'' edition_Schema ''invalid edition contract'' of
        Some err \<Rightarrow> Some err
      | None \<Rightarrow>
          (case loadReleaseBinding env of
             Inl err \<Rightarrow> Some err
           | Inr releaseBinding \<Rightarrow>
               (case NewCompiler verify_templates (Some (\<lambda>_. True)) (Some verify_sink) of
                  Inl err \<Rightarrow> Some err
                | Inr compiler \<Rightarrow>
                    (case Compile (Some compiler) False verify_actor verify_intent [] of
                       (Inl err, _) \<Rightarrow> Some err
                     | (Inr compilation, log) \<Rightarrow>
                         let key = seed_key env 9 in
                         (case NewStagingAuthority key (Some verify_runner) (Some verify_sink) (Some verify_now) of
                            Inl err \<Rightarrow> Some err
                          | Inr staging \<Rightarrow>
                              (case staging_Run (vf_E env) (Some staging) (\<lambda>_. False) verify_actor
                                      ''11111111-1111-4111-8111-111111111111'' compilation releaseBinding log of
                                 (Inl err, _) \<Rightarrow> Some err
                               | (Inr evidence, _) \<Rightarrow> VerifyEvidence (vf_E env) evidence (key_Public key)))))))"

section \<open>recovery-verify\<close>

definition recovery_verify_request :: recovery_Request where
  "recovery_verify_request =
     \<lparr>vq_Schema = recovery_Schema, vq_RecoveryID = ''11111111-1111-4111-8111-111111111111'', vq_CageID = ''cage-verify-a'',
      vq_CallerSPIFFEID = ''spiffe://brick/verify'', vq_HostIdentity = ''host-staging-a'',
      vq_PolicyDigest = replicate 64 (CHR ''b''), vq_ReasonCode = ''anomaly''\<rparr>"

text \<open>The calls that the controller counts: all but the capture and the hand-off.\<close>

definition controller_calls :: "effect list \<Rightarrow> effect list" where
  "controller_calls = filter (\<lambda>(s, _). s \<noteq> CaptureEvidence \<and> s \<noteq> Handoff)"

fun verify_events :: "ed25519 \<Rightarrow> bytes \<Rightarrow> (Event \<times> bool) list \<Rightarrow> go_error option" where
  "verify_events E key [] = None"
| "verify_events E key ((event, _) # events) =
     (case VerifyEvent E event key of Some err \<Rightarrow> Some err | None \<Rightarrow> verify_events E key events)"

definition recovery_verify :: "verify_env \<Rightarrow> go_error option" where
  "recovery_verify env =
     (case check_contract env ''contracts/brick-host-isolation-recovery.v1.json'' recovery_Schema ''invalid recovery contract'' of
        Some err \<Rightarrow> Some err
      | None \<Rightarrow>
          let key = seed_key env 8 in
          (case recovery_NewAuthority key (Some (\<lambda>_ _. True)) (Some verify_sink) (Some (\<lambda>_ _ _. Some (replicate 64 (CHR ''a''))))
                  (Some (\<lambda>_ _ _. True)) (Some (\<lambda>_ _ _. True)) (Some (\<lambda>_. verify_now)) of
             Inl err \<Rightarrow> Some err
           | Inr authority \<Rightarrow>
               (case SuspendAndRecover (vf_E env) (Some authority) (\<lambda>_. False) recovery_verify_request recovery_init of
                  (Inl err, _) \<Rightarrow> Some err
                | (Inr attestation, st) \<Rightarrow>
                    (case recovery_VerifyAttestation (vf_E env) attestation (key_Public key) of
                       Some err \<Rightarrow> Some err
                     | None \<Rightarrow>
                         if length (rs_journal st) \<noteq> 7 \<or> length (controller_calls (rs_effects st)) \<noteq> 4
                         then Some (ErrOther ''incomplete recovery evidence'')
                         else verify_events (vf_E env) (key_Public key) (rs_journal st)))))"

section \<open>The programs pass\<close>

text \<open>
  The file \<open>contracts/fixtures/release-evidence-binding.v1.valid.json\<close> as it stands in the repository, and the
  binding that it denotes.
\<close>

definition quoted :: "string \<Rightarrow> string" where
  "quoted s = [CHR 0x22] @ s @ [CHR 0x22]"

definition fixture_members :: "(string \<times> string) list" where
  "fixture_members =
     [(''schemaVersion'', ''brick.release-evidence-binding.v1''), (''candidateReleaseId'', ''v1.0.0''),
      (''candidateCommitSha'', ''0123456789abcdef0123456789abcdef01234567''),
      (''artifactManifestDigest'', replicate 63 (CHR ''0'') @ ''b''), (''sbomDigest'', replicate 63 (CHR ''0'') @ ''c'')]"

fun fixture_lines :: "(string \<times> string) list \<Rightarrow> string" where
  "fixture_lines [] = []"
| "fixture_lines ((name, value) # rest) =
     ''  '' @ quoted name @ '': '' @ quoted value @ (if rest = [] then [] else '','') @ [CHR 0x0A] @ fixture_lines rest"

definition fixture_text :: bytes where
  "fixture_text = ''{'' @ [CHR 0x0A] @ fixture_lines fixture_members @ ''}'' @ [CHR 0x0A]"

definition fixture_binding :: ReleaseEvidenceBinding where
  "fixture_binding =
     \<lparr>rb_SchemaVersion = ''brick.release-evidence-binding.v1'', rb_CandidateReleaseID = ''v1.0.0'',
      rb_CandidateCommitSHA = ''0123456789abcdef0123456789abcdef01234567'',
      rb_ArtifactManifestDigest = replicate 63 (CHR ''0'') @ ''b'', rb_SBOMDigest = replicate 63 (CHR ''0'') @ ''c''\<rparr>"

text \<open>A contract can be read, and the decoder finds the given schema in it.\<close>

definition contract_file :: "verify_env \<Rightarrow> string \<Rightarrow> string \<Rightarrow> bool" where
  "contract_file env path schema \<longleftrightarrow> (\<exists>data. vf_ReadFile env path = Some data \<and> vf_schema env data = Some schema)"

text \<open>
  The repository and the platform: the keys are keys of a correct Ed25519, the contracts have the
  schemas that are written in them, the fixture has its text, which the decoder reads as the binding that
  it denotes with the final line break left over, and the variable is not set or names a file with the same text.
\<close>

definition verify_env_ok :: "verify_env \<Rightarrow> bool" where
  "verify_env_ok env \<longleftrightarrow> ed25519_correct (vf_E env) \<and> (\<forall>seed. length seed = SeedSize \<longrightarrow> ed_key (vf_E env) (vf_NewKeyFromSeed env seed)) \<and>
     (\<forall>k. \<exists>key. vf_GenerateKey env k = Some (key_Public key, key) \<and> ed_key (vf_E env) key) \<and>
     contract_file env ''contracts/brick-host-isolation.v1.json'' ''brick.host-isolation.v1'' \<and>
     contract_file env ''contracts/brick-host-isolation-isolation.v1.json'' ''brick.host-isolation.isolation.v1'' \<and>
     contract_file env ''contracts/brick-host-isolation-resource.v1.json'' ''brick.host-isolation.resource.v1'' \<and>
     contract_file env ''contracts/brick-host-isolation-integrity.v1.json'' ''brick.host-isolation.integrity.v1'' \<and>
     contract_file env ''contracts/brick-host-isolation-recovery.v1.json'' ''brick.host-isolation.recovery.v1'' \<and>
     contract_file env ''contracts/brick-host-isolation-edition.v1.json'' ''brick.host-isolation.edition.v1'' \<and>
     vf_ReadFile env ''contracts/brick-host-isolation-certification.v1.json'' \<noteq> None \<and>
     vf_ReadFile env ''contracts/fixtures/release-evidence-binding.v1.valid.json'' = Some fixture_text \<and>
     vf_binding env fixture_text = Inr (fixture_binding, [CHR 0x0A]) \<and>
     (vf_Getenv env ''BRICK_RELEASE_EVIDENCE_BINDING_FIXTURE'' = [] \<or>
      vf_ReadFile env (vf_Getenv env ''BRICK_RELEASE_EVIDENCE_BINDING_FIXTURE'') = Some fixture_text)"

lemma fixture_length: "length fixture_text = 341" by code_simp

lemma fixture_loads:
  assumes "verify_env_ok env"
  shows "loadReleaseBinding env = Inr fixture_binding"
proof -
  have valid: "ValidateReleaseEvidenceBinding fixture_binding = None" by code_simp
  have env: "vf_ReadFile env ''contracts/fixtures/release-evidence-binding.v1.valid.json'' = Some fixture_text"
      "vf_binding env fixture_text = Inr (fixture_binding, [CHR 0x0A])"
      "vf_Getenv env ''BRICK_RELEASE_EVIDENCE_BINDING_FIXTURE'' = [] \<or>
       vf_ReadFile env (vf_Getenv env ''BRICK_RELEASE_EVIDENCE_BINDING_FIXTURE'') = Some fixture_text"
    using assms unfolding verify_env_ok_def by blast+
  have load: "LoadReleaseEvidenceBinding (vf_binding env) fixture_text = Inr fixture_binding"
    by (simp add: LoadReleaseEvidenceBinding_def fixture_length env(2) valid json_blank_def ccode_def)
  show ?thesis using env(1,3) load by (auto simp: loadReleaseBinding_def Let_def)
qed

lemma contract_checked: "contract_file env path schema \<Longrightarrow> check_contract env path schema invalid = None"
  by (auto simp: contract_file_def check_contract_def)

text \<open>What the programs find: each contract check passes.\<close>

lemma verify_contracts:
  assumes "verify_env_ok env"
  shows "check_contract env ''contracts/brick-host-isolation.v1.json'' lifecycle_Schema ''invalid contract schema'' = None"
    and "check_contract env ''contracts/brick-host-isolation-isolation.v1.json'' isolation_Schema ''invalid isolation contract'' = None"
    and "check_contract env ''contracts/brick-host-isolation-resource.v1.json'' resource_Schema ''invalid resource contract'' = None"
    and "check_contract env ''contracts/brick-host-isolation-integrity.v1.json'' integrity_Schema ''invalid integrity contract'' = None"
    and "check_contract env ''contracts/brick-host-isolation-recovery.v1.json'' recovery_Schema ''invalid recovery contract'' = None"
    and "check_contract env ''contracts/brick-host-isolation-edition.v1.json'' edition_Schema ''invalid edition contract'' = None"
  using assms unfolding verify_env_ok_def lifecycle_Schema_def isolation_Schema_def resource_Schema_def integrity_Schema_def
    recovery_Schema_def edition_Schema_def
  by (simp_all only: contract_checked)

lemma seed_key_ok: "verify_env_ok env \<Longrightarrow> ed_key (vf_E env) (seed_key env n)"
  by (simp add: verify_env_ok_def seed_key_def)

lemma verify_now_UTC: "time_UTC verify_now = verify_now"
  by (simp add: time_UTC_def verify_now_def)

lemma verify_encodable:
  "time_encodable verify_now" "time_encodable (time_Add verify_now maxAttestationValidity)"
  "time_encodable (time_Add verify_now (- Minute))" "time_encodable (time_Add verify_now (5 * Minute))"
  by code_simp+

lemma lifecycle_verify_shape: "validateRequestShape (lifecycle_verify_request\<lparr>rq_SignatureAlgorithm := SignatureAlgorithm\<rparr>) verify_now = []"
  by code_simp

lemma lifecycle_verify_passes:
  assumes env: "verify_env_ok env"
  shows "lifecycle_verify env = None"
proof -
  let ?E = "vf_E env" and ?caller = "seed_key env 1" and ?engine = "seed_key env 2"
  note keys = seed_key_ok [OF env]
  have E: "ed25519_correct ?E" using env by (simp add: verify_env_ok_def)
  have "validSPIFFEID ''spiffe://brick/shared-adapter''" "digestPattern (replicate 64 (CHR ''a''))" by code_simp+
  then obtain a where a: "lifecycle_NewAuthority ?engine (replicate 64 (CHR ''a'')) [(''spiffe://brick/shared-adapter'', key_Public ?caller)]
      (Some verify_sink) (Some replay_Claim) (Some (\<lambda>_. verify_now)) = Inr a"
    and sel: "la_engineKey a = ?engine" "la_trustedCallers a = [(''spiffe://brick/shared-adapter'', key_Public ?caller)]"
      "la_audit a = Some verify_sink" "la_replay a = Some replay_Claim" "la_clock a = Some (\<lambda>_. verify_now)"
    using keys [of 1] keys [of 2] by (auto simp: lifecycle_NewAuthority_def ed_key_def)
  have "\<exists>payload. canonicalRequest (set_request_sig ''ed25519'' [] lifecycle_verify_request) = Some payload"
    using verify_encodable by (simp add: canonicalRequest_def set_request_sig_def lifecycle_verify_request_def SignatureAlgorithm_def)
  then obtain req where req: "SignRequest ?E lifecycle_verify_request ?caller = Inr req"
    unfolding SignRequest_def using request_sig.sign_record_total keys [of 1] unfolding ed_key_def by metis
  then obtain s where s: "req = set_request_sig SignatureAlgorithm s lifecycle_verify_request"
    unfolding SignRequest_def SignatureAlgorithm_def by (metis request_sig.sign_record_cases)
  have "authentic ?E a req verify_now"
    using request_sig.sign_record_verifies(1) [OF E keys req [unfolded SignRequest_def]] lifecycle_verify_shape
      shape_set_sig [of s lifecycle_verify_request verify_now]
    by (simp add: authentic_def sel s set_request_sig_def lifecycle_verify_request_def)
  let ?st = "\<lparr>ls_sequence = 0, ls_ledger = False, ls_log = [], ls_ticks = 0\<rparr>"
  have "\<exists>att. fst (Authorize ?E (Some a) req ?st) = Inr att"
    using Authorize_granted_iff [OF sel(3,4,5), where now = verify_now and st = ?st and E = ?E and req = req] \<open>authentic ?E a req verify_now\<close> keys [of 2] verify_encodable(1,2)
    by (simp add: sel verify_now_UTC replay_Claim_def verify_sink_def ed_key_def)
  then obtain att st' where run: "Authorize ?E (Some a) req ?st = (Inr att, st')" by (metis prod.collapse)
  obtain sink claim where w: "authorize_with ?E a sink claim (\<lambda>_. verify_now) req ?st = (Inr att, st')"
    using Authorize_InrD [OF run] sel(5) by force
  have "t_ns verify_now < t_ns (at_ExpiresAt att)" using authorize_with_fresh [OF w] by simp
  from attestation_verifies [OF E keys a run this]
  show ?thesis using verify_contracts(1) [OF env] a req run by (simp add: lifecycle_verify_def)
qed

text \<open>The isolation plan that two of the programs start from.\<close>

lemma verify_isolation_planned:
  obtains plan where "verify_isolation_plan = Inr plan" "isolation_VerifyPlan plan = None"
    "ip_CageID plan = ''cage-verify-a''" "ip_Profile plan = ProfileSharedTenant"
proof -
  have valid: "isolation_validateRequest isolation_verify_request = []" by code_simp
  let ?plan = "(isolation_new_plan isolation_verify_request)
    \<lparr>ip_PlanDigest := isolation_digestPlan (isolation_new_plan isolation_verify_request)\<rparr>"
  have "verify_isolation_plan = Inr ?plan"
    by (simp add: verify_isolation_plan_def isolation_NewAuthority_def isolation_Prepare_def Let_def authorize_plan_def
        RecordEvent_def verify_sink_def valid)
  moreover have "isolation_VerifyPlan ?plan = None"
    by (rule isolation_sealed_verifies) (use valid in \<open>simp add: isolation_validateRequest_iff\<close>)
  moreover have "ip_CageID ?plan = ''cage-verify-a''" "ip_Profile ?plan = ProfileSharedTenant"
    by (simp_all add: isolation_new_plan_def isolation_verify_request_def)
  ultimately show ?thesis by (rule that)
qed

lemma isolation_verify_passes:
  assumes env: "verify_env_ok env"
  shows "isolation_verify env = None"
proof -
  obtain plan where plan: "verify_isolation_plan = Inr plan" "isolation_VerifyPlan plan = None"
    by (rule verify_isolation_planned)
  show ?thesis using verify_contracts(2) [OF env] plan(2) unfolding isolation_verify_def plan(1) sum.case by simp
qed

lemma apply_all_writes:
  "apply_writes (\<lambda>_ _. True) (\<lambda>_. False) k path ws tr = (None, tr @ map (\<lambda>(f, v). (WriteFile (path_Join [path, f]) v, True)) ws)"
  by (induction ws arbitrary: k tr) (auto simp: cgroup_do_def)

lemma resource_verify_passes:
  assumes env: "verify_env_ok env"
  shows "resource_verify env = None"
proof -
  obtain ip where ip: "verify_isolation_plan = Inr ip" "isolation_VerifyPlan ip = None"
    "ip_CageID ip = ''cage-verify-a''" "ip_Profile ip = ProfileSharedTenant"
    by (rule verify_isolation_planned)
  let ?q = "resource_verify_request ip"
  have limits: "validLimits verify_maximum verify_maximum" "validLimits (sq_Limits ?q) verify_maximum"
    unfolding resource_verify_request_def resource_Request.select_convs by code_simp+
  have "canonicalLimits verify_maximum = verify_maximum" by (simp add: canonicalLimits_def canonicalIO_def verify_maximum_def)
  then obtain a where a: "resource_NewAuthority ''/sys/fs/cgroup/brick-isolation'' verify_maximum (Some verify_sink) = Inr a"
    "ra_max a = verify_maximum" "ra_audit a = Some verify_sink"
    using limits(1) by (simp add: resource_NewAuthority_def safeCgroupRoot_def)
  have "isolation_request_ok (plan_request ip)" using ip(2) by (simp add: isolation_VerifyPlan_iff)
  then have n: "canonicalStrings (ip_NamespaceFlags ip) = requiredNS" "ip_NoNewPrivileges ip" "ip_ClearEnvironment ip"
      "ip_CloseDescriptorsAt ip = 3" "digestPattern (ip_PlanDigest ip)"
    using ip(2) by (auto simp: isolation_request_ok_def plan_request_def isolation_VerifyPlan_iff)
  have "set (ip_NamespaceFlags ip) = set requiredNS" using n(1) by (metis canonicalStrings_def set_sort)
  then have "''network'' \<in> set (ip_NamespaceFlags ip)" by (simp add: requiredNS_def)
  moreover have "cageIDPattern ''cage-verify-a''" by code_simp
  ultimately have v: "resource_validate a ?q ip = []"
    using limits(2) n ip by (simp add: resource_validate_iff a(2)) (simp add: resource_verify_request_def validNetwork_def)
  let ?plan = "(resource_new_plan a ?q)\<lparr>sp_PlanDigest := resource_digestPlan (resource_new_plan a ?q)\<rparr>"
  have ok: "resource_VerifyPlan a ?plan = None"
    by (rule resource_new_plan_verifies [OF resource_NewAuthority_root [OF a(1)] ip(2) v])
  then have six: "length (cg_Writes (sp_Cgroup ?plan)) = 6" 
    by (auto simp: resource_VerifyPlan_iff resource_plan_ok_def canonicalWrites_def controller_files_def split: if_splits)
  have run: "resource_Prepare (Some a) False verify_actor ip ?q [] = (Inr ?plan, [(resource_authorized_event verify_actor ?plan, True)])"
    by (simp add: resource_Prepare_def a(3) ip(2) v Let_def authorize_plan_def RecordEvent_def verify_sink_def)
  obtain tr events where applied: "ApplyCgroup (Some a) (\<lambda>_. False) ?plan (Some (\<lambda>_ _. True)) [] [] = (None, tr, events)"
    and tr: "tr = (Mkdir (cg_Path (sp_Cgroup ?plan)) 0x1E8, True) #
      map (\<lambda>(f, v). (WriteFile (path_Join [cg_Path (sp_Cgroup ?plan), f]) v, True)) (cg_Writes (sp_Cgroup ?plan))"
    using ok by (simp add: ApplyCgroup_def cgroup_do_def apply_all_writes RecordEvent_def verify_sink_def Let_def a(3))
  have "filter (\<lambda>(x, _). is_write x) (map (\<lambda>(f, v). (WriteFile (path_Join [p, f]) v, True)) ws) =
      map (\<lambda>(f, v). (WriteFile (path_Join [p, f]) v, True)) ws" for p ws
    by (induction ws) (auto simp: is_write_def)
  then have "length (filter (\<lambda>(x, _). is_write x) tr) = 6" using six by (simp add: tr is_write_def)
  then show ?thesis
    using verify_contracts(3) [OF env] unfolding resource_verify_def ip(1) sum.case a(1) run prod.case ok applied option.case by simp
qed

lemma integrity_verify_passes:
  assumes env: "verify_env_ok env"
  shows "integrity_verify env = None"
proof -
  let ?E = "vf_E env" and ?key = "seed_key env 7"
  note key = seed_key_ok [OF env, of 7]
  have E: "ed25519_correct ?E" using env by (simp add: verify_env_ok_def)
  have valid: "validManifest verify_manifest" by code_simp
  obtain m where m: "SignManifest ?E verify_manifest ?key = Inr m"
    using manifest_sig.sign_record_total [of ?key verify_manifest _ ?E] key
    by (auto simp: SignManifest_def canonicalManifestBytes_def ed_key_def)
  then obtain s where s: "m = set_manifest_sig ''ed25519'' s verify_manifest"
    unfolding SignManifest_def by (metis manifest_sig.sign_record_cases)
  have "VerifyManifest ?E m (key_Public ?key) = None" by (rule SignManifest_verifies [OF E key m valid])
  then obtain a where a: "integrity_NewAuthority ?E m (key_Public ?key) (Some (\<lambda>_. True)) (Some verify_files) (Some verify_sink) = Inr a"
    using key by (simp add: integrity_NewAuthority_def)
  note new = integrity_NewAuthority_ok [OF a]
  let ?q = integrity_verify_request and ?e = "canonical_entry (hd (mf_Entries verify_manifest))"
  have f: "findEntry (mf_Entries (ga_manifest a)) ''/runtime/bin/httpd'' = Some ?e"
    unfolding new(3) s by code_simp
  have profile: "mf_Profile (ga_manifest a) = ProfileSharedTenant" by (simp add: new(3) s set_manifest_sig_def verify_manifest_def)
  have c: "cageIDPattern ''cage-verify-a''" "digestPattern (replicate 64 (CHR ''d''))" "safeExecutablePath ''/runtime/bin/httpd''"
    "validArguments [''--foreground'', ''--port=8080'']" "inspect_entry verify_files ?e = []"
    "et_Arguments ?e = [''--foreground'', ''--port=8080'']"
    by code_simp+
  have v: "integrity_validateRequest ?q verify_resource_plan (ga_manifest a) = []"
    using c f profile by (simp add: integrity_validateRequest_iff integrity_verify_request_def verify_resource_plan_def)
  let ?plan = "(new_exec_plan a ?q ?e)\<lparr>xp_PlanDigest := digestExecPlan (new_exec_plan a ?q ?e)\<rparr>"
  have q: "gq_ExecutablePath ?q = ''/runtime/bin/httpd''" by (simp add: integrity_verify_request_def)
  have run: "integrity_Prepare (Some a) False verify_actor verify_resource_plan ?q [] = (Inr ?plan, [(exec_authorized_event verify_actor ?plan, True)])"
    by (simp add: integrity_Prepare_def new(4-6) v q f c(5) Let_def authorize_plan_def RecordEvent_def verify_sink_def)
  have "integrity_VerifyPlan (Some a) ?plan = None"
    by (rule new_exec_plan_verifies) (use v f q in \<open>auto simp: integrity_validateRequest_iff\<close>)
  then show ?thesis
    using verify_contracts(4) [OF env] unfolding integrity_verify_def m sum.case a run prod.case Let_def by simp
qed

lemma loadReleaseBinding_valid: "loadReleaseBinding env = Inr b \<Longrightarrow> ValidateReleaseEvidenceBinding b = None"
proof -
  have "first_binding env paths = Inr b \<Longrightarrow> ValidateReleaseEvidenceBinding b = None" for paths
    by (induction paths) (auto simp: LoadReleaseEvidenceBinding_def split: option.splits sum.splits if_splits)
  then show "loadReleaseBinding env = Inr b \<Longrightarrow> ValidateReleaseEvidenceBinding b = None"
    unfolding loadReleaseBinding_def Let_def .
qed

lemma verify_scenarios:
  "run_scenarios verify_runner (\<lambda>_. False) k c obs ss =
     Inr (obs @ map (\<lambda>s. \<lparr>ob_Scenario = s, ob_Passed = True, ob_EvidenceDigest = replicate 64 (CHR ''a'')\<rparr>) ss)"
proof -
  have "digestPattern (replicate 64 (CHR ''a''))" by code_simp
  then show ?thesis by (induction ss arbitrary: k obs) (auto simp: verify_runner_def observation_ok_def)
qed

lemma verify_compiled:
  obtains k c log where "NewCompiler verify_templates (Some (\<lambda>_. True)) (Some verify_sink) = Inr k"
    "Compile (Some k) False verify_actor verify_intent [] = (Inr c, log)" "verifyCompilation c = None"
proof -
  let ?k = "\<lparr>cp_templates = verify_templates, cp_resourceVerifier = Some (\<lambda>_. True), cp_audit = Some verify_sink\<rparr>"
  let ?n = "new_compilation verify_intent (verify_template ProfileSharedTenant ''/runtime/bin/shared-entry'')"
  have "list_all (\<lambda>(edition, t). validEditionProfile edition (tp_Profile t) \<and> validTemplate t) verify_templates" by code_simp
  then have "NewCompiler verify_templates (Some (\<lambda>_. True)) (Some verify_sink) = Inr ?k"
    by (simp add: NewCompiler_def) (simp add: verify_templates_def)
  moreover have "map_of verify_templates (in_Edition verify_intent) = Some (verify_template ProfileSharedTenant ''/runtime/bin/shared-entry'')"
    by (simp add: verify_templates_def verify_intent_def)
  moreover have "digestPattern (in_BaseRootDigest verify_intent)" "digestPattern (in_SeccompDigest verify_intent)"
    "in_Schema verify_intent = edition_Schema" by code_simp+
  ultimately have "Compile (Some ?k) False verify_actor verify_intent [] =
      (Inr (?n\<lparr>co_BindingDigest := digestCompilation ?n\<rparr>), [(compiled_event verify_actor (?n\<lparr>co_BindingDigest := digestCompilation ?n\<rparr>), True)])"
    by (simp add: Compile_def Let_def authorize_plan_def RecordEvent_def verify_sink_def)
  moreover have "verifyCompilation (?n\<lparr>co_BindingDigest := digestCompilation ?n\<rparr>) = None"
    by (rule new_compilation_verifies) (simp add: validEditionProfile_def verify_intent_def verify_template_def)
  ultimately show ?thesis
    using that [of ?k] \<open>NewCompiler verify_templates (Some (\<lambda>_. True)) (Some verify_sink) = Inr ?k\<close> by blast
qed

lemma edition_verify_passes:
  assumes env: "verify_env_ok env"
  shows "edition_verify env = None"
proof -
  let ?E = "vf_E env" and ?key = "seed_key env 9" and ?id = "''11111111-1111-4111-8111-111111111111''"
  note key = seed_key_ok [OF env, of 9]
  have E: "ed25519_correct ?E" using env by (simp add: verify_env_ok_def)
  obtain b where b: "loadReleaseBinding env = Inr b"
    using fixture_loads [OF env] by blast
  obtain k c log where c: "NewCompiler verify_templates (Some (\<lambda>_. True)) (Some verify_sink) = Inr k"
    "Compile (Some k) False verify_actor verify_intent [] = (Inr c, log)" "verifyCompilation c = None"
    by (rule verify_compiled)
  let ?a = "\<lparr>sa_key = ?key, sa_runner = Some verify_runner, sa_audit = Some verify_sink, sa_now = Some verify_now\<rparr>"
  let ?obs = "map (\<lambda>s. \<lparr>ob_Scenario = s, ob_Passed = True, ob_EvidenceDigest = replicate 64 (CHR ''a'')\<rparr>) requiredScenarios"
  let ?v = "new_evidence ?id c b verify_now ?obs"
  have a: "NewStagingAuthority ?key (Some verify_runner) (Some verify_sink) (Some verify_now) = Inr ?a"
    using key by (simp add: NewStagingAuthority_def ed_key_def)
  have "\<exists>payload. canonicalEvidence (set_evidence_sig ''ed25519'' [] ?v) = Some payload"
    using verify_encodable(1) by (simp add: canonicalEvidence_def set_evidence_sig_def new_evidence_def verify_now_UTC)
  then obtain v where v: "SignEvidence ?E ?v ?key = Inr v"
    unfolding SignEvidence_def using evidence_sig.sign_record_total key unfolding ed_key_def by metis
  have "requestIDPattern ?id" by code_simp
  then obtain log' where run: "staging_Run ?E (Some ?a) (\<lambda>_. False) verify_actor ?id c b log = (Inr v, log')"
    using loadReleaseBinding_valid [OF b] c(3) v
    by (simp add: staging_Run_def verify_scenarios authorize_plan_def RecordEvent_def verify_sink_def)
  have "VerifyEvidence ?E v (key_Public ?key) = None"
    using staging_evidence [OF E _ run] key by simp
  then show ?thesis
    using verify_contracts(6) [OF env] unfolding edition_verify_def Let_def b c(1,2) a run sum.case prod.case by simp
qed

lemma verify_events_None: "\<forall>i<length evs. VerifyEvent E (fst (evs ! i)) key = None \<Longrightarrow> verify_events E key evs = None"
proof (induction evs)
  case (Cons x evs)
  have "VerifyEvent E (fst x) key = None" using Cons.prems by force
  moreover have "verify_events E key evs = None" using Cons.prems by (intro Cons.IH) force
  ultimately show ?case by (cases x) simp
qed simp

lemma recovery_verify_passes:
  assumes env: "verify_env_ok env"
  shows "recovery_verify env = None"
proof -
  let ?E = "vf_E env" and ?key = "seed_key env 8" and ?q = recovery_verify_request
  note key = seed_key_ok [OF env, of 8]
  let ?new = "recovery_NewAuthority ?key (Some (\<lambda>_ _. True)) (Some verify_sink) (Some (\<lambda>_ _ _. Some (replicate 64 (CHR ''a''))))
      (Some (\<lambda>_ _ _. True)) (Some (\<lambda>_ _ _. True)) (Some (\<lambda>_. verify_now))"
  have "\<not> isl ?new" using key by (simp add: recovery_NewAuthority_def ed_key_def)
  then obtain a where a: "?new = Inr a" by (metis sum.collapse(2))
  then have sel: "rd_key a = ?key" "rd_journal a = (\<lambda>_ _. True)" "rd_audit a = verify_sink" "rd_clock a = (\<lambda>_. verify_now)"
      "rd_evidence a = (\<lambda>_ _ _. Some (replicate 64 (CHR ''a'')))" "rd_controller a = (\<lambda>_ _ _. True)" "rd_handoff a = (\<lambda>_ _ _. True)"
    by (auto simp: recovery_NewAuthority_def split: if_splits)
  have c: "digestPattern (replicate 64 (CHR ''a''))" "\<not> time_IsZero verify_now" "recovery_validateRequest ?q = []"
    by code_simp+
  have signs: "signs ?E a" using env key verify_encodable(1) c(2) by (simp add: signs_def sel verify_env_ok_def verify_now_UTC)
  have willing: "willing a" using c(1) by (simp add: willing_def sel verify_sink_def)
  obtain att st where run: "SuspendAndRecover ?E (Some a) (\<lambda>_. False) ?q recovery_init = (Inr att, st)"
    using recover_willing [OF signs willing, of "\<lambda>_. False" ?q recovery_init] by (auto simp: SuspendAndRecover_def c(3))
  have ready: "recovery_ready ?E a ?q recovery_init" using signs c(3) by (simp add: recovery_ready_def recovery_init_def)
  from SuspendAndRecover_events [OF ready run] obtain new where
    new: "rs_journal st = new" "\<forall>i<length new. VerifyEvent ?E (fst (new ! i)) (key_Public ?key) = None"
      "map (\<lambda>(e, _). (ve_Action e, ve_Outcome e)) new = completed_acts"
      "recovery_VerifyAttestation ?E att (key_Public ?key) = None"
    by (auto simp: sel recovery_init_def)
  have "length new = 7" using arg_cong [OF new(3), of length] by (simp add: completed_acts_def all_steps_def)
  obtain tr where tr: "rs_effects st = tr" "kill_first ?q [] (va_EvidenceDigest att) tr"
    using SuspendAndRecover_trace [OF run] by (auto simp: recovery_init_def)
  have "length (controller_calls tr) = length (filter (\<lambda>s. s \<noteq> CaptureEvidence \<and> s \<noteq> Handoff) (map fst tr))"
    by (simp add: controller_calls_def filter_map comp_def split_def)
  also have "\<dots> = 4" unfolding kill_first_finished(1) [OF tr(2)] by (simp add: all_steps_def)
  finally have "length (controller_calls (rs_effects st)) = 4" using tr(1) by simp
  then show ?thesis
    using verify_contracts(5) [OF env] new \<open>length new = 7\<close> verify_events_None [OF new(2)]
    unfolding recovery_verify_def Let_def a sum.case run prod.case by simp
qed

end
