(* ===== verification/Certification_Verify.thy ===== *)
theory Certification_Verify
  imports Verifiers
begin

text \<open>
  The acceptance program \<open>cmd/certification-verify\<close>: it signs complete evidence for one release under
  fresh keys, has it certified, verifies the certificate, and then checks that a rejected review,
  signed by the right reviewer, is refused. The keys come from \<open>ed25519.GenerateKey\<close>, an argument.
\<close>

section \<open>The evidence of the release\<close>

definition cv_releaseID :: string where "cv_releaseID = ''v1.0.0''"
definition cv_commit :: string where "cv_commit = replicate 40 (CHR ''a'')"
definition cv_actor :: string where "cv_actor = ''spiffe://brick.example/release/certifier''"
definition cv_certID :: string where "cv_certID = ''123e4567-e89b-42d3-a456-426614174000''"

definition cv_now :: gotime where "cv_now = \<lparr>t_ns = 1787220000 * Second, t_zone = 0\<rparr>"

lemma cv_now_date: "format_time cv_now = ''2026-08-20T10:00:00Z''"
  by code_simp

definition cv_digest :: "string \<Rightarrow> string" where "cv_digest value = sha256_hex value"

definition cv_manifest :: ArtifactManifest where
  "cv_manifest =
     \<lparr>am_Schema = ManifestSchema, am_ReleaseID = cv_releaseID, am_SourceCommit = cv_commit,
      am_CreatedAt = time_Add cv_now (- Minute), am_SBOMDigest = cv_digest ''sbom'',
      am_Artifacts = [\<lparr>af_Path = ''bin/brick-host-isolation'', af_Digest = cv_digest ''binary'', af_SizeBytes = 4096\<rparr>,
        \<lparr>af_Path = ''docs/release.md'', af_Digest = cv_digest ''docs'', af_SizeBytes = 512\<rparr>],
      am_SignatureAlgorithm = [], am_Signature = []\<rparr>"

definition cv_benchmark :: BenchmarkEvidence where
  "cv_benchmark =
     \<lparr>be_Schema = BenchmarkSchema, be_ReleaseID = cv_releaseID, be_SourceCommit = cv_commit,
      be_MeasuredAt = time_Add cv_now (- Minute), be_EnvironmentDigest = cv_digest ''environment'',
      be_Results = [\<lparr>br_Name = ''BenchmarkCertify'', br_Iterations = 1000, br_NanosecondsPerOp = 20000,
        br_AllocationsPerOp = 10, br_BytesPerOp = 4096\<rparr>],
      be_SignatureAlgorithm = [], be_Signature = []\<rparr>"

definition cv_review :: SecurityReview where
  "cv_review =
     \<lparr>sr_Schema = ReviewSchema, sr_ReleaseID = cv_releaseID, sr_SourceCommit = cv_commit,
      sr_ReviewID = ''123e4567-e89b-42d3-a456-426614174003'', sr_ReviewerID = ''spiffe://brick.example/security/reviewer'',
      sr_ReviewedAt = time_Add cv_now (- Minute), sr_ExpiresAt = time_Add cv_now Hour, sr_Outcome = ''approved'',
      sr_FindingsDigest = cv_digest ''review'', sr_Scope = [''artifact-manifest'', ''engine'', ''staging-evidence''],
      sr_SignatureAlgorithm = [], sr_Signature = []\<rparr>"

definition cv_gate :: "Edition \<Rightarrow> Gate \<Rightarrow> CoreGateEvidence" where
  "cv_gate current gate =
     \<lparr>ge_Schema = CoreGateSchema, ge_Edition = current, ge_Gate = gate, ge_ReleaseID = cv_releaseID,
      ge_SourceCommit = cv_commit, ge_PolicyDigest = cv_digest (current @ gate), ge_IssuedAt = time_Add cv_now (- Minute),
      ge_ExpiresAt = time_Add cv_now Hour, ge_Outcome = ''approved'', ge_SignatureAlgorithm = [], ge_Signature = []\<rparr>"

definition cv_scenarios :: "Scenario list" where
  "cv_scenarios = [''pathTraversal'', ''mountEscape'', ''symlinkEscape'', ''bindMountEscape'', ''namespaceEscape'',
     ''processEscape'', ''socketExposure'', ''environmentInjection'', ''executableInjection'', ''egressBypass'',
     ''resourceExhaustion'', ''replayAttempt'', ''auditFailure'', ''freezeRecovery'', ''crossTenantIsolation'']"

definition cv_evidence :: "Edition \<Rightarrow> string \<Rightarrow> ReleaseEvidenceBinding \<Rightarrow> Evidence" where
  "cv_evidence current evidenceID releaseBinding =
     \<lparr>ed_Schema = edition_Schema, ed_EvidenceID = evidenceID, ed_Edition = current,
      ed_Profile = (if current = Dedicated then ProfileDedicatedAdministrator else ProfileSharedTenant),
      ed_CageID = ''cage-'' @ current, ed_BindingDigest = cv_digest (''binding'' @ current), ed_ReleaseBinding = releaseBinding,
      ed_IssuedAt = time_Add cv_now (- Minute),
      ed_Observations = map (\<lambda>s. \<lparr>ob_Scenario = s, ob_Passed = True, ob_EvidenceDigest = cv_digest (s @ current)\<rparr>) cv_scenarios,
      ed_SignatureAlgorithm = [], ed_Signature = []\<rparr>"

text \<open>
  \<open>return evidence, edition.SignEvidence(&evidence, key)\<close>: Go leaves open whether the variable is read
  before the call; here, as the compiler does it, after.
\<close>

definition cv_staging :: "ed25519 \<Rightarrow> bytes \<Rightarrow> Edition \<Rightarrow> string \<Rightarrow> ReleaseEvidenceBinding \<Rightarrow> Evidence go_result" where
  "cv_staging E key current evidenceID releaseBinding = SignEvidence E (cv_evidence current evidenceID releaseBinding) key"

text \<open>The loop over the editions and gates, and the whole request.\<close>

fun sign_gates :: "ed25519 \<Rightarrow> bytes \<Rightarrow> (Edition \<times> Gate) list \<Rightarrow> CoreGateEvidence list \<Rightarrow> CoreGateEvidence list go_result" where
  "sign_gates E key [] gates = Inr gates"
| "sign_gates E key ((current, gate) # pairs) gates =
     (case SignCoreGateEvidence E (cv_gate current gate) key of
        Inl err \<Rightarrow> Inl err | Inr evidence \<Rightarrow> sign_gates E key pairs (gates @ [evidence]))"

definition cv_pairs :: "(Edition \<times> Gate) list" where
  "cv_pairs = concat (map (\<lambda>current. map (\<lambda>gate. (current, gate)) [GateAdmission, GateCertification, GateGA]) [Shared, Dedicated])"

definition requestFixture ::
  "ed25519 \<Rightarrow> bytes \<Rightarrow> bytes \<Rightarrow> bytes \<Rightarrow> bytes \<Rightarrow> bytes \<Rightarrow> certification_Request go_result" where
  "requestFixture E manifestKey benchmarkKey reviewKey stagingKey coreKey =
     (case SignArtifactManifest E cv_manifest manifestKey of
        Inl err \<Rightarrow> Inl err
      | Inr manifest \<Rightarrow>
     (case digestArtifactManifest manifest of
        None \<Rightarrow> Inl (ErrOther ''manifest digest'')
      | Some manifestDigest \<Rightarrow>
          let releaseBinding = \<lparr>rb_SchemaVersion = ReleaseEvidenceBindingSchema, rb_CandidateReleaseID = cv_releaseID,
                rb_CandidateCommitSHA = cv_commit, rb_ArtifactManifestDigest = manifestDigest, rb_SBOMDigest = am_SBOMDigest manifest\<rparr> in
     (case SignBenchmarkEvidence E cv_benchmark benchmarkKey of
        Inl err \<Rightarrow> Inl err
      | Inr benchmark \<Rightarrow>
     (case SignSecurityReview E cv_review reviewKey of
        Inl err \<Rightarrow> Inl err
      | Inr review \<Rightarrow>
     (case sign_gates E coreKey cv_pairs [] of
        Inl err \<Rightarrow> Inl err
      | Inr gates \<Rightarrow>
     (case cv_staging E stagingKey Shared ''123e4567-e89b-42d3-a456-426614174001'' releaseBinding of
        Inl err \<Rightarrow> Inl err
      | Inr shared \<Rightarrow>
     (case cv_staging E stagingKey Dedicated ''123e4567-e89b-42d3-a456-426614174002'' releaseBinding of
        Inl err \<Rightarrow> Inl err
      | Inr dedicated \<Rightarrow>
          Inr \<lparr>cq_Schema = certification_Schema, cq_ReleaseID = cv_releaseID, cq_SourceCommit = cv_commit,
            cq_ArtifactManifest = manifest, cq_BenchmarkEvidence = benchmark, cq_SecurityReview = review,
            cq_StagingEvidence = [(Shared, shared), (Dedicated, dedicated)], cq_CoreGates = gates\<rparr>)))))))"

section \<open>The program\<close>

definition cv_trust :: "(nat \<Rightarrow> bytes \<times> bytes) \<Rightarrow> TrustBundle" where
  "cv_trust keys = \<lparr>tb_ManifestKey = fst (keys 0), tb_BenchmarkKey = fst (keys 1), tb_SecurityReviewKey = fst (keys 2),
     tb_StagingKey = fst (keys 3), tb_CoreGateKey = fst (keys 4), tb_CertificateKey = snd (keys 5), tb_CertificateTTL = Hour,
     tb_MaxEvidenceAge = 24 * Hour\<rparr>"

text \<open>\<open>keyPair\<close> gives what the generator says at its \<open>k\<close>-th call, a public and a private key; none is an error.\<close>

definition certification_verify :: "verify_env \<Rightarrow> go_error option" where
  "certification_verify env =
     (if vf_ReadFile env ''contracts/brick-host-isolation-certification.v1.json'' = None
      then Some (ErrOther ''contract unavailable'')
      else if list_ex (\<lambda>k. vf_GenerateKey env k = None) [0, 1, 2, 3, 4, 5] then Some (ErrOther ''key generation'')
      else let keys = \<lambda>k. the (vf_GenerateKey env k) in
     (case certification_NewAuthority (cv_trust keys) (Some verify_sink) (Some (\<lambda>_ _. True)) (Some (\<lambda>_. cv_now)) of
        Inl err \<Rightarrow> Some err
      | Inr authority \<Rightarrow>
     (case requestFixture (vf_E env) (snd (keys 0)) (snd (keys 1)) (snd (keys 2)) (snd (keys 3)) (snd (keys 4)) of
        Inl err \<Rightarrow> Some err
      | Inr request \<Rightarrow>
     (case Certify (vf_E env) (Some authority) False cv_actor cv_certID request [] of
        (Inl err, _) \<Rightarrow> Some err
      | (Inr certificate, log) \<Rightarrow>
     (case VerifyCertificate (vf_E env) certificate (fst (keys 5)) cv_now of
        Some err \<Rightarrow> Some err
      | None \<Rightarrow>
     (case SignSecurityReview (vf_E env) (cq_SecurityReview request\<lparr>sr_Outcome := ''rejected''\<rparr>) (snd (keys 2)) of
        Inl err \<Rightarrow> Some err
      | Inr rejected \<Rightarrow>
     (case fst (Certify (vf_E env) (Some authority) False cv_actor cv_certID (request\<lparr>cq_SecurityReview := rejected\<rparr>) log) of
        Inl _ \<Rightarrow> None
      | Inr _ \<Rightarrow> Some (ErrOther ''tampered review unexpectedly certified''))))))))"

section \<open>The program passes\<close>

context signed_record
begin

lemma signed_ok:
  assumes "ed25519_correct E" "ed_key E key" "canonical (set_sig ''ed25519'' [] r) = Some payload"
  obtains s where "sign_record E canonical set_sig key r = Inr (set_sig ''ed25519'' s r)"
    "verifySignature E canonical (set_sig ''ed25519'' s r) (key_Public key) ''ed25519'' s"
    "signature_ok E canonical (key_Public key) s (set_sig ''ed25519'' s r)"
proof -
  have "length key = PrivateKeySize" using assms(2) by (simp add: ed_key_def)
  note r = sign_record_total [OF this assms(3), of E]
  from sign_record_verifies [OF assms(1,2) r] r show ?thesis
    by (intro that) (simp_all add: get_sig_set verifySignature_def SignatureAlgorithm_def)
qed

end

lemma cv_patterns:
  "releasePattern cv_releaseID" "certification_commitPattern cv_commit" "edition_commitPattern cv_commit" "actorPattern cv_actor"
  "requestIDPattern cv_certID" "requestIDPattern ''123e4567-e89b-42d3-a456-426614174003''"
  "actorPattern ''spiffe://brick.example/security/reviewer''"
  "requestIDPattern ''123e4567-e89b-42d3-a456-426614174001''" "requestIDPattern ''123e4567-e89b-42d3-a456-426614174002''"
  by code_simp+

lemma cv_now_UTC [simp]: "time_UTC cv_now = cv_now"
  by (simp add: time_UTC_def cv_now_def)

lemma cv_times:
  "time_encodable cv_now" "time_encodable (time_Add cv_now (- Minute))" "time_encodable (time_Add cv_now Hour)"
  "fresh (time_Add cv_now (- Minute)) cv_now (24 * Hour)" "\<not> time_After (time_Add cv_now (- Minute)) cv_now"
  "time_After (time_Add cv_now Hour) cv_now" "time_After (time_Add cv_now Hour) (time_Add cv_now (- Minute))"
  by code_simp+

lemma cv_manifest_signed:
  assumes "ed25519_correct E" "ed_key E key"
  obtains m d where "SignArtifactManifest E cv_manifest key = Inr m" "digestArtifactManifest m = Some d"
    "VerifyArtifactManifest E m (key_Public key) cv_now (24 * Hour) = None" "am_ReleaseID m = cv_releaseID"
    "am_SourceCommit m = cv_commit" "am_SBOMDigest m = cv_digest ''sbom''"
proof -
  have "\<exists>p. canonicalArtifactManifest (set_am_sig ''ed25519'' [] cv_manifest) = Some p"
    by (simp add: canonicalArtifactManifest_def set_am_sig_def marshal_if_def cv_times cv_manifest_def)
  then obtain p where "canonicalArtifactManifest (set_am_sig ''ed25519'' [] cv_manifest) = Some p" ..
  then obtain s where s: "SignArtifactManifest E cv_manifest key = Inr (set_am_sig ''ed25519'' s cv_manifest)"
    "verifySignature E canonicalArtifactManifest (set_am_sig ''ed25519'' s cv_manifest) (key_Public key) ''ed25519'' s"
    unfolding SignArtifactManifest_def by (rule am_sig.signed_ok [OF assms])
  let ?m = "set_am_sig ''ed25519'' s cv_manifest"
  have "cleanRelativePath ''bin/brick-host-isolation'' = ''bin/brick-host-isolation''" "cleanRelativePath ''docs/release.md'' = ''docs/release.md''"
    "\<not> ''bin/brick-host-isolation'' \<le> []" "\<not> ''docs/release.md'' \<le> ''bin/brick-host-isolation''" by code_simp+
  then have "validArtifacts_loop [] (am_Artifacts cv_manifest)" by (simp add: cv_manifest_def cv_digest_def)
  then have arts: "validArtifacts (am_Artifacts ?m)" by (simp add: validArtifacts_def set_am_sig_def cv_manifest_def)
  have v: "VerifyArtifactManifest E ?m (key_Public key) cv_now (24 * Hour) = None"
    using s(2) arts assms(2) cv_times cv_patterns unfolding VerifyArtifactManifest_def
    by (simp add: set_am_sig_def cv_manifest_def validPublicKey_def cv_digest_def)
  have "\<exists>d. digestArtifactManifest ?m = Some d"
    by (simp add: set_am_sig_def digestArtifactManifest_def cv_times cv_manifest_def)
  then obtain d where "digestArtifactManifest ?m = Some d" ..
  from s(1) this v show ?thesis by (rule that) (simp_all add: set_am_sig_def cv_manifest_def)
qed

lemma cv_benchmark_signed:
  assumes "ed25519_correct E" "ed_key E key"
  obtains b where "SignBenchmarkEvidence E cv_benchmark key = Inr b"
    "VerifyBenchmarkEvidence E b (key_Public key) cv_now (24 * Hour) = None" "be_ReleaseID b = cv_releaseID"
    "be_SourceCommit b = cv_commit"
proof -
  have "\<exists>p. canonicalBenchmarkEvidence (set_be_sig ''ed25519'' [] cv_benchmark) = Some p"
    by (simp add: canonicalBenchmarkEvidence_def set_be_sig_def marshal_if_def cv_times cv_benchmark_def)
  then obtain p where "canonicalBenchmarkEvidence (set_be_sig ''ed25519'' [] cv_benchmark) = Some p" ..
  then obtain s where s: "SignBenchmarkEvidence E cv_benchmark key = Inr (set_be_sig ''ed25519'' s cv_benchmark)"
    "verifySignature E canonicalBenchmarkEvidence (set_be_sig ''ed25519'' s cv_benchmark) (key_Public key) ''ed25519'' s"
    unfolding SignBenchmarkEvidence_def by (rule be_sig.signed_ok [OF assms])
  let ?b = "set_be_sig ''ed25519'' s cv_benchmark"
  have "\<not> ''BenchmarkCertify'' \<le> []" by code_simp
  then have results: "validBenchmarkResults (be_Results ?b)" by (simp add: validBenchmarkResults_def set_be_sig_def cv_benchmark_def)
  have v: "VerifyBenchmarkEvidence E ?b (key_Public key) cv_now (24 * Hour) = None"
    using s(2) results assms(2) cv_times cv_patterns unfolding VerifyBenchmarkEvidence_def
    by (simp add: set_be_sig_def cv_benchmark_def validPublicKey_def cv_digest_def)
  from s(1) v show ?thesis by (rule that) (simp_all add: set_be_sig_def cv_benchmark_def)
qed

lemma cv_review_signed:
  assumes "ed25519_correct E" "ed_key E key"
  obtains r where "SignSecurityReview E cv_review key = Inr r"
    "VerifySecurityReview E r (key_Public key) cv_now = None" "sr_ReleaseID r = cv_releaseID" "sr_SourceCommit r = cv_commit"
    "time_encodable (sr_ReviewedAt r)" "time_encodable (sr_ExpiresAt r)"
proof -
  have "\<exists>p. canonicalSecurityReview (set_sr_sig ''ed25519'' [] cv_review) = Some p"
    by (simp add: canonicalSecurityReview_def set_sr_sig_def marshal_if_def cv_times cv_review_def)
  then obtain p where "canonicalSecurityReview (set_sr_sig ''ed25519'' [] cv_review) = Some p" ..
  then obtain s where s: "SignSecurityReview E cv_review key = Inr (set_sr_sig ''ed25519'' s cv_review)"
    "verifySignature E canonicalSecurityReview (set_sr_sig ''ed25519'' s cv_review) (key_Public key) ''ed25519'' s"
    unfolding SignSecurityReview_def by (rule sr_sig.signed_ok [OF assms])
  let ?r = "set_sr_sig ''ed25519'' s cv_review"
  have scope: "validReviewScope (sr_Scope ?r)" by (simp add: set_sr_sig_def cv_review_def validReviewScope_def)
  have v: "VerifySecurityReview E ?r (key_Public key) cv_now = None"
    using s(2) scope assms(2) cv_times cv_patterns unfolding VerifySecurityReview_def
    by (simp add: set_sr_sig_def cv_review_def validPublicKey_def cv_digest_def)
  from s(1) v show ?thesis by (rule that) (simp_all add: set_sr_sig_def cv_review_def cv_times)
qed

lemma cv_gate_signed:
  assumes "ed25519_correct E" "ed_key E key" "validEdition current" "validGate gate"
  obtains g where "SignCoreGateEvidence E (cv_gate current gate) key = Inr g"
    "gate_ok E (key_Public key) cv_releaseID cv_commit cv_now g" "gate_pair g = (current, gate)"
proof -
  let ?u = "cv_gate current gate"
  have "\<exists>p. canonicalCoreGateEvidence (set_ge_sig ''ed25519'' [] ?u) = Some p"
    by (simp add: canonicalCoreGateEvidence_def set_ge_sig_def marshal_if_def cv_times cv_gate_def)
  then obtain p where "canonicalCoreGateEvidence (set_ge_sig ''ed25519'' [] ?u) = Some p" ..
  then obtain s where s: "SignCoreGateEvidence E ?u key = Inr (set_ge_sig ''ed25519'' s ?u)"
    "verifySignature E canonicalCoreGateEvidence (set_ge_sig ''ed25519'' s ?u) (key_Public key) ''ed25519'' s"
    unfolding SignCoreGateEvidence_def by (rule ge_sig.signed_ok [OF assms(1,2)])
  from s(1) show ?thesis
    by (rule that) (use s(2) assms cv_times in \<open>simp_all add: gate_ok_def gate_pair_def set_ge_sig_def cv_gate_def cv_digest_def\<close>)
qed

lemma sign_gates_signed:
  assumes "ed25519_correct E" "ed_key E key" "\<forall>(e, g)\<in>set pairs. validEdition e \<and> validGate g"
  shows "\<exists>gs. sign_gates E key pairs gates = Inr (gates @ gs) \<and> map gate_pair gs = pairs \<and>
    (\<forall>g\<in>set gs. gate_ok E (key_Public key) cv_releaseID cv_commit cv_now g)"
  using assms(3)
proof (induction pairs arbitrary: gates)
  case (Cons p pairs)
  obtain current gate where p: "p = (current, gate)" by (rule prod.exhaust)
  obtain g where g: "SignCoreGateEvidence E (cv_gate current gate) key = Inr g"
    "gate_ok E (key_Public key) cv_releaseID cv_commit cv_now g" "gate_pair g = (current, gate)"
    by (rule cv_gate_signed [OF assms(1,2)]) (use Cons.prems in \<open>auto simp: p\<close>)
  obtain gs where "sign_gates E key pairs (gates @ [g]) = Inr ((gates @ [g]) @ gs)" "map gate_pair gs = pairs"
    "\<forall>g\<in>set gs. gate_ok E (key_Public key) cv_releaseID cv_commit cv_now g"
    using Cons.IH [of "gates @ [g]"] Cons.prems by auto
  then show ?case using g by (intro exI [of _ "g # gs"]) (simp add: p)
qed simp

lemma cv_staging_signed:
  assumes "ed25519_correct E" "ed_key E key" "validEdition current" "requestIDPattern evidenceID"
    and "ValidateReleaseEvidenceBinding binding = None"
  obtains v where "cv_staging E key current evidenceID binding = Inr v" "VerifyEvidence E v (key_Public key) = None"
    "ed_Edition v = current" "ed_ReleaseBinding v = binding" "fresh (ed_IssuedAt v) cv_now (24 * Hour)"
proof -
  let ?u = "cv_evidence current evidenceID binding"
  have "\<exists>p. canonicalEvidence (set_evidence_sig ''ed25519'' [] ?u) = Some p"
    by (simp add: canonicalEvidence_def set_evidence_sig_def cv_times cv_evidence_def)
  then obtain p where "canonicalEvidence (set_evidence_sig ''ed25519'' [] ?u) = Some p" ..
  then obtain s where s: "cv_staging E key current evidenceID binding = Inr (set_evidence_sig ''ed25519'' s ?u)"
    "signature_ok E canonicalEvidence (key_Public key) s (set_evidence_sig ''ed25519'' s ?u)"
    unfolding cv_staging_def SignEvidence_def by (rule evidence_sig.signed_ok [OF assms(1,2)])
  let ?v = "set_evidence_sig ''ed25519'' s ?u"
  have "list_all2 observation_ok requiredScenarios (ed_Observations ?v)"
    by (simp add: set_evidence_sig_def cv_evidence_def cv_scenarios_def requiredScenarios_def observation_ok_def cv_digest_def)
  then have obs: "validObservations (ed_Observations ?v)" by (simp add: validObservations_iff)
  have profile: "validEditionProfile current (ed_Profile ?v)"
    using assms(3) by (auto simp: validEdition_def validEditionProfile_def set_evidence_sig_def cv_evidence_def Shared_def Dedicated_def)
  have v: "VerifyEvidence E ?v (key_Public key) = None"
    using s(2) obs profile assms(2,4,5) cv_times unfolding VerifyEvidence_def
    by (simp add: set_evidence_sig_def cv_evidence_def SignatureAlgorithm_def cv_digest_def)
  from s(1) v show ?thesis
    by (rule that) (simp_all add: set_evidence_sig_def cv_evidence_def cv_times)
qed

lemma requestFixture_signed:
  assumes E: "ed25519_correct E" and keys: "\<And>k. ed_key E (snd (keys k)) \<and> fst (keys k) = key_Public (snd (keys k))"
  obtains q d where "requestFixture E (snd (keys 0)) (snd (keys 1)) (snd (keys 2)) (snd (keys 3)) (snd (keys 4)) = Inr q"
    "evidence_ok E (cv_trust keys) q cv_now d"
    "time_encodable (sr_ReviewedAt (cq_SecurityReview q))" "time_encodable (sr_ExpiresAt (cq_SecurityReview q))"
proof -
  have k: "ed_key E (snd (keys j))" "fst (keys j) = key_Public (snd (keys j))" for j using keys by blast+
  obtain m d where m: "SignArtifactManifest E cv_manifest (snd (keys 0)) = Inr m" "digestArtifactManifest m = Some d"
    "VerifyArtifactManifest E m (key_Public (snd (keys 0))) cv_now (24 * Hour) = None" "am_ReleaseID m = cv_releaseID"
    "am_SourceCommit m = cv_commit" "am_SBOMDigest m = cv_digest ''sbom''"
    by (rule cv_manifest_signed [OF E k(1)])
  obtain b where b: "SignBenchmarkEvidence E cv_benchmark (snd (keys 1)) = Inr b"
    "VerifyBenchmarkEvidence E b (key_Public (snd (keys 1))) cv_now (24 * Hour) = None" "be_ReleaseID b = cv_releaseID"
    "be_SourceCommit b = cv_commit"
    by (rule cv_benchmark_signed [OF E k(1)])
  obtain r where r: "SignSecurityReview E cv_review (snd (keys 2)) = Inr r"
    "VerifySecurityReview E r (key_Public (snd (keys 2))) cv_now = None" "sr_ReleaseID r = cv_releaseID" "sr_SourceCommit r = cv_commit"
    "time_encodable (sr_ReviewedAt r)" "time_encodable (sr_ExpiresAt r)"
    by (rule cv_review_signed [OF E k(1)])
  have "\<forall>(e, g)\<in>set cv_pairs. validEdition e \<and> validGate g" by (simp add: cv_pairs_def validEdition_def validGate_def)
  from sign_gates_signed [OF E k(1) this, where gates = "[]"] obtain gs where
    gs: "sign_gates E (snd (keys 4)) cv_pairs [] = Inr gs" "map gate_pair gs = cv_pairs"
      "\<forall>g\<in>set gs. gate_ok E (key_Public (snd (keys 4))) cv_releaseID cv_commit cv_now g"
    by fastforce
  let ?binding = "\<lparr>rb_SchemaVersion = ReleaseEvidenceBindingSchema, rb_CandidateReleaseID = cv_releaseID,
    rb_CandidateCommitSHA = cv_commit, rb_ArtifactManifestDigest = d, rb_SBOMDigest = am_SBOMDigest m\<rparr>"
  have valid: "ValidateReleaseEvidenceBinding ?binding = None"
    using digest_pattern(1) [OF m(2)] cv_patterns by (simp add: ValidateReleaseEvidenceBinding_def m(6) cv_digest_def)
  have ed: "validEdition Shared" "validEdition Dedicated" by (simp_all add: validEdition_def)
  obtain vs where vs: "cv_staging E (snd (keys 3)) Shared ''123e4567-e89b-42d3-a456-426614174001'' ?binding = Inr vs"
    "VerifyEvidence E vs (key_Public (snd (keys 3))) = None" "ed_Edition vs = Shared" "ed_ReleaseBinding vs = ?binding"
    "fresh (ed_IssuedAt vs) cv_now (24 * Hour)"
    by (rule cv_staging_signed [OF E k(1) ed(1) cv_patterns(8) valid])
  obtain vd where vd: "cv_staging E (snd (keys 3)) Dedicated ''123e4567-e89b-42d3-a456-426614174002'' ?binding = Inr vd"
    "VerifyEvidence E vd (key_Public (snd (keys 3))) = None" "ed_Edition vd = Dedicated" "ed_ReleaseBinding vd = ?binding"
    "fresh (ed_IssuedAt vd) cv_now (24 * Hour)"
    by (rule cv_staging_signed [OF E k(1) ed(2) cv_patterns(9) valid])
  let ?q = "\<lparr>cq_Schema = certification_Schema, cq_ReleaseID = cv_releaseID, cq_SourceCommit = cv_commit,
    cq_ArtifactManifest = m, cq_BenchmarkEvidence = b, cq_SecurityReview = r,
    cq_StagingEvidence = [(Shared, vs), (Dedicated, vd)], cq_CoreGates = gs\<rparr>"
  have fixture: "requestFixture E (snd (keys 0)) (snd (keys 1)) (snd (keys 2)) (snd (keys 3)) (snd (keys 4)) = Inr ?q"
    unfolding requestFixture_def m(1,2) b(1) r(1) gs(1) sum.case option.case Let_def vs(1) vd(1) by (rule refl)
  have binding: "expected_binding ?q d = ?binding" by (simp add: expected_binding_def)
  have "map gate_pair gs = required_pairs" by (simp add: gs(2) cv_pairs_def required_pairs_def requiredGates_def)
  moreover have "Dedicated \<noteq> Shared" by (simp add: Shared_def Dedicated_def)
  ultimately have "evidence_ok E (cv_trust keys) ?q cv_now d"
    using m b r gs(3) vs vd valid cv_patterns(1,2) unfolding evidence_ok_def binding by (simp add: cv_trust_def k(2))
  from fixture this show ?thesis by (rule that) (simp_all add: r(5,6))
qed

lemma certification_verify_passes:
  assumes env: "verify_env_ok env"
  shows "certification_verify env = None"
proof -
  let ?E = "vf_E env" and ?keys = "\<lambda>k. the (vf_GenerateKey env k)"
  have E: "ed25519_correct ?E" using env by (simp add: verify_env_ok_def)
  have gen: "\<exists>key. vf_GenerateKey env k = Some (key_Public key, key) \<and> ed_key ?E key" for k
    using env unfolding verify_env_ok_def by blast
  have keys: "ed_key ?E (snd (?keys k)) \<and> fst (?keys k) = key_Public (snd (?keys k))" for k using gen [of k] by auto
  have length: "length (fst (?keys k)) = PublicKeySize" "length (snd (?keys k)) = PrivateKeySize" for k
    using keys [of k] by (auto simp: ed_key_def)
  have "vf_GenerateKey env k \<noteq> None" for k using gen [of k] by auto
  then have some: "list_ex (\<lambda>k. vf_GenerateKey env k = None) [0, 1, 2, 3, 4, 5] = False" by simp
  have read: "(vf_ReadFile env ''contracts/brick-host-isolation-certification.v1.json'' = None) = False"
    using env by (simp add: verify_env_ok_def)
  let ?a = "\<lparr>ca_trust = cv_trust ?keys, ca_audit = Some verify_sink, ca_limit = Some (\<lambda>_ _. True), ca_now = Some (\<lambda>_. cv_now)\<rparr>"
  have a: "certification_NewAuthority (cv_trust ?keys) (Some verify_sink) (Some (\<lambda>_ _. True)) (Some (\<lambda>_. cv_now)) = Inr ?a"
    using length by (simp add: certification_NewAuthority_Inr cv_trust_def validPublicKey_def duration_defs)
  obtain q d where q: "requestFixture ?E (snd (?keys 0)) (snd (?keys 1)) (snd (?keys 2)) (snd (?keys 3)) (snd (?keys 4)) = Inr q"
    "evidence_ok ?E (cv_trust ?keys) q cv_now d"
    "time_encodable (sr_ReviewedAt (cq_SecurityReview q))" "time_encodable (sr_ExpiresAt (cq_SecurityReview q))"
    by (rule requestFixture_signed [OF E keys])
  have "verifyRequest ?E (cv_trust ?keys) q cv_now = None" using q(2) verifyRequest_iff by blast
  moreover obtain c0 where c0: "makeCertificate (cv_trust ?keys) cv_certID q cv_now = Some c0"
      "certified_from (cv_trust ?keys) cv_certID q d cv_now c0"
    using makeCertificate_ok [OF q(2)] by blast
  moreover obtain c where "SignCertificate ?E c0 (snd (?keys 5)) = Inr c"
  proof -
    have "\<exists>p. canonicalCertificate (set_ct_sig ''ed25519'' [] c0) = Some p"
      using c0(2) by (simp add: canonicalCertificate_def set_ct_sig_def marshal_if_def certified_from_def cv_times cv_trust_def)
    then show ?thesis using that length ct_sig.sign_record_total unfolding SignCertificate_def by metis
  qed
  ultimately obtain log where run: "Certify ?E (Some ?a) False cv_actor cv_certID q [] = (Inr c, log)"
    using cv_patterns by (simp add: Certify_def authorize_plan_def RecordEvent_def verify_sink_def cv_trust_def)
  have "tb_CertificateKey (cv_trust ?keys) = snd (?keys 5)" "tb_CertificateTTL (cv_trust ?keys) = Hour"
    by (simp_all add: cv_trust_def)
  then have verified: "VerifyCertificate ?E c (fst (?keys 5)) cv_now = None"
    using certificate_verifies [OF E _ a run, where later = cv_now] keys [of 5] by (simp add: duration_defs)
  obtain r where r: "SignSecurityReview ?E (cq_SecurityReview q\<lparr>sr_Outcome := ''rejected''\<rparr>) (snd (?keys 2)) = Inr r"
  proof -
    have "\<exists>p. canonicalSecurityReview (set_sr_sig ''ed25519'' [] (cq_SecurityReview q\<lparr>sr_Outcome := ''rejected''\<rparr>)) = Some p"
      using q(3,4) by (simp add: canonicalSecurityReview_def set_sr_sig_def marshal_if_def)
    then show ?thesis using that length sr_sig.sign_record_total unfolding SignSecurityReview_def by metis
  qed
  obtain s where "r = set_sr_sig ''ed25519'' s (cq_SecurityReview q\<lparr>sr_Outcome := ''rejected''\<rparr>)"
    using sr_sig.sign_record_cases [OF r [unfolded SignSecurityReview_def]] by metis
  then have "sr_Outcome r \<noteq> ''approved''" by (simp add: set_sr_sig_def)
  then have "VerifySecurityReview ?E r key cv_now \<noteq> None" for key by (simp add: VerifySecurityReview_def)
  then have "verifyRequest ?E (cv_trust ?keys) (q\<lparr>cq_SecurityReview := r\<rparr>) cv_now \<noteq> None"
    by (simp add: verifyRequest_iff evidence_ok_def)
  then have "fst (Certify ?E (Some ?a) False cv_actor cv_certID (q\<lparr>cq_SecurityReview := r\<rparr>) log) \<noteq> Inr c'" for c'
    using cv_patterns by (auto simp: Certify_def certification_deny_def)
  then obtain err where "fst (Certify ?E (Some ?a) False cv_actor cv_certID (q\<lparr>cq_SecurityReview := r\<rparr>) log) = Inl err"
    by (cases "fst (Certify ?E (Some ?a) False cv_actor cv_certID (q\<lparr>cq_SecurityReview := r\<rparr>) log)") auto
  then show ?thesis
    unfolding certification_verify_def read some if_False Let_def a sum.case q(1) run prod.case verified option.case r by simp
qed

section \<open>All programs\<close>

definition demo_schemas :: "(string \<times> string) list" where
  "demo_schemas =
     [(''contracts/brick-host-isolation.v1.json'', lifecycle_Schema),
      (''contracts/brick-host-isolation-isolation.v1.json'', isolation_Schema),
      (''contracts/brick-host-isolation-resource.v1.json'', resource_Schema),
      (''contracts/brick-host-isolation-integrity.v1.json'', integrity_Schema),
      (''contracts/brick-host-isolation-recovery.v1.json'', recovery_Schema),
      (''contracts/brick-host-isolation-edition.v1.json'', edition_Schema)]"

text \<open>
  An environment where the fixture has its text and each other file holds its own name, which the
  decoders know.
\<close>

definition demo_verify_env :: verify_env where
  "demo_verify_env =
     \<lparr>vf_E = demo_ed25519, vf_NewKeyFromSeed = (\<lambda>seed. demo_key (hd seed)),
      vf_ReadFile = (\<lambda>path. Some (if path = ''contracts/fixtures/release-evidence-binding.v1.valid.json'' then fixture_text else path)),
      vf_schema = map_of demo_schemas, vf_Getenv = (\<lambda>_. []),
      vf_binding = (\<lambda>raw. if raw = fixture_text then Inr (fixture_binding, [CHR 0x0A]) else Inl (ErrOther ''json'')),
      vf_GenerateKey = (\<lambda>k. Some (key_Public (demo_key (char_of k)), demo_key (char_of k)))\<rparr>"

lemma demo_verify_env_ok: "verify_env_ok demo_verify_env"
proof -
  have "contract_file demo_verify_env path schema"
    if "path \<noteq> ''contracts/fixtures/release-evidence-binding.v1.valid.json''" "map_of demo_schemas path = Some schema" for path schema
    using that by (simp add: contract_file_def demo_verify_env_def)
  then show ?thesis
    unfolding verify_env_ok_def
    by (simp add: demo_schemas_def lifecycle_Schema_def isolation_Schema_def resource_Schema_def integrity_Schema_def
        recovery_Schema_def edition_Schema_def)
      (simp add: demo_verify_env_def demo_ed25519_correct demo_key_ok)
qed

section \<open>Properties\<close>

text \<open>
  C40. The seven acceptance programs \<open>cmd/*-verify\<close> whose dependencies are in memory pass in the repository: with
  the schemas that its contracts carry, the text of its release fixture, and an Ed25519 that verifies what it
  signs, every authority accepts the program's request, the result verifies, the cgroup gets its six
  writes, the recovery its seven events and four calls, and the review that was changed to rejected is not
  certified. Of the JSON decoder only what it reads in these files is assumed.
\<close>

theorem verifiers_pass:
  assumes "verify_env_ok env"
  shows "lifecycle_verify env = None \<and> isolation_verify env = None \<and> resource_verify env = None \<and>
    integrity_verify env = None \<and> edition_verify env = None \<and> recovery_verify env = None \<and> certification_verify env = None"
  using lifecycle_verify_passes isolation_verify_passes resource_verify_passes integrity_verify_passes edition_verify_passes
    recovery_verify_passes certification_verify_passes assms by blast

lemma verifiers_pass_witness:
  "resource_verify demo_verify_env = None \<and> edition_verify demo_verify_env = None \<and> certification_verify demo_verify_env = None"
  using verifiers_pass [OF demo_verify_env_ok] by blast

end
