(* ===== verification/Host_Verify.thy ===== *)
theory Host_Verify
  imports Certification_Verify Host
begin

text \<open>
  The acceptance program \<open>cmd/host-verify\<close>: it makes a base root and a directory for layers below a new
  directory of \<open>/tmp\<close>, runs the preflight against a probe in memory, prepares a layer and looks at it,
  and removes everything. It acts on the file system of \<open>Host\<close>, whose base root \<open>filepath.WalkDir\<close> sees as
  the program made it. Whether it passes depends on the umask of the process.
\<close>

unbundle bit_operations_syntax

section \<open>Making directories and files\<close>

text \<open>\<open>os.Mkdir\<close> with any permissions; the one of \<open>Host\<close> is this with \<open>0o700\<close>.\<close>

definition dir_with :: "host_env \<Rightarrow> u32 \<Rightarrow> FileInfo \<Rightarrow> FileInfo" where
  "dir_with env perm d = \<lparr>fi_mode = ModeDir OR (perm AND NOT (he_umask env)) OR (fi_mode d AND ModeSetgid),
     fi_uid = Some (he_euid env)\<rparr>"

definition os_Mkdir :: "host_env \<Rightarrow> string \<Rightarrow> u32 \<Rightarrow> (host_fs, unit) prog" where
  "os_Mkdir env path perm fs =
     (if he_mkdir_fault env path then (Inl (ErrOther ''mkdir''), fs)
      else if fs path \<noteq> None then (Inl ErrExist, fs)
      else case fs (path_Dir path) of
        None \<Rightarrow> (Inl (ErrOther ''no such file or directory''), fs)
      | Some d \<Rightarrow>
          if \<not> mode_IsDir (fi_mode d) then (Inl (ErrOther ''not a directory''), fs)
          else (Inr (), fs(path \<mapsto> dir_with env perm d)))"

lemma Mkdir_os: "Mkdir env path = os_Mkdir env path 0x1C0"
proof -
  have "new_dir env = dir_with env 0x1C0" by (simp add: fun_eq_iff new_dir_def dir_with_def)
  then show ?thesis unfolding Mkdir_def os_Mkdir_def by metis
qed

text \<open>\<open>os.WriteFile\<close>: a file that exists keeps its mode; contents are not modelled.\<close>

definition os_WriteFile :: "host_env \<Rightarrow> string \<Rightarrow> u32 \<Rightarrow> (host_fs, unit) prog" where
  "os_WriteFile env path perm fs =
     (if he_mkdir_fault env path then (Inl (ErrOther ''open''), fs)
      else if fs path \<noteq> None then (Inr (), fs)
      else case fs (path_Dir path) of
        None \<Rightarrow> (Inl (ErrOther ''no such file or directory''), fs)
      | Some d \<Rightarrow>
          if \<not> mode_IsDir (fi_mode d) then (Inl (ErrOther ''not a directory''), fs)
          else (Inr (), fs(path \<mapsto> \<lparr>fi_mode = perm AND NOT (he_umask env), fi_uid = Some (he_euid env)\<rparr>)))"

section \<open>The program\<close>

definition host_Schema :: string where "host_Schema = ''brick.host-isolation.host.v1''"

definition verify_probe :: "string \<Rightarrow> Probe" where
  "verify_probe base =
     \<lparr>pr_GOOS = ''linux'',
      pr_ReadFile = map_of
        [(''/proc/sys/kernel/osrelease'', ''6.8.0-verify'' @ [CHR 0x0A]),
         (''/sys/fs/cgroup/cgroup.controllers'', ''cpu memory pids'' @ [CHR 0x0A]),
         (''/proc/sys/user/max_user_namespaces'', ''1024'' @ [CHR 0x0A]),
         (''/proc/sys/kernel/seccomp/actions_avail'', ''kill_process allow filter'' @ [CHR 0x0A]),
         (''/sys/kernel/security/lsm'', ''capability,apparmor'' @ [CHR 0x0A]),
         (''/sys/module/apparmor/parameters/enabled'', ''Y'' @ [CHR 0x0A])],
      pr_Stat = map_of
        [(''/opt/brick'', \<lparr>fi_mode = ModeDir OR 0x1ED, fi_uid = Some 0\<rparr>),
         (''/var/lib/brick'', \<lparr>fi_mode = ModeDir OR 0x1E8, fi_uid = Some 0\<rparr>),
         (''/run/brick/ready'', \<lparr>fi_mode = 0x1A0, fi_uid = Some 0\<rparr>),
         (base, \<lparr>fi_mode = ModeDir OR 0x1ED, fi_uid = Some 0\<rparr>)],
      pr_Statfs = (\<lambda>_. Some 0xEF53),
      pr_ReadMounts = Some [\<lparr>mi_MountPoint = ''/'', mi_Propagation = ''private''\<rparr>],
      pr_Now = Some verify_now\<rparr>"

definition verify_preflight :: "string \<Rightarrow> PreflightConfig" where
  "verify_preflight base =
     \<lparr>pc_ProtectedPaths = [''/opt/brick'', ''/var/lib/brick''], pc_RequiredServiceFiles = [''/run/brick/ready''],
      pc_BaseRoot = base, pc_RequiredLSM = ''apparmor'', pc_Probe = Some (verify_probe base),
      pc_MinimumKernelMajor = 5, pc_MinimumKernelMinor = 10\<rparr>"

definition verify_base_root :: "string \<Rightarrow> string \<Rightarrow> u32 \<Rightarrow> BaseRootConfig" where
  "verify_base_root base layers uid =
     \<lparr>bc_BaseRoot = base, bc_EphemeralRoot = layers, bc_ExpectedOwnerUID = uid, bc_ExpectedRootMode = 0x1ED,
      bc_AllowedFilesystems = [0xEF53], bc_Probe = Some (verify_probe base)\<rparr>"

text \<open>The base root with the one file in it, as the walk finds them.\<close>

definition walked :: "host_env \<Rightarrow> string \<Rightarrow> host_fs \<Rightarrow> dir_tree" where
  "walked env base fs =
     Entry (os_Lstat_at env fs base) (Some [Entry (os_Lstat_at env fs (path_Join [base, ''runtime-manifest''])) None])"

definition layer_entry_ok :: "host_env \<Rightarrow> host_fs \<Rightarrow> string \<Rightarrow> bool" where
  "layer_entry_ok env fs path =
     (case os_Lstat_at env fs path of
        None \<Rightarrow> False | Some entry \<Rightarrow> mode_IsDir (fi_mode entry) \<and> mode_Perm (fi_mode entry) = 0x1C0)"

definition raise_error :: "go_error option \<Rightarrow> (host_fs, unit) prog" where
  "raise_error r fs = ((case r of None \<Rightarrow> Inr () | Some err \<Rightarrow> Inl err), fs)"

definition verify_layer :: "host_env \<Rightarrow> u32 \<Rightarrow> string \<Rightarrow> string \<Rightarrow> (host_fs, unit) prog" where
  "verify_layer env uid base layers fs =
     (case NewBaseRootAuthority (verify_base_root base layers uid) of
        Inl err \<Rightarrow> (Inl err, fs)
      | Inr authority \<Rightarrow>
          (case PrepareLayer (env\<lparr>he_tree := Some (walked env base fs)\<rparr>) (Some authority) False ''cage-verify-a'' fs of
             (Inl err, fs') \<Rightarrow> (Inl err, fs')
           | (Inr layer, fs') \<Rightarrow>
               if \<not> list_all (layer_entry_ok env fs') [ly_UpperDir layer, ly_WorkDir layer]
               then (Inl (ErrOther ''unsafe layer preparation''), fs') else (Inr (), fs')))"

definition verify_in :: "host_env \<Rightarrow> u32 \<Rightarrow> string \<Rightarrow> (host_fs, unit) prog" where
  "verify_in env uid directory =
     (let base = path_Join [directory, ''base'']; layers = path_Join [directory, ''layers''] in
      thenE (os_Mkdir env base 0x1ED)
        (thenE (os_Mkdir env layers 0x1C0)
        (thenE (os_WriteFile env (path_Join [base, ''runtime-manifest'']) 0x1A4)
        (thenE (raise_error (case NewPreflight (verify_preflight base) of
             Inl err \<Rightarrow> Some err | Inr preflight \<Rightarrow> Check (Some preflight) False))
          (verify_layer env uid base layers)))))"

text \<open>\<open>os.MkdirTemp\<close> makes a directory that did not exist, with digits for the star of its pattern.\<close>

definition host_verify :: "verify_env \<Rightarrow> host_env \<Rightarrow> u32 \<Rightarrow> string \<Rightarrow> host_fs \<Rightarrow> go_error option \<times> host_fs" where
  "host_verify contracts env uid random fs =
     (case check_contract contracts ''contracts/brick-host-isolation-host.v1.json'' host_Schema ''invalid host contract'' of
        Some err \<Rightarrow> (Some err, fs)
      | None \<Rightarrow>
          let directory = ''/tmp/brick-host-verify-'' @ random in
          (case os_Mkdir env directory 0x1C0 fs of
             (Inl err, fs') \<Rightarrow> (Some err, fs')
           | (Inr _, fs') \<Rightarrow>
               (case verify_in env uid directory fs' of
                  (Inl err, fs'') \<Rightarrow> (Some err, RemoveAll env directory fs'')
                | (Inr _, fs'') \<Rightarrow> (None, RemoveAll env directory fs''))))"

section \<open>Paths and modes\<close>

lemma split_slash_end:
  assumes "\<forall>c\<in>set cs. plain c"
  shows "split_on (CHR ''/'') (abs_path cs @ ''/'') = [] # cs @ [[]]"
proof -
  have "split_on (CHR ''/'') (join ''/'' (cs @ [[]])) = cs @ [[]]"
  proof (rule split_on_join)
    show "CHR ''/'' \<notin> set x" if "x \<in> set (cs @ [[]])" for x
    proof (cases "x = []")
      case False
      then have "plain x" using that assms by simp
      then show ?thesis unfolding plain_def by (elim conjE)
    qed simp
  qed simp
  moreover have "abs_path (cs @ [[]]) = abs_path cs @ ''/''" by (simp add: abs_path_def)
  then have "abs_path cs @ ''/'' = ''/'' @ join ''/'' (cs @ [[]])" using abs_path_join [of "cs @ [[]]"] by simp
  ultimately show ?thesis by simp
qed

lemma path_Dir_abs:
  assumes "cs \<noteq> []" "\<forall>c\<in>set cs. plain c" "plain d"
  shows "path_Dir (abs_path (cs @ [d])) = abs_path cs"
proof -
  have "CHR ''/'' \<notin> set d" using assms(3) by (simp add: plain_def)
  then have "dropWhile (\<lambda>c. c \<noteq> CHR ''/'') (rev d @ CHR ''/'' # rest) = CHR ''/'' # rest" for rest
    by (subst dropWhile_append2) auto
  moreover have "rev (abs_path (cs @ [d])) = rev d @ CHR ''/'' # rev (abs_path cs)" by (simp add: abs_path_def)
  ultimately have slash: "path_Dir (abs_path (cs @ [d])) = path_Clean (abs_path cs @ ''/'')"
    unfolding path_Dir_def by (simp only:) simp
  have folded: "fold (clean_step True) ([] # cs @ [[]]) [] = rev cs"
    using clean_fold_push [of cs True "[]"] assms(2) by (simp add: clean_step.simps)
  have ne: "abs_path cs @ ''/'' \<noteq> []" "hd (abs_path cs @ ''/'') = CHR ''/''" using assms(1) by (cases cs; simp)+
  have "path_Clean (abs_path cs @ ''/'') = ''/'' @ join ''/'' cs"
    by (simp only: path_Clean_def Let_def split_slash_end [OF assms(2)] ne folded simp_thms if_False if_True rev_rev_ident)
  then show ?thesis unfolding slash by (simp only: abs_path_join [OF assms(1)])
qed

lemma perm_of_dir:
  assumes "perm AND 0x1FF = perm"
  shows "mode_Perm (ModeDir OR (perm AND NOT u) OR (m AND ModeSetgid)) = perm AND NOT u" (is ?perm)
    and "mode_IsDir (ModeDir OR (perm AND NOT u) OR (m AND ModeSetgid))" (is ?dir)
    and "(ModeDir OR (perm AND NOT u) OR (m AND ModeSetgid)) AND ModeSymlink = 0" (is ?link)
proof -
  have p: "(perm AND NOT u) AND k = NOT u AND (perm AND (0x1FF AND k))" for k
    using arg_cong [OF assms, of "\<lambda>x. NOT u AND (x AND k)"] by (simp only: and.assoc and.commute and.left_commute)
  have zero: "(perm AND NOT u) AND k = 0" if "0x1FF AND k = 0" for k unfolding p that by simp
  have "(perm AND NOT u) AND ModePerm = perm AND NOT u"
    unfolding p ModePerm_def using assms by (simp add: and.commute)
  moreover have "(m AND ModeSetgid) AND ModePerm = 0" "ModeDir AND ModePerm = 0"
    unfolding mode_defs and.assoc by simp_all
  ultimately show ?perm by (simp add: mode_Perm_def word_and_or)
  have "(m AND ModeSetgid) AND ModeDir = 0" unfolding mode_defs and.assoc by simp
  moreover have "(perm AND NOT u) AND ModeDir = 0" by (rule zero) (simp add: mode_defs)
  ultimately have "(ModeDir OR (perm AND NOT u) OR (m AND ModeSetgid)) AND ModeDir = ModeDir"
    by (simp add: word_and_or)
  then show ?dir by (simp add: mode_IsDir_def ModeDir_def)
  have "(m AND ModeSetgid) AND ModeSymlink = 0" "ModeDir AND ModeSymlink = 0"
    unfolding mode_defs and.assoc by simp_all
  moreover have "(perm AND NOT u) AND ModeSymlink = 0" by (rule zero) (simp add: mode_defs)
  ultimately show ?link by (simp add: word_and_or)
qed

lemma perm_kept_iff: "perm AND NOT u = perm \<longleftrightarrow> u AND perm = 0" for perm u :: u32
  by (auto simp: bit_eq_iff bit_simps)

lemma dir_with_private:
  assumes "perm AND 0x1FF = perm"
  shows "private_dir (he_euid env) perm (dir_with env perm d) \<longleftrightarrow> he_umask env AND perm = 0"
    and "mode_IsDir (fi_mode (dir_with env perm d))"
  using perm_of_dir [OF assms] perm_kept_iff [of perm "he_umask env"]
  by (simp_all add: private_dir_def dir_with_def ownerUID_def)

lemma os_Mkdir_ok:
  assumes "\<not> he_mkdir_fault env path" "fs path = None" "fs (path_Dir path) = Some d" "mode_IsDir (fi_mode d)"
  shows "os_Mkdir env path perm fs = (Inr (), fs(path \<mapsto> dir_with env perm d))"
  using assms by (simp add: os_Mkdir_def)

section \<open>A layer is prepared when nothing fails\<close>

lemma PrepareLayer_complete:
  assumes new: "NewBaseRootAuthority c = Inr a" and id: "validCageID cageID"
    and faults: "\<forall>q. \<not> he_lstat_fault env q \<and> \<not> he_mkdir_fault env q"
    and base: "validateBaseRoot env c fs = None"
    and eph: "fs (bc_EphemeralRoot c) = Some d" "private_dir (bc_ExpectedOwnerUID c) 0x1C0 d"
    and owner: "bc_ExpectedOwnerUID c = he_euid env" and umask: "he_umask env AND 0x1C0 = 0"
    and absent: "fs (layer_parent c cageID) = None" "fs (layer_parent c cageID @ ''/upper'') = None"
      "fs (layer_parent c cageID @ ''/work'') = None"
  obtains e0 e1 e2 where
    "PrepareLayer env (Some a) False cageID fs =
      (Inr \<lparr>ly_CageID = cageID, ly_BaseRoot = bc_BaseRoot c, ly_UpperDir = layer_parent c cageID @ ''/upper'',
         ly_WorkDir = layer_parent c cageID @ ''/work''\<rparr>,
       fs(layer_parent c cageID \<mapsto> e0, layer_parent c cageID @ ''/upper'' \<mapsto> e1, layer_parent c cageID @ ''/work'' \<mapsto> e2))"
    "private_dir (he_euid env) 0x1C0 e1" "private_dir (he_euid env) 0x1C0 e2"
proof -
  let ?p = "layer_parent c cageID" and ?e = "\<lambda>d. dir_with env 0x1C0 d"
  let ?f1 = "fs(?p \<mapsto> ?e d)"
  let ?f3 = "?f1(?p @ ''/upper'' \<mapsto> ?e (?e d), ?p @ ''/work'' \<mapsto> ?e (?e d))"
  have a: "ba_config a = c" and safe: "safeAbsolutePath (bc_EphemeralRoot c)" using new by (simp_all add: NewBaseRootAuthority_ok)
  note paths = layer_paths [OF safe id]
  obtain cs where cs: "cs \<noteq> []" "\<forall>d\<in>set cs. plain d" "bc_EphemeralRoot c = abs_path cs"
    using safe by (auto simp: safeAbsolutePath_iff)
  have plain: "plain cageID" by (rule validCageID_plain [OF id])
  have p: "?p = abs_path (cs @ [cageID])" by (simp add: layer_parent_def cs(3) abs_path_def)
  have dir: "path_Dir ?p = bc_EphemeralRoot c" unfolding p cs(3) by (rule path_Dir_abs [OF cs(1,2) plain])
  have below: "path_Dir (?p @ ''/'' @ q) = ?p" if "plain q" for q
  proof -
    have "?p @ ''/'' @ q = abs_path ((cs @ [cageID]) @ [q])" by (simp add: p abs_path_def)
    then show ?thesis using path_Dir_abs [of "cs @ [cageID]" q] cs plain that by (simp add: p)
  qed
  have dirs: "path_Dir (?p @ ''/upper'') = ?p" "path_Dir (?p @ ''/work'') = ?p"
    using below [of "''upper''"] below [of "''work''"] by (simp_all add: plain_def)
  have priv: "private_dir (he_euid env) 0x1C0 (?e x)" and isdir: "mode_IsDir (fi_mode (?e x))" for x
    using dir_with_private [of "0x1C0" env x] umask by simp_all
  have d: "mode_IsDir (fi_mode d)" using eph(2) by (simp add: private_dir_def)
  have mk0: "Mkdir env ?p fs = (Inr (), ?f1)"
    unfolding Mkdir_os by (rule os_Mkdir_ok) (use faults absent(1) eph(1) d dir in simp_all)
  have mk1: "Mkdir env (?p @ ''/upper'') ?f1 = (Inr (), ?f1(?p @ ''/upper'' \<mapsto> ?e (?e d)))"
    unfolding Mkdir_os by (rule os_Mkdir_ok) (use faults absent(2) isdir dirs in simp_all)
  have mk2: "Mkdir env (?p @ ''/work'') (?f1(?p @ ''/upper'' \<mapsto> ?e (?e d))) = (Inr (), ?f3)"
    unfolding Mkdir_os by (rule os_Mkdir_ok) (use faults absent(3) isdir dirs in simp_all)
  have check: "check_dir env c q f = (Inr (), f)" if "f q = Some (?e x)" for q f x
  proof -
    have "validateOwnerDirectory env f q (bc_ExpectedOwnerUID c) 0x1C0 = None"
      using faults priv owner that by (simp add: validateOwnerDirectory_iff)
    then show ?thesis by (simp add: check_dir_def)
  qed
  have chk: "check_dir env c ?p ?f3 = (Inr (), ?f3)" "check_dir env c (?p @ ''/upper'') ?f3 = (Inr (), ?f3)"
    "check_dir env c (?p @ ''/work'') ?f3 = (Inr (), ?f3)"
    by (rule check, simp)+
  have "make_layer env c cageID ?p ?f1 =
      (Inr \<lparr>ly_CageID = cageID, ly_BaseRoot = bc_BaseRoot c, ly_UpperDir = ?p @ ''/upper'', ly_WorkDir = ?p @ ''/work''\<rparr>, ?f3)"
    unfolding make_layer_def Let_def paths thenE_def bindE_def mkdir_or_def mk1 mk2 chk prod.case sum.case returnE_def
    by (rule refl)
  moreover have "validateOwnerDirectory env fs (bc_EphemeralRoot c) (bc_ExpectedOwnerUID c) 0x1C0 = None"
    using eph faults by (simp add: validateOwnerDirectory_iff)
  ultimately have "PrepareLayer env (Some a) False cageID fs =
      (Inr \<lparr>ly_CageID = cageID, ly_BaseRoot = bc_BaseRoot c, ly_UpperDir = ?p @ ''/upper'', ly_WorkDir = ?p @ ''/work''\<rparr>, ?f3)"
    using id base by (simp add: PrepareLayer_def a Let_def paths(1) mk0 with_cleanup_def)
  then show ?thesis using priv that by blast
qed

section \<open>The program passes under the right umask\<close>

lemma masked_zero: "perm AND k = 0 \<Longrightarrow> (perm AND u) AND k = 0" for perm k u :: u32
proof -
  have "(perm AND u) AND k = u AND (perm AND k)" by (simp only: and.assoc and.commute and.left_commute)
  then show "perm AND k = 0 \<Longrightarrow> (perm AND u) AND k = 0" by simp
qed

lemma dir_bits:
  assumes "perm AND k = 0" "ModeDir AND k = 0" "ModeSetgid AND k = 0"
  shows "fi_mode (dir_with env perm d) AND k = 0"
  using masked_zero [OF assms(1)] masked_zero [of ModeSetgid k] assms(2,3)
  by (simp add: dir_with_def word_and_or and.commute [of _ ModeSetgid])

lemma walked_safe:
  assumes "\<forall>q. \<not> he_lstat_fault env q" "fs base = Some (dir_with env 0x1ED d)" "he_umask env AND 0x1ED = 0"
    and "fs (path_Join [base, ''runtime-manifest'']) = Some \<lparr>fi_mode = 0x1A4 AND NOT (he_umask env), fi_uid = Some (he_euid env)\<rparr>"
  shows "scan_tree (he_euid env) (walked env base fs) = None"
proof -
  let ?i = "dir_with env 0x1ED d" and ?m = "(0x1A4 AND NOT (he_umask env)) :: u32"
  have perm: "mode_Perm (fi_mode ?i) = 0x1ED"
    using perm_of_dir(1) [of "0x1ED" "he_umask env" "fi_mode d"] perm_kept_iff [of "0x1ED" "he_umask env"] assms(3)
    by (simp add: dir_with_def)
  have "fi_mode ?i AND ModeSymlink = 0" "fi_mode ?i AND ModeDevice = 0" "fi_mode ?i AND ModeCharDevice = 0"
      "fi_mode ?i AND 0xC00 = 0"
    by (rule dir_bits; simp add: mode_defs)+
  then have dir: "\<not> unsafe_entry (he_euid env) ?i"
    using perm by (simp add: unsafe_entry_def ownerUID_def dir_with_def)
  have "?m AND ModeSymlink = 0" "?m AND ModeDevice = 0" "?m AND ModeCharDevice = 0" "?m AND 0xC00 = 0"
      "?m AND ModeDir = 0" "?m AND 0x12 = 0"
    by (rule masked_zero; simp add: mode_defs)+
  moreover from this(6) have "(?m AND ModePerm) AND 0x12 = 0" by (rule masked_zero)
  ultimately have entry: "\<not> unsafe_entry (he_euid env) \<lparr>fi_mode = ?m, fi_uid = Some (he_euid env)\<rparr>" "\<not> mode_IsDir ?m"
    by (simp_all add: unsafe_entry_def ownerUID_def mode_Perm_def mode_IsDir_def)
  show ?thesis using assms(1,2,4) dir entry by (simp add: walked_def os_Lstat_at_def)
qed

lemma verify_checked:
  assumes "safeAbsolutePath base" "base = ''/tmp/'' @ rest"
  obtains preflight where "NewPreflight (verify_preflight base) = Inr preflight" "Check (Some preflight) False = None"
proof -
  have safe: "safeAbsolutePath ''/opt/brick''" "safeAbsolutePath ''/var/lib/brick''" "safeAbsolutePath ''/run/brick/ready''"
    by code_simp+
  have new: "NewPreflight (verify_preflight base) = Inr \<lparr>pf_config = verify_preflight base\<rparr>"
    using safe assms by (simp add: NewPreflight_def verify_preflight_def)
  have shown: "Sscanf_version (TrimSpace (''6.8.0-verify'' @ [CHR 0x0A])) = Some (6, 8)"
    "Sscan_int64 (TrimSpace (''1024'' @ [CHR 0x0A])) = Some 1024"
    "''filter'' \<in> set (Fields (''kill_process allow filter'' @ [CHR 0x0A]))"
    "''apparmor'' \<in> TrimSpace ` set (split_on (CHR '','') (TrimSpace (''capability,apparmor'' @ [CHR 0x0A])))"
    "lsm_posture ''apparmor'' = Some (''/sys/module/apparmor/parameters/enabled'', ''Y'')" "TrimSpace (''Y'' @ [CHR 0x0A]) = ''Y''"
    "\<not> is_space (CHR ''c'')"
    by code_simp+
  have "kernel_features (verify_preflight base) (verify_probe base)"
    using shown by (simp add: kernel_features_def verify_preflight_def verify_probe_def)
  moreover have "host_paths_safe (verify_preflight base) (verify_probe base)"
  proof -
    have "coveringMount t [\<lparr>mi_MountPoint = ''/'', mi_Propagation = ''private''\<rparr>] = Some \<lparr>mi_MountPoint = ''/'', mi_Propagation = ''private''\<rparr>" for t
      by (simp add: coveringMount_def covers_def)
    moreover have "root_controlled (verify_probe base) mode_IsDir p" if "p \<in> {base, ''/opt/brick'', ''/var/lib/brick''}" for p
      using that assms(2) by (auto simp: root_controlled_def verify_probe_def mode_IsDir_def mode_Perm_def mode_defs)
    moreover have "root_controlled (verify_probe base) mode_IsRegular ''/run/brick/ready''"
      by (simp add: root_controlled_def verify_probe_def mode_IsRegular_def mode_Perm_def mode_defs)
    ultimately show ?thesis by (simp add: host_paths_safe_def verify_preflight_def) (simp add: verify_probe_def)
  qed
  ultimately have "Check (Some \<lparr>pf_config = verify_preflight base\<rparr>) False = None"
    unfolding Check_core by (simp add: verify_preflight_def)
  with new show ?thesis by (rule that)
qed

lemma RemoveAll_restores:
  assumes "\<forall>q. \<not> he_keeps env q" "\<forall>q. q = dir \<or> HasPrefix q (dir @ ''/'') \<longrightarrow> fs q = None"
    and "\<forall>q. \<not> (q = dir \<or> HasPrefix q (dir @ ''/'')) \<longrightarrow> f q = fs q"
  shows "RemoveAll env dir f = fs"
  using assms by (auto simp: RemoveAll_def fun_eq_iff)

text \<open>The directories below the new directory of \<open>/tmp\<close>.\<close>

lemma verify_paths:
  assumes "CHR ''/'' \<notin> set random"
  defines "dir \<equiv> ''/tmp/brick-host-verify-'' @ random"
  shows "path_Dir dir = ''/tmp''" "path_Join [dir, ''base''] = dir @ ''/base''" "path_Join [dir, ''layers''] = dir @ ''/layers''"
    and "path_Dir (dir @ ''/base'') = dir" "path_Dir (dir @ ''/layers'') = dir"
    and "path_Join [dir @ ''/base'', ''runtime-manifest''] = dir @ ''/base/runtime-manifest''"
    and "path_Dir (dir @ ''/base/runtime-manifest'') = dir @ ''/base''"
    and "safeAbsolutePath (dir @ ''/base'')" "safeAbsolutePath (dir @ ''/layers'')"
proof -
  let ?n = "''brick-host-verify-'' @ random"
  have plain: "plain ''tmp''" "plain ?n" "plain ''base''" "plain ''layers''" "plain ''runtime-manifest''"
    using assms(1) by (simp_all add: plain_def)
  have abs: "dir = abs_path ([''tmp''] @ [?n])" "''/tmp'' = abs_path [''tmp'']" "dir @ ''/base'' = abs_path ([''tmp'', ?n] @ [''base''])"
    "dir @ ''/layers'' = abs_path ([''tmp'', ?n] @ [''layers''])"
    "dir @ ''/base/runtime-manifest'' = abs_path ([''tmp'', ?n, ''base''] @ [''runtime-manifest''])"
    by (simp_all add: dir_def)
  show "path_Dir dir = ''/tmp''" unfolding abs(1,2) by (rule path_Dir_abs) (use plain in simp_all)
  show "path_Join [dir, ''base''] = dir @ ''/base''" unfolding abs(3) unfolding abs(1)
    using path_Join_abs [of "[''tmp'', ?n]" "''base''"] plain by simp
  show "path_Join [dir, ''layers''] = dir @ ''/layers''" unfolding abs(4) unfolding abs(1)
    using path_Join_abs [of "[''tmp'', ?n]" "''layers''"] plain by simp
  show "path_Dir (dir @ ''/base'') = dir" unfolding abs(3) unfolding abs(1)
    using path_Dir_abs [of "[''tmp'', ?n]" "''base''"] plain by simp
  show "path_Dir (dir @ ''/layers'') = dir" unfolding abs(4) unfolding abs(1)
    using path_Dir_abs [of "[''tmp'', ?n]" "''layers''"] plain by simp
  show "path_Join [dir @ ''/base'', ''runtime-manifest''] = dir @ ''/base/runtime-manifest''" unfolding abs(5) unfolding abs(3)
    using path_Join_abs [of "[''tmp'', ?n, ''base'']" "''runtime-manifest''"] plain by simp
  show "path_Dir (dir @ ''/base/runtime-manifest'') = dir @ ''/base''" unfolding abs(5) unfolding abs(3)
    using path_Dir_abs [of "[''tmp'', ?n, ''base'']" "''runtime-manifest''"] plain by simp
  show "safeAbsolutePath (dir @ ''/base'')" unfolding safeAbsolutePath_iff abs(3)
    by (rule exI [of _ "[''tmp'', ?n] @ [''base'']"]) (use plain in simp)
  show "safeAbsolutePath (dir @ ''/layers'')" unfolding safeAbsolutePath_iff abs(4)
    by (rule exI [of _ "[''tmp'', ?n] @ [''layers'']"]) (use plain in simp)
qed

lemma verify_layer_denied:
  assumes "\<forall>q. \<not> he_lstat_fault env q" "safeAbsolutePath base" "safeAbsolutePath layers" "base \<noteq> layers"
    and "fs base = Some (dir_with env 0x1ED d)" "he_umask env AND 0x1ED \<noteq> 0"
  shows "verify_layer env (he_euid env) base layers fs = (Inl (host_deny ''unsafe_managed_directory''), fs)"
proof -
  let ?c = "verify_base_root base layers (he_euid env)" and ?env = "env\<lparr>he_tree := Some (walked env base fs)\<rparr>"
  have "\<not> private_dir (he_euid env) 0x1ED (dir_with env 0x1ED d)" using dir_with_private(1) [of "0x1ED" env d] assms(6) by simp
  then have "validateOwnerDirectory ?env fs base (he_euid env) 0x1ED = Some (host_deny ''unsafe_managed_directory'')"
    using assms(1,5) by (auto simp: validateOwnerDirectory_def os_Lstat_at_def private_dir_def)
  then have "validateBaseRoot ?env ?c fs = Some (host_deny ''unsafe_managed_directory'')"
    by (simp add: validateBaseRoot_def verify_base_root_def)
  moreover have "NewBaseRootAuthority ?c = Inr \<lparr>ba_config = ?c\<rparr>"
    using assms(2-4) by (simp add: NewBaseRootAuthority_ok verify_base_root_def)
  moreover have "validCageID ''cage-verify-a''" by code_simp
  ultimately show ?thesis by (simp add: verify_layer_def PrepareLayer_def Let_def)
qed

lemma verify_layer_done:
  assumes faults: "\<forall>q. \<not> he_lstat_fault env q \<and> \<not> he_mkdir_fault env q"
    and safe: "safeAbsolutePath base" "safeAbsolutePath layers" "base \<noteq> layers"
    and made: "fs base = Some (dir_with env 0x1ED d)" "fs layers = Some (dir_with env 0x1C0 d)"
      "fs (path_Join [base, ''runtime-manifest'']) = Some \<lparr>fi_mode = 0x1A4 AND NOT (he_umask env), fi_uid = Some (he_euid env)\<rparr>"
    and umask: "he_umask env AND 0x1ED = 0"
    and absent: "fs (layers @ ''/cage-verify-a'') = None" "fs (layers @ ''/cage-verify-a/upper'') = None"
      "fs (layers @ ''/cage-verify-a/work'') = None"
  obtains e0 e1 e2 where "verify_layer env (he_euid env) base layers fs =
    (Inr (), fs(layers @ ''/cage-verify-a'' \<mapsto> e0, layers @ ''/cage-verify-a/upper'' \<mapsto> e1, layers @ ''/cage-verify-a/work'' \<mapsto> e2))"
proof -
  let ?uid = "he_euid env" and ?p = "layers @ ''/cage-verify-a''"
  let ?c = "verify_base_root base layers ?uid" and ?env = "env\<lparr>he_tree := Some (walked env base fs)\<rparr>"
  have umask2: "he_umask ?env AND 0x1C0 = 0"
    using arg_cong [OF umask, of "\<lambda>x. x AND 0x1C0"] by (simp add: and.assoc)
  have B: "private_dir ?uid 0x1ED (dir_with env 0x1ED d)" using dir_with_private(1) [of "0x1ED" env d] umask by simp
  have L: "private_dir ?uid 0x1C0 (dir_with env 0x1C0 d)" using dir_with_private(1) [of "0x1C0" env d] umask2 by simp
  have "scan_tree ?uid (walked env base fs) = None"
    by (rule walked_safe [of _ _ _ d]) (use faults umask made in simp_all)
  moreover have "coveringMount base [\<lparr>mi_MountPoint = ''/'', mi_Propagation = ''private''\<rparr>] =
      Some \<lparr>mi_MountPoint = ''/'', mi_Propagation = ''private''\<rparr>" by (simp add: coveringMount_def covers_def)
  moreover have "validateOwnerDirectory ?env fs base ?uid 0x1ED = None"
    using faults B made by (simp add: validateOwnerDirectory_iff)
  ultimately have base: "validateBaseRoot ?env ?c fs = None"
    by (simp add: validateBaseRoot_iff verify_base_root_def scanImmutableTree_def verify_probe_def)
  have new: "NewBaseRootAuthority ?c = Inr \<lparr>ba_config = ?c\<rparr>"
    using safe by (simp add: NewBaseRootAuthority_ok verify_base_root_def)
  have id: "validCageID ''cage-verify-a''" by code_simp
  have parent: "layer_parent ?c ''cage-verify-a'' = ?p" by (simp add: layer_parent_def verify_base_root_def)
  obtain e0 e1 e2 where run: "PrepareLayer ?env (Some \<lparr>ba_config = ?c\<rparr>) False ''cage-verify-a'' fs =
      (Inr \<lparr>ly_CageID = ''cage-verify-a'', ly_BaseRoot = bc_BaseRoot ?c, ly_UpperDir = ?p @ ''/upper'', ly_WorkDir = ?p @ ''/work''\<rparr>,
       fs(?p \<mapsto> e0, ?p @ ''/upper'' \<mapsto> e1, ?p @ ''/work'' \<mapsto> e2))"
    "private_dir ?uid 0x1C0 e1" "private_dir ?uid 0x1C0 e2"
    by (rule PrepareLayer_complete [OF new id, of ?env fs "dir_with env 0x1C0 d", unfolded parent])
      (use faults base L umask2 absent made in \<open>simp_all add: verify_base_root_def\<close>)
  let ?f = "fs(?p \<mapsto> e0, ?p @ ''/upper'' \<mapsto> e1, ?p @ ''/work'' \<mapsto> e2)"
  have "layer_entry_ok env ?f (?p @ ''/upper'')" "layer_entry_ok env ?f (?p @ ''/work'')"
    using run(2,3) faults by (simp_all add: layer_entry_ok_def os_Lstat_at_def private_dir_def)
  then have "verify_layer env ?uid base layers fs = (Inr (), ?f)"
    unfolding verify_layer_def new run(1) sum.case prod.case by simp
  then show ?thesis by (intro that) simp
qed

lemma host_verify_core:
  assumes contract: "check_contract contracts ''contracts/brick-host-isolation-host.v1.json'' host_Schema ''invalid host contract'' = None"
    and faults: "\<forall>q. \<not> he_lstat_fault env q \<and> \<not> he_mkdir_fault env q \<and> \<not> he_keeps env q"
    and random: "CHR ''/'' \<notin> set random" and tmp: "fs ''/tmp'' = Some t" "mode_IsDir (fi_mode t)"
    and fresh: "\<forall>q. q = ''/tmp/brick-host-verify-'' @ random \<or> HasPrefix q ((''/tmp/brick-host-verify-'' @ random) @ ''/'') \<longrightarrow> fs q = None"
  shows "host_verify contracts env (he_euid env) random fs =
    (if he_umask env AND 0x1ED = 0 then None else Some (host_deny ''unsafe_managed_directory''), fs)"
proof -
  define dir where "dir = ''/tmp/brick-host-verify-'' @ random"
  let ?base = "dir @ ''/base''" and ?layers = "dir @ ''/layers''" and ?file = "dir @ ''/base/runtime-manifest''"
  let ?uid = "he_euid env"
  note paths = verify_paths [OF random, folded dir_def]
  let ?D = "dir_with env 0x1C0 t"
  let ?B = "dir_with env 0x1ED ?D" and ?L = "dir_with env 0x1C0 ?D"
  let ?M = "\<lparr>fi_mode = 0x1A4 AND NOT (he_umask env), fi_uid = Some ?uid\<rparr>"
  let ?f1 = "fs(dir \<mapsto> ?D)"
  let ?f4 = "?f1(?base \<mapsto> ?B, ?layers \<mapsto> ?L, ?file \<mapsto> ?M)"
  have isdir: "mode_IsDir (fi_mode ?D)" "mode_IsDir (fi_mode ?B)" by (simp_all add: dir_with_private(2))
  have absent: "fs q = None" if "q = dir \<or> HasPrefix q (dir @ ''/'')" for q
    by (rule mp [OF spec [OF fresh [folded dir_def]] that])
  have inside: "HasPrefix (dir @ CHR ''/'' # x) (dir @ ''/'')" for x by (simp add: HasPrefix_def)
  then have absent_in: "fs (dir @ CHR ''/'' # x) = None" for x by (intro absent disjI2)
  have mk: "os_Mkdir env dir 0x1C0 fs = (Inr (), ?f1)"
    by (rule os_Mkdir_ok) (use faults absent tmp paths in simp_all)
  have mk1: "os_Mkdir env ?base 0x1ED ?f1 = (Inr (), ?f1(?base \<mapsto> ?B))"
    by (rule os_Mkdir_ok) (use faults absent_in isdir(1) paths in simp_all)
  have mk2: "os_Mkdir env ?layers 0x1C0 (?f1(?base \<mapsto> ?B)) = (Inr (), ?f1(?base \<mapsto> ?B, ?layers \<mapsto> ?L))"
    by (rule os_Mkdir_ok) (use faults absent_in isdir(1) paths in simp_all)
  have wr: "os_WriteFile env ?file 0x1A4 (?f1(?base \<mapsto> ?B, ?layers \<mapsto> ?L)) = (Inr (), ?f4)"
    using faults absent_in isdir(2) paths by (simp add: os_WriteFile_def)
  obtain pf where pf: "NewPreflight (verify_preflight ?base) = Inr pf" "Check (Some pf) False = None"
    by (rule verify_checked [OF paths(8)]) (simp add: dir_def)
  have "verify_in env ?uid dir ?f1 = verify_layer env ?uid ?base ?layers ?f4"
    unfolding verify_in_def Let_def paths thenE_def bindE_def mk1 mk2 wr prod.case sum.case pf raise_error_def option.case
    by (rule refl)
  note ran = this
  have apart: "q \<noteq> dir @ CHR ''/'' # x" "q \<noteq> dir" if "\<not> (q = dir \<or> HasPrefix q (dir @ ''/''))" for q x
    using that inside by blast+
  have outside: "?f4 q = fs q" if "\<not> (q = dir \<or> HasPrefix q (dir @ ''/''))" for q
    using apart [OF that] by simp
  show ?thesis
  proof (cases "he_umask env AND 0x1ED = 0")
    case False
    have "verify_layer env ?uid ?base ?layers ?f4 = (Inl (host_deny ''unsafe_managed_directory''), ?f4)"
      by (rule verify_layer_denied [of _ _ _ _ ?D]) (use faults paths False in simp_all)
    moreover have "RemoveAll env dir ?f4 = fs"
      by (rule RemoveAll_restores) (use faults absent outside in blast)+
    ultimately show ?thesis
      using False unfolding host_verify_def contract option.case Let_def dir_def [symmetric] mk prod.case sum.case ran by simp
  next
    case True
    let ?p = "?layers @ ''/cage-verify-a''"
    obtain e0 e1 e2 where run: "verify_layer env ?uid ?base ?layers ?f4 =
        (Inr (), ?f4(?p \<mapsto> e0, ?layers @ ''/cage-verify-a/upper'' \<mapsto> e1, ?layers @ ''/cage-verify-a/work'' \<mapsto> e2))"
      by (rule verify_layer_done [of env ?base ?layers ?f4 ?D]) (use faults paths True absent_in in simp_all)
    let ?f5 = "?f4(?p \<mapsto> e0, ?layers @ ''/cage-verify-a/upper'' \<mapsto> e1, ?layers @ ''/cage-verify-a/work'' \<mapsto> e2)"
    have "?f5 q = fs q" if "\<not> (q = dir \<or> HasPrefix q (dir @ ''/''))" for q
      using apart [OF that] by simp
    then have "RemoveAll env dir ?f5 = fs"
      using faults absent by (intro RemoveAll_restores) blast+
    then show ?thesis
      using True unfolding host_verify_def contract option.case Let_def dir_def [symmetric] mk prod.case sum.case ran run by simp
  qed
qed

section \<open>Properties\<close>

text \<open>
  When its system calls succeed and nothing lies at the name it draws, the program passes exactly
  under a umask that takes nothing from \<open>0o755\<close>; under any other the base root it has just made does not
  have the mode that it configures, and the package host rightly refuses it. Either way the file
  system is left as it was.
\<close>

theorem host_verify_umask:
  assumes "check_contract contracts ''contracts/brick-host-isolation-host.v1.json'' host_Schema ''invalid host contract'' = None"
    and "\<forall>q. \<not> he_lstat_fault env q \<and> \<not> he_mkdir_fault env q \<and> \<not> he_keeps env q"
    and "CHR ''/'' \<notin> set random" and "fs ''/tmp'' = Some t" "mode_IsDir (fi_mode t)"
    and "\<forall>q. q = ''/tmp/brick-host-verify-'' @ random \<or> HasPrefix q ((''/tmp/brick-host-verify-'' @ random) @ ''/'') \<longrightarrow> fs q = None"
  shows "host_verify contracts env (he_euid env) random fs =
    (if he_umask env AND 0x1ED = 0 then None else Some (host_deny ''unsafe_managed_directory''), fs)"
  by (rule host_verify_core [OF assms])

definition demo_tmp_fs :: host_fs where
  "demo_tmp_fs = [''/tmp'' \<mapsto> \<lparr>fi_mode = ModeDir OR ModeSticky OR 0x1FF, fi_uid = Some 0\<rparr>]"

lemma host_verify_umask_witness:
  "host_verify (demo_verify_env\<lparr>vf_schema := (\<lambda>_. Some host_Schema)\<rparr>) demo_host_env 0 ''17'' demo_tmp_fs = (None, demo_tmp_fs) \<and>
   host_verify (demo_verify_env\<lparr>vf_schema := (\<lambda>_. Some host_Schema)\<rparr>) (demo_host_env\<lparr>he_umask := 0x3F\<rparr>) 0 ''17'' demo_tmp_fs =
     (Some (host_deny ''unsafe_managed_directory''), demo_tmp_fs)"
proof -
  let ?contracts = "demo_verify_env\<lparr>vf_schema := (\<lambda>_. Some host_Schema)\<rparr>"
  have contract: "check_contract ?contracts ''contracts/brick-host-isolation-host.v1.json'' host_Schema ''invalid host contract'' = None"
    by (simp add: check_contract_def demo_verify_env_def)
  have tmp: "demo_tmp_fs ''/tmp'' = Some \<lparr>fi_mode = ModeDir OR ModeSticky OR 0x1FF, fi_uid = Some 0\<rparr>"
    "mode_IsDir (fi_mode \<lparr>fi_mode = ModeDir OR ModeSticky OR 0x1FF, fi_uid = Some 0\<rparr>)"
    by (simp_all add: demo_tmp_fs_def mode_IsDir_def mode_defs)
  have fresh: "\<forall>q. q = ''/tmp/brick-host-verify-'' @ ''17'' \<or> HasPrefix q ((''/tmp/brick-host-verify-'' @ ''17'') @ ''/'') \<longrightarrow>
      demo_tmp_fs q = None"
    by (auto simp: demo_tmp_fs_def HasPrefix_def)
  have env: "\<forall>q. \<not> he_lstat_fault (demo_host_env\<lparr>he_umask := m\<rparr>) q \<and> \<not> he_mkdir_fault (demo_host_env\<lparr>he_umask := m\<rparr>) q \<and>
      \<not> he_keeps (demo_host_env\<lparr>he_umask := m\<rparr>) q" "he_euid (demo_host_env\<lparr>he_umask := m\<rparr>) = 0" for m
    by (simp_all add: demo_host_env_def)
  have same: "demo_host_env\<lparr>he_umask := 0x12\<rparr> = demo_host_env" by (simp add: demo_host_env_def)
  have digits: "CHR ''/'' \<notin> set ''17''" by simp
  note run = host_verify_umask [OF contract env(1) digits tmp fresh, unfolded env(2)]
  from run [of "0x12"] run [of "0x3F"] show ?thesis unfolding same by (simp add: demo_host_env_def)
qed

end
