(* ===== verification/Spec2Isabelle.thy ===== *)
theory Spec2Isabelle
  imports Broker_Pool Host_Preflight Host_Verify
begin

text \<open>
  Host isolation engine: a verification library for the Go packages under \<open>src/\<close>.

  \<^bold>\<open>The program.\<close> The engine decides, and never performs, what may happen to an isolated cage on a
  Linux host. Its packages form a chain of authorities that share one audit sink and fail closed.

  \<^item> \<open>broker\<close> (\<open>broker/broker.go\<close>) listens on a Unix socket, authenticates the user and the certificate
    of a peer, reads one framed request, limits its rate, runs the host preflight and asks the
    lifecycle authority. \<open>broker/ledger.go\<close> is the durable single-use ledger of request identifiers.
  \<^item> \<open>lifecycle\<close> (\<open>lifecycle/authority.go\<close>) validates and authenticates a signed request, claims its
    identifier in the ledger and returns a signed attestation after the decision is audited.
  \<^item> \<open>host\<close> (\<open>host/host.go\<close>) checks the host before a request is authorized, validates the immutable base
    root and makes the layer directories of a cage.
  \<^item> \<open>edition\<close> (\<open>edition/authority.go\<close>, \<open>edition/release_evidence_binding.go\<close>) compiles the intent for an
    edition into the requests of the next three packages and signs the evidence of staging runs.
  \<^item> \<open>isolation\<close>, \<open>resource\<close> and \<open>integrity\<close> turn these requests into sealed plans: namespaces and mounts,
    cgroup limits and egress, the executable and its environment. Each plan names the digest of the
    one before it.
  \<^item> \<open>recovery\<close> (\<open>recovery/authority.go\<close>) suspends and rebuilds a cage, killing first, with a signed journal.
  \<^item> \<open>certification\<close> (\<open>certification/authority.go\<close>) certifies a release from the evidence of all of them.

  \<^bold>\<open>The theories.\<close> Definitions keep the names of the source; where two packages use one name the
  package is put in front (\<open>isolation_Prepare\<close>, \<open>resource_Prepare\<close>). A Go struct is a record, a method with a
  state is a function from the state to a result and the new state, an error is a value.

  \<^item> \<open>Prelude\<close>: machine words, errors, the audit sink (\<open>RecordEvent\<close> over a log of records with what the
    sink said to each), the duplicate-rejecting loop, sorting.
  \<^item> \<open>Go_Strings\<close>, \<open>Go_Url\<close>, \<open>Go_Time\<close>, \<open>Go_Json\<close>, \<open>Go_Patterns\<close>, \<open>Go_Scan\<close>, \<open>Go_Float\<close>, \<open>Go_Crypto\<close>,
    \<open>Go_Effects\<close>: what the packages use of Go's library. Paths, URLs, RFC 3339 times, \<open>json.Marshal\<close> with its
    escapes, regular expressions, \<open>fmt.Sscanf\<close>, \<open>float64\<close> rounding, base64 and SHA-256 are defined and
    evaluate; the injectivity of the encoders is proved there. Early returns are the monad of \<open>Go_Effects\<close>
    with its triples.
  \<^item> \<open>Lifecycle\<close>: \<open>Authorize\<close>, \<open>SignRequest\<close>, \<open>VerifyAttestation\<close> and the validators. The locale
    \<open>replay_ledger\<close> is what it needs of a ledger.
  \<^item> \<open>Replay_Ledger\<close>: \<open>Claim\<close> over a map of files in which every system call may fail. The locale
    \<open>file_ledger\<close> interprets \<open>replay_ledger\<close>.
  \<^item> \<open>Host\<close>: \<open>Check\<close>, \<open>readMountInfo\<close>, \<open>coveringMount\<close>, \<open>PrepareLayer\<close> with its deferred removal.
    \<open>Host_Preflight\<close> states what \<open>Check\<close> means over a description of the host that does not depend on the
    code, and how the files of the kernel print it.
  \<^item> \<open>Broker\<close>: \<open>New\<close>, \<open>allow\<close>, frames, \<open>serve_decision\<close> (all of \<open>serveConnection\<close>), the socket, and \<open>Serve\<close>
    as the step relation \<open>serve_step\<close>. The locale \<open>broker_authority\<close> is what it needs of its authority; the
    lifecycle authority interprets it. \<open>Broker_Pool\<close> takes the connections apart: each is a thread of
    accesses to the shared state, \<open>pool_step\<close> interleaves them freely, and the ledger's mutex and advisory
    lock are explicit. Run alone, a thread is \<open>serve_decision\<close>.
  \<^item> \<open>Plan_Seal\<close>: what the plan authorities share: the refusal that records first, and the locale
    \<open>sealed_plan\<close> of a record with a digest over the rest, which each package interprets.
  \<^item> \<open>Isolation\<close>, \<open>Resource\<close>, \<open>Integrity\<close>, \<open>Edition\<close>, \<open>Certification\<close>, \<open>Recovery\<close>: one package each. \<open>ApplyCgroup\<close> and
    \<open>SuspendAndRecover\<close> keep the trace of the calls they make.
  \<^item> \<open>Verifiers\<close>, \<open>Certification_Verify\<close>, \<open>Host_Verify\<close>: the acceptance programs \<open>cmd/*-verify\<close>, all but the
    broker's, as functions of their files, keys, environment and, for the host, the file system.

  \<^bold>\<open>What is shown.\<close> For each authority: what a success implies (the evidence, the binding and the audit
  record that precedes it), when exactly it succeeds where the condition can be stated, that what it
  signs or seals verifies again, how refusals are recorded, and that digests and signatures bind the
  canonical content. For the stateful parts: the ledger is atomic under faults and,
  called one at a time, never grants an identifier twice while it is held; with goroutines that interleave
  between their accesses, a captured frame is not authorized again while its request and the attestation
  are valid (a claim that read the clock before it waited for the lock can grant an expired one again,
  \<open>stale_claim_regrants\<close>); the accept loop keeps its capacity and answers only what is recorded; a
  recovery is a run of an abstract kill-first machine; a failed layer leaves nothing behind; the
  token bucket gives exactly its capacity in \<open>float64\<close>. \<open>Check\<close> admits exactly the hosts that are
  fit, if no mount hides another. Across components, in this theory: the plans made from one
  compilation are bound to each other, and the calls that make a plan, a binding, evidence or a certificate
  fail closed.

  \<^bold>\<open>Bounds.\<close> No definition needs fuel: loops follow the data, and \<open>writeAll\<close> ends because each \<open>Write\<close> that
  does not fail shortens the payload. Sequence numbers, lengths and modes are words of their width;
  \<open>time.Duration\<close> and instants are unbounded integers where the bounds of the configuration exclude an
  overflow, and saturate where Go does. \<open>float64\<close> is the rational that it denotes, rounded to even with 53
  bits; the numbers of the limiter are far from the limits of the exponent.

  \<^bold>\<open>Parameters and what is not modelled.\<close> Ed25519 is a record of functions; a property that needs it
  assumes \<open>ed25519_correct\<close>, that what a key signs its public half verifies, and no unforgeability: the
  properties speak of signatures that verify, or exhibit a collision of SHA-256. The strict JSON
  decoder, the TLS handshake, the peer credentials, the readers and writers of a socket, the file
  inspector, the cgroup and cage controllers and the clocks are arguments; a theorem about the ledger
  assumes of its decoder that it inverts the encoder. A method that holds a mutex is one step. \<open>serve_step\<close>,
  which is used for the semaphore and the records of the accept loop, serves a connection in one step; in
  \<open>Broker_Pool\<close> a connection is one step for each access to the state that goroutines share, and a claim is
  taken apart at its reading of the clock, its lock and each of its files. Changes that others make to
  the host between two observations of one call are not modelled, nor how long anything takes.
  \<open>sort.Slice\<close> is the stable sort, which differs from Go's only on records with equal keys. \<open>peerUID\<close> (a
  system call), the acceptance program for the broker, which drives a real TLS server, the scripts under \<open>ci/\<close> and \<open>release/\<close>, the contracts and the tests have no model.
\<close>

section \<open>From an intent to an exec plan\<close>

text \<open>What the last step of the chain takes from the compilation and from the resource plan.\<close>

lemma exec_plan_bound:
  assumes "integrity_NewAuthority E mf signer verifier inspect audit = Inr a"
    and "BindExecution (Some k) cancelled actor c sp log0 = (Inr gq, log1)"
    and "integrity_Prepare (Some a) cancelled' actor sp gq log2 = (Inr xp, log3)"
  shows "gq_CageID gq = sp_CageID sp \<and> xp_CageID xp = sp_CageID sp \<and> xp_Profile xp = sp_Profile sp \<and>
      xp_ResourcePlanDigest xp = sp_PlanDigest sp"
    and "xp_ExecutablePath xp = gq_ExecutablePath (co_ExecutionTemplate c) \<and> xp_Arguments xp = gq_Arguments (co_ExecutionTemplate c)"
    and "\<exists>e\<in>set (mf_Entries mf). et_Path e = xp_ExecutablePath xp \<and> et_Arguments e = xp_Arguments xp"
proof -
  have gq: "gq = (co_ExecutionTemplate c)\<lparr>gq_ResourcePlanDigest := sp_PlanDigest sp\<rparr>" using BindExecution_Inr [OF assms(2)] by blast
  obtain e where e: "findEntry (mf_Entries (ga_manifest a)) (gq_ExecutablePath gq) = Some e"
      "integrity_validateRequest gq sp (ga_manifest a) = []"
      "xp = (new_exec_plan a gq e)\<lparr>xp_PlanDigest := digestExecPlan (new_exec_plan a gq e)\<rparr>"
    using assms(3) by (rule integrity_Prepare_Inr)
  obtain e0 where e0: "e0 \<in> set (mf_Entries mf)" "e = canonical_entry e0" "et_Path e = gq_ExecutablePath gq"
    using findEntry_SomeD [OF e(1)] integrity_NewAuthority_ok(3) [OF assms(1)] by auto
  have v: "gq_CageID gq = sp_CageID sp" "gq_Profile gq = sp_Profile sp" "et_Arguments e = gq_Arguments gq"
    using e(1,2) by (auto simp: integrity_validateRequest_iff)
  have x: "xp_CageID xp = gq_CageID gq" "xp_Profile xp = gq_Profile gq" "xp_ResourcePlanDigest xp = gq_ResourcePlanDigest gq"
      "xp_ExecutablePath xp = et_Path e" "xp_Arguments xp = et_Arguments e"
    by (simp_all add: e(3) new_exec_plan_def)
  show "gq_CageID gq = sp_CageID sp \<and> xp_CageID xp = sp_CageID sp \<and> xp_Profile xp = sp_Profile sp \<and>
      xp_ResourcePlanDigest xp = sp_PlanDigest sp" using v x gq by simp
  show "xp_ExecutablePath xp = gq_ExecutablePath (co_ExecutionTemplate c) \<and> xp_Arguments xp = gq_Arguments (co_ExecutionTemplate c)"
    using v(3) e0(3) x gq by simp
  show "\<exists>e\<in>set (mf_Entries mf). et_Path e = xp_ExecutablePath xp \<and> et_Arguments e = xp_Arguments xp"
    using e0 x by auto
qed

text \<open>
  C6. When an intent is compiled and each plan is prepared from what the compiler binds, the exec plan
  is for the cage and the profile of the compilation, each plan names the digest of the verified plan
  before it, the isolation plan has the seccomp profile of the intent, the cgroup has exactly the
  limits of the template of the edition, the network is closed, and the program is the one of
  the template with its arguments, from a verified manifest.
\<close>

theorem edition_chain:
  assumes "NewCompiler templates verifier audit = Inr k" and "resource_NewAuthority cgroot m raudit = Inr ra"
    and "integrity_NewAuthority E mf signer xverifier inspect xaudit = Inr xa"
    and "Compile (Some k) cancelled1 actor intent log0 = (Inr c, log1)"
    and "isolation_Prepare (Some ia) cancelled2 h actor (co_IsolationRequest c) log2 = (Inr ip, log3)"
    and "BindResource (Some k) cancelled3 actor c ip log4 = (Inr rq, log5)"
    and "resource_Prepare (Some ra) cancelled4 actor ip rq log6 = (Inr sp, log7)"
    and "BindExecution (Some k) cancelled5 actor c sp log8 = (Inr gq, log9)"
    and "integrity_Prepare (Some xa) cancelled6 actor sp gq log10 = (Inr xp, log11)"
  shows "\<exists>t. map_of templates (in_Edition intent) = Some t \<and> validEditionProfile (in_Edition intent) (xp_Profile xp) \<and>
    xp_CageID xp = in_CageID intent \<and> sp_CageID sp = in_CageID intent \<and> ip_CageID ip = in_CageID intent \<and>
    xp_Profile xp = tp_Profile t \<and> sp_Profile sp = tp_Profile t \<and> ip_Profile ip = tp_Profile t \<and>
    sp_IsolationPlanDigest sp = ip_PlanDigest ip \<and> xp_ResourcePlanDigest xp = sp_PlanDigest sp \<and>
    isolation_VerifyPlan ip = None \<and> resource_VerifyPlan ra sp = None \<and>
    ip_SeccompDigest ip = in_SeccompDigest intent \<and> nw_Mode (sp_Network sp) = ''denyAll'' \<and>
    cg_Path (sp_Cgroup sp) = path_Join [ra_root ra, in_CageID intent] \<and>
    cg_Writes (sp_Cgroup sp) = cgroupWrites (tp_Limits t) \<and> validLimits (tp_Limits t) (ra_max ra) \<and>
    xp_ExecutablePath xp = tp_ExecutablePath t \<and> xp_Arguments xp = tp_Arguments t \<and>
    (\<exists>e\<in>set (mf_Entries mf). et_Path e = tp_ExecutablePath t \<and> et_Arguments e = tp_Arguments t) \<and>
    VerifyManifest E mf signer = None"
proof -
  obtain t where t: "map_of (cp_templates k) (in_Edition intent) = Some t"
      "c = (new_compilation intent t)\<lparr>co_BindingDigest := digestCompilation (new_compilation intent t)\<rparr>"
    using assms(4) by (rule Compile_Inr)
  note n = NewCompiler_template [OF assms(1)]
  have ip: "ip = (isolation_new_plan (co_IsolationRequest c))\<lparr>ip_PlanDigest := isolation_digestPlan (isolation_new_plan (co_IsolationRequest c))\<rparr>"
    using assms(5) by (rule isolation_Prepare_Inr)
  have rq: "rq = resource_bound_request c ip" using BindResource_Inr [OF assms(6)] by simp
  have sp: "isolation_VerifyPlan ip = None" "resource_validate ra rq ip = []"
      "sp = (resource_new_plan ra rq)\<lparr>sp_PlanDigest := resource_digestPlan (resource_new_plan ra rq)\<rparr>"
    using assms(7) by (auto elim: resource_Prepare_Inr)
  have c: "co_CageID c = in_CageID intent" "co_Profile c = tp_Profile t" "co_ResourceTemplate c = tp_Limits t"
      "co_NetworkTemplate c = tp_Network t" "iq_SeccompDigest (co_IsolationRequest c) = in_SeccompDigest intent"
      "iq_CageID (co_IsolationRequest c) = in_CageID intent" "iq_Profile (co_IsolationRequest c) = tp_Profile t"
      "gq_ExecutablePath (co_ExecutionTemplate c) = tp_ExecutablePath t" "gq_Arguments (co_ExecutionTemplate c) = tp_Arguments t"
    by (simp_all add: t(2) new_compilation_def strictIsolationRequest_def)
  have s: "sp_CageID sp = in_CageID intent" "sp_Profile sp = tp_Profile t" "sp_IsolationPlanDigest sp = ip_PlanDigest ip"
      "nw_Mode (sp_Network sp) = nw_Mode (tp_Network t)" "cg_Writes (sp_Cgroup sp) = cgroupWrites (tp_Limits t)"
      "cg_Path (sp_Cgroup sp) = path_Join [ra_root ra, in_CageID intent]"
    by (simp_all add: sp(3) rq resource_new_plan_def resource_bound_request_def c)
  have "validLimits (tp_Limits t) (ra_max ra)" using sp(2) by (simp add: resource_validate_iff rq resource_bound_request_def c)
  moreover have "resource_VerifyPlan ra sp = None"
    unfolding sp(3) by (rule resource_new_plan_verifies [OF resource_NewAuthority_root [OF assms(2)] sp(1,2)])
  moreover have "map_of templates (in_Edition intent) = Some t" "nw_Mode (tp_Network t) = ''denyAll''"
      "validEditionProfile (in_Edition intent) (tp_Profile t)"
    using n [OF t(1)] t(1) assms(1) by (auto simp: validTemplate_def NewCompiler_def split: if_splits)
  moreover have "ip_CageID ip = in_CageID intent" "ip_Profile ip = tp_Profile t" "ip_SeccompDigest ip = in_SeccompDigest intent"
    by (simp_all add: ip isolation_new_plan_def c)
  moreover have "VerifyManifest E mf signer = None" by (rule integrity_NewAuthority_ok(2) [OF assms(3)])
  ultimately show ?thesis using s sp(1) exec_plan_bound [OF assms(3,8,9)] by (auto simp: c)
qed

text \<open>The demo runs of the components compose: each request is the one that the compiler binds.\<close>

lemma demo_chain_isolation:
  "isolation_Prepare (Some demo_isolation_authority) False () ''operator'' (co_IsolationRequest demo_compilation) [] =
     (Inr demo_isolation_plan, [(isolation_authorized_event ''operator'' demo_isolation_plan, True)])"
proof -
  have q: "co_IsolationRequest demo_compilation = strictIsolationRequest demo_intent ProfileSharedTenant"
    by (simp add: demo_compilation_def new_compilation_def demo_template_def)
  have "isolation_new_plan (strictIsolationRequest demo_intent ProfileSharedTenant) = isolation_new_plan demo_isolation_request"
    by code_simp
  moreover have "isolation_validateRequest (strictIsolationRequest demo_intent ProfileSharedTenant) = []" by code_simp
  ultimately show ?thesis
    by (simp add: q isolation_Prepare_def demo_isolation_authority_def Let_def authorize_plan_def RecordEvent_def accept_all_def
        demo_isolation_plan_def)
qed

lemma demo_compilation_sel:
  "co_CageID demo_compilation = ''cage-abc''" "co_Profile demo_compilation = ProfileSharedTenant"
  "co_ResourceTemplate demo_compilation = demo_limits" "co_NetworkTemplate demo_compilation = demo_network"
  "(co_ExecutionTemplate demo_compilation)\<lparr>gq_ResourcePlanDigest := sp_PlanDigest demo_resource_plan\<rparr> = demo_exec_request"
  by (simp_all add: demo_compilation_def new_compilation_def demo_intent_def demo_template_def demo_exec_request_def)

lemma demo_chain_resource:
  "fst (BindResource (Some demo_compiler) False ''operator'' demo_compilation demo_isolation_plan []) = Inr demo_resource_request"
proof -
  have "ip_CageID demo_isolation_plan = ''cage-abc''" "ip_Profile demo_isolation_plan = ProfileSharedTenant"
    by (simp_all add: demo_isolation_plan_def isolation_new_plan_def demo_isolation_request_def)
  then show ?thesis
    by (simp add: BindResource_def demo_compiler_def demo_compilation_verified demo_isolation_verified demo_compilation_sel
        authorize_plan_def RecordEvent_def accept_all_def resource_bound_request_def demo_resource_request_def)
qed

lemma demo_chain_execution:
  "fst (BindExecution (Some demo_compiler) False ''operator'' demo_compilation demo_resource_plan []) = Inr demo_exec_request"
proof -
  have "sp_CageID demo_resource_plan = ''cage-abc''" "sp_Profile demo_resource_plan = ProfileSharedTenant"
    by (simp_all add: demo_resource_plan_def resource_new_plan_def demo_resource_request_def)
  then show ?thesis
    by (simp add: BindExecution_def demo_compiler_def demo_compilation_verified demo_resource_verified demo_compilation_sel
        authorize_plan_def RecordEvent_def accept_all_def)
qed

theorem edition_chain_witness:
  "xp_CageID demo_exec_plan = in_CageID demo_intent \<and> xp_ResourcePlanDigest demo_exec_plan = sp_PlanDigest demo_resource_plan \<and>
     sp_IsolationPlanDigest demo_resource_plan = ip_PlanDigest demo_isolation_plan \<and>
     cg_Writes (sp_Cgroup demo_resource_plan) = cgroupWrites demo_limits"
proof -
  obtain l5 l9 where b: "BindResource (Some demo_compiler) False ''operator'' demo_compilation demo_isolation_plan [] = (Inr demo_resource_request, l5)"
    "BindExecution (Some demo_compiler) False ''operator'' demo_compilation demo_resource_plan [] = (Inr demo_exec_request, l9)"
    using demo_chain_resource demo_chain_execution by (metis prod.collapse)
  from edition_chain [OF demo_compiler_new demo_resource_new demo_integrity_new demo_compile demo_chain_isolation b(1)
      demo_resource_run b(2) demo_exec_run]
  show ?thesis by (auto simp: demo_intent_def demo_template_def)
qed

text \<open>
  The executable of a verified exec plan lies on the root mount of a verified isolation plan, and this
  mount, like the three others, is \<open>noexec\<close>: a kernel that applies both plans refuses to execute
  what the exec plan names.
\<close>

definition mount_covers :: "string \<Rightarrow> MountSpec \<Rightarrow> bool" where
  "mount_covers path m \<longleftrightarrow> ms_Destination m = ''/'' \<or> path = ms_Destination m \<or> HasPrefix path (ms_Destination m @ ''/'')"

lemma verified_executable:
  assumes "integrity_NewAuthority E mf signer verifier inspect audit = Inr a" "integrity_VerifyPlan (Some a) xp = None"
  obtains rest where "xp_ExecutablePath xp = ''/runtime/'' @ rest"
proof -
  note new = integrity_NewAuthority_ok [OF assms(1)]
  obtain e where p: "exec_plan_ok a xp e" using assms(2) by (auto simp: integrity_VerifyPlan_iff)
  obtain e0 where e0: "e0 \<in> set (mf_Entries mf)" "et_Path e0 = xp_ExecutablePath xp"
    using p findEntry_SomeD [of "mf_Entries (ga_manifest a)"] unfolding exec_plan_ok_def new(3) by force
  then have "safeExecutablePath (xp_ExecutablePath xp)"
    using new(2) by (auto simp: VerifyManifest_iff validManifest_iff validEntry_iff)
  then show ?thesis using that by (auto simp: safeExecutablePath_def HasPrefix_iff_prefix prefix_def)
qed

theorem verified_plans_noexec:
  assumes "isolation_VerifyPlan ip = None"
    and "integrity_NewAuthority E mf signer verifier inspect audit = Inr a" "integrity_VerifyPlan (Some a) xp = None"
  shows "filter (mount_covers (xp_ExecutablePath xp)) (canonicalMounts (ip_Mounts ip)) = [required_mount ''/''] \<and>
    ''noexec'' \<in> set (ms_Flags (required_mount ''/''))"
proof
  have m: "canonicalMounts (ip_Mounts ip) = map required_mount [''/'', ''/dev'', ''/proc'', ''/tmp'']"
    using assms(1)
    by (auto simp: isolation_VerifyPlan_iff isolation_request_ok_def plan_request_def mount_points_def [symmetric])
  obtain rest where "xp_ExecutablePath xp = ''/runtime/'' @ rest"
    by (rule verified_executable [OF assms(2,3)])
  then show "filter (mount_covers (xp_ExecutablePath xp)) (canonicalMounts (ip_Mounts ip)) = [required_mount ''/'']"
    by (simp add: m mount_covers_def required_mount_def HasPrefix_def)
  show "''noexec'' \<in> set (ms_Flags (required_mount ''/''))" by (simp add: required_mount_def)
qed

section \<open>Refusals\<close>

text \<open>
  C39. The calls that make a plan, a binding, evidence or a certificate fail closed. A call of \<open>Prepare\<close> of the
  isolation, resource or integrity authority, of \<open>Certify\<close>, of \<open>Compile\<close>, of \<open>Run\<close> of the staging authority, or of one
  of the two bindings of the compiler that is not cancelled, which returns nothing but an error writes at
  most one audit record, reports ``denied'' only if the sink accepted a record with that outcome, and otherwise
  reports that the package is unavailable.
\<close>

theorem authorities_fail_closed:
  "(\<forall>err events'. isolation_Prepare (Some ia) ci h actor iq events = (Inl err, events') \<longrightarrow> refusal_audited PkgIsolation err events events') \<and>
   (\<forall>err events'. resource_Prepare (Some ra) cr actor ip sq events = (Inl err, events') \<longrightarrow> refusal_audited PkgResource err events events') \<and>
   (\<forall>err events'. integrity_Prepare (Some xa) cx actor sp gq events = (Inl err, events') \<longrightarrow> refusal_audited PkgIntegrity err events events') \<and>
   (\<forall>err events'. Certify E (Some ca) cc actor certificateID cq events = (Inl err, events') \<longrightarrow> refusal_audited PkgCertification err events events') \<and>
   (\<forall>err events'. Compile (Some k) ck actor intent events = (Inl err, events') \<longrightarrow> refusal_audited PkgEdition err events events') \<and>
   (\<forall>err events'. BindResource (Some k) False actor co ip events = (Inl err, events') \<longrightarrow> refusal_audited PkgEdition err events events') \<and>
   (\<forall>err events'. BindExecution (Some k) False actor co sp events = (Inl err, events') \<longrightarrow> refusal_audited PkgEdition err events events') \<and>
   (\<forall>err events'. staging_Run E (Some sa) cs actor evidenceID co binding events = (Inl err, events') \<longrightarrow> refusal_audited PkgEdition err events events')"
  by (intro conjI allI impI; erule isolation_Prepare_refusal resource_Prepare_refusal integrity_Prepare_refusal Certify_refusal edition_refusal)

theorem authorities_fail_closed_witness:
  "\<exists>err log'. isolation_Prepare (Some demo_isolation_authority) True () ''operator'' demo_isolation_request [] = (Inl err, log') \<and>
     refusal_audited PkgIsolation err [] log' \<and> log' \<noteq> []"
proof -
  obtain err log' where run:
    "isolation_Prepare (Some demo_isolation_authority) True () ''operator'' demo_isolation_request [] = (Inl err, log')" "log' \<noteq> []"
    by (simp add: isolation_Prepare_def demo_isolation_authority_def isolation_deny_def deny_with_def RecordEvent_def
        accept_all_def Let_def)
  have "refusal_audited PkgIsolation err [] log'"
    by (rule authorities_fail_closed [THEN conjunct1, rule_format, OF run(1)])
  with run show ?thesis by blast
qed

end
